(* ===== verification/Prelude.thy ===== *)
theory Prelude
  imports Main "HOL-Library.Word"
begin

unbundle bit_operations_syntax

text \<open>
  Shared vocabulary of the development: Rust's fixed-width integers, \<open>Result\<close>, the
  saturating and checked integer operations of the standard library, host time
  (\<open>Instant\<close>, \<open>Duration\<close>) in nanoseconds, byte-order conversions, the small part of
  string formatting the error messages use, and the generic list and word lemmas the
  components share. The collections declared here (\<open>frame_simps\<close>, \<open>byte_simps\<close>)
  carry the component proofs.
\<close>

named_theorems frame_simps
  \<comment> \<open>evaluation of frame encoders on symbolic fields\<close>
named_theorems byte_simps
  \<comment> \<open>byte order round trips\<close>

section \<open>Machine types\<close>

type_synonym u8 = "8 word"
type_synonym u16 = "16 word"
type_synonym u32 = "32 word"
type_synonym u64 = "64 word"

text \<open>\<open>Result<T, E>\<close> with the error on the left; \<open>?\<close> is \<open>rbind\<close>.\<close>

type_synonym ('a, 'e) result = "'e + 'a"

abbreviation Ok :: "'a \<Rightarrow> ('a, 'e) result" where "Ok \<equiv> Inr"
abbreviation Err :: "'e \<Rightarrow> ('a, 'e) result" where "Err \<equiv> Inl"

fun rbind :: "('a, 'e) result \<Rightarrow> ('a \<Rightarrow> ('b, 'e) result) \<Rightarrow> ('b, 'e) result" where
  "rbind (Inl e) f = Inl e"
| "rbind (Inr a) f = f a"

fun is_ok :: "('a, 'e) result \<Rightarrow> bool" where
  "is_ok (Inl _) = False"
| "is_ok (Inr _) = True"

lemma rbind_Ok_iff: "rbind r f = Ok b \<longleftrightarrow> (\<exists>a. r = Ok a \<and> f a = Ok b)"
  by (cases r) auto

lemma rbind_Err_iff: "rbind r f = Err e \<longleftrightarrow> r = Err e \<or> (\<exists>a. r = Ok a \<and> f a = Err e)"
  by (cases r) auto

lemma is_ok_iff: "is_ok r \<longleftrightarrow> (\<exists>a. r = Ok a)"
  by (cases r) auto

lemma rbind_cong [fundef_cong]:
  "r = r' \<Longrightarrow> (\<And>a. r' = Ok a \<Longrightarrow> f a = g a) \<Longrightarrow> rbind r f = rbind r' g"
  by (cases r') auto

text \<open>
  Counters: \<open>saturating_add\<close> stops at the type's maximum, \<open>checked_add\<close> answers
  \<open>None\<close> instead of wrapping.
\<close>

definition u64_saturating_add :: "u64 \<Rightarrow> u64 \<Rightarrow> u64" where
  "u64_saturating_add a b = (if unat a + unat b < 2 ^ 64 then a + b else - 1)"

definition u64_checked_add :: "u64 \<Rightarrow> u64 \<Rightarrow> u64 option" where
  "u64_checked_add a b = (if unat a + unat b < 2 ^ 64 then Some (a + b) else None)"

lemma unat_u64_saturating_add:
  "unat (u64_saturating_add a b) = min (unat a + unat b) (2 ^ 64 - 1)"
proof (cases "unat a + unat b < 2 ^ 64")
  case True
  then have "unat (a + b) = unat a + unat b"
    by (simp add: unat_word_ariths)
  with True show ?thesis
    by (simp add: u64_saturating_add_def)
next
  case False
  have "unat (- 1 :: u64) = 2 ^ 64 - 1"
    by (simp add: unsigned_minus_1_eq_mask mask_eq_exp_minus_1)
  with False show ?thesis
    by (simp add: u64_saturating_add_def)
qed

lemma u64_saturating_add_ge: "a \<le> u64_saturating_add a b"
proof -
  have "unat a < 2 ^ LENGTH(64)"
    by (rule unsigned_less)
  then show ?thesis
    by (simp add: word_le_nat_alt unat_u64_saturating_add)
qed

lemma u64_checked_add_Some:
  assumes "u64_checked_add a b = Some c"
  shows "unat c = unat a + unat b"
  using assms by (auto simp: u64_checked_add_def unat_word_ariths split: if_splits)

lemma u64_checked_add_None:
  "u64_checked_add a b = None \<longleftrightarrow> 2 ^ 64 \<le> unat a + unat b"
  by (auto simp: u64_checked_add_def)

lemma not_max_add: "unat (x :: u64) + 1 < 2 ^ 64 \<longleftrightarrow> x \<noteq> - 1"
proof -
  have "unat x < 2 ^ 64" by (rule order_less_le_trans [OF unsigned_less]) simp
  moreover have "unat (- 1 :: u64) = 2 ^ 64 - 1" by (simp add: unsigned_minus_1_eq_mask mask_eq_exp_minus_1)
  ultimately show ?thesis unfolding word_unat_eq_iff by (simp; linarith)
qed

lemma u64_increment:
  "u64_checked_add x 1 = (if x = - 1 then None else Some (x + 1))"
  "u64_saturating_add x 1 = (if x = - 1 then - 1 else x + 1)"
  using not_max_add [of x] by (auto simp: u64_checked_add_def u64_saturating_add_def)

section \<open>Host time\<close>

text \<open>
  An \<open>Instant\<close> is a point of the host's monotonic clock in nanoseconds, a
  \<open>SystemTime\<close> a point of the wall clock, a \<open>Duration\<close> a length of time. On Linux
  both points are a signed 64-bit second count and a nanosecond below one second, so
  \<open>checked_add\<close> and \<open>checked_sub\<close> fail outside that range.
\<close>

type_synonym instant = int
type_synonym system_time = int
type_synonym duration = nat

definition time_min :: int where "time_min = - (2 ^ 63) * 1000000000"
definition time_max :: int where "time_max = 2 ^ 63 * 1000000000 - 1"

definition time_checked_add :: "int \<Rightarrow> duration \<Rightarrow> int option" where
  "time_checked_add t d = (if t + int d \<le> time_max then Some (t + int d) else None)"

definition time_checked_sub :: "int \<Rightarrow> duration \<Rightarrow> int option" where
  "time_checked_sub t d = (if time_min \<le> t - int d then Some (t - int d) else None)"

text \<open>\<open>later.saturating_duration_since(earlier)\<close> is zero when the clock ran backward.\<close>

definition saturating_since :: "instant \<Rightarrow> instant \<Rightarrow> duration" where
  "saturating_since later earlier = nat (later - earlier)"

definition millis :: "nat \<Rightarrow> duration" where "millis n = n * 1000000"
definition micros :: "nat \<Rightarrow> duration" where "micros n = n * 1000"
definition secs :: "nat \<Rightarrow> duration" where "secs n = n * 1000000000"

lemma saturating_since_le_iff: "saturating_since a b \<le> d \<longleftrightarrow> a - b \<le> int d"
  by (auto simp: saturating_since_def)

lemma saturating_since_ge_iff: "0 < d \<Longrightarrow> d \<le> saturating_since a b \<longleftrightarrow> int d \<le> a - b"
  by (auto simp: saturating_since_def)

lemma saturating_since_less_iff: "0 < d \<Longrightarrow> saturating_since a b < d \<longleftrightarrow> a - b < int d"
  by (auto simp: saturating_since_def)

section \<open>Byte order\<close>

definition u16_to_be_bytes :: "u16 \<Rightarrow> u8 list" where
  "u16_to_be_bytes w = [ucast (drop_bit 8 w), ucast w]"

definition u16_from_be_bytes :: "u8 \<Rightarrow> u8 \<Rightarrow> u16" where
  "u16_from_be_bytes a b = push_bit 8 (ucast a) OR ucast b"

definition u16_to_le_bytes :: "u16 \<Rightarrow> u8 list" where
  "u16_to_le_bytes w = [ucast w, ucast (drop_bit 8 w)]"

definition u16_from_le_bytes :: "u8 \<Rightarrow> u8 \<Rightarrow> u16" where
  "u16_from_le_bytes a b = push_bit 8 (ucast b) OR ucast a"

definition u32_to_le_bytes :: "u32 \<Rightarrow> u8 list" where
  "u32_to_le_bytes w =
     [ucast w, ucast (drop_bit 8 w), ucast (drop_bit 16 w), ucast (drop_bit 24 w)]"

definition u32_from_le_bytes :: "u8 \<Rightarrow> u8 \<Rightarrow> u8 \<Rightarrow> u8 \<Rightarrow> u32" where
  "u32_from_le_bytes a b c d =
     push_bit 24 (ucast d) OR push_bit 16 (ucast c) OR push_bit 8 (ucast b) OR ucast a"

lemma bit_word_len: "bit (w :: 'a::len word) n \<Longrightarrow> n < LENGTH('a)"
  by (rule bit_imp_le_length)

lemma u16_be_roundtrip [simp, byte_simps]:
  "u16_from_be_bytes (ucast (drop_bit 8 w)) (ucast w) = w"
  by (auto simp: u16_from_be_bytes_def bit_eq_iff bit_simps dest: bit_word_len)

lemma u16_le_roundtrip [simp, byte_simps]:
  "u16_from_le_bytes (ucast w) (ucast (drop_bit 8 w)) = w"
  by (auto simp: u16_from_le_bytes_def bit_eq_iff bit_simps dest: bit_word_len)

lemma u16_from_be_high [simp, byte_simps]: "ucast (drop_bit 8 (u16_from_be_bytes a b)) = a"
  by (auto simp: u16_from_be_bytes_def bit_eq_iff bit_simps dest: bit_word_len)

lemma u16_from_be_low [simp, byte_simps]: "ucast (u16_from_be_bytes a b) = b"
  by (auto simp: u16_from_be_bytes_def bit_eq_iff bit_simps dest: bit_word_len)

lemma u32_le_roundtrip [simp, byte_simps]:
  "u32_from_le_bytes (ucast w) (ucast (drop_bit 8 w)) (ucast (drop_bit 16 w))
     (ucast (drop_bit 24 w)) = w"
proof (rule bit_word_eqI)
  fix n
  assume "n < LENGTH(32)"
  then consider "n < 8" | k where "n = 8 + k" "k < 8" | k where "n = 16 + k" "k < 8"
    | k where "n = 24 + k" "k < 8"
    by (cases "n < 8"; cases "n < 16"; cases "n < 24") (auto dest!: leI simp: le_iff_add)
  then show "bit (u32_from_le_bytes (ucast w) (ucast (drop_bit 8 w)) (ucast (drop_bit 16 w))
     (ucast (drop_bit 24 w))) n = bit w n"
    by cases (auto simp: u32_from_le_bytes_def bit_simps)
qed

text \<open>A fixed-size array \<open>[u8; 8]\<close> is a list of length eight.\<close>

definition zero8 :: "u8 list" where "zero8 = replicate 8 0"

lemma zero8_eval: "zero8 = [0, 0, 0, 0, 0, 0, 0, 0]"
  by (simp add: zero8_def eval_nat_numeral)

lemma length_8_cases:
  assumes "length xs = 8"
  obtains a b c d e f g h where "xs = [a, b, c, d, e, f, g, h]"
proof -
  from assms have "length xs = Suc (Suc (Suc (Suc (Suc (Suc (Suc (Suc 0)))))))"
    by simp
  then show thesis
    using that by (auto simp: length_Suc_conv)
qed

section \<open>Formatting used by error messages\<close>

text \<open>\<open>{n}\<close> of an unsigned integer, and the digits of \<open>{:x}\<close>.\<close>

fun show_nat_acc :: "nat \<Rightarrow> nat \<Rightarrow> string \<Rightarrow> string" where
  "show_nat_acc base n acc =
     (let d = n mod base; c = char_of (if d < 10 then 48 + d else 87 + d)
      in if n < base \<or> base < 2 then c # acc else show_nat_acc base (n div base) (c # acc))"

declare show_nat_acc.simps [simp del]

definition show_nat :: "nat \<Rightarrow> string" where "show_nat n = show_nat_acc 10 n []"

text \<open>\<open>{:#010x}\<close>: \<open>0x\<close> and at least eight hexadecimal digits.\<close>

definition show_hex_010 :: "u32 \<Rightarrow> string" where
  "show_hex_010 w =
     (let s = show_nat_acc 16 (unat w) [] in ''0x'' @ replicate (8 - length s) (CHR ''0'') @ s)"

section \<open>Lists\<close>

text \<open>\<open>VecDeque::iter().position\<close> and removal of the element found there.\<close>

fun position :: "('a \<Rightarrow> bool) \<Rightarrow> 'a list \<Rightarrow> nat option" where
  "position P [] = None"
| "position P (x # xs) = (if P x then Some 0 else map_option Suc (position P xs))"

definition remove_at :: "nat \<Rightarrow> 'a list \<Rightarrow> 'a list" where
  "remove_at i xs = take i xs @ drop (Suc i) xs"

lemma position_SomeD:
  assumes "position P xs = Some i"
  shows "i < length xs" and "P (xs ! i)" and "\<forall>j < i. \<not> P (xs ! j)"
  using assms
proof (induction xs arbitrary: i)
  case Nil
  { case 1 then show ?case by simp }
  { case 2 then show ?case by simp }
  { case 3 then show ?case by simp }
next
  case (Cons x xs)
  { case 1 with Cons.IH(1) show ?case by (auto split: if_splits) }
  { case 2 with Cons.IH(2) show ?case by (auto split: if_splits) }
  { case 3
    with Cons.IH(3) show ?case
      by (auto split: if_splits simp: nth_Cons split: nat.splits) }
qed

lemma position_None: "position P xs = None \<longleftrightarrow> (\<forall>x \<in> set xs. \<not> P x)"
  by (induction xs) auto

lemma position_remove1:
  "position (\<lambda>y. y = x) xs = Some i \<Longrightarrow> remove_at i xs = remove1 x xs"
proof (induction xs arbitrary: i)
  case Nil
  then show ?case by simp
next
  case (Cons y ys)
  then show ?case
    by (cases "y = x") (auto simp: remove_at_def)
qed

text \<open>\<open>iter().find\<close>.\<close>

lemma find_Some_set: "List.find P xs = Some x \<Longrightarrow> x \<in> set xs \<and> P x"
  by (auto simp: find_Some_iff)

text \<open>\<open>iter_mut().find\<close> and an update of the element found.\<close>

fun update_first :: "('a \<Rightarrow> bool) \<Rightarrow> ('a \<Rightarrow> 'a) \<Rightarrow> 'a list \<Rightarrow> 'a list" where
  "update_first P f [] = []"
| "update_first P f (x # xs) = (if P x then f x # xs else x # update_first P f xs)"

lemma length_update_first [simp]: "length (update_first P f xs) = length xs"
  by (induction xs) auto

lemma update_first_none: "(\<forall>x \<in> set xs. \<not> P x) \<Longrightarrow> update_first P f xs = xs"
  by (induction xs) auto

lemma map_update_first:
  "(\<And>x. P x \<Longrightarrow> g (f x) = g x) \<Longrightarrow> map g (update_first P f xs) = map g xs"
  by (induction xs) auto

lemma update_first_nth:
  "i < length xs \<Longrightarrow>
     update_first P f xs ! i = (if position P xs = Some i then f (xs ! i) else xs ! i)"
  by (induction xs arbitrary: i) (auto simp: nth_Cons split: nat.splits)

end
