(* ===== verification/Ieee754.thy ===== *)
theory Ieee754
  imports Prelude "HOL-Library.Log_Nat"
begin

text \<open>
  Rust's \<open>f32\<close> and \<open>f64\<close>: IEEE 754 binary32 and binary64 with round-to-nearest,
  ties-to-even arithmetic. A value is its sign and the remaining bits read as a natural
  number, so that infinity is one bit pattern, NaNs are the patterns above it and the
  order of finite magnitudes is the order of the patterns. Arithmetic is exact rational
  arithmetic followed by one rounding. NaN payloads are not observed by the program; every
  operation that creates a NaN returns the quiet one.

  The section on rounding proves the facts the components use: a rounded value differs
  from the exact one by at most half a unit in the last place, rounding is monotone, and a
  representable value is unchanged.
\<close>

section \<open>Formats and values\<close>

datatype float_format = Binary32 | Binary64

fun mbits :: "float_format \<Rightarrow> nat" where
  "mbits Binary32 = 23"
| "mbits Binary64 = 52"

text \<open>The least positive value is \<open>1 / 2 ^ kscale\<close>.\<close>

fun kscale :: "float_format \<Rightarrow> nat" where
  "kscale Binary32 = 149"
| "kscale Binary64 = 1074"

text \<open>The bit pattern of infinity: all exponent bits set, no fraction.\<close>

fun infb :: "float_format \<Rightarrow> nat" where
  "infb Binary32 = 0x7F800000"
| "infb Binary64 = 0x7FF0000000000000"

datatype ieee = Flt (fneg: bool) (fbits: nat)

type_synonym f32 = ieee
type_synonym f64 = ieee

text \<open>
  The magnitude of a pattern in units of the least positive value: subnormal below
  \<open>2 ^ m\<close>, otherwise the fraction with its hidden bit, scaled by the exponent field.
\<close>

definition mag :: "nat \<Rightarrow> nat \<Rightarrow> nat" where
  "mag m b = (if b < 2 ^ m then b else (2 ^ m + b mod 2 ^ m) * 2 ^ (b div 2 ^ m - 1))"

definition fval :: "float_format \<Rightarrow> ieee \<Rightarrow> rat" where
  "fval f x = (if fneg x then - 1 else 1) * of_nat (mag (mbits f) (fbits x)) / 2 ^ kscale f"

definition is_finite :: "float_format \<Rightarrow> ieee \<Rightarrow> bool" where
  "is_finite f x \<longleftrightarrow> fbits x < infb f"

definition is_nan :: "float_format \<Rightarrow> ieee \<Rightarrow> bool" where
  "is_nan f x \<longleftrightarrow> infb f < fbits x"

definition is_infinite :: "float_format \<Rightarrow> ieee \<Rightarrow> bool" where
  "is_infinite f x \<longleftrightarrow> fbits x = infb f"

definition is_zero :: "ieee \<Rightarrow> bool" where
  "is_zero x \<longleftrightarrow> fbits x = 0"

definition nan :: "float_format \<Rightarrow> ieee" where
  "nan f = Flt False (infb f + 2 ^ (mbits f - 1))"

text \<open>Comparison: the signed pattern orders all values that are not NaN, zeros equal.\<close>

definition fkey :: "ieee \<Rightarrow> int" where
  "fkey x = (if fneg x then - int (fbits x) else int (fbits x))"

definition flt :: "float_format \<Rightarrow> ieee \<Rightarrow> ieee \<Rightarrow> bool" where
  "flt f x y \<longleftrightarrow> \<not> is_nan f x \<and> \<not> is_nan f y \<and> fkey x < fkey y"

definition fle :: "float_format \<Rightarrow> ieee \<Rightarrow> ieee \<Rightarrow> bool" where
  "fle f x y \<longleftrightarrow> \<not> is_nan f x \<and> \<not> is_nan f y \<and> fkey x \<le> fkey y"

definition feq :: "float_format \<Rightarrow> ieee \<Rightarrow> ieee \<Rightarrow> bool" where
  "feq f x y \<longleftrightarrow> \<not> is_nan f x \<and> \<not> is_nan f y \<and> fkey x = fkey y"

section \<open>Rounding\<close>

text \<open>Nearest natural number, ties to even.\<close>

definition rne :: "rat \<Rightarrow> nat" where
  "rne y =
     (let n = nat \<lfloor>y\<rfloor>; d = y - of_nat n
      in if d < 1 / 2 then n else if 1 / 2 < d then n + 1 else if even n then n else n + 1)"

text \<open>How many low bits a magnitude of the given integer part cannot keep.\<close>

definition shift :: "nat \<Rightarrow> nat \<Rightarrow> nat" where
  "shift m n = (if n < 2 ^ (m + 1) then 0 else floorlog 2 n - (m + 1))"

definition round_mag :: "nat \<Rightarrow> rat \<Rightarrow> nat" where
  "round_mag m y = (let s = shift m (nat \<lfloor>y\<rfloor>) in s * 2 ^ m + rne (y / 2 ^ s))"

text \<open>The float nearest to a rational; \<open>z\<close> is the sign of a zero result.\<close>

definition fround :: "float_format \<Rightarrow> bool \<Rightarrow> rat \<Rightarrow> ieee" where
  "fround f z q =
     Flt (if q < 0 then True else if 0 < q then False else z)
         (min (round_mag (mbits f) (\<bar>q\<bar> * 2 ^ kscale f)) (infb f))"

section \<open>Arithmetic\<close>

definition fnegate :: "ieee \<Rightarrow> ieee" where "fnegate x = Flt (\<not> fneg x) (fbits x)"

definition fabs :: "ieee \<Rightarrow> ieee" where "fabs x = Flt False (fbits x)"

definition fadd :: "float_format \<Rightarrow> ieee \<Rightarrow> ieee \<Rightarrow> ieee" where
  "fadd f x y =
     (if is_nan f x \<or> is_nan f y then nan f
      else if is_infinite f x then
        (if is_infinite f y \<and> fneg x \<noteq> fneg y then nan f else x)
      else if is_infinite f y then y
      else fround f (fneg x \<and> fneg y) (fval f x + fval f y))"

definition fsub :: "float_format \<Rightarrow> ieee \<Rightarrow> ieee \<Rightarrow> ieee" where
  "fsub f x y = fadd f x (fnegate y)"

definition fmul :: "float_format \<Rightarrow> ieee \<Rightarrow> ieee \<Rightarrow> ieee" where
  "fmul f x y =
     (if is_nan f x \<or> is_nan f y then nan f
      else if is_infinite f x \<or> is_infinite f y then
        (if is_zero x \<or> is_zero y then nan f else Flt (fneg x \<noteq> fneg y) (infb f))
      else fround f (fneg x \<noteq> fneg y) (fval f x * fval f y))"

definition fdiv :: "float_format \<Rightarrow> ieee \<Rightarrow> ieee \<Rightarrow> ieee" where
  "fdiv f x y =
     (if is_nan f x \<or> is_nan f y then nan f
      else if is_infinite f x then
        (if is_infinite f y then nan f else Flt (fneg x \<noteq> fneg y) (infb f))
      else if is_infinite f y then Flt (fneg x \<noteq> fneg y) 0
      else if is_zero y then
        (if is_zero x then nan f else Flt (fneg x \<noteq> fneg y) (infb f))
      else fround f (fneg x \<noteq> fneg y) (fval f x / fval f y))"

text \<open>
  \<open>f32::clamp\<close> and \<open>f64::clamp\<close> for bounds with \<open>lo <= hi\<close>, where their assertion
  holds; a NaN stays NaN. \<open>max\<close> and \<open>min\<close> ignore one NaN.
\<close>

definition fclamp :: "float_format \<Rightarrow> ieee \<Rightarrow> ieee \<Rightarrow> ieee \<Rightarrow> ieee" where
  "fclamp f x lo hi = (if flt f x lo then lo else if flt f hi x then hi else x)"

definition fmax :: "float_format \<Rightarrow> ieee \<Rightarrow> ieee \<Rightarrow> ieee" where
  "fmax f x y = (if is_nan f x then y else if is_nan f y then x else if flt f x y then y else x)"

definition fmin :: "float_format \<Rightarrow> ieee \<Rightarrow> ieee \<Rightarrow> ieee" where
  "fmin f x y = (if is_nan f x then y else if is_nan f y then x else if flt f y x then y else x)"

text \<open>\<open>round()\<close>: nearest integer, halves away from zero.\<close>

definition fround_int :: "float_format \<Rightarrow> ieee \<Rightarrow> ieee" where
  "fround_int f x =
     (if \<not> is_finite f x then x
      else fround f (fneg x) ((if fneg x then - 1 else 1) * of_int \<lfloor>\<bar>fval f x\<bar> + 1 / 2\<rfloor>))"

text \<open>\<open>x as u16\<close>: truncation that saturates, NaN to zero.\<close>

definition f_as_u16 :: "float_format \<Rightarrow> ieee \<Rightarrow> u16" where
  "f_as_u16 f x =
     (if is_nan f x \<or> fneg x then 0
      else if is_infinite f x then 65535
      else of_nat (min (nat \<lfloor>fval f x\<rfloor>) 65535))"

definition f_of_nat :: "float_format \<Rightarrow> nat \<Rightarrow> ieee" where
  "f_of_nat f n = fround f False (of_nat n)"

text \<open>\<open>f32::from_bits\<close>, \<open>f32::to_bits\<close> and \<open>f64::from(f32)\<close>.\<close>

definition f32_from_bits :: "u32 \<Rightarrow> f32" where
  "f32_from_bits w = Flt (bit w 31) (unat (take_bit 31 w))"

definition f32_to_bits :: "f32 \<Rightarrow> u32" where
  "f32_to_bits x = (if fneg x then set_bit 31 (of_nat (fbits x)) else of_nat (fbits x))"

definition f64_from_f32 :: "f32 \<Rightarrow> f64" where
  "f64_from_f32 x =
     (if is_nan Binary32 x then nan Binary64
      else if is_infinite Binary32 x then Flt (fneg x) (infb Binary64)
      else fround Binary64 (fneg x) (fval Binary32 x))"

text \<open>The largest finite value.\<close>

definition fmax_val :: "float_format \<Rightarrow> rat" where
  "fmax_val f = of_nat (mag (mbits f) (infb f - 1)) / 2 ^ kscale f"

definition fsigned :: "nat \<Rightarrow> ieee \<Rightarrow> int" where
  "fsigned m x = (if fneg x then - int (mag m (fbits x)) else int (mag m (fbits x)))"

lemma floor_nat_bounds:
  assumes "0 \<le> (y::rat)"
  shows "of_nat (nat \<lfloor>y\<rfloor>) \<le> y" and "y < of_nat (nat \<lfloor>y\<rfloor>) + 1"
proof -
  have "0 \<le> \<lfloor>y\<rfloor>" using assms by simp
  then have eq: "(of_nat (nat \<lfloor>y\<rfloor>) :: rat) = of_int \<lfloor>y\<rfloor>" by simp
  show "of_nat (nat \<lfloor>y\<rfloor>) \<le> y" unfolding eq by (rule of_int_floor_le)
  show "y < of_nat (nat \<lfloor>y\<rfloor>) + 1" unfolding eq by linarith
qed

lemma rne_cases:
  assumes "0 \<le> y"
  shows "rne y = nat \<lfloor>y\<rfloor> \<and> y - of_nat (nat \<lfloor>y\<rfloor>) \<le> 1 / 2 \<or>
         rne y = nat \<lfloor>y\<rfloor> + 1 \<and> 1 / 2 \<le> y - of_nat (nat \<lfloor>y\<rfloor>)"
  by (auto simp: rne_def Let_def)

lemma rne_error: "0 \<le> y \<Longrightarrow> \<bar>of_nat (rne y) - y\<bar> \<le> 1 / 2"
  using rne_cases [of y] floor_nat_bounds [of y] by (auto simp: abs_le_iff)

lemma rne_of_nat [simp]: "rne (of_nat n) = n"
  by (simp add: rne_def)

lemma rne_mono:
  assumes "0 \<le> x" and "x \<le> y"
  shows "rne x \<le> rne y"
proof (cases "nat \<lfloor>x\<rfloor> = nat \<lfloor>y\<rfloor>")
  case True
  with assms show ?thesis
    by (auto simp: rne_def Let_def)
next
  case False
  have "nat \<lfloor>x\<rfloor> \<le> nat \<lfloor>y\<rfloor>"
    using assms by (simp add: floor_mono nat_mono)
  with False have "nat \<lfloor>x\<rfloor> + 1 \<le> nat \<lfloor>y\<rfloor>" by simp
  moreover have "rne x \<le> nat \<lfloor>x\<rfloor> + 1" and "nat \<lfloor>y\<rfloor> \<le> rne y"
    by (auto simp: rne_def Let_def)
  ultimately show ?thesis by linarith
qed

lemma rne_ge: "of_nat n \<le> y \<Longrightarrow> n \<le> rne y"
  using rne_mono [of "of_nat n" y] by simp

lemma rne_le: "0 \<le> y \<Longrightarrow> y \<le> of_nat n \<Longrightarrow> rne y \<le> n"
  using rne_mono [of y "of_nat n"] by simp

lemma shift_bounds:
  assumes "2 ^ (m + 1) \<le> n"
  shows "2 ^ (m + shift m n) \<le> n" and "n < 2 ^ (m + 1 + shift m n)"
proof -
  have n: "0 < n" using assms by (cases n) auto
  have b: "2 ^ (floorlog 2 n - 1) \<le> n" "n < 2 ^ floorlog 2 n"
    using floorlog_bounds [of n 2] n by auto
  have "m + 1 < floorlog 2 n"
  proof (rule ccontr)
    assume "\<not> m + 1 < floorlog 2 n"
    then have "(2::nat) ^ floorlog 2 n \<le> 2 ^ (m + 1)" by (intro power_increasing) auto
    with b assms show False by linarith
  qed
  moreover have "shift m n = floorlog 2 n - (m + 1)"
    using assms by (simp add: shift_def)
  ultimately have "m + shift m n = floorlog 2 n - 1" "m + 1 + shift m n = floorlog 2 n"
    by auto
  with b show "2 ^ (m + shift m n) \<le> n" "n < 2 ^ (m + 1 + shift m n)"
    by auto
qed

lemma shift_small: "n < 2 ^ (m + 1) \<Longrightarrow> shift m n = 0"
  by (simp add: shift_def)

lemma shift_upper: "n < 2 ^ (m + 1 + shift m n)"
  using shift_bounds [of m n] shift_small [of n m] by (cases "n < 2 ^ (m + 1)") auto

lemma shift_lower: "shift m n = 0 \<or> 2 ^ (m + shift m n) \<le> n"
  using shift_bounds [of m n] shift_small [of n m] by (cases "n < 2 ^ (m + 1)") auto

lemma shift_mono: "n \<le> k \<Longrightarrow> shift m n \<le> shift m k"
  by (auto simp: shift_def floorlog_mono diff_le_mono)

lemma mag_encode:
  assumes "s = 0 \<or> 2 ^ m \<le> r" and "r \<le> 2 ^ (m + 1)"
  shows "mag m (s * 2 ^ m + r) = r * 2 ^ s"
proof -
  consider "r < 2 ^ m" | k where "r = 2 ^ m + k" "k < 2 ^ m" | "r = 2 ^ m + 2 ^ m"
    using assms(2) by (cases "r < 2 ^ m"; cases "r = 2 ^ (m + 1)")
      (auto simp: le_iff_add dest!: leI)
  then show ?thesis
  proof cases
    case 1
    with assms show ?thesis by (auto simp: mag_def)
  next
    case 2
    have b: "s * 2 ^ m + r = k + (s + 1) * 2 ^ m" using 2 by simp
    have "(s * 2 ^ m + r) div 2 ^ m = s + 1"
      unfolding b using 2(2) by (subst div_mult_self1) simp_all
    moreover have "(s * 2 ^ m + r) mod 2 ^ m = k"
      unfolding b using 2(2) by (subst mod_mult_self1) simp
    moreover have "\<not> s * 2 ^ m + r < 2 ^ m" using 2 by simp
    ultimately show ?thesis using 2 by (simp add: mag_def)
  next
    case 3
    have b: "s * 2 ^ m + r = 0 + (s + 2) * 2 ^ m" using 3 by simp
    have "(s * 2 ^ m + r) div 2 ^ m = s + 2" "(s * 2 ^ m + r) mod 2 ^ m = 0"
      unfolding b by simp_all
    moreover have "\<not> s * 2 ^ m + r < 2 ^ m" using 3 by simp
    ultimately show ?thesis using 3 by (simp add: mag_def)
  qed
qed

lemma mag_decompose:
  fixes b :: nat
  obtains s r where "b = s * 2 ^ m + r" "s = 0 \<or> 2 ^ m \<le> r" "r < 2 ^ (m + 1)"
proof (cases "b < 2 ^ m")
  case True
  then show thesis using that [of 0 b] by simp
next
  case False
  define s where "s = b div 2 ^ m - 1"
  define r where "r = 2 ^ m + b mod 2 ^ m"
  have "1 \<le> b div 2 ^ m" using False by (simp add: div_greater_zero_iff Suc_le_eq)
  then have "b div 2 ^ m = s + 1" by (simp add: s_def)
  then have "b = (s + 1) * 2 ^ m + b mod 2 ^ m"
    by (metis div_mult_mod_eq)
  then have "b = s * 2 ^ m + r" by (simp add: r_def)
  then show thesis using that [of s r] by (simp add: r_def)
qed

lemma rne_scaled_bounds:
  fixes m :: nat
  assumes "0 \<le> y"
  defines "s \<equiv> shift m (nat \<lfloor>y\<rfloor>)"
  shows "s = 0 \<or> 2 ^ m \<le> rne (y / 2 ^ s)" and "rne (y / 2 ^ s) \<le> 2 ^ (m + 1)"
proof -
  have y: "of_nat (nat \<lfloor>y\<rfloor>) \<le> y" "y < of_nat (nat \<lfloor>y\<rfloor>) + 1"
    using floor_nat_bounds assms(1) by auto
  show "s = 0 \<or> 2 ^ m \<le> rne (y / 2 ^ s)"
  proof (cases "s = 0")
    case False
    then have "2 ^ (m + s) \<le> nat \<lfloor>y\<rfloor>"
      using shift_lower [of m "nat \<lfloor>y\<rfloor>"] by (auto simp: s_def)
    then have "(of_nat (2 ^ (m + s)) :: rat) \<le> of_nat (nat \<lfloor>y\<rfloor>)"
      by (simp only: of_nat_le_iff)
    then have "(of_nat (2 ^ (m + s)) :: rat) \<le> y"
      using y(1) by (rule order_trans)
    then have "2 ^ (m + s) \<le> y" by simp
    then have "of_nat (2 ^ m) \<le> y / 2 ^ s"
      by (simp add: field_simps power_add)
    then have "2 ^ m \<le> rne (y / 2 ^ s)" by (rule rne_ge)
    then show ?thesis ..
  qed simp
  have "nat \<lfloor>y\<rfloor> + 1 \<le> 2 ^ (m + 1 + s)"
    using shift_upper [of "nat \<lfloor>y\<rfloor>" m] by (simp add: s_def)
  then have "(of_nat (nat \<lfloor>y\<rfloor> + 1) :: rat) \<le> of_nat (2 ^ (m + 1 + s))"
    by (simp only: of_nat_le_iff)
  moreover have "y \<le> of_nat (nat \<lfloor>y\<rfloor> + 1)"
    using y(2) by simp
  ultimately have "y \<le> of_nat (2 ^ (m + 1 + s))"
    by (rule order_trans [rotated])
  then have "y \<le> 2 ^ (m + 1 + s)" by simp
  then have "y / 2 ^ s \<le> of_nat (2 ^ (m + 1))"
    by (simp add: field_simps power_add)
  moreover have "0 \<le> y / 2 ^ s" using assms(1) by simp
  ultimately show "rne (y / 2 ^ s) \<le> 2 ^ (m + 1)" by (rule rne_le [rotated])
qed

lemma mag_round_mag:
  assumes "0 \<le> y"
  shows "mag m (round_mag m y) =
    rne (y / 2 ^ shift m (nat \<lfloor>y\<rfloor>)) * 2 ^ shift m (nat \<lfloor>y\<rfloor>)"
  using mag_encode [OF rne_scaled_bounds [OF assms]] by (simp add: round_mag_def Let_def)

text \<open>Rounding is off by at most half a unit, relative to the magnitude once normal.\<close>

lemma mag_round_mag_error:
  assumes "0 \<le> y"
  shows "\<bar>of_nat (mag m (round_mag m y)) - y\<bar> \<le> max (1 / 2) (y / 2 ^ (m + 1))"
proof -
  define s where "s = shift m (nat \<lfloor>y\<rfloor>)"
  define r where "r = rne (y / 2 ^ s)"
  have "\<bar>of_nat r - y / 2 ^ s\<bar> \<le> 1 / 2"
    unfolding r_def using assms by (intro rne_error) simp
  then have "\<bar>of_nat r - y / 2 ^ s\<bar> * 2 ^ s \<le> 1 / 2 * 2 ^ s"
    by (intro mult_right_mono) auto
  moreover have "\<bar>of_nat r - y / 2 ^ s\<bar> * 2 ^ s = \<bar>of_nat r * 2 ^ s - y\<bar>"
    by (simp add: abs_mult_pos' [symmetric] field_simps flip: abs_mult)
  ultimately have err: "\<bar>of_nat r * 2 ^ s - y\<bar> \<le> 2 ^ s / 2" by simp
  have "2 ^ s / 2 \<le> max (1 / 2) (y / 2 ^ (m + 1))"
  proof (cases "s = 0")
    case False
    then have "2 ^ (m + s) \<le> nat \<lfloor>y\<rfloor>"
      using shift_lower [of m "nat \<lfloor>y\<rfloor>"] by (auto simp: s_def)
    then have "(of_nat (2 ^ (m + s)) :: rat) \<le> of_nat (nat \<lfloor>y\<rfloor>)"
      by (simp only: of_nat_le_iff)
    then have "(of_nat (2 ^ (m + s)) :: rat) \<le> y"
      using floor_nat_bounds(1) [OF assms] by (rule order_trans)
    then have "2 ^ (m + s) \<le> y" by simp
    then have "2 ^ s / 2 \<le> y / 2 ^ (m + 1)"
      by (simp add: field_simps power_add)
    then show ?thesis by simp
  qed simp
  with err show ?thesis
    by (simp add: mag_round_mag [OF assms] s_def r_def)
qed

lemma mag_Suc: "mag m b < mag m (Suc b)"
proof -
  obtain s r where b: "b = s * 2 ^ m + r" and r: "s = 0 \<or> 2 ^ m \<le> r" "r < 2 ^ (m + 1)"
    by (rule mag_decompose)
  have "mag m b = r * 2 ^ s"
    unfolding b using r by (intro mag_encode) auto
  moreover have "mag m (s * 2 ^ m + (r + 1)) = (r + 1) * 2 ^ s"
    using r by (intro mag_encode) auto
  ultimately show ?thesis by (simp add: b)
qed

lemma mag_less_iff [simp]: "mag m b < mag m b' \<longleftrightarrow> b < b'"
proof -
  have "strict_mono (mag m)"
    by (rule strict_monoI, rule lift_Suc_mono_less) (rule mag_Suc)
  then show ?thesis by (rule strict_mono_less)
qed

lemma mag_le_iff [simp]: "mag m b \<le> mag m b' \<longleftrightarrow> b \<le> b'"
  by (metis mag_less_iff not_less)

lemma mag_eq_iff [simp]: "mag m b = mag m b' \<longleftrightarrow> b = b'"
  by (simp add: eq_iff)

lemma mag_0 [simp]: "mag m 0 = 0"
  by (simp add: mag_def)

lemma two_gt_one: "1 < (2::nat)"
  by simp

lemma shift_unique:
  assumes "2 ^ (m + s) \<le> n" and "n < 2 ^ (m + 1 + s)" and "0 < s"
  shows "shift m n = s"
proof -
  have "(2::nat) ^ (m + 1) \<le> 2 ^ (m + s)"
    using assms(3) by (intro power_increasing) auto
  then have n: "2 ^ (m + 1) \<le> n" using assms(1) by linarith
  have "m + shift m n < m + 1 + s"
    by (rule power_less_imp_less_exp [OF two_gt_one le_less_trans [OF shift_bounds(1) [OF n] assms(2)]])
  moreover have "m + s < m + 1 + shift m n"
    by (rule power_less_imp_less_exp [OF two_gt_one le_less_trans [OF assms(1) shift_bounds(2) [OF n]]])
  ultimately show ?thesis by simp
qed

lemma round_mag_exact [simp]: "round_mag m (of_nat (mag m b)) = b"
proof -
  obtain s r where b: "b = s * 2 ^ m + r" and r: "s = 0 \<or> 2 ^ m \<le> r" "r < 2 ^ (m + 1)"
    by (rule mag_decompose)
  have mb: "mag m b = r * 2 ^ s"
    unfolding b using r by (intro mag_encode) auto
  have sh: "shift m (mag m b) = s"
  proof (cases "s = 0")
    case True
    then show ?thesis using r(2) mb by (simp add: shift_small)
  next
    case False
    with r have "2 ^ m * 2 ^ s \<le> r * 2 ^ s" "r * 2 ^ s < 2 ^ (m + 1) * 2 ^ s"
      by (auto intro: mult_le_mono1)
    then show ?thesis
      unfolding mb using False by (intro shift_unique) (auto simp: power_add mult.assoc)
  qed
  have "(of_nat (mag m b) :: rat) / 2 ^ s = of_nat r"
    by (simp add: mb)
  then show ?thesis
    unfolding round_mag_def floor_of_nat nat_int sh Let_def by (simp add: b)
qed

lemma mag_round_mag_mono:
  assumes "0 \<le> x" and "x \<le> y"
  shows "round_mag m x \<le> round_mag m y"
proof -
  define s where "s = shift m (nat \<lfloor>x\<rfloor>)"
  define t where "t = shift m (nat \<lfloor>y\<rfloor>)"
  have y: "0 \<le> y" using assms by simp
  have st: "s \<le> t"
    unfolding s_def t_def using assms by (intro shift_mono nat_mono floor_mono)
  have "rne (x / 2 ^ s) * 2 ^ s \<le> rne (y / 2 ^ t) * 2 ^ t"
  proof (cases "s = t")
    case True
    have "rne (x / 2 ^ s) \<le> rne (y / 2 ^ s)"
      using assms by (intro rne_mono divide_right_mono) auto
    with True show ?thesis by simp
  next
    case False
    with st have lt: "s < t" by simp
    have "rne (x / 2 ^ s) * 2 ^ s \<le> 2 ^ (m + 1) * 2 ^ s"
      using rne_scaled_bounds(2) [OF assms(1)] by (simp add: s_def)
    also have "\<dots> = 2 ^ (m + (s + 1))" by (simp add: power_add)
    also have "\<dots> \<le> 2 ^ (m + t)" using lt by (intro power_increasing) auto
    also have "\<dots> = 2 ^ m * 2 ^ t" by (simp add: power_add)
    also have "\<dots> \<le> rne (y / 2 ^ t) * 2 ^ t"
      using rne_scaled_bounds(1) [OF y, of m] lt by (simp add: t_def)
    finally show ?thesis .
  qed
  then have "mag m (round_mag m x) \<le> mag m (round_mag m y)"
    using mag_round_mag [OF assms(1)] mag_round_mag [OF y] by (simp add: s_def t_def)
  then show ?thesis by simp
qed

lemma round_mag_0 [simp]: "round_mag m 0 = 0"
  using round_mag_exact [of m 0] by simp

section \<open>Values of results\<close>

lemma kscale_pos: "0 < (2::rat) ^ kscale f"
  by simp

lemma fval_zero [simp]: "fval f (Flt s 0) = 0"
  by (simp add: fval_def)

lemma fval_fround:
  assumes "round_mag (mbits f) (\<bar>q\<bar> * 2 ^ kscale f) < infb f"
  shows "fval f (fround f z q) =
    sgn q * of_nat (mag (mbits f) (round_mag (mbits f) (\<bar>q\<bar> * 2 ^ kscale f))) / 2 ^ kscale f"
  using assms by (auto simp: fround_def fval_def sgn_if)

lemma is_finite_fround:
  "is_finite f (fround f z q) \<longleftrightarrow> round_mag (mbits f) (\<bar>q\<bar> * 2 ^ kscale f) < infb f"
  by (auto simp: is_finite_def fround_def)

lemma infb_pos [simp]: "0 < infb f"
  by (cases f) simp_all

lemma fround_in_range:
  assumes "\<bar>q\<bar> \<le> fmax_val f"
  shows "round_mag (mbits f) (\<bar>q\<bar> * 2 ^ kscale f) < infb f"
proof -
  have "\<bar>q\<bar> * 2 ^ kscale f \<le> of_nat (mag (mbits f) (infb f - 1))"
    using assms by (simp add: fmax_val_def field_simps)
  then have "round_mag (mbits f) (\<bar>q\<bar> * 2 ^ kscale f) \<le>
      round_mag (mbits f) (of_nat (mag (mbits f) (infb f - 1)))"
    by (intro mag_round_mag_mono) auto
  then have "round_mag (mbits f) (\<bar>q\<bar> * 2 ^ kscale f) \<le> infb f - 1"
    by simp
  then show ?thesis using infb_pos [of f] by linarith
qed

lemma fround_finite: "\<bar>q\<bar> \<le> fmax_val f \<Longrightarrow> is_finite f (fround f z q)"
  by (simp add: is_finite_fround fround_in_range)

lemma fround_error:
  assumes "\<bar>q\<bar> \<le> fmax_val f"
  shows "\<bar>fval f (fround f z q) - q\<bar> \<le>
    max (1 / 2 ^ (kscale f + 1)) (\<bar>q\<bar> / 2 ^ (mbits f + 1))"
proof -
  define K :: rat where "K = 2 ^ kscale f"
  define g where "g = (of_nat (mag (mbits f) (round_mag (mbits f) (\<bar>q\<bar> * K))) :: rat)"
  have K: "0 < K" by (simp add: K_def)
  have "\<bar>g - \<bar>q\<bar> * K\<bar> \<le> max (1 / 2) (\<bar>q\<bar> * K / 2 ^ (mbits f + 1))"
    unfolding g_def K_def by (intro mag_round_mag_error) simp
  then have "\<bar>g - \<bar>q\<bar> * K\<bar> / K \<le> max (1 / 2) (\<bar>q\<bar> * K / 2 ^ (mbits f + 1)) / K"
    using K by (intro divide_right_mono) auto
  moreover have "max (1 / 2) (\<bar>q\<bar> * K / c) / K = max (1 / 2 / K) (\<bar>q\<bar> / c)" for c
    using max_divide_distrib_right [of "1 / 2" "\<bar>q\<bar> * K / c" K] K by simp
  moreover have "\<bar>g / K - \<bar>q\<bar>\<bar> = \<bar>g - \<bar>q\<bar> * K\<bar> / K"
  proof -
    have "g / K - \<bar>q\<bar> = (g - \<bar>q\<bar> * K) / K" using K by (simp add: diff_divide_distrib)
    then show ?thesis using K by (simp only: abs_divide abs_of_pos)
  qed
  ultimately have *: "\<bar>g / K - \<bar>q\<bar>\<bar> \<le> max (1 / 2 / K) (\<bar>q\<bar> / 2 ^ (mbits f + 1))"
    by simp
  have v: "fval f (fround f z q) = sgn q * (g / K)"
    using fval_fround [OF fround_in_range [OF assms]] by (simp add: g_def K_def)
  have "g / K = 0" if "q = 0"
    using that by (simp add: g_def)
  then have "\<bar>fval f (fround f z q) - q\<bar> = \<bar>g / K - \<bar>q\<bar>\<bar>"
    unfolding v by (cases q "0::rat" rule: linorder_cases) (simp_all add: abs_minus_commute)
  then show ?thesis using * by (simp add: K_def mult.commute)
qed

lemma fval_fsigned: "fval f x = of_int (fsigned (mbits f) x) / 2 ^ kscale f"
  by (simp add: fval_def fsigned_def)

lemma mag_pos [simp]: "0 < mag m b \<longleftrightarrow> 0 < b"
  using mag_less_iff [of m 0 b] by simp

lemma fsigned_less: "fsigned m x < fsigned m y \<longleftrightarrow> fkey x < fkey y"
proof -
  have neg: "- int (mag m b) < int (mag m b') \<longleftrightarrow> 0 < b \<or> 0 < b'" for b b'
    using mag_pos [of m b] mag_pos [of m b'] by linarith
  show ?thesis
    by (cases "fneg x"; cases "fneg y") (auto simp: fsigned_def fkey_def neg)
qed

lemma fval_less: "fval f x < fval f y \<longleftrightarrow> fkey x < fkey y"
  unfolding fval_fsigned by (simp add: divide_less_cancel fsigned_less)

lemma flt_finite:
  assumes "is_finite f x" and "is_finite f y"
  shows "flt f x y \<longleftrightarrow> fval f x < fval f y"
  using assms unfolding fval_less by (auto simp: flt_def is_nan_def is_finite_def)

section \<open>Representable integers\<close>

lemma mag_surj: "n < 2 ^ (m + 1) \<Longrightarrow> \<exists>b. mag m b = n * 2 ^ s"
proof (induction s arbitrary: n)
  case 0
  have "mag m (0 * 2 ^ m + n) = n * 2 ^ 0"
    using 0 by (intro mag_encode) auto
  then show ?case by auto
next
  case (Suc s)
  show ?case
  proof (cases "2 ^ m \<le> n")
    case True
    then have "mag m (Suc s * 2 ^ m + n) = n * 2 ^ Suc s"
      using Suc.prems by (intro mag_encode) auto
    then show ?thesis by blast
  next
    case False
    then have "2 * n < 2 ^ (m + 1)" by simp
    from Suc.IH [OF this] show ?thesis by (simp add: mult.assoc mult.left_commute)
  qed
qed

lemma pow_100_le_fmax_val: "2 ^ 100 \<le> fmax_val f"
  by (cases f) (simp_all add: fmax_val_def mag_def)

lemma fround_of_int:
  assumes "\<bar>i\<bar> < 2 ^ (mbits f + 1)"
  shows "fval f (fround f z (of_int i)) = of_int i" and "is_finite f (fround f z (of_int i))"
proof -
  define n where "n = nat \<bar>i\<bar>"
  have n: "n < 2 ^ (mbits f + 1)" "\<bar>of_int i :: rat\<bar> = of_nat n"
    using assms by (simp_all add: n_def nat_less_iff)
  have "(2::nat) ^ (mbits f + 1) \<le> 2 ^ 100"
    by (cases f) simp_all
  with n(1) have "n \<le> 2 ^ 100" by simp
  then have "of_nat n \<le> (of_nat (2 ^ 100) :: rat)"
    by (simp only: of_nat_le_iff)
  then have "of_nat n \<le> (2 ^ 100 :: rat)"
    by simp
  then have le: "\<bar>of_int i :: rat\<bar> \<le> fmax_val f"
    using pow_100_le_fmax_val [of f] n(2) by linarith
  then show "is_finite f (fround f z (of_int i))"
    by (rule fround_finite)
  obtain b where b: "mag (mbits f) b = n * 2 ^ kscale f"
    using mag_surj [OF n(1)] by blast
  have eq: "\<bar>of_int i :: rat\<bar> * 2 ^ kscale f = of_nat (mag (mbits f) b)"
    by (simp add: b n(2))
  have "fval f (fround f z (of_int i)) = sgn (of_int i) * of_nat (mag (mbits f) b) / 2 ^ kscale f"
    using fval_fround [OF fround_in_range [OF le]] unfolding eq round_mag_exact .
  then show "fval f (fround f z (of_int i)) = of_int i"
    by (simp add: b n(2) [symmetric] sgn_mult_abs)
qed

lemma fval_f_of_nat:
  assumes "n < 2 ^ (mbits f + 1)"
  shows "fval f (f_of_nat f n) = of_nat n" and "is_finite f (f_of_nat f n)"
proof -
  have "\<bar>int n\<bar> < 2 ^ (mbits f + 1)"
    using assms by (metis abs_of_nat of_nat_less_iff of_nat_numeral of_nat_power)
  from fround_of_int [OF this, of False]
  show "fval f (f_of_nat f n) = of_nat n" and "is_finite f (f_of_nat f n)"
    by (simp_all add: f_of_nat_def)
qed

section \<open>Operations on finite values\<close>

lemma finite_cases: "is_finite f x \<Longrightarrow> \<not> is_nan f x \<and> \<not> is_infinite f x"
  by (auto simp: is_finite_def is_nan_def is_infinite_def)

lemma fval_fnegate [simp]: "fval f (fnegate x) = - fval f x"
  by (simp add: fval_def fnegate_def)

lemma is_finite_fnegate [simp]: "is_finite f (fnegate x) = is_finite f x"
  by (simp add: is_finite_def fnegate_def)

lemma fval_eq_0: "fval f x = 0 \<longleftrightarrow> is_zero x"
proof -
  have "mag (mbits f) (fbits x) = 0 \<longleftrightarrow> fbits x = 0"
    using mag_eq_iff [of "mbits f" "fbits x" 0] by simp
  then show ?thesis by (auto simp: fval_def is_zero_def)
qed

lemma fval_sign: "fneg x \<Longrightarrow> fval f x \<le> 0" "\<not> fneg x \<Longrightarrow> 0 \<le> fval f x"
  by (simp_all add: fval_def)

lemma fadd_finite:
  "is_finite f x \<Longrightarrow> is_finite f y \<Longrightarrow>
     fadd f x y = fround f (fneg x \<and> fneg y) (fval f x + fval f y)"
  by (simp add: fadd_def finite_cases)

lemma fsub_finite:
  "is_finite f x \<Longrightarrow> is_finite f y \<Longrightarrow>
     fsub f x y = fround f (fneg x \<and> \<not> fneg y) (fval f x - fval f y)"
  by (simp add: fsub_def fadd_finite) (simp add: fnegate_def)

lemma fmul_finite:
  "is_finite f x \<Longrightarrow> is_finite f y \<Longrightarrow>
     fmul f x y = fround f (fneg x \<noteq> fneg y) (fval f x * fval f y)"
  by (simp add: fmul_def finite_cases)

lemma fdiv_finite:
  "is_finite f x \<Longrightarrow> is_finite f y \<Longrightarrow> fval f y \<noteq> 0 \<Longrightarrow>
     fdiv f x y = fround f (fneg x \<noteq> fneg y) (fval f x / fval f y)"
  by (simp add: fdiv_def finite_cases fval_eq_0)

lemma fclamp_finite:
  assumes "is_finite f x" "is_finite f lo" "is_finite f hi"
  shows "is_finite f (fclamp f x lo hi)"
    and "fval f lo \<le> fval f hi \<Longrightarrow>
      fval f (fclamp f x lo hi) = max (fval f lo) (min (fval f hi) (fval f x))"
  using assms by (auto simp: fclamp_def flt_finite)

text \<open>
  A single-precision result whose exact value is at most \<open>B\<close> in magnitude is finite and
  within \<open>B / 2 ^ 24\<close> of it.
\<close>

lemma f32_near:
  assumes "\<bar>q\<bar> \<le> B" and "1 \<le> B" and "B \<le> 2 ^ 100"
  shows "is_finite Binary32 (fround Binary32 z q)"
    and "\<bar>fval Binary32 (fround Binary32 z q) - q\<bar> \<le> B / 16777216"
proof -
  have le: "\<bar>q\<bar> \<le> fmax_val Binary32"
    using assms pow_100_le_fmax_val [of Binary32] by linarith
  then show "is_finite Binary32 (fround Binary32 z q)"
    by (rule fround_finite)
  have "\<bar>fval Binary32 (fround Binary32 z q) - q\<bar> \<le> max (1 / 2 ^ 150) (\<bar>q\<bar> / 16777216)"
    using fround_error [OF le, of z] by simp
  also have "\<dots> \<le> B / 16777216"
  proof -
    have "1 / 2 ^ 150 \<le> (1 / 16777216 :: rat)" by simp
    also have "\<dots> \<le> B / 16777216" using assms(2) by (intro divide_right_mono) auto
    finally show ?thesis
      using assms(1) by (auto intro: divide_right_mono)
  qed
  finally show "\<bar>fval Binary32 (fround Binary32 z q) - q\<bar> \<le> B / 16777216" .
qed

lemma f32_quantize:
  assumes b: "is_finite Binary32 b" and lo: "- (1 / 2) < fval Binary32 b"
    and hi: "fval Binary32 b < 65535 + 1 / 2"
  shows "unat (f_as_u16 Binary32 (fclamp Binary32 (fround_int Binary32 b)
      (f_of_nat Binary32 0) (f_of_nat Binary32 65535))) = nat \<lfloor>fval Binary32 b + 1 / 2\<rfloor>"
proof -
  define v where "v = fval Binary32 b"
  define k where "k = \<lfloor>\<bar>v\<bar> + 1 / 2\<rfloor>"
  define r where "r = fround_int Binary32 b"
  have k0: "0 \<le> k" by (simp add: k_def)
  have k1: "k \<le> 65535"
    using lo hi unfolding k_def v_def [symmetric] by linarith
  have neg: "k = 0 \<and> \<lfloor>v + 1 / 2\<rfloor> = 0" if "fneg b"
    using fval_sign(1) [OF that, of Binary32] lo unfolding k_def v_def [symmetric] by linarith
  have pos: "k = \<lfloor>v + 1 / 2\<rfloor>" if "\<not> fneg b"
    using fval_sign(2) [OF that, of Binary32] unfolding k_def v_def [symmetric] by simp
  define i where "i = (if fneg b then - k else k)"
  have r: "r = fround Binary32 (fneg b) (of_int i)"
    using b by (simp add: r_def fround_int_def i_def k_def v_def)
  have i: "\<bar>i\<bar> < 2 ^ (mbits Binary32 + 1)" using k0 k1 by (simp add: i_def)
  note ri = fround_of_int [OF i, of "fneg b", folded r]
  have lits: "fval Binary32 (f_of_nat Binary32 0) = 0" "is_finite Binary32 (f_of_nat Binary32 0)"
    "fval Binary32 (f_of_nat Binary32 65535) = 65535" "is_finite Binary32 (f_of_nat Binary32 65535)"
    using fval_f_of_nat [of 0 Binary32] fval_f_of_nat [of 65535 Binary32] by simp_all
  have i0: "0 \<le> i" "i \<le> 65535" using neg k0 k1 by (auto simp: i_def)
  then have c: "fclamp Binary32 r (f_of_nat Binary32 0) (f_of_nat Binary32 65535) = r"
    using ri lits by (simp add: fclamp_def flt_finite)
  have fn: "fneg r \<Longrightarrow> i = 0"
    using i0 by (auto simp: r fround_def split: if_splits)
  have "unat (f_as_u16 Binary32 r) = nat i"
    using ri i0 fn finite_cases [OF ri(2)]
    by (auto simp: f_as_u16_def unsigned_of_int take_bit_int_eq_self)
  moreover have "nat i = nat \<lfloor>v + 1 / 2\<rfloor>"
    using neg pos by (auto simp: i_def)
  ultimately show ?thesis by (simp add: c r_def [symmetric] v_def)
qed

section \<open>Rounding is monotone\<close>

lemma fkey_fround:
  "fkey (fround f z q) =
     (if q < 0 then - 1 else 1) * int (min (round_mag (mbits f) (\<bar>q\<bar> * 2 ^ kscale f)) (infb f))"
proof (cases "q = 0")
  case True
  then show ?thesis by (simp add: fkey_def fround_def)
next
  case False
  then show ?thesis by (auto simp: fkey_def fround_def)
qed

lemma fround_mono:
  assumes "q \<le> r"
  shows "fkey (fround f z q) \<le> fkey (fround f z' r)"
proof -
  define g where "g x = int (min (round_mag (mbits f) (x * 2 ^ kscale f)) (infb f))" for x :: rat
  have nonneg: "0 \<le> g x" for x by (simp add: g_def)
  have mono: "g x \<le> g y" if "0 \<le> x" "x \<le> y" for x y
  proof -
    have "round_mag (mbits f) (x * 2 ^ kscale f) \<le> round_mag (mbits f) (y * 2 ^ kscale f)"
      using that by (intro mag_round_mag_mono mult_right_mono) auto
    then show ?thesis by (auto simp: g_def min_def)
  qed
  have k: "fkey (fround f z x) = (if x < 0 then - g \<bar>x\<bar> else g \<bar>x\<bar>)" for z x
    by (simp add: fkey_fround g_def)
  show ?thesis
    using assms mono [of "\<bar>r\<bar>" "\<bar>q\<bar>"] mono [of "\<bar>q\<bar>" "\<bar>r\<bar>"] nonneg [of "\<bar>q\<bar>"] nonneg [of "\<bar>r\<bar>"]
    by (cases "q < 0"; cases "r < 0") (auto simp: k)
qed

lemma fkey_fround_exact:
  assumes "is_finite f x"
  shows "fkey (fround f z (fval f x)) = fkey x"
proof -
  have "\<bar>fval f x\<bar> * 2 ^ kscale f = of_nat (mag (mbits f) (fbits x))"
    by (simp add: fval_def abs_mult)
  then have "round_mag (mbits f) (\<bar>fval f x\<bar> * 2 ^ kscale f) = fbits x" by simp
  moreover have "fval f x < 0 \<longleftrightarrow> fneg x \<and> 0 < fbits x"
    using mag_pos [of "mbits f" "fbits x"] by (auto simp: fval_def divide_less_0_iff)
  moreover have "fkey x = (if fneg x \<and> 0 < fbits x then - 1 else 1) * int (fbits x)"
    by (simp add: fkey_def)
  ultimately show ?thesis
    using assms by (simp add: fkey_fround is_finite_def min_def)
qed

text \<open>A float that bounds the exact result bounds the rounded one.\<close>

lemma fround_ge:
  assumes "is_finite f x" and "fval f x \<le> q"
  shows "fkey x \<le> fkey (fround f z q)"
  using fround_mono [OF assms(2), of f z z] by (simp add: fkey_fround_exact [OF assms(1)])

lemma fround_le:
  assumes "is_finite f x" and "q \<le> fval f x"
  shows "fkey (fround f z q) \<le> fkey x"
  using fround_mono [OF assms(2), of f z z] by (simp add: fkey_fround_exact [OF assms(1)])

lemma fkey_finite: "is_finite f x \<longleftrightarrow> \<bar>fkey x\<bar> < int (infb f)"
  by (simp add: fkey_def is_finite_def)

lemma fround_between:
  assumes "is_finite f x" "is_finite f y" "fval f x \<le> q" "q \<le> fval f y"
  shows "is_finite f (fround f z q)" and "fval f x \<le> fval f (fround f z q)"
    and "fval f (fround f z q) \<le> fval f y"
proof -
  have k: "fkey x \<le> fkey (fround f z q)" "fkey (fround f z q) \<le> fkey y"
    using assms by (auto intro: fround_ge fround_le)
  then show "is_finite f (fround f z q)"
    using assms(1,2) unfolding fkey_finite by linarith
  show "fval f x \<le> fval f (fround f z q)" "fval f (fround f z q) \<le> fval f y"
    using k fval_less [of f "fround f z q" x] fval_less [of f y "fround f z q"] by (auto simp: not_less [symmetric])
qed

lemma fle_finite:
  assumes "is_finite f x" and "is_finite f y"
  shows "fle f x y \<longleftrightarrow> fval f x \<le> fval f y"
  using assms fval_less [of f y x] by (auto simp: fle_def finite_cases not_less [symmetric])

lemma fle_not_flt: "\<not> flt f x y \<Longrightarrow> \<not> is_nan f x \<Longrightarrow> \<not> is_nan f y \<Longrightarrow> fle f y x"
  by (simp add: flt_def fle_def)

lemma finite_zero [simp]: "is_finite f (Flt s 0)"
  by (simp add: is_finite_def)

lemma is_nan_fround [simp]: "\<not> is_nan f (fround f z q)"
  by (simp add: is_nan_def fround_def)

lemma fval_fabs [simp]: "fval f (fabs x) = \<bar>fval f x\<bar>"
  by (auto simp: fabs_def fval_def abs_mult abs_divide)

lemma is_finite_fabs [simp]: "is_finite f (fabs x) = is_finite f x"
  by (simp add: fabs_def is_finite_def)

lemma fmin_finite:
  assumes "is_finite f x" and "is_finite f y"
  shows "is_finite f (fmin f x y)" and "fval f (fmin f x y) = min (fval f x) (fval f y)"
  using assms by (auto simp: fmin_def finite_cases flt_finite)

lemma fmax_finite:
  assumes "is_finite f x" and "is_finite f y"
  shows "is_finite f (fmax f x y)" and "fval f (fmax f x y) = max (fval f x) (fval f y)"
  using assms by (auto simp: fmax_def finite_cases flt_finite)

section \<open>The order of values that are not NaN\<close>

lemma fval_le_key: "fval f x \<le> fval f y \<longleftrightarrow> fkey x \<le> fkey y"
  using fval_less [of f y x] by (simp add: not_less [symmetric])

lemma fle_key: "\<not> is_nan f x \<Longrightarrow> \<not> is_nan f y \<Longrightarrow> fle f x y \<longleftrightarrow> fkey x \<le> fkey y"
  by (simp add: fle_def)

lemma flt_key: "\<not> is_nan f x \<Longrightarrow> \<not> is_nan f y \<Longrightarrow> flt f x y \<longleftrightarrow> fkey x < fkey y"
  by (simp add: flt_def)

lemma fmax_ge: "\<not> is_nan f y \<Longrightarrow> \<not> is_nan f (fmax f x y) \<and> fkey y \<le> fkey (fmax f x y)"
  by (auto simp: fmax_def flt_def)

lemma fmin_le: "\<not> is_nan f y \<Longrightarrow> \<not> is_nan f (fmin f x y) \<and> fkey (fmin f x y) \<le> fkey y"
  by (auto simp: fmin_def flt_def)

lemma fmax_key:
  "\<not> is_nan f x \<Longrightarrow> \<not> is_nan f y \<Longrightarrow> fkey (fmax f x y) = max (fkey x) (fkey y)"
  by (auto simp: fmax_def flt_def)

lemma fmin_key:
  "\<not> is_nan f x \<Longrightarrow> \<not> is_nan f y \<Longrightarrow> fkey (fmin f x y) = min (fkey x) (fkey y)"
  by (auto simp: fmin_def flt_def)

lemma finite_between:
  "is_finite f x \<Longrightarrow> is_finite f z \<Longrightarrow> fkey x \<le> fkey y \<Longrightarrow> fkey y \<le> fkey z \<Longrightarrow> is_finite f y"
  unfolding fkey_finite by linarith

text \<open>\<open>x.max(lo).min(hi)\<close> lands in the interval, whatever \<open>x\<close> is.\<close>

lemma fmin_fmax_between:
  assumes "\<not> is_nan f lo" "\<not> is_nan f hi" "fkey lo \<le> fkey hi"
  shows "fkey lo \<le> fkey (fmin f (fmax f x lo) hi)" and "fkey (fmin f (fmax f x lo) hi) \<le> fkey hi"
    and "\<not> is_nan f (fmin f (fmax f x lo) hi)"
  using assms fmax_ge [of f lo x] fmin_key [of f "fmax f x lo" hi] fmin_le [of f hi "fmax f x lo"] by auto

lemma fclamp_between:
  assumes "\<not> is_nan f lo" "\<not> is_nan f hi" "fkey lo \<le> fkey hi" "\<not> is_nan f x"
  shows "fkey lo \<le> fkey (fclamp f x lo hi)" and "fkey (fclamp f x lo hi) \<le> fkey hi"
    and "\<not> is_nan f (fclamp f x lo hi)"
  using assms by (auto simp: fclamp_def flt_def)

lemma fclamp_id: "fle f lo x \<Longrightarrow> fle f x hi \<Longrightarrow> fclamp f x lo hi = x"
  by (auto simp: fclamp_def flt_def fle_def)

section \<open>Halving and doubling\<close>

lemma fdouble:
  assumes "is_finite f x" and "2 * \<bar>fval f x\<bar> \<le> fmax_val f"
  obtains y where "is_finite f y" and "fval f y = 2 * fval f x"
proof -
  obtain s r where b: "fbits x = s * 2 ^ mbits f + r" "s = 0 \<or> 2 ^ mbits f \<le> r" "r < 2 ^ (mbits f + 1)"
    by (rule mag_decompose)
  have m: "mag (mbits f) (fbits x) = r * 2 ^ s" unfolding b(1) using b(2,3) by (intro mag_encode) auto
  obtain c where c: "mag (mbits f) c = r * 2 ^ Suc s" using mag_surj [OF b(3)] by blast
  have "of_nat (mag (mbits f) c) / 2 ^ kscale f = 2 * \<bar>fval f x\<bar>"
    by (simp add: c m fval_def abs_mult)
  with assms(2) have "(of_nat (mag (mbits f) c) :: rat) / 2 ^ kscale f \<le>
      of_nat (mag (mbits f) (infb f - 1)) / 2 ^ kscale f"
    unfolding fmax_val_def by linarith
  then have "c \<le> infb f - 1"
    using kscale_pos [of f] by (simp add: divide_le_cancel)
  then have "c < infb f" using infb_pos [of f] by linarith
  then have "is_finite f (Flt (fneg x) c)" by (simp add: is_finite_def)
  moreover have "fval f (Flt (fneg x) c) = 2 * fval f x" by (simp add: fval_def c m)
  ultimately show thesis by (rule that)
qed

lemma fhalf_sum_between:
  assumes x: "is_finite f x" and y: "is_finite f y" and le: "fval f x \<le> fval f y"
    and bx: "2 * \<bar>fval f x\<bar> \<le> fmax_val f" and byy: "2 * \<bar>fval f y\<bar> \<le> fmax_val f"
    and h: "is_finite f h" "fval f h = 1 / 2"
  shows "fkey x \<le> fkey (fmul f h (fadd f x y))" and "fkey (fmul f h (fadd f x y)) \<le> fkey y"
    and "is_finite f (fmul f h (fadd f x y))"
proof -
  obtain x2 where x2: "is_finite f x2" "fval f x2 = 2 * fval f x" using fdouble [OF x bx] by blast
  obtain y2 where y2: "is_finite f y2" "fval f y2 = 2 * fval f y" using fdouble [OF y byy] by blast
  have s: "is_finite f (fadd f x y)" "2 * fval f x \<le> fval f (fadd f x y)" "fval f (fadd f x y) \<le> 2 * fval f y"
    using fround_between [OF x2(1) y2(1), of "fval f x + fval f y"] x2(2) y2(2) le
    by (simp_all add: fadd_finite x y)
  have m: "fmul f h (fadd f x y) = fround f (fneg h \<noteq> fneg (fadd f x y)) (fval f h * fval f (fadd f x y))"
    by (rule fmul_finite [OF h(1) s(1)])
  have "fval f x \<le> fval f h * fval f (fadd f x y)" "fval f h * fval f (fadd f x y) \<le> fval f y"
    unfolding h(2) using s by simp_all
  from fround_between [OF x y this] show "fkey x \<le> fkey (fmul f h (fadd f x y))"
    "fkey (fmul f h (fadd f x y)) \<le> fkey y" "is_finite f (fmul f h (fadd f x y))"
    unfolding m fval_le_key [of f, symmetric] by auto
qed

text \<open>A product with a factor between zero and one stays between zero and the other factor.\<close>

lemma fmul_unit_between:
  assumes x: "is_finite f x" "0 \<le> fval f x" and s: "is_finite f s" "0 \<le> fval f s" "fval f s \<le> 1"
  shows "is_finite f (fmul f x s)" and "0 \<le> fval f (fmul f x s)" and "fval f (fmul f x s) \<le> fval f x"
proof -
  have "fval f (Flt False 0) \<le> fval f x * fval f s" "fval f x * fval f s \<le> fval f x"
    using x s by (simp_all add: mult_left_le)
  from fround_between [OF finite_zero x(1) this]
  show "is_finite f (fmul f x s)" "0 \<le> fval f (fmul f x s)" "fval f (fmul f x s) \<le> fval f x"
    by (simp_all add: fmul_finite x s)
qed

end
