(* ===== verification/Robstride_Comm.thy ===== *)
theory Robstride_Comm
  imports Prelude
begin

unbundle bit_operations_syntax

text \<open>
  \<open>crates/robstride/src/comm.rs\<close>: the Robstride 29-bit extended identifier. Bits 24..28
  hold the communication type, bits 8..23 type-specific extra data, bits 0..7 an address.
  The lemmas give the layout as a bijection between field triples with a five-bit type and
  29-bit identifiers.
\<close>

record extended_id =
  comm_type :: u8
  extra_data :: u16
  device_id :: u8

datatype communication_type =
    GetDeviceId
  | OperationControl
  | OperationStatus
  | Enable
  | Disable
  | SetZeroPosition
  | ReadParameter
  | WriteParameter
  | FaultReport
  | ActiveReporting

definition comm_from_u8 :: "u8 \<Rightarrow> communication_type option" where
  "comm_from_u8 v =
     (if v = 0 then Some GetDeviceId
      else if v = 1 then Some OperationControl
      else if v = 2 then Some OperationStatus
      else if v = 3 then Some Enable
      else if v = 4 then Some Disable
      else if v = 6 then Some SetZeroPosition
      else if v = 17 then Some ReadParameter
      else if v = 18 then Some WriteParameter
      else if v = 21 then Some FaultReport
      else if v = 24 then Some ActiveReporting
      else None)"

fun comm_as_u8 :: "communication_type \<Rightarrow> u8" where
  "comm_as_u8 GetDeviceId = 0"
| "comm_as_u8 OperationControl = 1"
| "comm_as_u8 OperationStatus = 2"
| "comm_as_u8 Enable = 3"
| "comm_as_u8 Disable = 4"
| "comm_as_u8 SetZeroPosition = 6"
| "comm_as_u8 ReadParameter = 17"
| "comm_as_u8 WriteParameter = 18"
| "comm_as_u8 FaultReport = 21"
| "comm_as_u8 ActiveReporting = 24"

fun comm_name :: "communication_type \<Rightarrow> string" where
  "comm_name GetDeviceId = ''get_device_id''"
| "comm_name OperationControl = ''operation_control''"
| "comm_name OperationStatus = ''operation_status''"
| "comm_name Enable = ''enable''"
| "comm_name Disable = ''disable''"
| "comm_name SetZeroPosition = ''set_zero_position''"
| "comm_name ReadParameter = ''read_parameter''"
| "comm_name WriteParameter = ''write_parameter''"
| "comm_name FaultReport = ''fault_report''"
| "comm_name ActiveReporting = ''active_reporting''"

definition inbound_motor_device_id :: "u32 \<Rightarrow> communication_type \<Rightarrow> u8" where
  "inbound_motor_device_id can_id ct =
     (case ct of
        OperationStatus \<Rightarrow> ucast (drop_bit 8 can_id AND 0xFF)
      | FaultReport \<Rightarrow> ucast (drop_bit 8 can_id AND 0xFF)
      | ActiveReporting \<Rightarrow> ucast (drop_bit 8 can_id AND 0xFF)
      | _ \<Rightarrow> ucast (can_id AND 0xFF))"

definition EXTENDED_ID_MASK :: u32 where "EXTENDED_ID_MASK = 0x1FFFFFFF"

definition DEFAULT_HOST_ID :: u8 where "DEFAULT_HOST_ID = 0xFD"

definition pack_ext_id :: "u8 \<Rightarrow> u16 \<Rightarrow> u8 \<Rightarrow> u32" where
  "pack_ext_id ct extra dev =
     push_bit 24 (ucast ct AND 0x1F) OR push_bit 8 (ucast extra) OR ucast dev"

definition pack_typed_ext_id :: "communication_type \<Rightarrow> u16 \<Rightarrow> u8 \<Rightarrow> u32" where
  "pack_typed_ext_id ct extra dev = pack_ext_id (comm_as_u8 ct) extra dev"

definition unpack_ext_id :: "u32 \<Rightarrow> extended_id option" where
  "unpack_ext_id ext_id =
     (if ext_id > EXTENDED_ID_MASK then None
      else Some \<lparr>comm_type = ucast (drop_bit 24 ext_id AND 0x1F),
                 extra_data = ucast (drop_bit 8 ext_id AND 0xFFFF),
                 device_id = ucast (ext_id AND 0xFF)\<rparr>)"

section \<open>Types of communication\<close>

lemma comm_from_as [simp]: "comm_from_u8 (comm_as_u8 c) = Some c"
  by (cases c) (simp_all add: comm_from_u8_def)

lemma comm_from_u8_eval [simp]:
  "comm_from_u8 0 = Some GetDeviceId"
  "comm_from_u8 1 = Some OperationControl"
  "comm_from_u8 2 = Some OperationStatus"
  "comm_from_u8 3 = Some Enable"
  "comm_from_u8 4 = Some Disable"
  "comm_from_u8 6 = Some SetZeroPosition"
  "comm_from_u8 17 = Some ReadParameter"
  "comm_from_u8 18 = Some WriteParameter"
  "comm_from_u8 21 = Some FaultReport"
  "comm_from_u8 24 = Some ActiveReporting"
  by (simp_all add: comm_from_u8_def)

lemma comm_from_u8_Some: "comm_from_u8 v = Some c \<longleftrightarrow> v = comm_as_u8 c"
proof
  assume "comm_from_u8 v = Some c"
  then show "v = comm_as_u8 c"
    by (auto simp: comm_from_u8_def split: if_splits)
qed simp

lemma comm_as_u8_inj: "inj comm_as_u8"
  by (rule injI) (metis comm_from_as option.inject)

lemma comm_as_u8_five_bits [simp]: "comm_as_u8 c AND 0x1F = comm_as_u8 c"
  by (cases c) simp_all

lemma comm_name_inj: "inj comm_name"
proof (rule injI)
  fix a b
  assume "comm_name a = comm_name b"
  then show "a = b"
    by (cases a; cases b) simp_all
qed

section \<open>Identifier layout\<close>

text \<open>The fields of an identifier, read back from any packed one.\<close>

lemma mask_5: "(0x1F :: 'a::len word) = mask 5"
  by (simp add: mask_eq_exp_minus_1)

lemma mask_8: "(0xFF :: 'a::len word) = mask 8"
  by (simp add: mask_eq_exp_minus_1)

lemma mask_16: "(0xFFFF :: 'a::len word) = mask 16"
  by (simp add: mask_eq_exp_minus_1)

lemma mask_29: "(0x1FFFFFFF :: 'a::len word) = mask 29"
  by (simp add: mask_eq_exp_minus_1)

lemmas mask_words = mask_5 mask_8 mask_16 mask_29

lemma pack_device [frame_simps]: "ucast (pack_ext_id c e d AND 0xFF) = d"
  unfolding pack_ext_id_def mask_words
  by (auto simp: bit_eq_iff bit_simps dest: bit_word_len)

lemma pack_extra [frame_simps]: "ucast (drop_bit 8 (pack_ext_id c e d) AND 0xFFFF) = e"
  unfolding pack_ext_id_def mask_words
  by (auto simp: bit_eq_iff bit_simps dest: bit_word_len)

lemma pack_type [frame_simps]: "ucast (drop_bit 24 (pack_ext_id c e d) AND 0x1F) = c AND 0x1F"
  unfolding pack_ext_id_def mask_words
  by (auto simp: bit_eq_iff bit_simps dest: bit_word_len)

lemma le_ext_mask_iff: "w \<le> EXTENDED_ID_MASK \<longleftrightarrow> (\<forall>n. bit w n \<longrightarrow> n < 29)"
proof -
  have "w \<le> EXTENDED_ID_MASK \<longleftrightarrow> take_bit 29 (unat w) = unat w"
    by (auto simp: EXTENDED_ID_MASK_def word_le_nat_alt take_bit_nat_eq_self_iff)
  also have "\<dots> \<longleftrightarrow> take_bit 29 w = w"
    by (simp flip: unsigned_take_bit_eq add: word_unat_eq_iff)
  also have "\<dots> \<longleftrightarrow> (\<forall>n. bit w n \<longrightarrow> n < 29)"
  proof
    assume "take_bit 29 w = w"
    then have "bit w n \<longleftrightarrow> n < 29 \<and> bit w n" for n
      by (metis bit_take_bit_iff)
    then show "\<forall>n. bit w n \<longrightarrow> n < 29"
      by blast
  qed (auto simp: bit_eq_iff bit_take_bit_iff)
  finally show ?thesis .
qed

lemma pack_le_mask: "pack_ext_id c e d \<le> EXTENDED_ID_MASK"
  unfolding le_ext_mask_iff pack_ext_id_def mask_words
  by (auto simp: bit_simps dest: bit_word_len)

lemma unpack_pack [frame_simps]:
  "unpack_ext_id (pack_ext_id c e d) =
     Some \<lparr>comm_type = c AND 0x1F, extra_data = e, device_id = d\<rparr>"
  using pack_le_mask [of c e d]
  by (simp add: unpack_ext_id_def frame_simps linorder_not_less)

lemma unpack_pack_typed [frame_simps]:
  "unpack_ext_id (pack_typed_ext_id c e d) =
     Some \<lparr>comm_type = comm_as_u8 c, extra_data = e, device_id = d\<rparr>"
  by (simp add: pack_typed_ext_id_def frame_simps)

lemma pack_unpack:
  assumes "unpack_ext_id w = Some x"
  shows "pack_ext_id (comm_type x) (extra_data x) (device_id x) = w"
proof (rule bit_word_eqI)
  fix n
  assume n: "n < LENGTH(32)"
  have le: "w \<le> EXTENDED_ID_MASK" and x: "x = \<lparr>comm_type = ucast (drop_bit 24 w AND 0x1F),
      extra_data = ucast (drop_bit 8 w AND 0xFFFF), device_id = ucast (w AND 0xFF)\<rparr>"
    using assms by (auto simp: unpack_ext_id_def not_less split: if_splits)
  from n consider "n < 8" | k where "n = 8 + k" "k < 16" | k where "n = 24 + k" "k < 5"
    | "29 \<le> n"
    by (cases "n < 8"; cases "n < 24"; cases "n < 29") (auto dest!: leI simp: le_iff_add)
  then show "bit (pack_ext_id (comm_type x) (extra_data x) (device_id x)) n = bit w n"
  proof cases
    case 4
    then have "\<not> bit w n"
      using le by (auto simp: le_ext_mask_iff)
    moreover have "\<not> bit (pack_ext_id (comm_type x) (extra_data x) (device_id x)) n"
      using 4 pack_le_mask [of "comm_type x" "extra_data x" "device_id x"]
      by (auto simp: le_ext_mask_iff)
    ultimately show ?thesis by simp
  qed (auto simp: x pack_ext_id_def mask_words bit_simps)
qed

lemma unpack_comm_type_five_bits:
  "unpack_ext_id w = Some x \<Longrightarrow> comm_type x AND 0x1F = comm_type x"
  unfolding unpack_ext_id_def mask_words
  by (auto simp: bit_eq_iff bit_simps split: if_splits)

text \<open>The identifier bytes that several decoders read directly.\<close>

lemma id_low_byte [frame_simps]: "ucast (pack_typed_ext_id c e d AND 0xFF) = d"
  by (simp add: pack_typed_ext_id_def frame_simps)

lemma id_second_byte [frame_simps]:
  "ucast (drop_bit 8 (pack_typed_ext_id c e d) AND 0xFF) = (ucast e :: u8)"
  unfolding pack_typed_ext_id_def pack_ext_id_def mask_words
  by (auto simp: bit_eq_iff bit_simps dest: bit_word_len)

lemma inbound_pack [frame_simps]:
  "inbound_motor_device_id (pack_typed_ext_id c e d) c =
     (if c \<in> {OperationStatus, FaultReport, ActiveReporting} then ucast e else d)"
  by (cases c) (simp_all add: inbound_motor_device_id_def frame_simps)

section \<open>Properties\<close>

text \<open>Packing and unpacking an extended identifier are mutually inverse. Every field
  triple whose communication type fits in five bits is read back unchanged from its packed
  identifier, and every identifier the decoder accepts is the packing of the fields it
  returns; identifiers above 29 bits are refused.\<close>

theorem ext_id_bijection:
  "(ct AND 0x1F = ct \<longrightarrow>
      unpack_ext_id (pack_ext_id ct extra dev) =
        Some \<lparr>comm_type = ct, extra_data = extra, device_id = dev\<rparr>) \<and>
   (\<forall>x. unpack_ext_id w = Some x \<longrightarrow>
      pack_ext_id (comm_type x) (extra_data x) (device_id x) = w \<and>
      comm_type x AND 0x1F = comm_type x) \<and>
   (unpack_ext_id w = None \<longleftrightarrow> 2 ^ 29 \<le> unat w)"
proof (intro conjI)
  show "ct AND 0x1F = ct \<longrightarrow> unpack_ext_id (pack_ext_id ct extra dev) =
      Some \<lparr>comm_type = ct, extra_data = extra, device_id = dev\<rparr>"
    by (simp add: unpack_pack)
  show "\<forall>x. unpack_ext_id w = Some x \<longrightarrow>
      pack_ext_id (comm_type x) (extra_data x) (device_id x) = w \<and>
      comm_type x AND 0x1F = comm_type x"
    by (simp add: pack_unpack unpack_comm_type_five_bits)
  show "unpack_ext_id w = None \<longleftrightarrow> 2 ^ 29 \<le> unat w"
    by (auto simp: unpack_ext_id_def EXTENDED_ID_MASK_def word_less_nat_alt)
qed

theorem ext_id_bijection_witness:
  "unpack_ext_id (pack_ext_id 18 0x00FF 3) =
     Some \<lparr>comm_type = 18, extra_data = 0x00FF, device_id = 3\<rparr> \<and>
   pack_ext_id 18 0x00FF 3 = 0x1200FF03 \<and> unpack_ext_id 0x20000000 = None"
proof -
  have five: "(18 :: u8) AND 0x1F = 18" by simp
  have top: "(2::nat) ^ 29 \<le> unat (0x20000000 :: u32)" by simp
  show ?thesis
    using ext_id_bijection [of 18 "0x00FF" 3 "0x20000000"] five top
    by (simp add: pack_ext_id_def)
qed

end
