(* ===== verification/Robstride_Frames.thy ===== *)
theory Robstride_Frames
  imports Ieee754 Robstride_Comm
begin

unbundle bit_operations_syntax

text \<open>
  The frame encoders of \<open>crates/robstride/src\<close> other than the MIT command: lifecycle
  frames (\<open>lifecycle.rs\<close>), the device identity exchange (\<open>identity.rs\<close>), the numeric
  checks shared by the encoders (\<open>command.rs\<close>) and register access (\<open>params.rs\<close>). A
  frame is the pair the encoders return, a 29-bit identifier and eight data bytes.
\<close>

type_synonym wire_pair = "u32 \<times> u8 list"

section \<open>Lifecycle frames\<close>

definition SET_ZERO_DATA :: "u8 list" where
  "SET_ZERO_DATA = [0x01, 0, 0, 0, 0, 0, 0, 0]"

definition empty_frame :: "communication_type \<Rightarrow> u8 \<Rightarrow> u8 \<Rightarrow> wire_pair" where
  "empty_frame ct host_id dev = (pack_typed_ext_id ct (ucast host_id) dev, zero8)"

definition encode_enable :: "u8 \<Rightarrow> u8 \<Rightarrow> wire_pair" where
  "encode_enable host_id dev = empty_frame Enable host_id dev"

definition encode_disable :: "u8 \<Rightarrow> u8 \<Rightarrow> wire_pair" where
  "encode_disable host_id dev = empty_frame Disable host_id dev"

definition encode_fault_clear :: "u8 \<Rightarrow> u8 \<Rightarrow> wire_pair" where
  "encode_fault_clear host_id dev =
     (pack_typed_ext_id Disable (ucast host_id) dev, zero8[0 := 1])"

definition encode_set_zero_position :: "u8 \<Rightarrow> u8 \<Rightarrow> wire_pair" where
  "encode_set_zero_position host_id dev =
     (pack_typed_ext_id SetZeroPosition (ucast host_id) dev, SET_ZERO_DATA)"

definition encode_default_enable :: "u8 \<Rightarrow> wire_pair" where
  "encode_default_enable dev = encode_enable DEFAULT_HOST_ID dev"

definition encode_default_disable :: "u8 \<Rightarrow> wire_pair" where
  "encode_default_disable dev = encode_disable DEFAULT_HOST_ID dev"

definition encode_default_set_zero_position :: "u8 \<Rightarrow> wire_pair" where
  "encode_default_set_zero_position dev = encode_set_zero_position DEFAULT_HOST_ID dev"

definition encode_default_fault_clear :: "u8 \<Rightarrow> wire_pair" where
  "encode_default_fault_clear dev = encode_fault_clear DEFAULT_HOST_ID dev"

definition encode_active_reporting :: "u8 \<Rightarrow> u8 \<Rightarrow> bool \<Rightarrow> wire_pair" where
  "encode_active_reporting host_id dev enable =
     (let f_cmd = (if enable then 0x01 else 0x00)
      in (pack_typed_ext_id ActiveReporting (ucast host_id) dev,
          [0x01, 0x02, 0x03, 0x04, 0x05, 0x06, f_cmd, 0x00]))"

definition encode_default_active_reporting :: "u8 \<Rightarrow> bool \<Rightarrow> wire_pair" where
  "encode_default_active_reporting dev enable = encode_active_reporting DEFAULT_HOST_ID dev enable"

section \<open>Device identity\<close>

definition DEVICE_ID_REPLY_MARKER :: u8 where "DEVICE_ID_REPLY_MARKER = 0xFE"

text \<open>The opaque eight wire bytes.\<close>

datatype device_uid = DeviceUid (uid_bytes: "u8 list")

text \<open>\<open>u64::from_le_bytes\<close>: the first byte is the least significant.\<close>

primrec u64_from_le_list :: "u8 list \<Rightarrow> u64" where
  "u64_from_le_list [] = 0"
| "u64_from_le_list (b # bs) = ucast b OR push_bit 8 (u64_from_le_list bs)"

definition uid_as_u64 :: "device_uid \<Rightarrow> u64" where
  "uid_as_u64 u = u64_from_le_list (uid_bytes u)"

record device_id_reply =
  reply_device_id :: u8
  reply_uid :: device_uid

definition encode_get_device_id :: "u8 \<Rightarrow> u8 \<Rightarrow> wire_pair" where
  "encode_get_device_id host_id dev =
     (pack_typed_ext_id GetDeviceId (ucast host_id) dev, zero8)"

definition encode_default_get_device_id :: "u8 \<Rightarrow> wire_pair" where
  "encode_default_get_device_id dev = encode_get_device_id DEFAULT_HOST_ID dev"

text \<open>\<open>payload.try_into()\<close> accepts exactly eight bytes.\<close>

definition decode_device_id_reply :: "u32 \<Rightarrow> u8 list \<Rightarrow> device_id_reply option" where
  "decode_device_id_reply can_id payload =
     Option.bind (unpack_ext_id can_id) (\<lambda>unpacked.
     Option.bind (comm_from_u8 (comm_type unpacked)) (\<lambda>ct.
       if ct \<noteq> GetDeviceId \<or> device_id unpacked \<noteq> DEVICE_ID_REPLY_MARKER \<or>
          extra_data unpacked > 0xFF then None
       else if length payload \<noteq> 8 then None
       else Some \<lparr>reply_device_id = ucast (extra_data unpacked AND 0xFF),
                  reply_uid = DeviceUid payload\<rparr>))"

section \<open>Registers\<close>

datatype run_mode = ModeMit | ModePosition | ModeSpeed | ModeCurrent

fun run_mode_as_u8 :: "run_mode \<Rightarrow> u8" where
  "run_mode_as_u8 ModeMit = 0"
| "run_mode_as_u8 ModePosition = 1"
| "run_mode_as_u8 ModeSpeed = 2"
| "run_mode_as_u8 ModeCurrent = 3"

datatype parameter_id =
    ParamRunMode | CurrentTarget | SpeedTarget | PositionTarget | LimitSpeed | LimitTorque
  | PositionKp | SpeedKp | SpeedKi | EPScanTime | CanTimeout | MechPos | MechVel
  | ZeroSta | AddOffset

fun param_as_u16 :: "parameter_id \<Rightarrow> u16" where
  "param_as_u16 ParamRunMode = 0x7005"
| "param_as_u16 CurrentTarget = 0x7006"
| "param_as_u16 SpeedTarget = 0x700A"
| "param_as_u16 PositionTarget = 0x7016"
| "param_as_u16 LimitSpeed = 0x7017"
| "param_as_u16 LimitTorque = 0x700B"
| "param_as_u16 PositionKp = 0x701E"
| "param_as_u16 SpeedKp = 0x701F"
| "param_as_u16 SpeedKi = 0x7020"
| "param_as_u16 EPScanTime = 0x7026"
| "param_as_u16 CanTimeout = 0x7028"
| "param_as_u16 MechPos = 0x7019"
| "param_as_u16 MechVel = 0x701B"
| "param_as_u16 ZeroSta = 0x7029"
| "param_as_u16 AddOffset = 0x702B"

definition param_from_u16 :: "u16 \<Rightarrow> parameter_id option" where
  "param_from_u16 index =
     List.find (\<lambda>p. param_as_u16 p = index)
       [ParamRunMode, CurrentTarget, SpeedTarget, PositionTarget, LimitSpeed, LimitTorque,
        PositionKp, SpeedKp, SpeedKi, EPScanTime, CanTimeout, MechPos, MechVel, ZeroSta,
        AddOffset]"

datatype parameter_kind = KindU8 | KindU16 | KindU32 | KindF32

fun value_kind :: "parameter_id \<Rightarrow> parameter_kind" where
  "value_kind ParamRunMode = KindU8"
| "value_kind ZeroSta = KindU8"
| "value_kind EPScanTime = KindU16"
| "value_kind CanTimeout = KindU32"
| "value_kind _ = KindF32"

definition is_read_only :: "parameter_id \<Rightarrow> bool" where
  "is_read_only p \<longleftrightarrow> p \<in> {MechPos, MechVel}"

datatype parameter_value = ValU8 u8 | ValU16 u16 | ValU32 u32 | ValF32 f32

fun param_kind :: "parameter_value \<Rightarrow> parameter_kind" where
  "param_kind (ValU8 _) = KindU8"
| "param_kind (ValU16 _) = KindU16"
| "param_kind (ValU32 _) = KindU32"
| "param_kind (ValF32 _) = KindF32"

section \<open>Numeric checks\<close>

datatype command_field =
    FieldPosition | FieldVelocity | ProportionalGain | DampingGain | TorqueFeedforward
  | FirmwareParameter parameter_id

datatype command_error =
    NonFinite u8 command_field
  | NegativeGain u8 command_field
  | NegativeValue u8 command_field
  | ParameterType u8 parameter_id parameter_kind parameter_kind
  | UnsupportedRunMode u8 u8
  | ReadOnlyParameter u8 parameter_id
  | OutOfRange u8 command_field
  | ForbiddenParameterWrite u8 parameter_id
  | ForbiddenCommunicationType u8

definition finite_f32 :: "u8 \<Rightarrow> command_field \<Rightarrow> f32 \<Rightarrow> (unit, command_error) result" where
  "finite_f32 dev field v = (if \<not> is_finite Binary32 v then Err (NonFinite dev field) else Ok ())"

definition bounded :: "u8 \<Rightarrow> command_field \<Rightarrow> f32 \<Rightarrow> f32 \<Rightarrow> f32 \<Rightarrow> (unit, command_error) result"
  where "bounded dev field v minimum maximum =
     rbind (finite_f32 dev field v) (\<lambda>_.
       if \<not> (fle Binary32 minimum v \<and> fle Binary32 v maximum) then Err (OutOfRange dev field)
       else Ok ())"

definition nonnegative_gain :: "u8 \<Rightarrow> command_field \<Rightarrow> f32 \<Rightarrow> (unit, command_error) result" where
  "nonnegative_gain dev field v =
     rbind (finite_f32 dev field v) (\<lambda>_.
       if flt Binary32 v (Flt False 0) then Err (NegativeGain dev field) else Ok ())"

definition nonnegative :: "u8 \<Rightarrow> command_field \<Rightarrow> f32 \<Rightarrow> (unit, command_error) result" where
  "nonnegative dev field v =
     rbind (finite_f32 dev field v) (\<lambda>_.
       if flt Binary32 v (Flt False 0) then Err (NegativeValue dev field) else Ok ())"

section \<open>Register access\<close>

definition encode_read_parameter :: "u8 \<Rightarrow> u8 \<Rightarrow> parameter_id \<Rightarrow> wire_pair" where
  "encode_read_parameter host_id dev p =
     (pack_typed_ext_id ReadParameter (ucast host_id) dev,
      u16_to_le_bytes (param_as_u16 p) @ [0, 0, 0, 0, 0, 0])"

definition f32_to_le_bytes :: "f32 \<Rightarrow> u8 list" where
  "f32_to_le_bytes x = u32_to_le_bytes (f32_to_bits x)"

definition encode_parameter_bytes ::
    "u8 \<Rightarrow> u8 \<Rightarrow> parameter_id \<Rightarrow> parameter_value \<Rightarrow> wire_pair" where
  "encode_parameter_bytes host_id dev p v =
     (pack_typed_ext_id WriteParameter (ucast host_id) dev,
      u16_to_le_bytes (param_as_u16 p) @ [0, 0] @
      (case v of
         ValU8 b \<Rightarrow> [b, 0, 0, 0]
       | ValU16 w \<Rightarrow> u16_to_le_bytes w @ [0, 0]
       | ValU32 w \<Rightarrow> u32_to_le_bytes w
       | ValF32 x \<Rightarrow> f32_to_le_bytes x))"

definition check_write_value ::
    "u8 \<Rightarrow> parameter_id \<Rightarrow> parameter_value \<Rightarrow> (unit, command_error) result" where
  "check_write_value dev p v =
     (case v of
        ValF32 x \<Rightarrow>
          if p \<in> {PositionKp, SpeedKp, SpeedKi} then nonnegative_gain dev (FirmwareParameter p) x
          else if p \<in> {LimitSpeed, LimitTorque} then nonnegative dev (FirmwareParameter p) x
          else finite_f32 dev (FirmwareParameter p) x
      | _ \<Rightarrow> Ok ())"

definition encode_write_parameter ::
    "u8 \<Rightarrow> u8 \<Rightarrow> parameter_id \<Rightarrow> parameter_value \<Rightarrow> (wire_pair, command_error) result" where
  "encode_write_parameter host_id dev p v =
     (if p \<in> {ZeroSta, AddOffset} then Err (ForbiddenParameterWrite dev p)
      else if is_read_only p then Err (ReadOnlyParameter dev p)
      else if param_kind v \<noteq> value_kind p then
        Err (ParameterType dev p (value_kind p) (param_kind v))
      else rbind
        (case (p, v) of
           (ParamRunMode, ValU8 b) \<Rightarrow>
             if \<not> list_ex (\<lambda>m. run_mode_as_u8 m = b) [ModeMit, ModePosition, ModeSpeed, ModeCurrent]
             then Err (UnsupportedRunMode dev b) else Ok ()
         | _ \<Rightarrow> Ok ()) (\<lambda>_.
      rbind (check_write_value dev p v) (\<lambda>_.
        Ok (encode_parameter_bytes host_id dev p v))))"

definition encode_set_run_mode :: "u8 \<Rightarrow> run_mode \<Rightarrow> wire_pair" where
  "encode_set_run_mode dev mode =
     encode_parameter_bytes DEFAULT_HOST_ID dev ParamRunMode (ValU8 (run_mode_as_u8 mode))"

definition encode_speed_ref :: "u8 \<Rightarrow> f32 \<Rightarrow> (wire_pair, command_error) result" where
  "encode_speed_ref dev x = encode_write_parameter DEFAULT_HOST_ID dev SpeedTarget (ValF32 x)"

definition encode_position_ref :: "u8 \<Rightarrow> f32 \<Rightarrow> (wire_pair, command_error) result" where
  "encode_position_ref dev x = encode_write_parameter DEFAULT_HOST_ID dev PositionTarget (ValF32 x)"

definition encode_current_ref :: "u8 \<Rightarrow> f32 \<Rightarrow> (wire_pair, command_error) result" where
  "encode_current_ref dev x = encode_write_parameter DEFAULT_HOST_ID dev CurrentTarget (ValF32 x)"

record parameter_read_reply =
  prr_device_id :: u8
  prr_host_id :: u8
  prr_status :: u8
  prr_index :: u16
  prr_value :: "u8 list"

definition prr_succeeded :: "parameter_read_reply \<Rightarrow> bool" where
  "prr_succeeded r \<longleftrightarrow> prr_status r = 0"

definition prr_parameter :: "parameter_read_reply \<Rightarrow> parameter_id option" where
  "prr_parameter r = param_from_u16 (prr_index r)"

definition f32_from_le_list :: "u8 list \<Rightarrow> f32" where
  "f32_from_le_list v = f32_from_bits (u32_from_le_bytes (v ! 0) (v ! 1) (v ! 2) (v ! 3))"

definition prr_as_f32 :: "parameter_read_reply \<Rightarrow> f32" where
  "prr_as_f32 r = f32_from_le_list (prr_value r)"

definition prr_as_u8 :: "parameter_read_reply \<Rightarrow> u8" where
  "prr_as_u8 r = prr_value r ! 0"

definition prr_typed_value :: "parameter_read_reply \<Rightarrow> parameter_value option" where
  "prr_typed_value r =
     (let v = prr_value r in
      Option.bind (prr_parameter r) (\<lambda>p.
        Some (case value_kind p of
            KindU8 \<Rightarrow> ValU8 (v ! 0)
          | KindU16 \<Rightarrow> ValU16 (u16_from_le_bytes (v ! 0) (v ! 1))
          | KindU32 \<Rightarrow> ValU32 (u32_from_le_bytes (v ! 0) (v ! 1) (v ! 2) (v ! 3))
          | KindF32 \<Rightarrow> ValF32 (f32_from_le_list v))))"

definition decode_read_parameter_reply ::
    "u8 \<Rightarrow> u32 \<Rightarrow> u8 list \<Rightarrow> parameter_read_reply option" where
  "decode_read_parameter_reply host_id can_id payload =
     Option.bind (unpack_ext_id can_id) (\<lambda>unpacked.
     Option.bind (comm_from_u8 (comm_type unpacked)) (\<lambda>ct.
       if ct \<noteq> ReadParameter \<or> device_id unpacked \<noteq> host_id then None
       else if length payload \<noteq> 8 then None
       else Some \<lparr>prr_device_id = ucast (extra_data unpacked AND 0xFF),
                  prr_host_id = device_id unpacked,
                  prr_status = ucast (drop_bit 8 (extra_data unpacked)),
                  prr_index = u16_from_le_bytes (payload ! 0) (payload ! 1),
                  prr_value = [payload ! 4, payload ! 5, payload ! 6, payload ! 7]\<rparr>))"

section \<open>Bits of single floats\<close>

lemma f32_from_to_bits:
  assumes "fbits x < 2 ^ 31"
  shows "f32_from_bits (f32_to_bits x) = x"
proof -
  have *: "take_bit 31 (fbits x) = fbits x"
    using assms by (simp add: take_bit_nat_eq_self_iff)
  have u: "unat (of_nat (fbits x) :: u32) = fbits x"
    using assms by (simp add: unsigned_of_nat take_bit_nat_eq_self_iff)
  have b: "\<not> bit (of_nat (fbits x) :: u32) 31"
    using * by (simp add: bit_simps) (metis bit_take_bit_iff less_irrefl)
  have t: "take_bit 31 (of_nat (fbits x) :: u32) = of_nat (fbits x)"
    by (rule word_unat_eq_iff [THEN iffD2]) (simp add: unsigned_take_bit_eq u *)
  have "take_bit 31 (set_bit 31 (of_nat (fbits x) :: u32)) = of_nat (fbits x)"
    by (simp add: t take_bit_set_bit_eq)
  then show ?thesis
    using b t u by (cases x) (simp add: f32_from_bits_def f32_to_bits_def bit_simps)
qed

lemma f32_to_from_bits: "f32_to_bits (f32_from_bits w) = w"
proof (rule bit_word_eqI)
  fix n
  assume "n < LENGTH(32)"
  then have "n < 31 \<or> n = 31" by auto
  moreover have "bit (of_nat (unat (take_bit 31 w)) :: u32) k = (k < 31 \<and> bit w k)" for k
    by (auto simp: bit_simps)
  ultimately show "bit (f32_to_bits (f32_from_bits w)) n = bit w n"
    by (auto simp: f32_to_bits_def f32_from_bits_def bit_simps)
qed

lemma fbits_from_bits: "fbits (f32_from_bits w) < 2 ^ 31"
  using take_bit_nat_less_exp [of 31 "unat w"] by (simp add: f32_from_bits_def unsigned_take_bit_eq)

lemma f32_le_roundtrip [byte_simps]:
  "fbits x < 2 ^ 31 \<Longrightarrow> f32_from_le_list (f32_to_le_bytes x) = x"
  by (simp add: f32_from_le_list_def f32_to_le_bytes_def u32_to_le_bytes_def f32_from_to_bits)

section \<open>Frames\<close>

lemma length_u16_to_le_bytes [simp]: "length (u16_to_le_bytes w) = 2"
  by (simp add: u16_to_le_bytes_def)

lemma length_u32_to_le_bytes [simp]: "length (u32_to_le_bytes w) = 4"
  by (simp add: u32_to_le_bytes_def)

lemma length_zero8 [simp]: "length zero8 = 8"
  by (simp add: zero8_def)

lemma length_parameter_bytes [simp]: "length (snd (encode_parameter_bytes h d p v)) = 8"
  by (simp add: encode_parameter_bytes_def f32_to_le_bytes_def split: parameter_value.splits)

lemma param_from_as [simp]: "param_from_u16 (param_as_u16 p) = Some p"
  by (cases p) (simp_all add: param_from_u16_def)

lemma param_from_u16_Some: "param_from_u16 i = Some p \<longleftrightarrow> i = param_as_u16 p"
proof
  assume "param_from_u16 i = Some p"
  then show "i = param_as_u16 p"
    unfolding param_from_u16_def by (drule_tac find_Some_set) simp
qed simp

lemma finite_f32_Ok [simp]: "finite_f32 d f v = Ok u \<longleftrightarrow> is_finite Binary32 v"
  by (simp add: finite_f32_def)

lemma flt_zero: "is_finite Binary32 v \<Longrightarrow> flt Binary32 v (Flt False 0) \<longleftrightarrow> fval Binary32 v < 0"
  by (subst flt_finite) (simp_all add: is_finite_def)

lemma nonnegative_gain_Ok [simp]:
  "nonnegative_gain d f v = Ok u \<longleftrightarrow> is_finite Binary32 v \<and> 0 \<le> fval Binary32 v"
  by (auto simp: nonnegative_gain_def rbind_Ok_iff flt_zero)

lemma nonnegative_Ok [simp]:
  "nonnegative d f v = Ok u \<longleftrightarrow> is_finite Binary32 v \<and> 0 \<le> fval Binary32 v"
  by (auto simp: nonnegative_def rbind_Ok_iff flt_zero)

lemma bounded_Ok:
  assumes "is_finite Binary32 lo" and "is_finite Binary32 hi"
  shows "bounded d f v lo hi = Ok u \<longleftrightarrow> is_finite Binary32 v \<and>
    fval Binary32 lo \<le> fval Binary32 v \<and> fval Binary32 v \<le> fval Binary32 hi"
  using assms by (auto simp: bounded_def rbind_Ok_iff fle_finite)

lemma check_write_value_Ok:
  "check_write_value d p v = Ok u \<longleftrightarrow>
     (\<forall>x. v = ValF32 x \<longrightarrow> is_finite Binary32 x \<and>
        (p \<in> {PositionKp, SpeedKp, SpeedKi, LimitSpeed, LimitTorque} \<longrightarrow> 0 \<le> fval Binary32 x))"
  by (auto simp: check_write_value_def split: parameter_value.splits)

lemma encode_write_parameter_OkD:
  assumes "encode_write_parameter h d p v = Ok fr"
  shows "fr = encode_parameter_bytes h d p v" and "param_kind v = value_kind p"
  using assms by (auto simp: encode_write_parameter_def rbind_Ok_iff split: if_splits)

lemma ucast_byte_fields [simp]:
  "ucast ((ucast (b :: u8) :: u16) AND 0xFF) = b"
  "ucast (drop_bit 8 (ucast (b :: u8) :: u16)) = (0 :: u8)"
  "(ucast (b :: u8) :: u16) \<le> 0xFF"
proof -
  show "ucast ((ucast (b :: u8) :: u16) AND 0xFF) = b"
    unfolding mask_words by (auto simp: bit_eq_iff bit_simps dest: bit_word_len)
  show "ucast (drop_bit 8 (ucast (b :: u8) :: u16)) = (0 :: u8)"
    by (auto simp: bit_eq_iff bit_simps dest: bit_word_len)
  have "unat b < 2 ^ LENGTH(8)" by (rule unsigned_less)
  then show "(ucast (b :: u8) :: u16) \<le> 0xFF"
    using order_trans [OF take_bit_nat_less_eq_self [of 16 "unat b"]]
    by (simp add: word_le_nat_alt unsigned_ucast_eq)
qed

lemma byte_of_u16:
  assumes "(e :: u16) \<le> 0xFF"
  shows "ucast (ucast (e AND 0xFF) :: u8) = e"
proof -
  have "unat e < 2 ^ 8" using assms by (simp add: word_le_nat_alt)
  then have "take_bit 8 e = e"
    by (simp add: word_unat_eq_iff unsigned_take_bit_eq take_bit_nat_eq_self_iff)
  moreover have "ucast (ucast (e AND 0xFF) :: u8) = take_bit 8 e"
    unfolding mask_words by (auto simp: bit_eq_iff bit_simps)
  ultimately show ?thesis by simp
qed

section \<open>Properties\<close>

text \<open>C18: a register write is encoded exactly when it is allowed. The power-on zero and
  zero-offset registers and the read-only registers are never written; the value has the
  register's type, a run mode is one of the four the driver knows, a float is finite and a
  gain or limit is not negative. The frame produced is the write frame to that device.\<close>

theorem write_parameter_gate:
  "encode_write_parameter h d p v = Ok fr \<longleftrightarrow>
     fr = encode_parameter_bytes h d p v \<and>
     p \<notin> {ZeroSta, AddOffset, MechPos, MechVel} \<and>
     param_kind v = value_kind p \<and>
     (\<forall>b. p = ParamRunMode \<and> v = ValU8 b \<longrightarrow> b \<le> 3) \<and>
     (\<forall>x. v = ValF32 x \<longrightarrow> is_finite Binary32 x \<and>
        (p \<in> {PositionKp, SpeedKp, SpeedKi, LimitSpeed, LimitTorque} \<longrightarrow> 0 \<le> fval Binary32 x))"
proof -
  have le3: "b \<le> 3 \<longleftrightarrow> b = 0 \<or> b = 1 \<or> b = 2 \<or> b = 3" for b :: u8
  proof -
    have "b \<le> 3 \<longleftrightarrow> unat b \<le> 3" by (simp add: word_le_nat_alt)
    also have "\<dots> \<longleftrightarrow> unat b \<in> {0, 1, 2, 3}" by auto
    finally show ?thesis by (auto simp: word_unat_eq_iff)
  qed
  have mode: "(case (p, v) of (ParamRunMode, ValU8 b) \<Rightarrow>
      if \<not> list_ex (\<lambda>m. run_mode_as_u8 m = b) [ModeMit, ModePosition, ModeSpeed, ModeCurrent]
      then Err (UnsupportedRunMode d b) else Ok () | _ \<Rightarrow> Ok ()) = Ok () \<longleftrightarrow>
      (\<forall>b. p = ParamRunMode \<and> v = ValU8 b \<longrightarrow> b \<le> 3)"
    by (cases p; cases v) (auto simp: le3)
  show ?thesis
    unfolding encode_write_parameter_def is_read_only_def
    by (auto simp: rbind_Ok_iff check_write_value_Ok mode [simplified])
qed

text \<open>C19: a register value survives the wire. When a write is accepted and the drive
  answers a later read with a successful reply that carries the written index and value
  bytes, the decoded reply names that drive and register and its typed value is the value
  written, bit for bit.\<close>

theorem parameter_write_read_roundtrip:
  assumes "encode_write_parameter h d p v = Ok (i, data)"
    and "\<And>x. v = ValF32 x \<Longrightarrow> fbits x < 2 ^ 31"
  shows "\<exists>r. decode_read_parameter_reply h (pack_typed_ext_id ReadParameter (ucast d) h) data = Some r \<and>
    prr_device_id r = d \<and> prr_host_id r = h \<and> prr_succeeded r \<and>
    prr_parameter r = Some p \<and> prr_typed_value r = Some v"
proof -
  let ?r = "\<lparr>prr_device_id = d, prr_host_id = h, prr_status = 0,
    prr_index = param_as_u16 p, prr_value = drop 4 data\<rparr>"
  note ok = encode_write_parameter_OkD [OF assms(1)]
  obtain c0 c1 c2 c3 where
    data: "data = u16_to_le_bytes (param_as_u16 p) @ [0, 0, c0, c1, c2, c3]" and
    typed: "(case value_kind p of KindU8 \<Rightarrow> ValU8 c0 | KindU16 \<Rightarrow> ValU16 (u16_from_le_bytes c0 c1)
      | KindU32 \<Rightarrow> ValU32 (u32_from_le_bytes c0 c1 c2 c3)
      | KindF32 \<Rightarrow> ValF32 (f32_from_le_list [c0, c1, c2, c3])) = v"
    using ok assms(2) f32_le_roundtrip
    by (cases v) (auto simp: encode_parameter_bytes_def u16_to_le_bytes_def u32_to_le_bytes_def
        f32_to_le_bytes_def dest: sym)
  have "decode_read_parameter_reply h (pack_typed_ext_id ReadParameter (ucast d) h) data = Some ?r"
    by (simp add: decode_read_parameter_reply_def frame_simps data u16_to_le_bytes_def)
  moreover have "prr_typed_value ?r = Some v"
    using typed by (simp add: prr_typed_value_def prr_parameter_def data f32_from_le_list_def
        u16_to_le_bytes_def split: parameter_kind.splits)
  ultimately show ?thesis
    by (auto simp: prr_succeeded_def prr_parameter_def)
qed

theorem parameter_write_read_roundtrip_witness:
  "\<exists>r. decode_read_parameter_reply 0xFD 0x110003FD (snd (encode_parameter_bytes 0xFD 3 CanTimeout (ValU32 20000)))
      = Some r \<and> prr_typed_value r = Some (ValU32 20000)"
proof -
  have "encode_write_parameter 0xFD 3 CanTimeout (ValU32 20000) =
      Ok (fst (encode_parameter_bytes 0xFD 3 CanTimeout (ValU32 20000)),
          snd (encode_parameter_bytes 0xFD 3 CanTimeout (ValU32 20000)))"
    by (simp add: encode_write_parameter_def is_read_only_def check_write_value_def)
  from parameter_write_read_roundtrip [OF this] show ?thesis
    by (auto simp: pack_typed_ext_id_def pack_ext_id_def)
qed

theorem write_parameter_gate_witness:
  "encode_write_parameter 0xFD 3 ParamRunMode (ValU8 3) =
     Ok (encode_parameter_bytes 0xFD 3 ParamRunMode (ValU8 3)) \<and>
   \<not> is_ok (encode_write_parameter 0xFD 3 ParamRunMode (ValU8 4))"
  using write_parameter_gate [of "0xFD" 3 ParamRunMode "ValU8 3"]
    write_parameter_gate [of "0xFD" 3 ParamRunMode "ValU8 4"]
  by (auto simp: is_ok_iff)

text \<open>The identity exchange. A frame decodes as a type-0 reply exactly when its
  identifier is the reply identifier of some drive (that drive in bits 8..15, marker
  0xFE in the low byte) and its payload has eight bytes, which are the unique id; and a
  request for any drive other than 0xFE is never taken for a reply.\<close>

theorem device_id_reply_exact:
  "(decode_device_id_reply can_id payload = Some r \<longleftrightarrow>
      can_id = pack_typed_ext_id GetDeviceId (ucast (reply_device_id r)) DEVICE_ID_REPLY_MARKER \<and>
      length payload = 8 \<and> uid_bytes (reply_uid r) = payload) \<and>
   (dev \<noteq> DEVICE_ID_REPLY_MARKER \<longrightarrow>
      decode_device_id_reply (fst (encode_get_device_id h dev)) (snd (encode_get_device_id h dev)) = None)"
proof (intro conjI)
  have repack: "can_id = pack_typed_ext_id GetDeviceId (ucast (ucast (extra_data u AND 0xFF) :: u8))
      (device_id u)"
    if "unpack_ext_id can_id = Some u" "comm_from_u8 (comm_type u) = Some GetDeviceId"
      "extra_data u \<le> 0xFF" for u
  proof -
    have "ucast (ucast (extra_data u AND 0xFF) :: u8) = extra_data u"
      using that(3) by (simp add: byte_of_u16)
    then show ?thesis
      using pack_unpack [OF that(1)] that(2)
      by (simp add: pack_typed_ext_id_def comm_from_u8_Some)
  qed
  show "decode_device_id_reply can_id payload = Some r \<longleftrightarrow>
      can_id = pack_typed_ext_id GetDeviceId (ucast (reply_device_id r)) DEVICE_ID_REPLY_MARKER \<and>
      length payload = 8 \<and> uid_bytes (reply_uid r) = payload" (is "?L \<longleftrightarrow> ?R")
  proof
    assume ?L
    then show ?R
      using repack by (auto simp: decode_device_id_reply_def bind_eq_Some_conv not_less
          split: if_splits)
  next
    assume ?R
    then show ?L
      by (cases r; cases "reply_uid r")
        (auto simp: decode_device_id_reply_def frame_simps leD [OF ucast_byte_fields(3)])
  qed
  show "dev \<noteq> DEVICE_ID_REPLY_MARKER \<longrightarrow>
      decode_device_id_reply (fst (encode_get_device_id h dev)) (snd (encode_get_device_id h dev)) = None"
    by (simp add: decode_device_id_reply_def encode_get_device_id_def frame_simps)
qed

theorem device_id_reply_exact_witness:
  "decode_device_id_reply (fst (encode_get_device_id 0xFD 3)) (snd (encode_get_device_id 0xFD 3)) = None \<and>
   decode_device_id_reply 0x000003FE [1, 2, 3, 4, 5, 6, 7, 8] =
     Some \<lparr>reply_device_id = 3, reply_uid = DeviceUid [1, 2, 3, 4, 5, 6, 7, 8]\<rparr>"
  using device_id_reply_exact [of "0x000003FE" "[1, 2, 3, 4, 5, 6, 7, 8]"
      "\<lparr>reply_device_id = 3, reply_uid = DeviceUid [1, 2, 3, 4, 5, 6, 7, 8]\<rparr>" 3 "0xFD"]
  by (simp add: pack_typed_ext_id_def pack_ext_id_def DEVICE_ID_REPLY_MARKER_def)

end
