(* ===== verification/Robstride_Mit.thy ===== *)
theory Robstride_Mit
  imports Robstride_Frames
begin

unbundle bit_operations_syntax

text \<open>
  The MIT operation-control command and the status frame that answers it:
  \<open>crates/robstride/src/motor_type.rs\<close> (vendor scales per model), \<open>mit.rs\<close> (validation,
  quantisation to sixteen-bit fields, packing and status decoding), the status header of
  \<open>feedback.rs\<close> and the firmware version reply of \<open>version.rs\<close>. The arithmetic is the
  single-precision arithmetic of the code; the lemmas bound what it loses.
\<close>

section \<open>Motor models\<close>

datatype motor_type = Rs00 | Rs02 | Rs03 | Rs04

record mit_ranges =
  position_scale :: f32
  velocity_scale :: f32
  kp_scale :: f32
  kd_scale :: f32
  torque_scale :: f32

text \<open>Integer literals of type \<open>f32\<close>, and \<open>std::f32::consts::PI\<close>.\<close>

definition f32_lit :: "nat \<Rightarrow> f32" where "f32_lit n = f_of_nat Binary32 n"

definition F32_PI :: f32 where "F32_PI = Flt False 0x40490FDB"

definition for_motor_type :: "motor_type \<Rightarrow> mit_ranges" where
  "for_motor_type ty =
     (case ty of
        Rs00 \<Rightarrow> \<lparr>position_scale = fmul Binary32 (f32_lit 4) F32_PI, velocity_scale = f32_lit 50,
                 kp_scale = f32_lit 500, kd_scale = f32_lit 5, torque_scale = f32_lit 17\<rparr>
      | Rs02 \<Rightarrow> \<lparr>position_scale = fmul Binary32 (f32_lit 4) F32_PI, velocity_scale = f32_lit 44,
                 kp_scale = f32_lit 500, kd_scale = f32_lit 5, torque_scale = f32_lit 17\<rparr>
      | Rs03 \<Rightarrow> \<lparr>position_scale = fmul Binary32 (f32_lit 4) F32_PI, velocity_scale = f32_lit 20,
                 kp_scale = f32_lit 5000, kd_scale = f32_lit 100, torque_scale = f32_lit 60\<rparr>
      | Rs04 \<Rightarrow> \<lparr>position_scale = fmul Binary32 (f32_lit 4) F32_PI, velocity_scale = f32_lit 15,
                 kp_scale = f32_lit 5000, kd_scale = f32_lit 100, torque_scale = f32_lit 120\<rparr>)"

section \<open>Commands\<close>

definition SIGNED_FIELD_CENTER :: f32 where "SIGNED_FIELD_CENTER = f32_lit 0x7FFF"

definition U16_MAX_F32 :: f32 where "U16_MAX_F32 = f32_lit 65535"

definition feedback_position_step :: "mit_ranges \<Rightarrow> f64" where
  "feedback_position_step r =
     fdiv Binary64 (f64_from_f32 (position_scale r)) (f64_from_f32 SIGNED_FIELD_CENTER)"

definition feedback_torque_step :: "mit_ranges \<Rightarrow> f64" where
  "feedback_torque_step r =
     fdiv Binary64 (f64_from_f32 (torque_scale r)) (f64_from_f32 SIGNED_FIELD_CENTER)"

record mit_command =
  cmd_device_id :: u8
  cmd_motor_type :: motor_type
  cmd_position_rad :: f32
  cmd_velocity_rad_s :: f32
  cmd_kp :: f32
  cmd_kd :: f32
  cmd_torque_ff_nm :: f32

definition validate_mit :: "mit_command \<Rightarrow> (unit, command_error) result" where
  "validate_mit cmd =
     (let dev = cmd_device_id cmd; ranges = for_motor_type (cmd_motor_type cmd);
          signed = (\<lambda>field v s. bounded dev field v (fnegate s) s)
      in rbind (finite_f32 dev FieldPosition (cmd_position_rad cmd)) (\<lambda>_.
         rbind (finite_f32 dev FieldVelocity (cmd_velocity_rad_s cmd)) (\<lambda>_.
         rbind (nonnegative_gain dev ProportionalGain (cmd_kp cmd)) (\<lambda>_.
         rbind (nonnegative_gain dev DampingGain (cmd_kd cmd)) (\<lambda>_.
         rbind (finite_f32 dev TorqueFeedforward (cmd_torque_ff_nm cmd)) (\<lambda>_.
         rbind (signed FieldPosition (cmd_position_rad cmd) (position_scale ranges)) (\<lambda>_.
         rbind (signed FieldVelocity (cmd_velocity_rad_s cmd) (velocity_scale ranges)) (\<lambda>_.
         rbind (bounded dev ProportionalGain (cmd_kp cmd) (f32_lit 0) (kp_scale ranges)) (\<lambda>_.
         rbind (bounded dev DampingGain (cmd_kd cmd) (f32_lit 0) (kd_scale ranges)) (\<lambda>_.
           signed TorqueFeedforward (cmd_torque_ff_nm cmd) (torque_scale ranges)))))))))))"

definition signed_to_vendor_u16 :: "f32 \<Rightarrow> f32 \<Rightarrow> u16" where
  "signed_to_vendor_u16 v s =
     (if fle Binary32 s (f32_lit 0) then 0
      else let clamped = fclamp Binary32 v (fnegate s) s
           in f_as_u16 Binary32 (fclamp Binary32 (fround_int Binary32
                (fmul Binary32 (fadd Binary32 (fdiv Binary32 clamped s) (f32_lit 1)) SIGNED_FIELD_CENTER))
                (f32_lit 0) U16_MAX_F32))"

definition vendor_u16_to_signed :: "u16 \<Rightarrow> f32 \<Rightarrow> f32" where
  "vendor_u16_to_signed raw s =
     fmul Binary32 (fsub Binary32 (fdiv Binary32 (f32_lit (unat raw)) SIGNED_FIELD_CENTER) (f32_lit 1)) s"

definition unsigned_to_vendor_u16 :: "f32 \<Rightarrow> f32 \<Rightarrow> u16" where
  "unsigned_to_vendor_u16 v s =
     (if fle Binary32 s (f32_lit 0) then 0
      else f_as_u16 Binary32 (fclamp Binary32 (fround_int Binary32
             (fmul Binary32 (fdiv Binary32 (fclamp Binary32 v (f32_lit 0) s) s) U16_MAX_F32))
             (f32_lit 0) U16_MAX_F32))"

definition read_be_u16 :: "u8 list \<Rightarrow> nat \<Rightarrow> u16" where
  "read_be_u16 data offset = u16_from_be_bytes (data ! offset) (data ! (offset + 1))"

definition write_be_u16 :: "u8 list \<Rightarrow> nat \<Rightarrow> u16 \<Rightarrow> u8 list" where
  "write_be_u16 data offset v =
     data[offset := u16_to_be_bytes v ! 0, offset + 1 := u16_to_be_bytes v ! 1]"

definition encode_mit :: "mit_command \<Rightarrow> (wire_pair, command_error) result" where
  "encode_mit cmd =
     rbind (validate_mit cmd) (\<lambda>_.
       let ranges = for_motor_type (cmd_motor_type cmd);
           p_int = signed_to_vendor_u16 (cmd_position_rad cmd) (position_scale ranges);
           v_int = signed_to_vendor_u16 (cmd_velocity_rad_s cmd) (velocity_scale ranges);
           kp_int = unsigned_to_vendor_u16 (cmd_kp cmd) (kp_scale ranges);
           kd_int = unsigned_to_vendor_u16 (cmd_kd cmd) (kd_scale ranges);
           t_int = signed_to_vendor_u16 (cmd_torque_ff_nm cmd) (torque_scale ranges);
           data = write_be_u16 (write_be_u16 (write_be_u16 (write_be_u16 zero8
                    0 p_int) 2 v_int) 4 kp_int) 6 kd_int
       in Ok (pack_typed_ext_id OperationControl t_int (cmd_device_id cmd), data))"

record mit_command_fields =
  fld_position :: u16
  fld_velocity :: u16
  fld_kp :: u16
  fld_kd :: u16
  fld_torque_ff :: u16

definition NEUTRAL_TORQUE :: u16 where "NEUTRAL_TORQUE = 0x7FFF"

definition u16_abs_diff :: "u16 \<Rightarrow> u16 \<Rightarrow> u16" where
  "u16_abs_diff a b = (if a < b then b - a else a - b)"

definition is_neutral :: "mit_command_fields \<Rightarrow> bool" where
  "is_neutral c \<longleftrightarrow> fld_kp c = 0 \<and> fld_kd c = 0 \<and> u16_abs_diff (fld_torque_ff c) NEUTRAL_TORQUE \<le> 1"

definition decode_mit_command_fields :: "u32 \<Rightarrow> u8 list \<Rightarrow> mit_command_fields option" where
  "decode_mit_command_fields can_id data =
     Option.bind (unpack_ext_id can_id) (\<lambda>unpacked.
     Option.bind (comm_from_u8 (comm_type unpacked)) (\<lambda>ct.
       if ct \<noteq> OperationControl \<or> length data \<noteq> 8 then None
       else Some \<lparr>fld_position = read_be_u16 data 0, fld_velocity = read_be_u16 data 2,
                  fld_kp = read_be_u16 data 4, fld_kd = read_be_u16 data 6,
                  fld_torque_ff = extra_data unpacked\<rparr>))"

section \<open>Status frames\<close>

datatype drive_mode = Reset | Calibration | Run | Reserved

definition drive_mode_from_can_id :: "u32 \<Rightarrow> drive_mode" where
  "drive_mode_from_can_id can_id =
     (let m = drop_bit 22 can_id AND 3
      in if m = 0 then Reset else if m = 1 then Calibration else if m = 2 then Run else Reserved)"

fun drive_mode_as_str :: "drive_mode \<Rightarrow> string" where
  "drive_mode_as_str Reset = ''Reset''"
| "drive_mode_as_str Calibration = ''Calibration''"
| "drive_mode_as_str Run = ''Run''"
| "drive_mode_as_str Reserved = ''Reserved''"

definition decode_status_header :: "u32 \<Rightarrow> drive_mode \<times> u8" where
  "decode_status_header can_id =
     (drive_mode_from_can_id can_id, ucast (drop_bit 16 can_id AND 0x3F))"

definition is_reboot_transition :: "drive_mode option \<Rightarrow> drive_mode \<Rightarrow> bool" where
  "is_reboot_transition previous current \<longleftrightarrow> previous = Some Run \<and> current = Reset"

record mit_feedback =
  fb_device_id :: u8
  fb_position_rad :: f32
  fb_velocity_rad_s :: f32
  fb_torque_nm :: f32
  fb_temperature_c :: f32
  fb_status_flags :: u8
  fb_drive_mode :: drive_mode

text \<open>The literal \<open>0.1\<close> of type \<open>f32\<close>.\<close>

definition F32_TENTH :: f32 where "F32_TENTH = fround Binary32 False (1 / 10)"

definition decode_status_payload ::
    "motor_type \<Rightarrow> communication_type \<Rightarrow> u32 \<Rightarrow> u8 list \<Rightarrow> mit_feedback" where
  "decode_status_payload ty comm can_id data =
     (let ranges = for_motor_type ty;
          p = vendor_u16_to_signed (read_be_u16 data 0) (position_scale ranges);
          v = vendor_u16_to_signed (read_be_u16 data 2) (velocity_scale ranges);
          t = vendor_u16_to_signed (read_be_u16 data 4) (torque_scale ranges);
          temp = fmul Binary32 (f32_lit (unat (read_be_u16 data 6))) F32_TENTH;
          (mode, flags) = decode_status_header can_id
      in \<lparr>fb_device_id = inbound_motor_device_id can_id comm, fb_position_rad = p,
          fb_velocity_rad_s = v, fb_torque_nm = t, fb_temperature_c = temp,
          fb_status_flags = flags, fb_drive_mode = mode\<rparr>)"

section \<open>Firmware version\<close>

definition FIRMWARE_VERSION_QUERY :: u8 where "FIRMWARE_VERSION_QUERY = 0xC4"

definition VERSION_REPLY_PREFIX :: "u8 list" where
  "VERSION_REPLY_PREFIX = [0x00, FIRMWARE_VERSION_QUERY, 0x56]"

datatype firmware_version = FirmwareVersion (version_bytes: "u8 list")

definition firmware_version_display :: "firmware_version \<Rightarrow> string" where
  "firmware_version_display v =
     (let b = (\<lambda>i. show_nat (unat (version_bytes v ! i)))
      in b 0 @ ''.'' @ b 1 @ ''.'' @ b 2 @ ''.'' @ b 3)"

record firmware_version_feedback =
  fv_raw :: "u8 list"
  fv_version :: firmware_version
  fv_host_id :: u8
  fv_status_flags :: u8
  fv_drive_mode :: drive_mode

definition encode_get_firmware_version :: "u8 \<Rightarrow> u8 \<Rightarrow> wire_pair" where
  "encode_get_firmware_version host_id dev =
     (pack_typed_ext_id Disable (ucast host_id) dev, zero8[1 := FIRMWARE_VERSION_QUERY])"

definition encode_default_get_firmware_version :: "u8 \<Rightarrow> wire_pair" where
  "encode_default_get_firmware_version dev = encode_get_firmware_version DEFAULT_HOST_ID dev"

definition decode_firmware_version_reply ::
    "u32 \<Rightarrow> u8 list \<Rightarrow> firmware_version_feedback option" where
  "decode_firmware_version_reply can_id payload =
     Option.bind (unpack_ext_id can_id) (\<lambda>unpacked.
     Option.bind (comm_from_u8 (comm_type unpacked)) (\<lambda>ct.
       if ct \<noteq> OperationStatus then None
       else if length payload \<noteq> 8 then None
       else if take 3 payload \<noteq> VERSION_REPLY_PREFIX then None
       else Some \<lparr>fv_raw = payload,
                  fv_version = FirmwareVersion [payload ! 3, payload ! 4, payload ! 5, payload ! 6],
                  fv_host_id = ucast (can_id AND 0xFF),
                  fv_status_flags = ucast (drop_bit 16 can_id AND 0x3F),
                  fv_drive_mode = drive_mode_from_can_id can_id\<rparr>))"

section \<open>Quantisation\<close>

text \<open>The scales of every model are finite and between 1 and 5000.\<close>

definition scale_ok :: "f32 \<Rightarrow> bool" where
  "scale_ok s \<longleftrightarrow> is_finite Binary32 s \<and> 1 \<le> fval Binary32 s \<and> fval Binary32 s \<le> 5000"

lemma f32_lit_val [simp]:
  assumes "n < 2 ^ 24"
  shows "fval Binary32 (f32_lit n) = of_nat n" and "is_finite Binary32 (f32_lit n)"
  using fval_f_of_nat [of n Binary32] assms by (simp_all add: f32_lit_def)

lemma f32_lit_u16 [simp]:
  "fval Binary32 (f32_lit (unat (c :: u16))) = of_nat (unat c)"
  "is_finite Binary32 (f32_lit (unat (c :: u16)))"
proof -
  have "unat c < 2 ^ LENGTH(16)" by (rule unsigned_less)
  then have "unat c < 2 ^ 24" by simp
  then show "fval Binary32 (f32_lit (unat c)) = of_nat (unat c)"
    "is_finite Binary32 (f32_lit (unat c))" by simp_all
qed

lemma center_val [simp]:
  "fval Binary32 SIGNED_FIELD_CENTER = 32767" "is_finite Binary32 SIGNED_FIELD_CENTER"
  "fval Binary32 U16_MAX_F32 = 65535" "is_finite Binary32 U16_MAX_F32"
  by (simp_all add: SIGNED_FIELD_CENTER_def U16_MAX_F32_def)

lemma f32_pi: "3 \<le> fval Binary32 F32_PI" "fval Binary32 F32_PI \<le> 4" "is_finite Binary32 F32_PI"
  by (simp_all add: F32_PI_def fval_def mag_def is_finite_def)

lemma position_scale_ok: "scale_ok (fmul Binary32 (f32_lit 4) F32_PI)"
proof -
  let ?q = "fval Binary32 (f32_lit 4) * fval Binary32 F32_PI"
  have q: "12 \<le> ?q" "?q \<le> 16" using f32_pi by simp_all
  then have b: "\<bar>?q\<bar> \<le> 16" by simp
  have eq: "fmul Binary32 (f32_lit 4) F32_PI = fround Binary32 (fneg (f32_lit 4) \<noteq> fneg F32_PI) ?q"
    using f32_pi by (intro fmul_finite) simp_all
  have "\<bar>fval Binary32 (fmul Binary32 (f32_lit 4) F32_PI) - ?q\<bar> \<le> 16 / 16777216"
    "is_finite Binary32 (fmul Binary32 (f32_lit 4) F32_PI)"
    unfolding eq by (rule f32_near [OF b]; simp)+
  moreover have "(16 :: rat) / 16777216 \<le> 1" by simp
  ultimately show ?thesis
    using q unfolding scale_ok_def by linarith
qed

lemma for_motor_type_ok:
  "scale_ok (position_scale (for_motor_type ty))" "scale_ok (velocity_scale (for_motor_type ty))"
  "scale_ok (kp_scale (for_motor_type ty))" "scale_ok (kd_scale (for_motor_type ty))"
  "scale_ok (torque_scale (for_motor_type ty))"
  using position_scale_ok by (cases ty; simp add: for_motor_type_def scale_ok_def)+

lemma scale_positive: "scale_ok s \<Longrightarrow> \<not> fle Binary32 s (f32_lit 0)"
  by (simp add: scale_ok_def fle_finite)

lemma abs_le_trans: "\<bar>a - b\<bar> \<le> (d::rat) \<Longrightarrow> \<bar>b\<bar> \<le> e \<Longrightarrow> \<bar>a\<bar> \<le> d + e"
  by linarith

text \<open>
  Encoding a signed value rounds the scaled clamped value to the nearest code, from a
  single-precision intermediate within 1/64 of the exact one.
\<close>

lemma signed_to_vendor:
  assumes s: "scale_ok s" and x: "is_finite Binary32 x"
  defines "S \<equiv> fval Binary32 s"
  defines "q \<equiv> max (- 1) (min 1 (fval Binary32 x / S))"
  obtains b where "unat (signed_to_vendor_u16 x s) = nat \<lfloor>b + 1 / 2\<rfloor>"
    and "\<bar>b - (q + 1) * 32767\<bar> \<le> 1 / 64"
proof -
  have S: "is_finite Binary32 s" "0 < S" using s by (auto simp: scale_ok_def S_def)
  define c where "c = fclamp Binary32 x (fnegate s) s"
  have c: "is_finite Binary32 c" "fval Binary32 c = max (- S) (min S (fval Binary32 x))"
    using fclamp_finite [OF x, of "fnegate s" s] S by (simp_all add: c_def S_def)
  have cq: "fval Binary32 c / S = q"
    using S(2) by (auto simp: c(2) q_def max_def min_def field_simps)
  define r where "r = fdiv Binary32 c s"
  have r_eq: "r = fround Binary32 (fneg c \<noteq> fneg s) q"
    using fdiv_finite [OF c(1) S(1)] S(2) cq by (simp add: r_def S_def)
  have "\<bar>q\<bar> \<le> 1" by (auto simp: q_def abs_le_iff)
  then have r: "is_finite Binary32 r" "\<bar>fval Binary32 r - q\<bar> \<le> 1 / 16777216"
    unfolding r_eq by (rule f32_near; simp)+
  define a where "a = fadd Binary32 r (f32_lit 1)"
  have a_eq: "a = fround Binary32 (fneg r \<and> fneg (f32_lit 1)) (fval Binary32 r + 1)"
    using fadd_finite [OF r(1), of "f32_lit 1"] by (simp add: a_def)
  have "\<bar>fval Binary32 r + 1\<bar> \<le> 5 / 2"
    using r(2) \<open>\<bar>q\<bar> \<le> 1\<close> by linarith
  then have a: "is_finite Binary32 a" "\<bar>fval Binary32 a - (fval Binary32 r + 1)\<bar> \<le> (5 / 2) / 16777216"
    unfolding a_eq by (rule f32_near; simp)+
  define b where "b = fmul Binary32 a SIGNED_FIELD_CENTER"
  have b_eq: "b = fround Binary32 (fneg a \<noteq> fneg SIGNED_FIELD_CENTER) (fval Binary32 a * 32767)"
    using fmul_finite [OF a(1), of SIGNED_FIELD_CENTER] by (simp add: b_def)
  have "\<bar>fval Binary32 a * 32767\<bar> \<le> 3 * 32767"
    using a(2) \<open>\<bar>fval Binary32 r + 1\<bar> \<le> 5 / 2\<close> by linarith
  then have b: "is_finite Binary32 b" "\<bar>fval Binary32 b - fval Binary32 a * 32767\<bar> \<le> 3 * 32767 / 16777216"
    unfolding b_eq by (rule f32_near; simp)+
  have near: "\<bar>fval Binary32 b - (q + 1) * 32767\<bar> \<le> 1 / 64"
    using r(2) a(2) b(2) unfolding distrib_right by linarith
  have "0 \<le> (q + 1) * 32767" "(q + 1) * 32767 \<le> 65534"
    using \<open>\<bar>q\<bar> \<le> 1\<close> unfolding distrib_right by linarith+
  then have rng: "- (1 / 2) < fval Binary32 b" "fval Binary32 b < 65535 + 1 / 2"
    using near by linarith+
  have "signed_to_vendor_u16 x s = f_as_u16 Binary32 (fclamp Binary32 (fround_int Binary32 b)
      (f_of_nat Binary32 0) (f_of_nat Binary32 65535))"
    by (simp only: signed_to_vendor_u16_def scale_positive [OF s, unfolded f32_lit_def] Let_def if_False b_def a_def
        r_def c_def f32_lit_def U16_MAX_F32_def)
  then have "unat (signed_to_vendor_u16 x s) = nat \<lfloor>fval Binary32 b + 1 / 2\<rfloor>"
    by (simp only: f32_quantize [OF b(1) rng])
  from that [OF this near] show thesis .
qed

lemma unsigned_to_vendor:
  assumes s: "scale_ok s" and x: "is_finite Binary32 x"
  defines "S \<equiv> fval Binary32 s"
  defines "q \<equiv> max 0 (min 1 (fval Binary32 x / S))"
  obtains b where "unat (unsigned_to_vendor_u16 x s) = nat \<lfloor>b + 1 / 2\<rfloor>"
    and "\<bar>b - q * 65535\<bar> \<le> 1 / 64"
proof -
  have S: "is_finite Binary32 s" "0 < S" using s by (auto simp: scale_ok_def S_def)
  define c where "c = fclamp Binary32 x (f32_lit 0) s"
  have c: "is_finite Binary32 c" "fval Binary32 c = max 0 (min S (fval Binary32 x))"
    using fclamp_finite [OF x, of "f32_lit 0" s] S by (simp_all add: c_def S_def)
  have cq: "fval Binary32 c / S = q"
    using S(2) by (auto simp: c(2) q_def max_def min_def field_simps)
  define r where "r = fdiv Binary32 c s"
  have r_eq: "r = fround Binary32 (fneg c \<noteq> fneg s) q"
    using fdiv_finite [OF c(1) S(1)] S(2) cq by (simp add: r_def S_def)
  have q: "0 \<le> q" "q \<le> 1" by (simp_all add: q_def)
  then have "\<bar>q\<bar> \<le> 1" by simp
  then have r: "is_finite Binary32 r" "\<bar>fval Binary32 r - q\<bar> \<le> 1 / 16777216"
    unfolding r_eq by (rule f32_near; simp)+
  define b where "b = fmul Binary32 r U16_MAX_F32"
  have b_eq: "b = fround Binary32 (fneg r \<noteq> fneg U16_MAX_F32) (fval Binary32 r * 65535)"
    using fmul_finite [OF r(1), of U16_MAX_F32] by (simp add: b_def)
  have "\<bar>fval Binary32 r * 65535\<bar> \<le> 2 * 65535"
    using r(2) q by linarith
  then have b: "is_finite Binary32 b" "\<bar>fval Binary32 b - fval Binary32 r * 65535\<bar> \<le> 2 * 65535 / 16777216"
    unfolding b_eq by (rule f32_near; simp)+
  have near: "\<bar>fval Binary32 b - q * 65535\<bar> \<le> 1 / 64"
    using r(2) b(2) by linarith
  have rng: "- (1 / 2) < fval Binary32 b" "fval Binary32 b < 65535 + 1 / 2"
    using near q by linarith+
  have "unsigned_to_vendor_u16 x s = f_as_u16 Binary32 (fclamp Binary32 (fround_int Binary32 b)
      (f_of_nat Binary32 0) (f_of_nat Binary32 65535))"
    by (simp only: unsigned_to_vendor_u16_def scale_positive [OF s, unfolded f32_lit_def] Let_def if_False b_def
        r_def c_def f32_lit_def U16_MAX_F32_def)
  then have "unat (unsigned_to_vendor_u16 x s) = nat \<lfloor>fval Binary32 b + 1 / 2\<rfloor>"
    by (simp only: f32_quantize [OF b(1) rng])
  from that [OF this near] show thesis .
qed

text \<open>Decoding a signed code: the value is within \<open>6 / 16777216\<close> of full scale of the exact one.\<close>

lemma vendor_to_signed:
  assumes s: "scale_ok s"
  defines "S \<equiv> fval Binary32 s"
  shows "is_finite Binary32 (vendor_u16_to_signed c s)"
    and "\<bar>fval Binary32 (vendor_u16_to_signed c s) / S - (of_nat (unat c) / 32767 - 1)\<bar> \<le> 6 / 16777216"
proof -
  have S: "is_finite Binary32 s" "1 \<le> S" "S \<le> 5000" using s by (auto simp: scale_ok_def S_def)
  define C where "C = (of_nat (unat c) :: rat)"
  have "unat c < 2 ^ LENGTH(16)" by (rule unsigned_less)
  then have "of_nat (unat c) \<le> (of_nat 65535 :: rat)" by (simp only: of_nat_le_iff) simp
  then have "C \<le> 65535" unfolding C_def of_nat_numeral .
  moreover have "0 \<le> C" unfolding C_def by (rule of_nat_0_le_iff)
  ultimately have C: "0 \<le> C" "C \<le> 65535" by simp_all
  define d where "d = fdiv Binary32 (f32_lit (unat c)) SIGNED_FIELD_CENTER"
  have d_eq: "d = fround Binary32 (fneg (f32_lit (unat c)) \<noteq> fneg SIGNED_FIELD_CENTER) (C / 32767)"
    using fdiv_finite [of Binary32 "f32_lit (unat c)" SIGNED_FIELD_CENTER] by (simp add: d_def C_def)
  have "\<bar>C / 32767\<bar> \<le> 5 / 2" using C by simp
  then have d: "is_finite Binary32 d" "\<bar>fval Binary32 d - C / 32767\<bar> \<le> (5 / 2) / 16777216"
    unfolding d_eq by (rule f32_near; simp)+
  define e where "e = fsub Binary32 d (f32_lit 1)"
  have e_eq: "e = fround Binary32 (fneg d \<and> \<not> fneg (f32_lit 1)) (fval Binary32 d - 1)"
    using fsub_finite [OF d(1), of "f32_lit 1"] by (simp add: e_def)
  have "\<bar>fval Binary32 d - 1\<bar> \<le> 3 / 2"
    using d(2) C by linarith
  then have e: "is_finite Binary32 e" "\<bar>fval Binary32 e - (fval Binary32 d - 1)\<bar> \<le> (3 / 2) / 16777216"
    unfolding e_eq by (rule f32_near; simp)+
  define y where "y = fmul Binary32 e s"
  have y_eq: "y = fround Binary32 (fneg e \<noteq> fneg s) (fval Binary32 e * S)"
    using fmul_finite [OF e(1) S(1)] by (simp add: y_def S_def)
  have e2: "\<bar>fval Binary32 e\<bar> \<le> 2"
    using e(2) \<open>\<bar>fval Binary32 d - 1\<bar> \<le> 3 / 2\<close> by linarith
  then have eS: "\<bar>fval Binary32 e * S\<bar> \<le> 2 * S"
    using S by (simp add: abs_mult mult_right_mono)
  have bd: "1 \<le> 2 * S" "2 * S \<le> 2 ^ 100" using S by simp_all
  have y: "is_finite Binary32 y" "\<bar>fval Binary32 y - fval Binary32 e * S\<bar> \<le> 2 * S / 16777216"
    unfolding y_eq using f32_near [OF eS bd] by simp_all
  have yv: "y = vendor_u16_to_signed c s"
    by (simp add: vendor_u16_to_signed_def y_def e_def d_def)
  show "is_finite Binary32 (vendor_u16_to_signed c s)" using y(1) by (simp add: yv)
  have "\<bar>fval Binary32 y / S - fval Binary32 e\<bar> = \<bar>(fval Binary32 y - fval Binary32 e * S) / S\<bar>"
    using S by (simp add: diff_divide_distrib)
  also have "\<dots> = \<bar>fval Binary32 y - fval Binary32 e * S\<bar> / S"
    using S by simp
  also have "\<dots> \<le> (2 * S / 16777216) / S"
    using y(2) S by (intro divide_right_mono) auto
  also have "\<dots> = 2 / 16777216" using S by simp
  finally have "\<bar>fval Binary32 y / S - fval Binary32 e\<bar> \<le> 2 / 16777216" .
  with e(2) d(2) show "\<bar>fval Binary32 (vendor_u16_to_signed c s) / S - (of_nat (unat c) / 32767 - 1)\<bar> \<le> 6 / 16777216"
    unfolding yv C_def by linarith
qed

lemma nearest_nat:
  assumes "\<bar>b - of_nat n\<bar> \<le> (1 / 4 :: rat)"
  shows "nat \<lfloor>b + 1 / 2\<rfloor> = n"
proof -
  have "\<lfloor>b + 1 / 2\<rfloor> = int n"
    using assms by (intro floor_unique; simp only: of_int_of_nat_eq; linarith)
  then show ?thesis by simp
qed

lemma nearest_error:
  assumes "\<bar>b - t\<bar> \<le> (1 / 64 :: rat)" and "0 \<le> t"
  shows "\<bar>of_nat (nat \<lfloor>b + 1 / 2\<rfloor>) - t\<bar> \<le> 33 / 64"
proof -
  have "0 \<le> b + 1 / 2" using assms by linarith
  then have "0 \<le> \<lfloor>b + 1 / 2\<rfloor>" by simp
  then have "(of_nat (nat \<lfloor>b + 1 / 2\<rfloor>) :: rat) = of_int \<lfloor>b + 1 / 2\<rfloor>" by simp
  then show ?thesis using assms by linarith
qed

lemma of_nat_unat_u16: "(of_nat (unat (c :: u16)) :: rat) \<le> 65535"
proof -
  have "unat c < 2 ^ LENGTH(16)" by (rule unsigned_less)
  then have "(of_nat (unat c) :: rat) \<le> of_nat 65535" by (simp only: of_nat_le_iff) simp
  then show ?thesis unfolding of_nat_numeral .
qed

text \<open>Every code up to 65534 is reproduced; 65535 lies one step outside the range.\<close>

lemma signed_roundtrip:
  assumes s: "scale_ok s"
  shows "signed_to_vendor_u16 (vendor_u16_to_signed c s) s = min c 65534"
proof -
  define C where "C = (of_nat (unat c) :: rat)"
  define y where "y = fval Binary32 (vendor_u16_to_signed c s) / fval Binary32 s"
  define q where "q = max (- 1) (min 1 y)"
  note dec = vendor_to_signed [OF s, of c, folded y_def C_def]
  obtain b where code: "unat (signed_to_vendor_u16 (vendor_u16_to_signed c s) s) = nat \<lfloor>b + 1 / 2\<rfloor>"
    and b: "\<bar>b - (q + 1) * 32767\<bar> \<le> 1 / 64"
    using signed_to_vendor [OF s dec(1)] unfolding y_def [symmetric] q_def by blast
  have C0: "0 \<le> C" unfolding C_def by (rule of_nat_0_le_iff)
  define n where "n = min (unat c) 65534"
  have "\<bar>(q + 1) * 32767 - of_nat n\<bar> \<le> 1 / 8"
  proof (cases "c = 65535")
    case True
    then have "C = 65535" by (simp add: C_def)
    then have "1 \<le> y" using dec(2) by linarith
    then have "q = 1" by (simp add: q_def)
    then show ?thesis using True by (simp add: n_def)
  next
    case False
    then have "unat c \<noteq> 65535" by (simp add: word_unat_eq_iff)
    moreover have "unat c < 2 ^ LENGTH(16)" by (rule unsigned_less)
    ultimately have "unat c \<le> 65534" by simp
    then have n: "of_nat n = C" by (simp add: n_def C_def min_def)
    have "(of_nat (unat c) :: rat) \<le> of_nat 65534"
      using \<open>unat c \<le> 65534\<close> by (simp only: of_nat_le_iff)
    then have C1: "C \<le> 65534" unfolding C_def of_nat_numeral .
    have "\<bar>q - (C / 32767 - 1)\<bar> \<le> \<bar>y - (C / 32767 - 1)\<bar>"
      using C0 C1 by (auto simp: q_def max_def min_def abs_if)
    with dec(2) show ?thesis unfolding n distrib_right by linarith
  qed
  then have "\<bar>b - of_nat n\<bar> \<le> 1 / 4" using b by linarith
  from nearest_nat [OF this] code have "unat (signed_to_vendor_u16 (vendor_u16_to_signed c s) s) = n"
    by simp
  moreover have "unat (min c 65534) = n"
    by (auto simp: n_def min_def word_le_nat_alt)
  ultimately show ?thesis by (simp add: word_unat_eq_iff)
qed

lemma signed_code_error:
  assumes s: "scale_ok s" and x: "is_finite Binary32 x" and
    rng: "- fval Binary32 s \<le> fval Binary32 x" "fval Binary32 x \<le> fval Binary32 s"
  shows "\<bar>fval Binary32 x - (of_nat (unat (signed_to_vendor_u16 x s)) / 32767 - 1) * fval Binary32 s\<bar>
    \<le> (33 / 64) / 32767 * fval Binary32 s"
proof -
  define S where "S = fval Binary32 s"
  define q where "q = fval Binary32 x / S"
  define k where "k = (of_nat (unat (signed_to_vendor_u16 x s)) :: rat)"
  have S: "0 < S" using s by (auto simp: scale_ok_def S_def)
  have q: "- 1 \<le> q" "q \<le> 1" using rng S by (simp_all add: q_def S_def field_simps)
  obtain b where code: "unat (signed_to_vendor_u16 x s) = nat \<lfloor>b + 1 / 2\<rfloor>"
    and b: "\<bar>b - (q + 1) * 32767\<bar> \<le> 1 / 64"
    using signed_to_vendor [OF s x] q unfolding q_def S_def by (metis max_absorb2 min_absorb2)
  have "\<bar>k - (q + 1) * 32767\<bar> \<le> 33 / 64"
    unfolding k_def code using b q by (intro nearest_error) simp_all
  then have *: "\<bar>q - (k / 32767 - 1)\<bar> \<le> (33 / 64) / 32767"
    unfolding distrib_right by linarith
  have "fval Binary32 x - (k / 32767 - 1) * S = (q - (k / 32767 - 1)) * S"
    using S by (simp add: q_def left_diff_distrib)
  then have "\<bar>fval Binary32 x - (k / 32767 - 1) * S\<bar> = \<bar>q - (k / 32767 - 1)\<bar> * S"
    using S by (simp only: abs_mult abs_of_pos)
  also have "\<dots> \<le> (33 / 64) / 32767 * S"
    using * S by (intro mult_right_mono) auto
  finally show ?thesis by (simp only: k_def S_def)
qed

lemma unsigned_code_error:
  assumes s: "scale_ok s" and x: "is_finite Binary32 x" and
    rng: "0 \<le> fval Binary32 x" "fval Binary32 x \<le> fval Binary32 s"
  shows "\<bar>fval Binary32 x - of_nat (unat (unsigned_to_vendor_u16 x s)) / 65535 * fval Binary32 s\<bar>
    \<le> (33 / 64) / 65535 * fval Binary32 s"
proof -
  define S where "S = fval Binary32 s"
  define q where "q = fval Binary32 x / S"
  define k where "k = (of_nat (unat (unsigned_to_vendor_u16 x s)) :: rat)"
  have S: "0 < S" using s by (auto simp: scale_ok_def S_def)
  have q: "0 \<le> q" "q \<le> 1" using rng S by (simp_all add: q_def S_def field_simps)
  obtain b where code: "unat (unsigned_to_vendor_u16 x s) = nat \<lfloor>b + 1 / 2\<rfloor>"
    and b: "\<bar>b - q * 65535\<bar> \<le> 1 / 64"
    using unsigned_to_vendor [OF s x] q unfolding q_def S_def by (metis max_absorb2 min_absorb2)
  have "\<bar>k - q * 65535\<bar> \<le> 33 / 64"
    unfolding k_def code using b q by (intro nearest_error) simp_all
  then have *: "\<bar>q - k / 65535\<bar> \<le> (33 / 64) / 65535"
    by linarith
  have "fval Binary32 x - k / 65535 * S = (q - k / 65535) * S"
    using S by (simp add: q_def left_diff_distrib)
  then have "\<bar>fval Binary32 x - k / 65535 * S\<bar> = \<bar>q - k / 65535\<bar> * S"
    using S by (simp only: abs_mult abs_of_pos)
  also have "\<dots> \<le> (33 / 64) / 65535 * S"
    using * S by (intro mult_right_mono) auto
  finally show ?thesis by (simp only: k_def S_def)
qed

lemma zero_codes:
  assumes s: "scale_ok s" and x: "is_finite Binary32 x" and z: "fval Binary32 x = 0"
  shows "signed_to_vendor_u16 x s = 0x7FFF" and "unsigned_to_vendor_u16 x s = 0"
proof -
  obtain b where code: "unat (signed_to_vendor_u16 x s) = nat \<lfloor>b + 1 / 2\<rfloor>"
    and b: "\<bar>b - (max (- 1) (min 1 (fval Binary32 x / fval Binary32 s)) + 1) * 32767\<bar> \<le> 1 / 64"
    by (rule signed_to_vendor [OF s x])
  then have "nat \<lfloor>b + 1 / 2\<rfloor> = 32767" by (intro nearest_nat) (simp add: z)
  then show "signed_to_vendor_u16 x s = 0x7FFF" using code by (simp add: word_unat_eq_iff)
  obtain b where code: "unat (unsigned_to_vendor_u16 x s) = nat \<lfloor>b + 1 / 2\<rfloor>"
    and b: "\<bar>b - max 0 (min 1 (fval Binary32 x / fval Binary32 s)) * 65535\<bar> \<le> 1 / 64"
    by (rule unsigned_to_vendor [OF s x])
  then have "nat \<lfloor>b + 1 / 2\<rfloor> = 0" by (intro nearest_nat) (simp add: z)
  then show "unsigned_to_vendor_u16 x s = 0" using code by (simp add: word_unat_eq_iff)
qed

section \<open>Validation and packing\<close>

definition mit_in_range :: "mit_command \<Rightarrow> bool" where
  "mit_in_range cmd \<longleftrightarrow>
     (let r = for_motor_type (cmd_motor_type cmd); v = fval Binary32
      in is_finite Binary32 (cmd_position_rad cmd) \<and> is_finite Binary32 (cmd_velocity_rad_s cmd) \<and>
         is_finite Binary32 (cmd_kp cmd) \<and> is_finite Binary32 (cmd_kd cmd) \<and>
         is_finite Binary32 (cmd_torque_ff_nm cmd) \<and>
         \<bar>v (cmd_position_rad cmd)\<bar> \<le> v (position_scale r) \<and>
         \<bar>v (cmd_velocity_rad_s cmd)\<bar> \<le> v (velocity_scale r) \<and>
         0 \<le> v (cmd_kp cmd) \<and> v (cmd_kp cmd) \<le> v (kp_scale r) \<and>
         0 \<le> v (cmd_kd cmd) \<and> v (cmd_kd cmd) \<le> v (kd_scale r) \<and>
         \<bar>v (cmd_torque_ff_nm cmd)\<bar> \<le> v (torque_scale r))"

lemma bounded_signed_Ok:
  assumes "scale_ok s"
  shows "bounded d f v (fnegate s) s = Ok u \<longleftrightarrow>
    is_finite Binary32 v \<and> \<bar>fval Binary32 v\<bar> \<le> fval Binary32 s"
  using assms by (auto simp: scale_ok_def bounded_Ok abs_le_iff)

lemma bounded_unsigned_Ok:
  assumes "scale_ok s"
  shows "bounded d f v (f32_lit 0) s = Ok u \<longleftrightarrow>
    is_finite Binary32 v \<and> 0 \<le> fval Binary32 v \<and> fval Binary32 v \<le> fval Binary32 s"
  using assms by (auto simp: scale_ok_def bounded_Ok)

lemma validate_mit_Ok: "validate_mit cmd = Ok u \<longleftrightarrow> mit_in_range cmd"
  unfolding validate_mit_def mit_in_range_def Let_def
  by (auto simp: rbind_Ok_iff bounded_signed_Ok bounded_unsigned_Ok for_motor_type_ok)

lemma read_write_be:
  "length d = 8 \<Longrightarrow> i + 1 < 8 \<Longrightarrow> read_be_u16 (write_be_u16 d i v) i = v"
  "length (write_be_u16 d i v) = length d"
  "j + 1 < i \<or> i + 1 < j \<Longrightarrow> read_be_u16 (write_be_u16 d i v) j = read_be_u16 d j"
  by (auto simp: read_be_u16_def write_be_u16_def u16_to_be_bytes_def)

lemma encode_mit_Ok:
  assumes "encode_mit cmd = Ok (i, data)"
  defines "r \<equiv> for_motor_type (cmd_motor_type cmd)"
  shows "mit_in_range cmd" and "length data = 8" and
    "i = pack_typed_ext_id OperationControl (signed_to_vendor_u16 (cmd_torque_ff_nm cmd) (torque_scale r))
       (cmd_device_id cmd)" and
    "decode_mit_command_fields i data =
       Some \<lparr>fld_position = signed_to_vendor_u16 (cmd_position_rad cmd) (position_scale r),
             fld_velocity = signed_to_vendor_u16 (cmd_velocity_rad_s cmd) (velocity_scale r),
             fld_kp = unsigned_to_vendor_u16 (cmd_kp cmd) (kp_scale r),
             fld_kd = unsigned_to_vendor_u16 (cmd_kd cmd) (kd_scale r),
             fld_torque_ff = signed_to_vendor_u16 (cmd_torque_ff_nm cmd) (torque_scale r)\<rparr>"
  using assms
  by (auto simp: encode_mit_def rbind_Ok_iff validate_mit_Ok Let_def read_write_be
      decode_mit_command_fields_def frame_simps)

lemma encode_mit_in_range: "mit_in_range cmd \<Longrightarrow> \<exists>i data. encode_mit cmd = Ok (i, data)"
  using validate_mit_Ok [of cmd "()"] by (simp add: encode_mit_def Let_def)

text \<open>
  A code read back in physical units is within 33/64 of one code step of a value: half a
  step of rounding and 1/64 for the single-precision intermediates.
\<close>

definition signed_code_close :: "f32 \<Rightarrow> f32 \<Rightarrow> u16 \<Rightarrow> bool" where
  "signed_code_close x s c \<longleftrightarrow>
     \<bar>fval Binary32 x - (of_nat (unat c) / 32767 - 1) * fval Binary32 s\<bar>
       \<le> (33 / 64) / 32767 * fval Binary32 s"

definition gain_code_close :: "f32 \<Rightarrow> f32 \<Rightarrow> u16 \<Rightarrow> bool" where
  "gain_code_close x s c \<longleftrightarrow>
     \<bar>fval Binary32 x - of_nat (unat c) / 65535 * fval Binary32 s\<bar>
       \<le> (33 / 64) / 65535 * fval Binary32 s"

lemma signed_to_vendor_close:
  "scale_ok s \<Longrightarrow> is_finite Binary32 x \<Longrightarrow> \<bar>fval Binary32 x\<bar> \<le> fval Binary32 s \<Longrightarrow>
     signed_code_close x s (signed_to_vendor_u16 x s)"
  unfolding signed_code_close_def by (rule signed_code_error) (simp_all add: abs_le_iff)

lemma unsigned_to_vendor_close:
  "scale_ok s \<Longrightarrow> is_finite Binary32 x \<Longrightarrow> 0 \<le> fval Binary32 x \<Longrightarrow> fval Binary32 x \<le> fval Binary32 s \<Longrightarrow>
     gain_code_close x s (unsigned_to_vendor_u16 x s)"
  unfolding gain_code_close_def by (rule unsigned_code_error)

section \<open>Properties\<close>

text \<open>C14: an MIT command is admitted exactly when it is in range. Validation accepts a
  command if and only if all five quantities are finite, position, velocity and torque
  feedforward are within plus or minus the model's scale and both gains are between zero
  and their scale; encoding succeeds for exactly those commands.\<close>

theorem mit_validation_exact:
  "(validate_mit cmd = Ok () \<longleftrightarrow> mit_in_range cmd) \<and>
   (is_ok (encode_mit cmd) \<longleftrightarrow> mit_in_range cmd)"
proof -
  have "is_ok (encode_mit cmd) \<longleftrightarrow> validate_mit cmd = Ok ()"
    by (cases "validate_mit cmd") (simp_all add: encode_mit_def Let_def)
  then show ?thesis by (simp add: validate_mit_Ok)
qed

text \<open>C5: what an MIT frame says is what was commanded, up to quantisation. Decoding the
  fields of an encoded command gives position, velocity and torque codes that read back
  within 33/64 of one code step of the commanded values, and gain codes likewise, although
  every intermediate step is single-precision; the frame names the commanded device.\<close>

theorem encode_mit_accuracy:
  assumes "encode_mit cmd = Ok (i, data)"
  shows "\<exists>fl. decode_mit_command_fields i data = Some fl \<and>
    (let r = for_motor_type (cmd_motor_type cmd)
     in signed_code_close (cmd_position_rad cmd) (position_scale r) (fld_position fl) \<and>
        signed_code_close (cmd_velocity_rad_s cmd) (velocity_scale r) (fld_velocity fl) \<and>
        signed_code_close (cmd_torque_ff_nm cmd) (torque_scale r) (fld_torque_ff fl) \<and>
        gain_code_close (cmd_kp cmd) (kp_scale r) (fld_kp fl) \<and>
        gain_code_close (cmd_kd cmd) (kd_scale r) (fld_kd fl)) \<and>
    inbound_motor_device_id i OperationControl = cmd_device_id cmd"
proof -
  note ok = encode_mit_Ok [OF assms]
  have "inbound_motor_device_id i OperationControl = cmd_device_id cmd"
    unfolding ok(3) by (simp add: inbound_pack)
  then show ?thesis
    using ok(1) unfolding ok(4)
    by (simp add: mit_in_range_def Let_def for_motor_type_ok signed_to_vendor_close
        unsigned_to_vendor_close)
qed

text \<open>An RS03 command at rest: zero position, gains and torque.\<close>

definition rest_command :: "u8 \<Rightarrow> mit_command" where
  "rest_command d =
     \<lparr>cmd_device_id = d, cmd_motor_type = Rs03, cmd_position_rad = Flt False 0,
      cmd_velocity_rad_s = Flt False 0, cmd_kp = Flt False 0, cmd_kd = Flt False 0,
      cmd_torque_ff_nm = Flt False 0\<rparr>"

lemma rest_command_in_range: "mit_in_range (rest_command d)"
proof -
  have "0 \<le> fval Binary32 s" if "scale_ok s" for s
    using that by (simp add: scale_ok_def)
  then show ?thesis
    by (simp add: mit_in_range_def rest_command_def Let_def for_motor_type_ok is_finite_def)
qed

theorem encode_mit_accuracy_witness:
  "\<exists>i data fl. encode_mit (rest_command 3) = Ok (i, data) \<and>
     decode_mit_command_fields i data = Some fl \<and>
     signed_code_close (Flt False 0) (f32_lit 60) (fld_torque_ff fl) \<and>
     inbound_motor_device_id i OperationControl = 3"
proof -
  obtain i data where e: "encode_mit (rest_command 3) = Ok (i, data)"
    using encode_mit_in_range [OF rest_command_in_range] by blast
  from encode_mit_accuracy [OF e] obtain fl where "decode_mit_command_fields i data = Some fl"
    "signed_code_close (Flt False 0) (f32_lit 60) (fld_torque_ff fl)"
    "inbound_motor_device_id i OperationControl = 3"
    by (auto simp: Let_def rest_command_def for_motor_type_def)
  with e show ?thesis by blast
qed

text \<open>A command with zero gains and zero torque feedforward is a neutral frame. Its
  gain fields are zero and its torque field is the vendor's zero code, whatever its targets
  are, so the frame cannot produce torque.\<close>

theorem zero_gain_command_is_neutral:
  assumes "encode_mit cmd = Ok (i, data)"
    and "fval Binary32 (cmd_kp cmd) = 0" and "fval Binary32 (cmd_kd cmd) = 0"
    and "fval Binary32 (cmd_torque_ff_nm cmd) = 0"
  shows "\<exists>fl. decode_mit_command_fields i data = Some fl \<and> is_neutral fl \<and>
    fld_torque_ff fl = NEUTRAL_TORQUE"
proof -
  note ok = encode_mit_Ok [OF assms(1)]
  have "is_finite Binary32 (cmd_kp cmd)" "is_finite Binary32 (cmd_kd cmd)"
    "is_finite Binary32 (cmd_torque_ff_nm cmd)"
    using ok(1) by (simp_all add: mit_in_range_def Let_def)
  then show ?thesis
    unfolding ok(4) using assms(2-)
    by (simp add: zero_codes for_motor_type_ok is_neutral_def NEUTRAL_TORQUE_def u16_abs_diff_def)
qed

theorem zero_gain_command_is_neutral_witness:
  "\<exists>i data fl. encode_mit (rest_command 3) = Ok (i, data) \<and>
     decode_mit_command_fields i data = Some fl \<and> is_neutral fl"
proof -
  obtain i data where e: "encode_mit (rest_command 3) = Ok (i, data)"
    using encode_mit_in_range [OF rest_command_in_range] by blast
  from zero_gain_command_is_neutral [OF e] have
    "\<exists>fl. decode_mit_command_fields i data = Some fl \<and> is_neutral fl"
    by (auto simp: rest_command_def)
  with e show ?thesis by blast
qed

text \<open>C12: every code a drive can report inside its range is reproduced by the encoder. For
  each model and each signed field, encoding a decoded code gives the code back; the one
  code above the range, 65535, is clamped to 65534. Decoding is therefore injective on the
  vendor grid in spite of single-precision rounding.\<close>

theorem vendor_code_roundtrip:
  "signed_to_vendor_u16 (vendor_u16_to_signed c (position_scale (for_motor_type ty)))
     (position_scale (for_motor_type ty)) = min c 65534 \<and>
   signed_to_vendor_u16 (vendor_u16_to_signed c (velocity_scale (for_motor_type ty)))
     (velocity_scale (for_motor_type ty)) = min c 65534 \<and>
   signed_to_vendor_u16 (vendor_u16_to_signed c (torque_scale (for_motor_type ty)))
     (torque_scale (for_motor_type ty)) = min c 65534"
  by (simp add: signed_roundtrip for_motor_type_ok)

end
