(* ===== verification/Robstride_Wire.thy ===== *)
theory Robstride_Wire
  imports Robstride_Mit
begin

unbundle bit_operations_syntax

text \<open>
  \<open>crates/robstride/src/wire.rs\<close>: direction-aware classification of one captured frame.
  Types 0, 17 and 24 travel both ways, so the direction follows from where the host id
  sits. The lemmas relate the classifier to the encoders of the other theories.
\<close>

datatype host_command =
    HostGetDeviceId
  | HostMit mit_command_fields
  | HostEnable
  | HostDisable
  | HostSetZero
  | HostReadParameter u16
  | HostWriteParameter u16
  | HostActiveReporting bool

datatype drive_frame =
    DriveStatus drive_mode u8
  | DriveReport drive_mode u8
  | DriveFaultReport
  | DriveIdentity
  | DriveParameterRead u16 u8

fun drive_frame_mode :: "drive_frame \<Rightarrow> drive_mode option" where
  "drive_frame_mode (DriveStatus m _) = Some m"
| "drive_frame_mode (DriveReport m _) = Some m"
| "drive_frame_mode _ = None"

datatype wire_frame =
    WireHost u8 host_command
  | WireDrive u8 drive_frame

definition classify_frame :: "u8 \<Rightarrow> u32 \<Rightarrow> u8 list \<Rightarrow> wire_frame option" where
  "classify_frame host_id can_id payload =
     (if length payload \<noteq> 8 then None
      else Option.bind (unpack_ext_id can_id) (\<lambda>ext.
      Option.bind (comm_from_u8 (comm_type ext)) (\<lambda>comm.
      let extra_high = ucast (drop_bit 8 (extra_data ext)) :: u8;
          extra_low = ucast (extra_data ext AND 0xFF) :: u8;
          mode = drive_mode_from_can_id can_id;
          flags = extra_high AND 0x3F;
          from_host = (extra_low = host_id \<and> extra_high = 0);
          host = (\<lambda>c. Some (WireHost (device_id ext) c));
          drive = (\<lambda>d fr. Some (WireDrive d fr))
      in case comm of
           GetDeviceId \<Rightarrow>
             (case decode_device_id_reply can_id payload of
                Some reply \<Rightarrow> drive (reply_device_id reply) DriveIdentity
              | None \<Rightarrow> if from_host then host HostGetDeviceId else None)
         | OperationControl \<Rightarrow>
             Option.bind (decode_mit_command_fields can_id payload) (\<lambda>fl. host (HostMit fl))
         | Enable \<Rightarrow> if from_host then host HostEnable else None
         | Disable \<Rightarrow> if from_host then host HostDisable else None
         | SetZeroPosition \<Rightarrow> if from_host then host HostSetZero else None
         | WriteParameter \<Rightarrow>
             if from_host then
               host (HostWriteParameter (u16_from_le_bytes (payload ! 0) (payload ! 1)))
             else None
         | ReadParameter \<Rightarrow>
             (case decode_read_parameter_reply host_id can_id payload of
                Some reply \<Rightarrow>
                  drive (prr_device_id reply) (DriveParameterRead (prr_index reply) (prr_status reply))
              | None \<Rightarrow>
                  if from_host then
                    host (HostReadParameter (u16_from_le_bytes (payload ! 0) (payload ! 1)))
                  else None)
         | ActiveReporting \<Rightarrow>
             if from_host then host (HostActiveReporting (payload ! 6 = 0x01))
             else if device_id ext = host_id then drive extra_low (DriveReport mode flags)
             else None
         | OperationStatus \<Rightarrow>
             if device_id ext = host_id then drive extra_low (DriveStatus mode flags) else None
         | FaultReport \<Rightarrow>
             if device_id ext = host_id then drive extra_low DriveFaultReport else None)))"

lemma from_host_ucast:
  "ucast (drop_bit 8 (extra_data \<lparr>comm_type = c, extra_data = ucast (h :: u8), device_id = d\<rparr>)) = (0 :: u8)"
  "ucast (extra_data \<lparr>comm_type = c, extra_data = ucast (h :: u8), device_id = d\<rparr> AND 0xFF) = h"
  by simp_all

lemma decode_read_own_request:
  "h \<noteq> d \<Longrightarrow> decode_read_parameter_reply h (pack_typed_ext_id ReadParameter (ucast h) d) data = None"
  by (simp add: decode_read_parameter_reply_def frame_simps)

lemma word_high_byte_zero:
  fixes e :: u16
  assumes "ucast (drop_bit 8 e) = (0 :: u8)"
  shows "e = ucast (ucast (e AND 0xFF) :: u8)"
proof (rule bit_word_eqI)
  fix n
  assume n: "n < LENGTH(16)"
  have hi: "\<not> bit e (8 + k)" if "k < 8" for k
    using arg_cong [OF assms, of "\<lambda>w. bit w k"] that by (simp add: bit_simps)
  show "bit e n = bit (ucast (ucast (e AND 0xFF) :: u8) :: u16) n"
  proof (cases "n < 8")
    case True
    then show ?thesis using n unfolding mask_words by (simp add: bit_simps)
  next
    case False
    then have "n = 8 + (n - 8)" "n - 8 < 8" using n by simp_all
    then have "\<not> bit e n" using hi by metis
    then show ?thesis using False by (simp add: bit_simps)
  qed
qed

section \<open>Properties\<close>

text \<open>The classifier recognises this host's own frames. Every frame the encoders build
  for a host and a drive is classified as that command to that drive, as long as
  the drive's id is neither the identity marker (for identity requests) nor the host's own
  id (for register reads).\<close>

theorem classify_own_frames:
  assumes "d \<noteq> DEVICE_ID_REPLY_MARKER" and "d \<noteq> h"
  shows "(\<lambda>(i, p). classify_frame h i p) (encode_enable h d) = Some (WireHost d HostEnable) \<and>
    (\<lambda>(i, p). classify_frame h i p) (encode_disable h d) = Some (WireHost d HostDisable) \<and>
    (\<lambda>(i, p). classify_frame h i p) (encode_fault_clear h d) = Some (WireHost d HostDisable) \<and>
    (\<lambda>(i, p). classify_frame h i p) (encode_set_zero_position h d) = Some (WireHost d HostSetZero) \<and>
    (\<lambda>(i, p). classify_frame h i p) (encode_active_reporting h d on) =
      Some (WireHost d (HostActiveReporting on)) \<and>
    (\<lambda>(i, p). classify_frame h i p) (encode_get_device_id h d) = Some (WireHost d HostGetDeviceId) \<and>
    (\<lambda>(i, p). classify_frame h i p) (encode_get_firmware_version h d) = Some (WireHost d HostDisable) \<and>
    (\<lambda>(i, p). classify_frame h i p) (encode_read_parameter h d r) =
      Some (WireHost d (HostReadParameter (param_as_u16 r))) \<and>
    (\<lambda>(i, p). classify_frame h i p) (encode_parameter_bytes h d r v) =
      Some (WireHost d (HostWriteParameter (param_as_u16 r)))"
proof -
  have wl: "length (snd (encode_parameter_bytes h d r v)) = 8" by simp
  have w: "snd (encode_parameter_bytes h d r v) ! 0 = ucast (param_as_u16 r)"
    "snd (encode_parameter_bytes h d r v) ! 1 = ucast (drop_bit 8 (param_as_u16 r))"
    "fst (encode_parameter_bytes h d r v) = pack_typed_ext_id WriteParameter (ucast h) d"
    by (simp_all add: encode_parameter_bytes_def u16_to_le_bytes_def)
  show ?thesis
    using assms wl w
    by (simp add: classify_frame_def frame_simps encode_enable_def encode_disable_def empty_frame_def
        encode_fault_clear_def encode_set_zero_position_def SET_ZERO_DATA_def
        encode_active_reporting_def encode_get_device_id_def encode_get_firmware_version_def
        encode_read_parameter_def u16_to_le_bytes_def decode_device_id_reply_def
        decode_read_own_request split_beta Let_def)
qed

theorem classify_own_frames_witness:
  "(\<lambda>(i, p). classify_frame 0xFD i p) (encode_enable 0xFD 3) = Some (WireHost 3 HostEnable) \<and>
   (\<lambda>(i, p). classify_frame 0xFD i p) (encode_read_parameter 0xFD 3 MechPos) =
     Some (WireHost 3 (HostReadParameter 0x7019))"
  using classify_own_frames [of 3 "0xFD" True MechPos "ValU8 0"]
  by (simp add: DEVICE_ID_REPLY_MARKER_def)

text \<open>The direction the classifier reports is the one the identifier carries. A frame
  attributed to a drive names it in bits 8..15 and is addressed to this host, or is an
  identity reply; a frame attributed to the host names its target in the low byte and, MIT
  commands apart (they carry no host id), carries this host's id in bits 8..23.\<close>

theorem classify_direction:
  "(classify_frame h i p = Some (WireDrive d fr) \<longrightarrow>
      ucast (drop_bit 8 i AND 0xFF) = d \<and>
      (ucast (i AND 0xFF) = h \<or> fr = DriveIdentity \<and> ucast (i AND 0xFF) = DEVICE_ID_REPLY_MARKER)) \<and>
   (classify_frame h i p = Some (WireHost d c) \<longrightarrow>
      ucast (i AND 0xFF) = d \<and>
      ((\<exists>fl. c = HostMit fl) \<or> ucast (drop_bit 8 i AND 0xFFFF) = (ucast h :: u16)))"
proof -
  have low: "device_id x = ucast (i AND 0xFF)"
    and extra: "extra_data x = ucast (drop_bit 8 i AND 0xFFFF)"
    and second: "ucast (extra_data x AND 0xFF) = (ucast (drop_bit 8 i AND 0xFF) :: u8)"
    if "unpack_ext_id i = Some x" for x
  proof -
    from that show d: "device_id x = ucast (i AND 0xFF)"
      and e: "extra_data x = ucast (drop_bit 8 i AND 0xFFFF)"
      by (auto simp: unpack_ext_id_def split: if_splits)
    show "ucast (extra_data x AND 0xFF) = (ucast (drop_bit 8 i AND 0xFF) :: u8)"
      unfolding e mask_words by (auto simp: bit_eq_iff bit_simps)
  qed
  have reply: "reply_device_id r = ucast (drop_bit 8 i AND 0xFF) \<and>
      ucast (i AND 0xFF) = DEVICE_ID_REPLY_MARKER" if "decode_device_id_reply i p = Some r" for r
    using that low second by (auto simp: decode_device_id_reply_def bind_eq_Some_conv split: if_splits)
  have read: "prr_device_id r = ucast (drop_bit 8 i AND 0xFF) \<and> ucast (i AND 0xFF) = h"
    if "decode_read_parameter_reply h i p = Some r" for r
    using that low second by (auto simp: decode_read_parameter_reply_def bind_eq_Some_conv split: if_splits)
  have own: "ucast (drop_bit 8 i AND 0xFFFF) = (ucast h :: u16)"
    if "unpack_ext_id i = Some x" "ucast (drop_bit 8 (extra_data x)) = (0 :: u8)"
      "ucast (extra_data x AND 0xFF) = h" for x
    using word_high_byte_zero [OF that(2)] that(3) extra [OF that(1)] by simp
  have ?thesis if x: "unpack_ext_id i = Some x" and c: "comm_from_u8 (comm_type x) = Some ct" for x ct
    using low [OF x] second [OF x] own [OF x] reply read
    by (cases ct) (auto simp: classify_frame_def x c Let_def bind_eq_Some_conv
        split: if_splits option.splits)
  then show ?thesis
    by (cases "unpack_ext_id i") (auto simp: classify_frame_def bind_eq_Some_conv)
qed

theorem classify_direction_witness:
  "classify_frame 0xFD 0x028003FD zero8 = Some (WireDrive 3 (DriveStatus Run 0)) \<and>
   ucast (drop_bit 8 (0x028003FD :: u32) AND 0xFF) = (3 :: u8)"
proof -
  have "classify_frame 0xFD 0x028003FD zero8 = Some (WireDrive 3 (DriveStatus Run 0))"
    by (simp add: classify_frame_def unpack_ext_id_def EXTENDED_ID_MASK_def drive_mode_from_can_id_def)
  with classify_direction [of "0xFD" "0x028003FD" zero8 3 "DriveStatus Run 0"] show ?thesis
    by blast
qed

end
