(* ===== verification/Robstride_RxTime.thy ===== *)
theory Robstride_RxTime
  imports Prelude
begin

text \<open>
  \<open>crates/robstride/src/rx_time.rs\<close>: kernel receive times carried onto the host's
  monotonic clock. A stamp never lies after the read and never before a floor the frame
  provably postdates; the lemmas extend this to whole runs of reads on one socket.
\<close>

definition MAX_KERNEL_RX_AGE :: duration where "MAX_KERNEL_RX_AGE = secs 1"

record rx_timestamp_counts =
  rx_kernel :: u64
  rx_floored :: u64
  rx_missing :: u64
  rx_clock_backward :: u64
  rx_stale :: u64

definition rx_counts_default :: rx_timestamp_counts where
  "rx_counts_default =
     \<lparr>rx_kernel = 0, rx_floored = 0, rx_missing = 0, rx_clock_backward = 0, rx_stale = 0\<rparr>"

definition rx_anomalies :: "rx_timestamp_counts \<Rightarrow> u64" where
  "rx_anomalies c = rx_missing c + rx_clock_backward c + rx_stale c"

datatype rx_stamp_source = StampKernel | StampFloored | StampMissing | StampClockBackward | StampStale

definition map_kernel_rx_time ::
    "system_time option \<Rightarrow> system_time \<Rightarrow> instant \<Rightarrow> instant \<Rightarrow> instant \<times> rx_stamp_source" where
  "map_kernel_rx_time kern wall_at_read read_instant floor0 =
     (let floor' = min floor0 read_instant
      in case kern of
           None \<Rightarrow> (read_instant, StampMissing)
         | Some k \<Rightarrow>
             if wall_at_read < k then (read_instant, StampClockBackward)
             else let age = nat (wall_at_read - k); stale = MAX_KERNEL_RX_AGE < age
                  in case time_checked_sub read_instant age of
                       Some at \<Rightarrow>
                         if floor' \<le> at then (at, if stale then StampStale else StampKernel)
                         else (floor', if stale then StampStale else StampFloored)
                     | None \<Rightarrow> (floor', if stale then StampStale else StampFloored))"

definition wall_time_from_timespec :: "u64 \<Rightarrow> u32 \<Rightarrow> system_time option" where
  "wall_time_from_timespec seconds nanoseconds =
     (if 1000000000 \<le> nanoseconds \<or> (seconds = 0 \<and> nanoseconds = 0) then None
      else time_checked_add 0 (unat seconds * 1000000000 + unat nanoseconds))"

record rx_clock =
  rxc_floor :: instant
  rxc_counts :: rx_timestamp_counts

definition rx_clock_new :: "instant \<Rightarrow> rx_clock" where
  "rx_clock_new opened = \<lparr>rxc_floor = opened, rxc_counts = rx_counts_default\<rparr>"

definition observe_empty :: "instant \<Rightarrow> rx_clock \<Rightarrow> rx_clock" where
  "observe_empty before_read c = c\<lparr>rxc_floor := max (rxc_floor c) before_read\<rparr>"

definition is_power_of_two :: "u64 \<Rightarrow> bool" where
  "is_power_of_two n \<longleftrightarrow> n \<noteq> 0 \<and> and n (n - 1) = 0"

fun count_source :: "rx_stamp_source \<Rightarrow> rx_timestamp_counts \<Rightarrow> rx_timestamp_counts \<times> bool" where
  "count_source StampKernel c = (c\<lparr>rx_kernel := rx_kernel c + 1\<rparr>, False)"
| "count_source StampFloored c = (c\<lparr>rx_floored := rx_floored c + 1\<rparr>, False)"
| "count_source StampMissing c = (c\<lparr>rx_missing := rx_missing c + 1\<rparr>, True)"
| "count_source StampClockBackward c = (c\<lparr>rx_clock_backward := rx_clock_backward c + 1\<rparr>, True)"
| "count_source StampStale c = (c\<lparr>rx_stale := rx_stale c + 1\<rparr>, True)"

text \<open>The stamp, whether it is logged, and the clock afterwards.\<close>

definition rx_stamp ::
    "system_time option \<Rightarrow> system_time \<Rightarrow> instant \<Rightarrow> rx_clock \<Rightarrow> instant \<times> bool \<times> rx_clock" where
  "rx_stamp kern wall_at_read read_instant c =
     (let (at, source) = map_kernel_rx_time kern wall_at_read read_instant (rxc_floor c);
          (counts, anomaly) = count_source source (rxc_counts c)
      in (at, anomaly \<and> is_power_of_two (rx_anomalies counts),
          \<lparr>rxc_floor = max (rxc_floor c) at, rxc_counts = counts\<rparr>))"

section \<open>Runs of one socket\<close>

text \<open>
  What happens on a socket: a read that began at some instant finds the queue empty, or a
  frame is read with an optional kernel time. The stamps of a run, oldest first.
\<close>

datatype rx_event =
    RxEmpty instant
  | RxFrame "system_time option" system_time instant

fun rx_event_time :: "rx_event \<Rightarrow> instant" where
  "rx_event_time (RxEmpty t) = t"
| "rx_event_time (RxFrame _ _ t) = t"

fun rx_run :: "rx_clock \<Rightarrow> rx_event list \<Rightarrow> instant list" where
  "rx_run c [] = []"
| "rx_run c (RxEmpty t # es) = rx_run (observe_empty t c) es"
| "rx_run c (RxFrame k w t # es) =
     (let (at, _, c') = rx_stamp k w t c in at # rx_run c' es)"

section \<open>One stamp\<close>

lemma map_kernel_rx_time_bounds:
  "min floor0 r \<le> fst (map_kernel_rx_time k w r floor0)"
  "fst (map_kernel_rx_time k w r floor0) \<le> r"
  by (auto simp: map_kernel_rx_time_def Let_def time_checked_sub_def split: option.splits)

lemma map_kernel_rx_time_exact:
  assumes "k \<le> w" and "floor0 \<le> r - (w - k)" and "time_min \<le> r - (w - k)"
  shows "fst (map_kernel_rx_time (Some k) w r floor0) = r - (w - k)"
  using assms by (auto simp: map_kernel_rx_time_def Let_def time_checked_sub_def)

lemma rx_stamp_fst: "fst (rx_stamp k w r c) = fst (map_kernel_rx_time k w r (rxc_floor c))"
  by (simp add: rx_stamp_def split_beta Let_def)

lemma rx_stamp_floor:
  "rxc_floor (snd (snd (rx_stamp k w r c))) = max (rxc_floor c) (fst (rx_stamp k w r c))"
  by (simp add: rx_stamp_def split_beta Let_def)

lemma rx_run_frame:
  "rx_run c (RxFrame k w t # es) =
     fst (rx_stamp k w t c) # rx_run (snd (snd (rx_stamp k w t c))) es"
  by (simp add: split_beta)

declare rx_run.simps(3) [simp del]
declare rx_run_frame [simp]

lemma rx_run_lower:
  assumes "sorted (t0 # map rx_event_time es)" and "rxc_floor c \<le> t0"
  shows "\<forall>a \<in> set (rx_run c es). rxc_floor c \<le> a"
  using assms
proof (induction es arbitrary: c t0)
  case Nil
  then show ?case by simp
next
  case (Cons e es)
  show ?case
  proof (cases e)
    case (RxEmpty t)
    have "sorted (t # map rx_event_time es)" "rxc_floor (observe_empty t c) \<le> t"
      using Cons.prems RxEmpty by (simp_all add: observe_empty_def)
    note ih = Cons.IH [OF this]
    have "rxc_floor c \<le> rxc_floor (observe_empty t c)" by (simp add: observe_empty_def)
    with ih show ?thesis unfolding RxEmpty rx_run.simps(2) by (meson order_trans)
  next
    case (RxFrame k w t)
    let ?c = "snd (snd (rx_stamp k w t c))"
    have at: "rxc_floor c \<le> fst (rx_stamp k w t c)" "fst (rx_stamp k w t c) \<le> t"
      using map_kernel_rx_time_bounds(1) [of "rxc_floor c" t k w]
        map_kernel_rx_time_bounds(2) [of k w t "rxc_floor c"] Cons.prems RxFrame
      by (simp_all add: rx_stamp_fst)
    have "sorted (t # map rx_event_time es)" "rxc_floor ?c \<le> t"
      using Cons.prems RxFrame at by (simp_all add: rx_stamp_floor)
    note ih = Cons.IH [OF this]
    have "rxc_floor c \<le> rxc_floor ?c" by (simp add: rx_stamp_floor)
    with ih at show ?thesis unfolding RxFrame rx_run_frame by (metis order_trans set_ConsD)
  qed
qed

lemma rx_run_sorted:
  assumes "sorted (t0 # map rx_event_time es)" and "rxc_floor c \<le> t0"
  shows "sorted (rx_run c es)"
  using assms
proof (induction es arbitrary: c t0)
  case Nil
  then show ?case by simp
next
  case (Cons e es)
  show ?case
  proof (cases e)
    case (RxEmpty t)
    have "sorted (t # map rx_event_time es)" "rxc_floor (observe_empty t c) \<le> t"
      using Cons.prems RxEmpty by (simp_all add: observe_empty_def)
    from Cons.IH [OF this] show ?thesis using RxEmpty by simp
  next
    case (RxFrame k w t)
    let ?c = "snd (snd (rx_stamp k w t c))"
    have at: "rxc_floor c \<le> fst (rx_stamp k w t c)" "fst (rx_stamp k w t c) \<le> t"
      using map_kernel_rx_time_bounds(1) [of "rxc_floor c" t k w]
        map_kernel_rx_time_bounds(2) [of k w t "rxc_floor c"] Cons.prems RxFrame
      by (simp_all add: rx_stamp_fst)
    have fl: "rxc_floor ?c \<le> t" and s: "sorted (t # map rx_event_time es)"
      using at Cons.prems RxFrame by (simp_all add: rx_stamp_floor)
    have "\<forall>a \<in> set (rx_run ?c es). fst (rx_stamp k w t c) \<le> a"
      using rx_run_lower [OF s fl] by (auto simp: rx_stamp_floor)
    then show ?thesis
      using RxFrame Cons.IH [OF s fl] by simp
  qed
qed

fun rx_reads :: "rx_event list \<Rightarrow> instant list" where
  "rx_reads [] = []"
| "rx_reads (RxEmpty _ # es) = rx_reads es"
| "rx_reads (RxFrame _ _ t # es) = t # rx_reads es"

lemma rx_run_upper: "list_all2 (\<le>) (rx_run c es) (rx_reads es)"
proof (induction es arbitrary: c rule: rx_reads.induct)
  case (3 k w t es)
  then show ?case
    using map_kernel_rx_time_bounds(2) by (simp add: rx_stamp_fst)
qed simp_all

section \<open>Properties\<close>

text \<open>C17: receive stamps of one socket are ordered and bounded. When the host instants of
  a socket's reads do not decrease and none precedes its opening, the stamps are
  non-decreasing in delivery order, each at most its own read time and none before the
  opening, whatever the kernel's wall-clock stamps claim (steps of the realtime clock in
  either direction included).\<close>

theorem rx_stamps_ordered:
  assumes "sorted (opened # map rx_event_time es)"
  shows "sorted (rx_run (rx_clock_new opened) es) \<and>
    list_all2 (\<le>) (rx_run (rx_clock_new opened) es) (rx_reads es) \<and>
    list_all (\<lambda>a. opened \<le> a) (rx_run (rx_clock_new opened) es)"
proof (intro conjI)
  have fl: "rxc_floor (rx_clock_new opened) \<le> opened" by (simp add: rx_clock_new_def)
  show "sorted (rx_run (rx_clock_new opened) es)"
    by (rule rx_run_sorted [OF assms fl])
  show "list_all2 (\<le>) (rx_run (rx_clock_new opened) es) (rx_reads es)"
    by (rule rx_run_upper)
  show "list_all (\<lambda>a. opened \<le> a) (rx_run (rx_clock_new opened) es)"
    using rx_run_lower [OF assms fl] by (simp add: list_all_iff rx_clock_new_def)
qed

theorem rx_stamps_ordered_witness:
  "sorted (rx_run (rx_clock_new 10) [RxEmpty 12, RxFrame (Some 5) 100 20, RxFrame (Some 200) 110 30])"
proof -
  have "sorted ((10::int) # map rx_event_time
      [RxEmpty 12, RxFrame (Some 5) 100 20, RxFrame (Some 200) 110 30])" by simp
  from rx_stamps_ordered [OF this] show ?thesis by blast
qed

text \<open>A plausible kernel time is carried over exactly. If the kernel's stamp is not
  after the wall clock at the read and the mapped instant does not precede the floor, the
  stamp is the read instant minus the frame's age, it is counted as a kernel stamp when the
  age is at most one second and as stale otherwise, and a missing stamp or one from the
  future falls back to the read instant.\<close>

theorem kernel_time_mapping:
  "(k \<le> w \<and> rxc_floor c \<le> r - (w - k) \<and> time_min \<le> r - (w - k) \<longrightarrow>
      fst (rx_stamp (Some k) w r c) = r - (w - k) \<and>
      rxc_counts (snd (snd (rx_stamp (Some k) w r c))) =
        fst (count_source (if w - k \<le> 1000000000 then StampKernel else StampStale) (rxc_counts c))) \<and>
   (w < k \<longrightarrow> fst (rx_stamp (Some k) w r c) = r) \<and>
   fst (rx_stamp None w r c) = r"
  by (auto simp: rx_stamp_def map_kernel_rx_time_def time_checked_sub_def Let_def
      MAX_KERNEL_RX_AGE_def secs_def split_beta)

theorem kernel_time_mapping_witness:
  "fst (rx_stamp (Some 95) 100 20 (rx_clock_new 10)) = 15 \<and>
   fst (rx_stamp (Some 101) 100 20 (rx_clock_new 10)) = 20"
  using kernel_time_mapping [of 95 100 "rx_clock_new 10" 20]
    kernel_time_mapping [of 101 100 "rx_clock_new 10" 20]
  by (simp add: rx_clock_new_def time_min_def)

end
