(* ===== verification/Robstride_Receive.thy ===== *)
theory Robstride_Receive
  imports Robstride_Mit Robstride_RxTime
begin

unbundle bit_operations_syntax

text \<open>
  The transport vocabulary of \<open>crates/robstride/src/bus.rs\<close> (frames, addresses, errors, the
  \<open>CanBus\<close> trait) and the bounded nonblocking receive engine of \<open>receive.rs\<close>.

  A bus implementation is a record of its trait methods over its state type, so that the
  engine is one definition for every bus. The host clock is an argument: \<open>clk n\<close> is what the
  \<open>n\<close>-th call of \<open>Instant::now()\<close> returns. Nothing is assumed of it.
\<close>

section \<open>Frames, addresses and errors\<close>

datatype receive_completion = CompIdle | CompQuiet | WorkLimit | CompDeadline | CompFailed

definition is_complete :: "receive_completion \<Rightarrow> bool" where
  "is_complete c \<longleftrightarrow> c \<in> {CompIdle, CompQuiet}"

datatype malformed_reason = PayloadLength u8 | NonDataFrame | InvalidEnvelope

record motor_address =
  addr_interface :: string
  addr_device_id :: u8

definition motor_address_new :: "string \<Rightarrow> u8 \<Rightarrow> motor_address" where
  "motor_address_new i d = \<lparr>addr_interface = i, addr_device_id = d\<rparr>"

datatype bus_error =
    InvalidCommand command_error
  | SendError string bool
  | InterfaceOwned string
  | UnknownJoint string
  | UnknownMotorAddress string u8
  | DuplicateMotorAddress string u8
  | DuplicateCommand u8
  | CommandAddressMismatch motor_address u8
  | DriverError string
  | RecvTimeout
  | ReceiveIncomplete receive_completion
  | MalformedFeedbackError motor_address malformed_reason

record can_frame =
  cf_id :: u32
  cf_data :: "u8 list"
  cf_extended :: bool

record addressed_mit_command =
  amc_address :: motor_address
  amc_command :: mit_command

datatype rx_frame_kind = RxData | RxRemote u8 | RxError

record received_can_frame =
  rx_interface :: "string option"
  rx_frame :: can_frame
  rx_payload_len :: u8
  rx_kind :: rx_frame_kind

definition full_data :: "string option \<Rightarrow> can_frame \<Rightarrow> received_can_frame" where
  "full_data i fr = \<lparr>rx_interface = i, rx_frame = fr, rx_payload_len = 8, rx_kind = RxData\<rparr>"

definition new_data ::
    "string option \<Rightarrow> u32 \<Rightarrow> bool \<Rightarrow> u8 list \<Rightarrow> (received_can_frame, bus_error) result" where
  "new_data i can_id extended payload =
     (if 8 < length payload then Err (DriverError ''classic CAN payload exceeds eight bytes'')
      else Ok \<lparr>rx_interface = i,
               rx_frame = \<lparr>cf_id = can_id, cf_data = payload @ replicate (8 - length payload) 0,
                           cf_extended = extended\<rparr>,
               rx_payload_len = of_nat (length payload), rx_kind = RxData\<rparr>)"

definition new_remote ::
    "string option \<Rightarrow> u32 \<Rightarrow> bool \<Rightarrow> u8 \<Rightarrow> (received_can_frame, bus_error) result" where
  "new_remote i can_id extended requested_len =
     (if 8 < requested_len then Err (DriverError ''classic remote request exceeds eight bytes'')
      else Ok \<lparr>rx_interface = i,
               rx_frame = \<lparr>cf_id = can_id, cf_data = zero8, cf_extended = extended\<rparr>,
               rx_payload_len = 0, rx_kind = RxRemote requested_len\<rparr>)"

definition rx_payload :: "received_can_frame \<Rightarrow> u8 list option" where
  "rx_payload r =
     (if 8 < rx_payload_len r then None
      else case rx_kind r of
          RxRemote requested_len \<Rightarrow>
            if requested_len \<le> 8 \<and> rx_payload_len r = 0 then Some [] else None
        | _ \<Rightarrow> Some (take (unat (rx_payload_len r)) (cf_data (rx_frame r))))"

record timed_can_frame =
  tf_received_at :: instant
  tf_received :: received_can_frame

datatype receive_attempt =
    AttemptFrame timed_can_frame
  | AttemptIgnored
  | AttemptIdle
  | AttemptInterrupted

section \<open>The bus interface\<close>

text \<open>
  The required and provided methods of the \<open>CanBus\<close> trait over a bus state \<open>'b\<close>; a
  receive is given the host clock at the call.
\<close>

record 'b can_bus =
  bus_send_frame :: "can_frame \<Rightarrow> 'b \<Rightarrow> (unit, bus_error) result \<times> 'b"
  bus_recv_one :: "instant \<Rightarrow> 'b \<Rightarrow> (receive_attempt, bus_error) result \<times> 'b"
  bus_source_count :: "'b \<Rightarrow> nat"
  bus_begin_receive :: "'b \<Rightarrow> 'b"
  bus_echoes :: "'b \<Rightarrow> bool"
  bus_validate_address :: "motor_address \<Rightarrow> 'b \<Rightarrow> (unit, bus_error) result"
  bus_send_frame_to :: "motor_address \<Rightarrow> can_frame \<Rightarrow> 'b \<Rightarrow> (unit, bus_error) result \<times> 'b"

section \<open>The receive engine\<close>

definition MAX_RX_FRAMES_PER_POLL :: nat where "MAX_RX_FRAMES_PER_POLL = 64"
definition MAX_RX_ATTEMPTS_PER_POLL :: nat where "MAX_RX_ATTEMPTS_PER_POLL = 256"

record receive_limits =
  lim_max_frames :: nat
  lim_max_attempts :: nat
  lim_deadline :: "instant option"

definition receive_limits_default :: receive_limits where
  "receive_limits_default =
     \<lparr>lim_max_frames = MAX_RX_FRAMES_PER_POLL, lim_max_attempts = MAX_RX_ATTEMPTS_PER_POLL,
      lim_deadline = None\<rparr>"

record raw_receive_report =
  rr_frames :: "timed_can_frame list"
  rr_ignored_frames :: nat
  rr_completion :: receive_completion
  rr_read_attempts :: nat
  rr_terminal_error :: "bus_error option"
  rr_terminal_error_order :: "nat option"

definition raw_report_default :: raw_receive_report where
  "raw_report_default =
     \<lparr>rr_frames = [], rr_ignored_frames = 0, rr_completion = CompIdle, rr_read_attempts = 0,
      rr_terminal_error = None, rr_terminal_error_order = None\<rparr>"

text \<open>The local variables of the loop; \<open>ds_clk\<close> counts the clock readings so far.\<close>

record 'b drain_state =
  ds_report :: raw_receive_report
  ds_round_attempts :: nat
  ds_round_idle :: bool
  ds_last_round_idle :: bool
  ds_last_frame_at :: "instant option"
  ds_clk :: nat
  ds_bus :: 'b

text \<open>One read attempt and the bookkeeping of its outcome.\<close>

definition drain_read ::
    "'b can_bus \<Rightarrow> (nat \<Rightarrow> instant) \<Rightarrow> duration \<Rightarrow> 'b drain_state \<Rightarrow> 'b drain_state" where
  "drain_read ops clk budget s =
     (let rep = (ds_report s)\<lparr>rr_read_attempts := rr_read_attempts (ds_report s) + 1\<rparr>;
          (res, bus) = bus_recv_one ops (clk (ds_clk s)) (ds_bus s);
          s1 = s\<lparr>ds_report := rep, ds_round_attempts := ds_round_attempts s + 1,
                 ds_bus := bus, ds_clk := ds_clk s + 1\<rparr>
      in case res of
           Inr (AttemptFrame fr) \<Rightarrow>
             s1\<lparr>ds_last_frame_at := (if budget \<noteq> 0 then Some (clk (ds_clk s1)) else ds_last_frame_at s1),
                ds_clk := (if budget \<noteq> 0 then ds_clk s1 + 1 else ds_clk s1),
                ds_report := rep\<lparr>rr_frames := rr_frames rep @ [fr]\<rparr>, ds_round_idle := False\<rparr>
         | Inr AttemptIgnored \<Rightarrow>
             s1\<lparr>ds_report := rep\<lparr>rr_ignored_frames := rr_ignored_frames rep + 1\<rparr>, ds_round_idle := False\<rparr>
         | Inr AttemptIdle \<Rightarrow> s1
         | Inr AttemptInterrupted \<Rightarrow> s1\<lparr>ds_round_idle := False\<rparr>
         | Inl e \<Rightarrow>
             s1\<lparr>ds_round_idle := False,
                ds_report :=
                  (if rr_terminal_error rep = None then
                     rep\<lparr>rr_terminal_error_order := Some (length (rr_frames rep) + rr_ignored_frames rep),
                         rr_terminal_error := Some e\<rparr>
                   else rep)\<rparr>)"

definition finish :: "receive_completion \<Rightarrow> 'b drain_state \<Rightarrow> raw_receive_report \<times> 'b" where
  "finish c s = ((ds_report s)\<lparr>rr_completion := c\<rparr>, ds_bus s)"

definition next_round :: "'b drain_state \<Rightarrow> 'b drain_state" where
  "next_round s = s\<lparr>ds_round_attempts := 0, ds_round_idle := True\<rparr>"

text \<open>
  The end of a round: every source was visited once. \<open>Inl\<close> is a return, \<open>Inr\<close> the state
  for the next round; waiting only lets the clock advance.
\<close>

definition drain_round_end ::
    "(nat \<Rightarrow> instant) \<Rightarrow> duration \<Rightarrow> duration \<Rightarrow> instant option \<Rightarrow> nat \<Rightarrow> nat \<Rightarrow>
     'b drain_state \<Rightarrow> (raw_receive_report \<times> 'b) + 'b drain_state" where
  "drain_round_end clk budget quiet deadline max_attempts sources s0 =
     (let s = s0\<lparr>ds_last_round_idle := ds_round_idle s0\<rparr>
      in if rr_terminal_error (ds_report s) \<noteq> None then Inl (finish CompFailed s)
         else if ds_round_idle s then
           (if budget = 0 then Inl (finish CompIdle s)
            else let now = clk (ds_clk s); s1 = s\<lparr>ds_clk := ds_clk s + 1\<rparr>;
                     remaining_rounds = (max_attempts - rr_read_attempts (ds_report s1)) div sources
                 in if (case ds_last_frame_at s1 of None \<Rightarrow> False
                        | Some last_at \<Rightarrow> quiet \<le> saturating_since now last_at)
                    then Inl (finish CompQuiet s1)
                    else if (case deadline of None \<Rightarrow> False | Some fin \<Rightarrow> fin \<le> now)
                    then Inl (finish CompIdle s1)
                    else if remaining_rounds = 0 then Inl (finish CompIdle s1)
                    else case deadline of
                        None \<Rightarrow> Inr (next_round s1)
                      | Some fin \<Rightarrow>
                          (let s2 = s1\<lparr>ds_clk := ds_clk s1 + 1\<rparr>
                           in if fin \<le> clk (ds_clk s1) then Inl (finish CompIdle s2)
                              else Inr (next_round s2)))
         else Inr (next_round s))"

function drain_loop ::
    "'b can_bus \<Rightarrow> (nat \<Rightarrow> instant) \<Rightarrow> duration \<Rightarrow> duration \<Rightarrow> instant option \<Rightarrow>
     nat \<Rightarrow> nat \<Rightarrow> nat \<Rightarrow> 'b drain_state \<Rightarrow> raw_receive_report \<times> 'b" where
  "drain_loop ops clk budget quiet deadline max_frames max_attempts sources s =
     (if max_frames \<le> length (rr_frames (ds_report s)) + rr_ignored_frames (ds_report s) \<or>
         max_attempts \<le> rr_read_attempts (ds_report s)
      then finish WorkLimit s
      else let (expired, s1) =
          (case deadline of
             None \<Rightarrow> (False, s)
           | Some fin \<Rightarrow> (fin \<le> clk (ds_clk s), s\<lparr>ds_clk := ds_clk s + 1\<rparr>))
      in if expired then
           finish (if ds_round_attempts s1 = 0 \<and> ds_last_round_idle s1 then CompIdle else CompDeadline) s1
         else let s2 = drain_read ops clk budget s1
              in if ds_round_attempts s2 \<noteq> sources then
                   drain_loop ops clk budget quiet deadline max_frames max_attempts sources s2
                 else case drain_round_end clk budget quiet deadline max_attempts sources s2 of
                     Inl res \<Rightarrow> res
                   | Inr s3 \<Rightarrow>
                       drain_loop ops clk budget quiet deadline max_frames max_attempts sources s3)"
  by pat_completeness auto

definition drain ::
    "'b can_bus \<Rightarrow> (nat \<Rightarrow> instant) \<Rightarrow> duration \<Rightarrow> duration \<Rightarrow> receive_limits \<Rightarrow> 'b \<Rightarrow>
     raw_receive_report \<times> 'b" where
  "drain ops clk budget quiet limits bus =
     (let budget_end = (if budget = 0 then Some None
                        else map_option Some (time_checked_add (clk 0) budget))
      in case budget_end of
           None \<Rightarrow>
             (raw_report_default\<lparr>rr_completion := CompFailed,
                rr_terminal_error := Some (DriverError ''receive budget overflows host clock'')\<rparr>, bus)
         | Some budget_deadline \<Rightarrow>
             let deadline =
                   (case (budget_deadline, lim_deadline limits) of
                      (Some first, Some second) \<Rightarrow> Some (min first second)
                    | (Some first, None) \<Rightarrow> Some first
                    | (None, second) \<Rightarrow> second);
                 max_frames = min (lim_max_frames limits) MAX_RX_FRAMES_PER_POLL;
                 max_attempts = min (lim_max_attempts limits) MAX_RX_ATTEMPTS_PER_POLL;
                 sources = bus_source_count ops bus
             in if sources = 0 then
                  (raw_report_default\<lparr>rr_completion := CompFailed,
                     rr_terminal_error := Some (DriverError ''receive backend has no sources'')\<rparr>, bus)
                else drain_loop ops clk budget quiet deadline max_frames max_attempts sources
                  \<lparr>ds_report = raw_report_default, ds_round_attempts = 0, ds_round_idle = True,
                   ds_last_round_idle = False, ds_last_frame_at = None,
                   ds_clk = (if budget = 0 then 0 else 1),
                   ds_bus = bus_begin_receive ops bus\<rparr>)"

section \<open>Termination\<close>

lemma drain_read_attempts [simp]:
  "rr_read_attempts (ds_report (drain_read ops clk budget s)) =
     Suc (rr_read_attempts (ds_report s))"
  by (auto simp: drain_read_def Let_def split_beta split: sum.splits receive_attempt.splits)

lemma drain_round_end_attempts:
  "drain_round_end clk budget quiet deadline ma src s = Inr s' \<Longrightarrow> ds_report s' = ds_report s"
  by (auto simp: drain_round_end_def next_round_def Let_def split: if_splits option.splits)

termination drain_loop
proof (relation "measure (\<lambda>(_, _, _, _, _, _, ma, _, s). ma - rr_read_attempts (ds_report s))")
  fix ops :: "'b can_bus" and clk budget quiet deadline max_frames max_attempts sources
    and s :: "'b drain_state" and x expired s1 s2
  assume "\<not> (max_frames \<le> length (rr_frames (ds_report s)) + rr_ignored_frames (ds_report s) \<or>
      max_attempts \<le> rr_read_attempts (ds_report s))"
    and "x = (case deadline of None \<Rightarrow> (False, s)
      | Some fin \<Rightarrow> (fin \<le> clk (ds_clk s), s\<lparr>ds_clk := ds_clk s + 1\<rparr>))"
    and "(expired, s1) = x" and "s2 = drain_read ops clk budget s1"
  then show "((ops, clk, budget, quiet, deadline, max_frames, max_attempts, sources, s2),
      ops, clk, budget, quiet, deadline, max_frames, max_attempts, sources, s)
    \<in> measure (\<lambda>(_, _, _, _, _, _, ma, _, s). ma - rr_read_attempts (ds_report s))"
    by (auto split: option.splits)
next
  fix ops :: "'b can_bus" and clk budget quiet deadline max_frames max_attempts sources
    and s :: "'b drain_state" and x expired s1 s2 s3
  assume "\<not> (max_frames \<le> length (rr_frames (ds_report s)) + rr_ignored_frames (ds_report s) \<or>
      max_attempts \<le> rr_read_attempts (ds_report s))"
    and "x = (case deadline of None \<Rightarrow> (False, s)
      | Some fin \<Rightarrow> (fin \<le> clk (ds_clk s), s\<lparr>ds_clk := ds_clk s + 1\<rparr>))"
    and "(expired, s1) = x" and "s2 = drain_read ops clk budget s1"
    and "drain_round_end clk budget quiet deadline max_attempts sources s2 = Inr s3"
  then show "((ops, clk, budget, quiet, deadline, max_frames, max_attempts, sources, s3),
      ops, clk, budget, quiet, deadline, max_frames, max_attempts, sources, s)
    \<in> measure (\<lambda>(_, _, _, _, _, _, ma, _, s). ma - rr_read_attempts (ds_report s))"
    by (auto dest: drain_round_end_attempts split: option.splits)
qed auto

declare drain_loop.simps [simp del]

section \<open>The engine against its specification\<close>

text \<open>
  The specification: a poll makes some number of attempts on the bus, at some instants, and
  its report is a function of their outcomes alone.
\<close>

type_synonym attempt_result = "(receive_attempt, bus_error) result"

fun bus_reads :: "'b can_bus \<Rightarrow> instant list \<Rightarrow> 'b \<Rightarrow> attempt_result list \<times> 'b" where
  "bus_reads ops [] b = ([], b)"
| "bus_reads ops (t # ts) b =
     (let (r, b') = bus_recv_one ops t b; (rs, b'') = bus_reads ops ts b' in (r # rs, b''))"

fun attempt_frames :: "attempt_result \<Rightarrow> timed_can_frame list" where
  "attempt_frames (Inr (AttemptFrame fr)) = [fr]"
| "attempt_frames _ = []"

definition frames_of :: "attempt_result list \<Rightarrow> timed_can_frame list" where
  "frames_of rs = concat (map attempt_frames rs)"

definition ignored_of :: "attempt_result list \<Rightarrow> nat" where
  "ignored_of rs = length (filter (\<lambda>r. r = Ok AttemptIgnored) rs)"

definition first_error :: "attempt_result list \<Rightarrow> bus_error option" where
  "first_error rs =
     (case dropWhile is_ok rs of Inl e # _ \<Rightarrow> Some e | _ \<Rightarrow> None)"

definition error_order :: "attempt_result list \<Rightarrow> nat option" where
  "error_order rs =
     (let pre = takeWhile is_ok rs
      in if pre = rs then None else Some (length (frames_of pre) + ignored_of pre))"

definition report_of :: "attempt_result list \<Rightarrow> raw_receive_report \<Rightarrow> bool" where
  "report_of rs rep \<longleftrightarrow>
     rr_frames rep = frames_of rs \<and> rr_ignored_frames rep = ignored_of rs \<and>
     rr_read_attempts rep = length rs \<and> rr_terminal_error rep = first_error rs \<and>
     rr_terminal_error_order rep = error_order rs"

text \<open>The last \<open>n\<close> attempts all found their source empty.\<close>

definition idle_suffix :: "nat \<Rightarrow> attempt_result list \<Rightarrow> bool" where
  "idle_suffix n rs \<longleftrightarrow> n \<le> length rs \<and> list_all (\<lambda>r. r = Ok AttemptIdle) (drop (length rs - n) rs)"

lemma bus_reads_snoc:
  "bus_reads ops (ts @ [t]) b =
     (fst (bus_reads ops ts b) @ [fst (bus_recv_one ops t (snd (bus_reads ops ts b)))],
      snd (bus_recv_one ops t (snd (bus_reads ops ts b))))"
  by (induction ts arbitrary: b) (simp_all add: split_beta)

lemma bus_reads_length: "length (fst (bus_reads ops ts b)) = length ts"
  by (induction ts arbitrary: b) (simp_all add: split_beta)

lemma first_error_snoc:
  "first_error (rs @ [r]) =
     (case first_error rs of Some e \<Rightarrow> Some e | None \<Rightarrow> (case r of Inl e \<Rightarrow> Some e | Inr _ \<Rightarrow> None))"
proof (induction rs)
  case Nil
  show ?case by (cases r) (simp_all add: first_error_def)
next
  case (Cons a rs)
  then show ?case by (cases a) (simp_all add: first_error_def)
qed

lemma first_error_None: "first_error rs = None \<longleftrightarrow> list_all is_ok rs"
proof (induction rs)
  case (Cons a rs)
  then show ?case by (cases a) (simp_all add: first_error_def)
qed (simp add: first_error_def)

lemma error_order_snoc:
  "error_order (rs @ [r]) =
     (if list_all is_ok rs then (if is_ok r then None else Some (length (frames_of rs) + ignored_of rs))
      else error_order rs)"
proof (cases "list_all is_ok rs")
  case True
  then have tw: "takeWhile is_ok rs = rs" by (simp add: list_all_iff)
  then have "takeWhile is_ok (rs @ [r]) = rs @ takeWhile is_ok [r]"
    using True unfolding list_all_iff by (intro takeWhile_append2) blast
  then show ?thesis using True by (simp add: error_order_def Let_def)
next
  case False
  then obtain x where x: "x \<in> set rs" "\<not> is_ok x" by (auto simp: list_all_iff)
  have tw: "takeWhile is_ok (rs @ [r]) = takeWhile is_ok rs"
    using x by (rule takeWhile_append1)
  have "length (takeWhile is_ok rs) \<le> length rs" by (rule length_takeWhile_le)
  then have "takeWhile is_ok rs \<noteq> rs @ [r]" by auto
  then show ?thesis
    using x by (auto simp: error_order_def Let_def tw list_all_iff)
qed

lemma error_order_None: "list_all is_ok rs \<Longrightarrow> error_order rs = None"
  by (simp add: error_order_def list_all_iff)

lemma frames_of_snoc: "frames_of (rs @ [r]) = frames_of rs @ attempt_frames r"
  by (simp add: frames_of_def)

lemma ignored_of_snoc:
  "ignored_of (rs @ [r]) = ignored_of rs + (if r = Ok AttemptIgnored then 1 else 0)"
  by (simp add: ignored_of_def)

lemma idle_suffix_snoc:
  "idle_suffix (Suc n) (rs @ [r]) \<longleftrightarrow> idle_suffix n rs \<and> r = Ok AttemptIdle"
  by (auto simp: idle_suffix_def)

lemma report_of_snoc:
  assumes "report_of rs (ds_report s)" and r: "bus_recv_one ops (clk (ds_clk s)) (ds_bus s) = (r, b)"
  shows "report_of (rs @ [r]) (ds_report (drain_read ops clk budget s))"
proof (cases "list_all is_ok rs")
  case True
  then have "first_error rs = None" "error_order rs = None"
    by (simp_all add: first_error_None error_order_None)
  with True assms(1) show ?thesis
    by (auto simp: report_of_def frames_of_snoc ignored_of_snoc first_error_snoc error_order_snoc
        drain_read_def r Let_def split: sum.splits receive_attempt.splits)
next
  case False
  then obtain e where "first_error rs = Some e"
    using first_error_None [of rs] by (cases "first_error rs") auto
  with False assms(1) show ?thesis
    by (auto simp: report_of_def frames_of_snoc ignored_of_snoc first_error_snoc error_order_snoc
        drain_read_def r Let_def split: sum.splits receive_attempt.splits)
qed

lemma delivered_snoc:
  "length (frames_of (rs @ [r])) + ignored_of (rs @ [r]) \<le> Suc (length (frames_of rs) + ignored_of rs)"
  by (cases r rule: attempt_frames.cases) (simp_all add: frames_of_snoc ignored_of_snoc)

text \<open>What holds at the head of the loop.\<close>

definition drain_inv ::
    "'b can_bus \<Rightarrow> nat \<Rightarrow> nat \<Rightarrow> nat \<Rightarrow> 'b \<Rightarrow> 'b drain_state \<Rightarrow> bool" where
  "drain_inv ops mf ma sources b0 s \<longleftrightarrow>
     (\<exists>ts rs. bus_reads ops ts b0 = (rs, ds_bus s) \<and> report_of rs (ds_report s) \<and>
        length (frames_of rs) + ignored_of rs \<le> mf \<and> length rs \<le> ma \<and>
        (ds_round_attempts s = 0 \<longrightarrow> first_error rs = None) \<and>
        (ds_round_idle s \<longrightarrow> idle_suffix (ds_round_attempts s) rs) \<and>
        (ds_round_attempts s = 0 \<and> ds_last_round_idle s \<longrightarrow> idle_suffix sources rs))"

text \<open>What the engine returns.\<close>

definition drain_post ::
    "'b can_bus \<Rightarrow> nat \<Rightarrow> nat \<Rightarrow> nat \<Rightarrow> 'b \<Rightarrow> raw_receive_report \<times> 'b \<Rightarrow> bool" where
  "drain_post ops mf ma sources b0 res \<longleftrightarrow>
     (\<exists>ts rs. bus_reads ops ts b0 = (rs, snd res) \<and> report_of rs (fst res) \<and>
        length (frames_of rs) + ignored_of rs \<le> mf \<and> length rs \<le> ma \<and>
        (is_complete (rr_completion (fst res)) \<longrightarrow> idle_suffix sources rs \<and> first_error rs = None) \<and>
        (rr_completion (fst res) = CompFailed \<longrightarrow> first_error rs \<noteq> None))"

lemma drain_inv_clk [simp]: "drain_inv ops mf ma n b0 (s\<lparr>ds_clk := k\<rparr>) = drain_inv ops mf ma n b0 s"
  by (simp add: drain_inv_def)

lemma drain_inv_read:
  assumes "drain_inv ops mf ma n b0 s"
    and "length (rr_frames (ds_report s)) + rr_ignored_frames (ds_report s) < mf"
    and "rr_read_attempts (ds_report s) < ma"
  shows "drain_inv ops mf ma n b0 (drain_read ops clk budget s) \<and>
    ds_round_attempts (drain_read ops clk budget s) = Suc (ds_round_attempts s)"
proof -
  from assms(1) obtain ts rs where
    reads: "bus_reads ops ts b0 = (rs, ds_bus s)" and rep: "report_of rs (ds_report s)"
    and idle: "ds_round_idle s \<longrightarrow> idle_suffix (ds_round_attempts s) rs"
    unfolding drain_inv_def by blast
  obtain r b where r: "bus_recv_one ops (clk (ds_clk s)) (ds_bus s) = (r, b)" by fastforce
  let ?s = "drain_read ops clk budget s"
  have reads': "bus_reads ops (ts @ [clk (ds_clk s)]) b0 = (rs @ [r], ds_bus ?s)"
    by (auto simp: bus_reads_snoc reads r drain_read_def Let_def
        split: sum.splits receive_attempt.splits)
  have bounds: "length (frames_of (rs @ [r])) + ignored_of (rs @ [r]) \<le> mf" "length (rs @ [r]) \<le> ma"
    using rep assms(2,3) delivered_snoc [of rs r] by (simp_all add: report_of_def)
  have rep': "report_of (rs @ [r]) (ds_report ?s)"
    using rep r by (rule report_of_snoc [where clk = clk])
  have ra: "ds_round_attempts ?s = Suc (ds_round_attempts s)"
    by (auto simp: drain_read_def r Let_def split: sum.splits receive_attempt.splits)
  have "ds_round_idle ?s \<longleftrightarrow> ds_round_idle s \<and> r = Ok AttemptIdle"
    by (auto simp: drain_read_def r Let_def split: sum.splits receive_attempt.splits)
  then show ?thesis
    unfolding drain_inv_def using reads' rep' bounds ra idle
    by (intro conjI exI [of _ "ts @ [clk (ds_clk s)]"] exI [of _ "rs @ [r]"])
      (auto simp: idle_suffix_snoc)
qed

lemma drain_inv_finish:
  assumes "drain_inv ops mf ma n b0 s"
    and "is_complete c \<Longrightarrow> ds_round_attempts s = 0 \<and> ds_last_round_idle s" and "c \<noteq> CompFailed"
  shows "drain_post ops mf ma n b0 (finish c s)"
  using assms unfolding drain_inv_def drain_post_def finish_def report_of_def by fastforce

lemma drain_inv_round_end:
  assumes inv: "drain_inv ops mf ma n b0 s" and n: "ds_round_attempts s = n"
  shows "case drain_round_end clk budget quiet deadline ma n s of
    Inl res \<Rightarrow> drain_post ops mf ma n b0 res | Inr s' \<Rightarrow> drain_inv ops mf ma n b0 s'"
proof -
  from inv obtain ts rs where
    reads: "bus_reads ops ts b0 = (rs, ds_bus s)" and rep: "report_of rs (ds_report s)"
    and bounds: "length (frames_of rs) + ignored_of rs \<le> mf" "length rs \<le> ma"
    and idle: "ds_round_idle s \<longrightarrow> idle_suffix n rs"
    unfolding drain_inv_def n by blast
  have err: "rr_terminal_error (ds_report s) = first_error rs" using rep by (simp add: report_of_def)
  have failed: "drain_post ops mf ma n b0 (finish CompFailed s')"
    if "ds_report s' = ds_report s" "ds_bus s' = ds_bus s" "first_error rs \<noteq> None" for s'
    unfolding drain_post_def finish_def using that reads rep bounds
    by (intro exI [of _ ts] exI [of _ rs]) (simp add: report_of_def is_complete_def)
  have ended: "drain_post ops mf ma n b0 (finish c s')"
    if "ds_report s' = ds_report s" "ds_bus s' = ds_bus s" "first_error rs = None"
      "ds_round_idle s" "c \<noteq> CompFailed" for c s'
    unfolding drain_post_def finish_def using that reads rep bounds idle
    by (intro exI [of _ ts] exI [of _ rs]) (simp add: report_of_def)
  have nxt: "drain_inv ops mf ma n b0 s'"
    if "ds_report s' = ds_report s" "ds_bus s' = ds_bus s" "first_error rs = None"
      "ds_round_attempts s' = 0" "ds_last_round_idle s' = ds_round_idle s" for s'
    unfolding drain_inv_def using that reads rep bounds idle
    by (intro exI [of _ ts] exI [of _ rs]) (simp add: idle_suffix_def)
  show ?thesis
  proof (cases "first_error rs = None")
    case False
    then show ?thesis by (simp add: drain_round_end_def Let_def err failed)
  next
    case True
    then show ?thesis
      by (simp add: drain_round_end_def Let_def err next_round_def ended nxt split: option.split)
  qed
qed

lemma drain_loop_post:
  assumes "drain_inv ops mf ma n b0 s"
  shows "drain_post ops mf ma n b0 (drain_loop ops clk budget quiet deadline mf ma n s)"
  using assms
proof (induction ops clk budget quiet deadline mf ma n s rule: drain_loop.induct)
  case (1 ops clk budget quiet deadline mf ma n s)
  let ?limit = "mf \<le> length (rr_frames (ds_report s)) + rr_ignored_frames (ds_report s) \<or>
    ma \<le> rr_read_attempts (ds_report s)"
  define x where "x = (case deadline of None \<Rightarrow> (False, s)
    | Some fin \<Rightarrow> (fin \<le> clk (ds_clk s), s\<lparr>ds_clk := ds_clk s + 1\<rparr>))"
  obtain expired s1 where s1: "x = (expired, s1)" by fastforce
  define s2 where "s2 = drain_read ops clk budget s1"
  have inv1: "drain_inv ops mf ma n b0 s1" and same: "ds_report s1 = ds_report s"
    using 1(3) s1 by (auto simp: x_def split: option.splits)
  show ?case
  proof (cases ?limit)
    case True
    have "drain_post ops mf ma n b0 (finish WorkLimit s)"
      by (rule drain_inv_finish [OF 1(3)]) (simp_all add: is_complete_def)
    with True show ?thesis by (subst drain_loop.simps) simp
  next
    case lim: False
    show ?thesis
    proof (cases expired)
      case True
      have "drain_post ops mf ma n b0 (finish (if ds_round_attempts s1 = 0 \<and> ds_last_round_idle s1
          then CompIdle else CompDeadline) s1)"
        by (rule drain_inv_finish [OF inv1]) (auto simp: is_complete_def split: if_splits)
      then show ?thesis
        using lim True s1 unfolding x_def by (subst drain_loop.simps) simp
    next
      case False
      have inv2: "drain_inv ops mf ma n b0 s2"
        using drain_inv_read [OF inv1] lim same by (simp add: s2_def)
      have unf: "drain_loop ops clk budget quiet deadline mf ma n s =
          (if ds_round_attempts s2 \<noteq> n then drain_loop ops clk budget quiet deadline mf ma n s2
           else case drain_round_end clk budget quiet deadline ma n s2 of Inl res \<Rightarrow> res
             | Inr s3 \<Rightarrow> drain_loop ops clk budget quiet deadline mf ma n s3)"
        using lim False s1 unfolding x_def s2_def by (subst drain_loop.simps) simp
      show ?thesis
      proof (cases "ds_round_attempts s2 = n")
        case True
        show ?thesis
        proof (cases "drain_round_end clk budget quiet deadline ma n s2")
          case (Inl res)
          then show ?thesis
            using drain_inv_round_end [OF inv2 True, of clk budget quiet deadline] True
            by (simp add: unf)
        next
          case (Inr s3)
          then have "drain_inv ops mf ma n b0 s3"
            using drain_inv_round_end [OF inv2 True, of clk budget quiet deadline] by simp
          then show ?thesis
            using 1(2) [OF lim x_def s1 [symmetric] False s2_def] True Inr by (simp add: unf)
        qed
      next
        case neq: False
        then show ?thesis
          using 1(1) [OF lim x_def s1 [symmetric] False s2_def] inv2 by (simp add: unf)
      qed
    qed
  qed
qed

text \<open>A bus that answers its receives from a script, then stays idle.\<close>

definition scripted_bus :: "nat \<Rightarrow> attempt_result list can_bus" where
  "scripted_bus sources =
     \<lparr>bus_send_frame = (\<lambda>_ b. (Ok (), b)),
      bus_recv_one = (\<lambda>_ b. case b of [] \<Rightarrow> (Ok AttemptIdle, []) | r # rs \<Rightarrow> (r, rs)),
      bus_source_count = (\<lambda>_. sources), bus_begin_receive = (\<lambda>b. b), bus_echoes = (\<lambda>_. False),
      bus_validate_address = (\<lambda>_ _. Ok ()), bus_send_frame_to = (\<lambda>_ _ b. (Ok (), b))\<rparr>"

definition sample_frame :: timed_can_frame where
  "sample_frame =
     \<lparr>tf_received_at = 0,
      tf_received = full_data None \<lparr>cf_id = 0x028001FD, cf_data = zero8, cf_extended = True\<rparr>\<rparr>"

lemma drain_started:
  assumes "0 < bus_source_count ops bus" and "budget = 0 \<or> time_checked_add (clk 0) budget \<noteq> None"
  shows "drain_post ops (min (lim_max_frames limits) MAX_RX_FRAMES_PER_POLL)
    (min (lim_max_attempts limits) MAX_RX_ATTEMPTS_PER_POLL) (bus_source_count ops bus)
    (bus_begin_receive ops bus) (drain ops clk budget quiet limits bus)"
proof -
  have inv: "drain_inv ops mf ma n b0 \<lparr>ds_report = raw_report_default, ds_round_attempts = 0,
      ds_round_idle = True, ds_last_round_idle = False, ds_last_frame_at = None, ds_clk = k, ds_bus = b0\<rparr>"
    for mf ma n b0 k
    unfolding drain_inv_def
    by (intro exI [of _ "[]"])
      (simp add: report_of_def raw_report_default_def frames_of_def ignored_of_def first_error_def
        error_order_def idle_suffix_def)
  show ?thesis
    using assms by (auto simp: drain_def Let_def intro!: drain_loop_post inv split: option.splits)
qed

section \<open>Properties\<close>



text \<open>A poll reported complete really saw its bus go quiet. When a poll reports Idle
  or Quiet, its last attempts, one per source, all found their source empty and no backend
  error occurred; when it reports failure after starting, there was a backend error.\<close>

theorem drain_complete_is_idle:
  assumes "0 < bus_source_count ops bus" and "budget = 0 \<or> time_checked_add (clk 0) budget \<noteq> None"
    and "drain ops clk budget quiet limits bus = (rep, bus')"
  shows "\<exists>ts rs. bus_reads ops ts (bus_begin_receive ops bus) = (rs, bus') \<and>
    rr_frames rep = frames_of rs \<and>
    (is_complete (rr_completion rep) \<longrightarrow>
       idle_suffix (bus_source_count ops bus) rs \<and> rr_terminal_error rep = None) \<and>
    (rr_completion rep = CompFailed \<longrightarrow> rr_terminal_error rep \<noteq> None)"
proof -
  from drain_started [where clk = clk, OF assms(1,2), of limits quiet] obtain ts rs where
    "bus_reads ops ts (bus_begin_receive ops bus) = (rs, bus')" "report_of rs rep"
    "is_complete (rr_completion rep) \<longrightarrow> idle_suffix (bus_source_count ops bus) rs \<and> first_error rs = None"
    "rr_completion rep = CompFailed \<longrightarrow> first_error rs \<noteq> None"
    unfolding drain_post_def assms(3) fst_conv snd_conv by blast
  then show ?thesis
    by (intro exI [of _ ts] exI [of _ rs]) (simp add: report_of_def)
qed

lemma scripted_empty_poll:
  "drain (scripted_bus 1) (\<lambda>_. 0) 0 0 receive_limits_default [] =
     (raw_report_default\<lparr>rr_read_attempts := 1, rr_completion := CompIdle\<rparr>, [])"
  by (simp add: drain_def drain_loop.simps drain_read_def drain_round_end_def finish_def
      scripted_bus_def receive_limits_default_def raw_report_default_def MAX_RX_FRAMES_PER_POLL_def
      MAX_RX_ATTEMPTS_PER_POLL_def)

theorem drain_complete_is_idle_witness:
  "\<exists>ts rs. bus_reads (scripted_bus 1) ts [] = (rs, []) \<and> idle_suffix 1 rs"
proof -
  have src: "0 < bus_source_count (scripted_bus 1) []" by (simp add: scripted_bus_def)
  have b0: "(0::nat) = 0 \<or> time_checked_add ((\<lambda>_. 0) (0::nat)) 0 \<noteq> None" by simp
  from drain_complete_is_idle [where clk = "\<lambda>_. 0", OF src b0 scripted_empty_poll] show ?thesis
    by (auto simp: scripted_bus_def raw_report_default_def is_complete_def)
qed

text \<open>
  The position recorded for a backend error counts ignored frames, while the frames of a
  report are numbered without them. After an ignored frame, a frame read after the error
  has a smaller number than the error.
\<close>

lemma terminal_error_order_counts_ignored:
  "let (rep, _) = drain (scripted_bus 3) (\<lambda>_. 0) 0 0 receive_limits_default
       [Ok AttemptIgnored, Err RecvTimeout, Ok (AttemptFrame sample_frame)]
   in rr_frames rep = [sample_frame] \<and> rr_terminal_error_order rep = Some 1 \<and>
      rr_terminal_error rep = Some RecvTimeout"
  by (simp add: drain_def drain_loop.simps drain_read_def drain_round_end_def finish_def
      scripted_bus_def receive_limits_default_def raw_report_default_def MAX_RX_FRAMES_PER_POLL_def
      MAX_RX_ATTEMPTS_PER_POLL_def)

end
