(* ===== verification/Robstride_Bus.thy ===== *)
theory Robstride_Bus
  imports Robstride_Receive "HOL-Library.Multiset"
begin

unbundle bit_operations_syntax

text \<open>
  \<open>crates/robstride/src/bus.rs\<close> above the transport: the transmit filter, the motor
  operations of the \<open>MotorBus\<close> trait over any \<open>CanBus\<close>, the projection of received frames
  into typed evidence (types of \<open>feedback.rs\<close>) and the in-memory bus. The locale
  \<open>can_transport\<close> states what the operations rely on of a bus; it is interpreted on the
  in-memory bus here and on the SocketCAN backends in the theory of the sockets.
\<close>

section \<open>Transmit filter\<close>

definition TX_COMMUNICATION_TYPES :: "u8 list" where
  "TX_COMMUNICATION_TYPES = [0, 1, 3, 4, 6, 17, 18, 24]"

definition frame_comm_type :: "u32 \<Rightarrow> u8" where
  "frame_comm_type can_id = ucast (drop_bit 24 can_id AND 0x1F)"

definition validate_can_tx :: "can_frame \<Rightarrow> (unit, bus_error) result" where
  "validate_can_tx fr =
     (let ct = frame_comm_type (cf_id fr)
      in if cf_extended fr \<and> ct \<notin> set TX_COMMUNICATION_TYPES
         then Err (InvalidCommand (ForbiddenCommunicationType ct)) else Ok ())"

section \<open>Motor operations\<close>

definition send_encoded_frame_to ::
    "'b can_bus \<Rightarrow> motor_address \<Rightarrow> wire_pair \<Rightarrow> 'b \<Rightarrow> (unit, bus_error) result \<times> 'b" where
  "send_encoded_frame_to ops addr p b =
     bus_send_frame_to ops addr \<lparr>cf_id = fst p, cf_data = snd p, cf_extended = True\<rparr> b"

text \<open>The first loop of \<open>mit_control_all_at\<close>: every command is checked before any is sent.\<close>

fun validate_batch ::
    "'b can_bus \<Rightarrow> 'b \<Rightarrow> addressed_mit_command list \<Rightarrow> addressed_mit_command list \<Rightarrow>
     (unit, bus_error) result" where
  "validate_batch ops b prior [] = Ok ()"
| "validate_batch ops b prior (cmd # rest) =
     (case validate_mit (amc_command cmd) of
        Inl e \<Rightarrow> Err (InvalidCommand e)
      | Inr _ \<Rightarrow>
          if cmd_device_id (amc_command cmd) \<noteq> addr_device_id (amc_address cmd) then
            Err (CommandAddressMismatch (amc_address cmd) (cmd_device_id (amc_command cmd)))
          else if list_ex (\<lambda>p. amc_address p = amc_address cmd) prior then
            Err (DuplicateMotorAddress (addr_interface (amc_address cmd)) (addr_device_id (amc_address cmd)))
          else rbind (bus_validate_address ops (amc_address cmd) b) (\<lambda>_.
            validate_batch ops b (prior @ [cmd]) rest))"

fun send_batch ::
    "'b can_bus \<Rightarrow> addressed_mit_command list \<Rightarrow> 'b \<Rightarrow> (unit, bus_error) result \<times> 'b" where
  "send_batch ops [] b = (Ok (), b)"
| "send_batch ops (cmd # rest) b =
     (case encode_mit (amc_command cmd) of
        Inl e \<Rightarrow> (Err (InvalidCommand e), b)
      | Inr p \<Rightarrow>
          (case send_encoded_frame_to ops (amc_address cmd) p b of
             (Inl e, b') \<Rightarrow> (Err e, b')
           | (Inr _, b') \<Rightarrow> send_batch ops rest b'))"

definition mit_control_all_at ::
    "'b can_bus \<Rightarrow> addressed_mit_command list \<Rightarrow> 'b \<Rightarrow> (unit, bus_error) result \<times> 'b" where
  "mit_control_all_at ops cmds b =
     (case validate_batch ops b [] cmds of
        Inl e \<Rightarrow> (Err e, b)
      | Inr _ \<Rightarrow> send_batch ops cmds b)"

definition enable_drive_at :: "'b can_bus \<Rightarrow> motor_address \<Rightarrow> 'b \<Rightarrow> (unit, bus_error) result \<times> 'b"
  where "enable_drive_at ops a b =
     send_encoded_frame_to ops a (encode_default_enable (addr_device_id a)) b"

definition disable_drive_at :: "'b can_bus \<Rightarrow> motor_address \<Rightarrow> 'b \<Rightarrow> (unit, bus_error) result \<times> 'b"
  where "disable_drive_at ops a b =
     send_encoded_frame_to ops a (encode_default_disable (addr_device_id a)) b"

definition set_zero_position_at ::
    "'b can_bus \<Rightarrow> motor_address \<Rightarrow> 'b \<Rightarrow> (unit, bus_error) result \<times> 'b" where
  "set_zero_position_at ops a b =
     send_encoded_frame_to ops a (encode_default_set_zero_position (addr_device_id a)) b"

definition read_parameter_at ::
    "'b can_bus \<Rightarrow> motor_address \<Rightarrow> parameter_id \<Rightarrow> 'b \<Rightarrow> (unit, bus_error) result \<times> 'b" where
  "read_parameter_at ops a p b =
     send_encoded_frame_to ops a (encode_read_parameter DEFAULT_HOST_ID (addr_device_id a) p) b"

definition get_device_id_at ::
    "'b can_bus \<Rightarrow> motor_address \<Rightarrow> 'b \<Rightarrow> (unit, bus_error) result \<times> 'b" where
  "get_device_id_at ops a b =
     send_encoded_frame_to ops a (encode_default_get_device_id (addr_device_id a)) b"

definition get_firmware_version_at ::
    "'b can_bus \<Rightarrow> motor_address \<Rightarrow> 'b \<Rightarrow> (unit, bus_error) result \<times> 'b" where
  "get_firmware_version_at ops a b =
     send_encoded_frame_to ops a (encode_default_get_firmware_version (addr_device_id a)) b"

definition write_parameter_at ::
    "'b can_bus \<Rightarrow> motor_address \<Rightarrow> parameter_id \<Rightarrow> parameter_value \<Rightarrow> 'b \<Rightarrow>
     (unit, bus_error) result \<times> 'b" where
  "write_parameter_at ops a p v b =
     (case encode_write_parameter DEFAULT_HOST_ID (addr_device_id a) p v of
        Inl e \<Rightarrow> (Err (InvalidCommand e), b)
      | Inr pr \<Rightarrow> send_encoded_frame_to ops a pr b)"

definition set_run_mode_at ::
    "'b can_bus \<Rightarrow> motor_address \<Rightarrow> run_mode \<Rightarrow> 'b \<Rightarrow> (unit, bus_error) result \<times> 'b" where
  "set_run_mode_at ops a m b =
     send_encoded_frame_to ops a (encode_set_run_mode (addr_device_id a) m) b"

definition speed_control_at ::
    "'b can_bus \<Rightarrow> motor_address \<Rightarrow> f32 \<Rightarrow> 'b \<Rightarrow> (unit, bus_error) result \<times> 'b" where
  "speed_control_at ops a v b =
     (case encode_speed_ref (addr_device_id a) v of
        Inl e \<Rightarrow> (Err (InvalidCommand e), b)
      | Inr pr \<Rightarrow> send_encoded_frame_to ops a pr b)"

definition enable_active_reporting_at ::
    "'b can_bus \<Rightarrow> motor_address \<Rightarrow> 'b \<Rightarrow> (unit, bus_error) result \<times> 'b" where
  "enable_active_reporting_at ops a b =
     send_encoded_frame_to ops a (encode_default_active_reporting (addr_device_id a) True) b"

definition disable_active_reporting_at ::
    "'b can_bus \<Rightarrow> motor_address \<Rightarrow> 'b \<Rightarrow> (unit, bus_error) result \<times> 'b" where
  "disable_active_reporting_at ops a b =
     send_encoded_frame_to ops a (encode_default_active_reporting (addr_device_id a) False) b"

section \<open>Received evidence\<close>

datatype detailed_fault_feedback = DetailedFaultFeedback (dff_raw: "u8 list")

definition fault_bytes :: "detailed_fault_feedback \<Rightarrow> u8 list" where
  "fault_bytes d = [dff_raw d ! 0, dff_raw d ! 1, dff_raw d ! 2, dff_raw d ! 3]"

definition warning_bytes :: "detailed_fault_feedback \<Rightarrow> u8 list" where
  "warning_bytes d = [dff_raw d ! 4, dff_raw d ! 5, dff_raw d ! 6, dff_raw d ! 7]"

definition has_fault :: "detailed_fault_feedback \<Rightarrow> bool" where
  "has_fault d \<longleftrightarrow> list_ex (\<lambda>b. b \<noteq> 0) (fault_bytes d)"

definition has_warning :: "detailed_fault_feedback \<Rightarrow> bool" where
  "has_warning d \<longleftrightarrow> list_ex (\<lambda>b. b \<noteq> 0) (warning_bytes d)"

record malformed_feedback =
  mf_raw :: "u8 list"
  mf_payload_len :: u8
  mf_kind :: rx_frame_kind
  mf_reason :: malformed_reason
  mf_status_flags :: "u8 option"
  mf_drive_mode :: "drive_mode option"

datatype feedback_event =
    EventStatus mit_feedback
  | EventFirmwareVersion firmware_version_feedback
  | EventDetailedFault detailed_fault_feedback
  | EventMalformed malformed_feedback

record feedback_observation =
  fo_order :: nat
  fo_address :: motor_address
  fo_received_at :: instant
  fo_can_id :: u32
  fo_event :: feedback_event

record transport_observation =
  to_order :: nat
  to_frame :: timed_can_frame

record identity_observation =
  io_order :: nat
  io_address :: motor_address
  io_received_at :: instant
  io_can_id :: u32
  io_uid :: device_uid

record parameter_read_observation =
  po_order :: nat
  po_address :: motor_address
  po_received_at :: instant
  po_can_id :: u32
  po_reply :: parameter_read_reply

datatype echoed_command = EchoEnable | EchoReportingOff | EchoSetZero

record host_echo_observation =
  ho_order :: nat
  ho_address :: motor_address
  ho_received_at :: instant
  ho_can_id :: u32
  ho_command :: echoed_command

record feedback_report =
  fr_observations :: "feedback_observation list"
  fr_transport_frames :: "transport_observation list"
  fr_completion :: receive_completion
  fr_ignored_frames :: nat
  fr_raw_frames :: nat
  fr_read_attempts :: nat
  fr_terminal_error :: "bus_error option"
  fr_terminal_error_order :: "nat option"
  fr_identities :: "identity_observation list"
  fr_parameter_reads :: "parameter_read_observation list"
  fr_host_echoes :: "host_echo_observation list"

text \<open>
  The configured motors: a \<open>HashMap\<close> in its iteration order, that is, a list of pairs with
  distinct addresses.
\<close>

type_synonym motor_types = "(motor_address \<times> motor_type) list"

definition address_for_frame ::
    "motor_types \<Rightarrow> string option \<Rightarrow> u8 \<Rightarrow> (motor_address \<times> motor_type) option" where
  "address_for_frame mt interface dev =
     (let matches = filter (\<lambda>(a, _). addr_device_id a = dev) mt
      in case interface of
           Some i \<Rightarrow> List.find (\<lambda>(a, _). addr_interface a = i) matches
         | None \<Rightarrow> (case matches of [m] \<Rightarrow> Some m | _ \<Rightarrow> None))"

definition echo_frame :: "echoed_command \<Rightarrow> u8 \<Rightarrow> wire_pair" where
  "echo_frame c dev =
     (case c of
        EchoEnable \<Rightarrow> encode_default_enable dev
      | EchoReportingOff \<Rightarrow> encode_default_active_reporting dev False
      | EchoSetZero \<Rightarrow> encode_default_set_zero_position dev)"

definition ingest_host_echo ::
    "motor_types \<Rightarrow> nat \<Rightarrow> timed_can_frame \<Rightarrow> echoed_command \<Rightarrow> feedback_report \<Rightarrow> feedback_report" where
  "ingest_host_echo mt order timed command report =
     (let received = tf_received timed; fr = rx_frame received;
          dev = ucast (cf_id fr AND 0xFF) :: u8;
          (can_id, data) = echo_frame command dev;
          exact = (rx_kind received = RxData \<and> cf_id fr = can_id \<and> rx_payload received = Some data)
      in case (if exact then address_for_frame mt (rx_interface received) dev else None) of
           None \<Rightarrow> report
         | Some (address, _) \<Rightarrow>
             report\<lparr>fr_host_echoes := fr_host_echoes report @
               [\<lparr>ho_order = order, ho_address = address, ho_received_at = tf_received_at timed,
                 ho_can_id = cf_id fr, ho_command = command\<rparr>]\<rparr>)"

datatype decoded_reply = DecodedIdentity device_uid | DecodedRead parameter_read_reply

definition ingest_reply_frame ::
    "motor_types \<Rightarrow> nat \<Rightarrow> timed_can_frame \<Rightarrow> communication_type \<Rightarrow> feedback_report \<Rightarrow> feedback_report"
  where "ingest_reply_frame mt order timed ct report =
     (let received = tf_received timed; fr = rx_frame received
      in case rx_payload received of
           None \<Rightarrow> report
         | Some payload \<Rightarrow>
             if \<not> (rx_kind received = RxData \<and> length payload = 8) then report
             else case (if ct = GetDeviceId
                   then map_option (\<lambda>r. (reply_device_id r, DecodedIdentity (reply_uid r)))
                          (decode_device_id_reply (cf_id fr) payload)
                   else map_option (\<lambda>r. (prr_device_id r, DecodedRead r))
                          (decode_read_parameter_reply DEFAULT_HOST_ID (cf_id fr) payload)) of
                 None \<Rightarrow> report
               | Some (dev, decoded) \<Rightarrow>
                   (case address_for_frame mt (rx_interface received) dev of
                      None \<Rightarrow> report
                    | Some (address, _) \<Rightarrow>
                        (case decoded of
                           DecodedIdentity uid \<Rightarrow>
                             report\<lparr>fr_identities := fr_identities report @
                               [\<lparr>io_order = order, io_address = address,
                                 io_received_at = tf_received_at timed, io_can_id = cf_id fr,
                                 io_uid = uid\<rparr>]\<rparr>
                         | DecodedRead reply \<Rightarrow>
                             report\<lparr>fr_parameter_reads := fr_parameter_reads report @
                               [\<lparr>po_order = order, po_address = address,
                                 po_received_at = tf_received_at timed, po_can_id = cf_id fr,
                                 po_reply = reply\<rparr>]\<rparr>)))"

text \<open>The envelope check and the event of a frame of a configured drive.\<close>

definition malformed_of :: "received_can_frame \<Rightarrow> malformed_reason option" where
  "malformed_of received =
     (if rx_payload received = None then Some InvalidEnvelope
      else if rx_kind received \<noteq> RxData then Some NonDataFrame
      else if rx_payload_len received \<noteq> 8 then Some (PayloadLength (rx_payload_len received))
      else None)"

definition status_event ::
    "motor_type \<Rightarrow> communication_type \<Rightarrow> received_can_frame \<Rightarrow> feedback_event option" where
  "status_event ty ct received =
     (let fr = rx_frame received
      in case malformed_of received of
           Some reason \<Rightarrow>
             (let status_header = (rx_kind received = RxData \<and> ct \<in> {OperationStatus, ActiveReporting});
                  (mode, flags) = decode_status_header (cf_id fr)
              in Some (EventMalformed
                   \<lparr>mf_raw = cf_data fr, mf_payload_len = rx_payload_len received,
                    mf_kind = rx_kind received, mf_reason = reason,
                    mf_status_flags = (if status_header then Some flags else None),
                    mf_drive_mode = (if status_header then Some mode else None)\<rparr>))
         | None \<Rightarrow>
             if ct \<in> {OperationStatus, ActiveReporting} then
               (case decode_firmware_version_reply (cf_id fr) (cf_data fr) of
                  Some version \<Rightarrow> Some (EventFirmwareVersion version)
                | None \<Rightarrow> Some (EventStatus (decode_status_payload ty ct (cf_id fr) (cf_data fr))))
             else if ct = FaultReport then Some (EventDetailedFault (DetailedFaultFeedback (cf_data fr)))
             else None)"

definition ingest_feedback_frame ::
    "motor_types \<Rightarrow> nat \<Rightarrow> timed_can_frame \<Rightarrow> feedback_report \<Rightarrow> feedback_report" where
  "ingest_feedback_frame mt order timed report =
     (let received = tf_received timed; fr = rx_frame received
      in if rx_kind received = RxError then
           report\<lparr>fr_transport_frames := fr_transport_frames report @
             [\<lparr>to_order = order, to_frame = timed\<rparr>]\<rparr>
         else if \<not> cf_extended fr then report
         else case unpack_ext_id (cf_id fr) of
             None \<Rightarrow> report
           | Some ext \<Rightarrow>
         (case comm_from_u8 (comm_type ext) of
             None \<Rightarrow> report
           | Some ct \<Rightarrow>
             if ct \<in> {GetDeviceId, ReadParameter} then ingest_reply_frame mt order timed ct report
             else if ct = Enable then ingest_host_echo mt order timed EchoEnable report
             else if ct = SetZeroPosition then ingest_host_echo mt order timed EchoSetZero report
             else let dev = inbound_motor_device_id (cf_id fr) ct
                  in if dev = DEFAULT_HOST_ID then
                       (if ct = ActiveReporting then ingest_host_echo mt order timed EchoReportingOff report
                        else report)
                     else case address_for_frame mt (rx_interface received) dev of
                         None \<Rightarrow> report
                       | Some (address, ty) \<Rightarrow>
                           if ct \<notin> {OperationStatus, ActiveReporting, FaultReport} then report
                           else case status_event ty ct received of
                               None \<Rightarrow> report
                             | Some event \<Rightarrow>
                                 report\<lparr>fr_observations := fr_observations report @
                                   [\<lparr>fo_order = order, fo_address = address,
                                     fo_received_at = tf_received_at timed,
                                     fo_can_id = cf_id fr, fo_event = event\<rparr>]\<rparr>))"

text \<open>\<open>frames.iter().enumerate()\<close> from a starting index.\<close>

fun ingest_from ::
    "motor_types \<Rightarrow> nat \<Rightarrow> timed_can_frame list \<Rightarrow> feedback_report \<Rightarrow> feedback_report" where
  "ingest_from mt n [] report = report"
| "ingest_from mt n (f # fs) report = ingest_from mt (Suc n) fs (ingest_feedback_frame mt n f report)"

definition ingest_feedback_frames ::
    "motor_types \<Rightarrow> timed_can_frame list \<Rightarrow> feedback_report \<Rightarrow> feedback_report" where
  "ingest_feedback_frames mt fs report = ingest_from mt 0 fs report"

definition report_from_raw :: "raw_receive_report \<Rightarrow> feedback_report" where
  "report_from_raw raw =
     \<lparr>fr_observations = [], fr_transport_frames = [], fr_completion = rr_completion raw,
      fr_ignored_frames = rr_ignored_frames raw,
      fr_raw_frames = length (rr_frames raw) + rr_ignored_frames raw,
      fr_read_attempts = rr_read_attempts raw, fr_terminal_error = rr_terminal_error raw,
      fr_terminal_error_order = rr_terminal_error_order raw, fr_identities = [],
      fr_parameter_reads = [], fr_host_echoes = []\<rparr>"

definition feedback_from_raw :: "motor_types \<Rightarrow> raw_receive_report \<Rightarrow> duration \<Rightarrow> feedback_report" where
  "feedback_from_raw mt raw budget =
     (let report = ingest_feedback_frames mt (rr_frames raw) (report_from_raw raw)
      in if budget \<noteq> 0 \<and> fr_observations report = [] \<and> fr_host_echoes report = [] \<and>
            fr_transport_frames report = [] \<and> fr_identities report = [] \<and>
            fr_parameter_reads report = [] \<and> fr_terminal_error report = None
         then report\<lparr>fr_terminal_error := Some RecvTimeout\<rparr> else report)"

definition recv_feedback_report_with_limits ::
    "'b can_bus \<Rightarrow> (nat \<Rightarrow> instant) \<Rightarrow> motor_types \<Rightarrow> duration \<Rightarrow> duration \<Rightarrow> receive_limits \<Rightarrow> 'b \<Rightarrow>
     feedback_report \<times> 'b" where
  "recv_feedback_report_with_limits ops clk mt budget quiet limits b =
     (let (raw, b') = drain ops clk budget quiet limits b in (feedback_from_raw mt raw budget, b'))"

definition recv_feedback_report ::
    "'b can_bus \<Rightarrow> (nat \<Rightarrow> instant) \<Rightarrow> motor_types \<Rightarrow> duration \<Rightarrow> duration \<Rightarrow> 'b \<Rightarrow>
     feedback_report \<times> 'b" where
  "recv_feedback_report ops clk mt budget quiet b =
     recv_feedback_report_with_limits ops clk mt budget quiet receive_limits_default b"

section \<open>The in-memory bus\<close>

record memory_bus =
  mb_tx :: "can_frame list"
  mb_rx_queue :: "can_frame list"

definition memory_send_frame :: "can_frame \<Rightarrow> memory_bus \<Rightarrow> (unit, bus_error) result \<times> memory_bus"
  where "memory_send_frame fr b =
     (case validate_can_tx fr of
        Inl e \<Rightarrow> (Err e, b)
      | Inr _ \<Rightarrow> (Ok (), b\<lparr>mb_tx := mb_tx b @ [fr]\<rparr>))"

definition memory_recv_one ::
    "instant \<Rightarrow> memory_bus \<Rightarrow> (receive_attempt, bus_error) result \<times> memory_bus" where
  "memory_recv_one now b =
     (case mb_rx_queue b of
        [] \<Rightarrow> (Ok AttemptIdle, b)
      | fr # rest \<Rightarrow>
          (Ok (AttemptFrame \<lparr>tf_received_at = now, tf_received = full_data None fr\<rparr>),
           b\<lparr>mb_rx_queue := rest\<rparr>))"

definition memory_bus_ops :: "memory_bus can_bus" where
  "memory_bus_ops =
     \<lparr>bus_send_frame = memory_send_frame, bus_recv_one = memory_recv_one,
      bus_source_count = (\<lambda>_. 1), bus_begin_receive = (\<lambda>b. b), bus_echoes = (\<lambda>_. False),
      bus_validate_address = (\<lambda>_ _. Ok ()), bus_send_frame_to = (\<lambda>_ fr b. memory_send_frame fr b)\<rparr>"

section \<open>Frames the encoders build pass the transmit filter\<close>

definition tx_frame :: "wire_pair \<Rightarrow> can_frame" where
  "tx_frame p = \<lparr>cf_id = fst p, cf_data = snd p, cf_extended = True\<rparr>"

definition tx_allowed :: "can_frame \<Rightarrow> bool" where
  "tx_allowed fr \<longleftrightarrow> (cf_extended fr \<longrightarrow> frame_comm_type (cf_id fr) \<in> set TX_COMMUNICATION_TYPES)"

lemma validate_can_tx_Ok: "validate_can_tx fr = Ok u \<longleftrightarrow> tx_allowed fr"
  by (simp add: validate_can_tx_def tx_allowed_def Let_def)

lemma frame_comm_type_pack [frame_simps]: "frame_comm_type (pack_typed_ext_id c e d) = comm_as_u8 c"
  by (simp add: frame_comm_type_def pack_typed_ext_id_def pack_type)

lemma send_encoded_tx_frame: "send_encoded_frame_to ops a p b = bus_send_frame_to ops a (tx_frame p) b"
  by (simp add: send_encoded_frame_to_def tx_frame_def)

definition batch_frames :: "addressed_mit_command list \<Rightarrow> can_frame list" where
  "batch_frames cmds =
     map (\<lambda>c. case encode_mit (amc_command c) of Inr p \<Rightarrow> tx_frame p | Inl _ \<Rightarrow> tx_frame (0, zero8)) cmds"

section \<open>What the motor operations rely on of a bus\<close>

text \<open>
  \<open>sent\<close> collects the extended frames a bus has put on the wire. A transmission that
  succeeds adds its frame, which passed the transmit filter, and nothing else; a refused one
  and a receive add nothing.
\<close>

locale can_transport =
  fixes ops :: "'b can_bus" and sent :: "'b \<Rightarrow> can_frame multiset"
  assumes send_ok: "bus_send_frame_to ops a (tx_frame p) b = (Ok u, b') \<Longrightarrow>
      sent b' = add_mset (tx_frame p) (sent b) \<and> tx_allowed (tx_frame p)"
    and send_err: "bus_send_frame_to ops a (tx_frame p) b = (Err e, b') \<Longrightarrow> sent b' = sent b"
    and recv_keeps: "sent (snd (bus_recv_one ops t b)) = sent b"
    and begin_keeps: "sent (bus_begin_receive ops b) = sent b"
begin

lemma send_encoded_sent:
  "sent (snd (send_encoded_frame_to ops a p b)) =
     (if is_ok (fst (send_encoded_frame_to ops a p b)) then add_mset (tx_frame p) (sent b) else sent b)"
  unfolding send_encoded_tx_frame
  by (cases "bus_send_frame_to ops a (tx_frame p) b"; cases "fst (bus_send_frame_to ops a (tx_frame p) b)")
    (auto dest: send_ok send_err)

lemma send_batch_sent:
  assumes "list_all (\<lambda>c. mit_in_range (amc_command c)) cmds"
  shows "\<exists>k \<le> length cmds. sent (snd (send_batch ops cmds b)) = sent b + mset (take k (batch_frames cmds)) \<and>
    (fst (send_batch ops cmds b) = Ok () \<longleftrightarrow> k = length cmds)"
  using assms
proof (induction cmds arbitrary: b)
  case Nil
  then show ?case by simp
next
  case (Cons c cs)
  obtain i d where enc: "encode_mit (amc_command c) = Ok (i, d)"
    using Cons.prems encode_mit_in_range [of "amc_command c"] by auto
  let ?fr = "tx_frame (i, d)"
  obtain r b' where snd: "bus_send_frame_to ops (amc_address c) ?fr b = (r, b')" by fastforce
  have bf: "batch_frames (c # cs) = ?fr # batch_frames cs"
    by (simp add: batch_frames_def enc)
  show ?case
  proof (cases r)
    case (Inl e)
    then have "send_batch ops (c # cs) b = (Err e, b')" "sent b' = sent b"
      using snd send_err by (auto simp: enc send_encoded_tx_frame)
    then show ?thesis by (intro exI [of _ 0]) simp
  next
    case (Inr u)
    then have s: "sent b' = add_mset ?fr (sent b)" using snd send_ok by blast
    have eq: "send_batch ops (c # cs) b = send_batch ops cs b'"
      using snd Inr by (simp add: enc send_encoded_tx_frame)
    from Cons obtain k where "k \<le> length cs"
      "sent (snd (send_batch ops cs b')) = sent b' + mset (take k (batch_frames cs))"
      "fst (send_batch ops cs b') = Ok () \<longleftrightarrow> k = length cs" by fastforce
    then show ?thesis
      unfolding eq bf by (intro exI [of _ "Suc k"]) (simp add: s)
  qed
qed

lemma reads_keep: "sent (snd (bus_reads ops ts b)) = sent b"
  by (induction ts arbitrary: b) (simp_all add: split_beta recv_keeps)

lemma drain_keeps: "sent (snd (drain ops clk budget quiet limits b)) = sent b"
proof (cases "0 < bus_source_count ops b \<and> (budget = 0 \<or> time_checked_add (clk 0) budget \<noteq> None)")
  case True
  then have "drain_post ops (min (lim_max_frames limits) MAX_RX_FRAMES_PER_POLL)
    (min (lim_max_attempts limits) MAX_RX_ATTEMPTS_PER_POLL) (bus_source_count ops b)
    (bus_begin_receive ops b) (drain ops clk budget quiet limits b)"
    by (intro drain_started) auto
  then obtain ts rs where
    "bus_reads ops ts (bus_begin_receive ops b) = (rs, snd (drain ops clk budget quiet limits b))"
    unfolding drain_post_def by blast
  then show ?thesis
    using reads_keep [of ts "bus_begin_receive ops b"] by (simp add: begin_keeps)
next
  case False
  then show ?thesis by (auto simp: drain_def Let_def split: option.splits)
qed

end

text \<open>A batch is sent as validated, whatever the bus.\<close>

lemma validate_batch_Ok:
  assumes "validate_batch ops b prior cmds = Ok u"
  shows "list_all (\<lambda>c. mit_in_range (amc_command c)) cmds \<and>
    list_all (\<lambda>c. cmd_device_id (amc_command c) = addr_device_id (amc_address c)) cmds \<and>
    distinct (map amc_address cmds) \<and>
    (\<forall>c \<in> set cmds. bus_validate_address ops (amc_address c) b = Ok ()) \<and>
    (\<forall>c \<in> set cmds. \<forall>p \<in> set prior. amc_address p \<noteq> amc_address c)"
  using assms
proof (induction cmds arbitrary: prior)
  case Nil
  then show ?case by simp
next
  case (Cons c cs)
  from Cons.prems have step: "validate_mit (amc_command c) = Ok ()"
      "cmd_device_id (amc_command c) = addr_device_id (amc_address c)"
      "\<not> list_ex (\<lambda>p. amc_address p = amc_address c) prior"
      "bus_validate_address ops (amc_address c) b = Ok ()"
    and rest: "validate_batch ops b (prior @ [c]) cs = Ok u"
    by (auto simp: rbind_Ok_iff split: sum.splits if_splits)
  from Cons.IH [OF rest] step show ?case
    by (auto simp: validate_mit_Ok list_ex_iff)
qed

lemma validate_batch_complete:
  assumes "list_all (\<lambda>c. mit_in_range (amc_command c)) cmds"
    "list_all (\<lambda>c. cmd_device_id (amc_command c) = addr_device_id (amc_address c)) cmds"
    "distinct (map amc_address cmds)"
    "\<forall>c \<in> set cmds. bus_validate_address ops (amc_address c) b = Ok ()"
    "\<forall>c \<in> set cmds. \<forall>p \<in> set prior. amc_address p \<noteq> amc_address c"
  shows "validate_batch ops b prior cmds = Ok ()"
  using assms
proof (induction cmds arbitrary: prior)
  case Nil
  then show ?case by simp
next
  case (Cons c cs)
  then have "validate_mit (amc_command c) = Ok ()" by (simp add: validate_mit_Ok)
  moreover have "validate_batch ops b (prior @ [c]) cs = Ok ()"
    using Cons.prems by (intro Cons.IH) (auto simp: image_iff)
  ultimately show ?case using Cons.prems by (auto simp: list_ex_iff)
qed

interpretation memory: can_transport memory_bus_ops "\<lambda>b. mset (mb_tx b)"
proof
  fix a p and b b' :: memory_bus and u e t
  show "bus_send_frame_to memory_bus_ops a (tx_frame p) b = (Ok u, b') \<Longrightarrow>
      mset (mb_tx b') = add_mset (tx_frame p) (mset (mb_tx b)) \<and> tx_allowed (tx_frame p)"
    using validate_can_tx_Ok [of "tx_frame p"]
    by (auto simp: memory_bus_ops_def memory_send_frame_def split: sum.splits)
  show "bus_send_frame_to memory_bus_ops a (tx_frame p) b = (Err e, b') \<Longrightarrow> mset (mb_tx b') = mset (mb_tx b)"
    by (auto simp: memory_bus_ops_def memory_send_frame_def split: sum.splits)
  show "mset (mb_tx (snd (bus_recv_one memory_bus_ops t b))) = mset (mb_tx b)"
    by (auto simp: memory_bus_ops_def memory_recv_one_def split: list.splits)
  show "mset (mb_tx (bus_begin_receive memory_bus_ops b)) = mset (mb_tx b)"
    by (simp add: memory_bus_ops_def)
qed

section \<open>Safety of everything the host transmits\<close>

text \<open>
  A frame this host may put on the wire: an allowed communication type, no write of the
  power-on zero, zero-offset or read-only registers, and no fault clear (a type-4 frame whose
  first byte is set).
\<close>

definition host_safe :: "can_frame \<Rightarrow> bool" where
  "host_safe fr \<longleftrightarrow>
     tx_allowed fr \<and>
     (frame_comm_type (cf_id fr) = comm_as_u8 WriteParameter \<longrightarrow>
        u16_from_le_bytes (cf_data fr ! 0) (cf_data fr ! 1) \<notin>
          param_as_u16 ` {ZeroSta, AddOffset, MechPos, MechVel}) \<and>
     (frame_comm_type (cf_id fr) = comm_as_u8 Disable \<longrightarrow> cf_data fr ! 0 = 0)"

definition all_safe :: "can_frame multiset \<Rightarrow> bool" where
  "all_safe M \<longleftrightarrow> (\<forall>fr \<in># M. host_safe fr)"

text \<open>One motor operation or receive of the \<open>MotorBus\<close> interface.\<close>

inductive motor_step :: "'b can_bus \<Rightarrow> 'b \<Rightarrow> 'b \<Rightarrow> bool" for ops :: "'b can_bus" where
  step_mit: "motor_step ops b (snd (mit_control_all_at ops cmds b))"
| step_enable: "motor_step ops b (snd (enable_drive_at ops a b))"
| step_disable: "motor_step ops b (snd (disable_drive_at ops a b))"
| step_set_zero: "motor_step ops b (snd (set_zero_position_at ops a b))"
| step_read: "motor_step ops b (snd (read_parameter_at ops a p b))"
| step_identity: "motor_step ops b (snd (get_device_id_at ops a b))"
| step_version: "motor_step ops b (snd (get_firmware_version_at ops a b))"
| step_write: "motor_step ops b (snd (write_parameter_at ops a p v b))"
| step_run_mode: "motor_step ops b (snd (set_run_mode_at ops a m b))"
| step_speed: "motor_step ops b (snd (speed_control_at ops a x b))"
| step_reporting_on: "motor_step ops b (snd (enable_active_reporting_at ops a b))"
| step_reporting_off: "motor_step ops b (snd (disable_active_reporting_at ops a b))"
| step_receive: "motor_step ops b (snd (recv_feedback_report_with_limits ops clk mt budget quiet limits b))"

lemmas encoder_defs =
  encode_default_enable_def encode_enable_def encode_default_disable_def encode_disable_def
  empty_frame_def encode_default_set_zero_position_def encode_set_zero_position_def
  encode_default_get_device_id_def encode_get_device_id_def
  encode_default_get_firmware_version_def encode_get_firmware_version_def
  encode_read_parameter_def encode_default_active_reporting_def encode_active_reporting_def

lemma host_safe_encoders:
  "host_safe (tx_frame (encode_default_enable d))"
  "host_safe (tx_frame (encode_default_disable d))"
  "host_safe (tx_frame (encode_default_set_zero_position d))"
  "host_safe (tx_frame (encode_default_get_device_id d))"
  "host_safe (tx_frame (encode_default_get_firmware_version d))"
  "host_safe (tx_frame (encode_read_parameter h d p))"
  "host_safe (tx_frame (encode_default_active_reporting d on))"
  by (simp_all add: host_safe_def tx_allowed_def tx_frame_def encoder_defs frame_comm_type_pack
      TX_COMMUNICATION_TYPES_def zero8_eval)

lemma host_safe_parameter_bytes:
  assumes "p \<notin> {ZeroSta, AddOffset, MechPos, MechVel}"
  shows "host_safe (tx_frame (encode_parameter_bytes h d p v))"
proof -
  have "param_as_u16 p \<notin> param_as_u16 ` {ZeroSta, AddOffset, MechPos, MechVel}"
    using assms param_from_as by (metis imageE option.inject)
  then show ?thesis
    by (simp add: host_safe_def tx_allowed_def tx_frame_def encode_parameter_bytes_def
        frame_comm_type_pack TX_COMMUNICATION_TYPES_def u16_to_le_bytes_def)
qed

lemma host_safe_write:
  assumes "encode_write_parameter h d p v = Ok pr"
  shows "host_safe (tx_frame pr)"
proof -
  have "p \<notin> {ZeroSta, AddOffset, MechPos, MechVel}"
    using assms by (auto simp: encode_write_parameter_def is_read_only_def)
  then show ?thesis
    using encode_write_parameter_OkD(1) [OF assms] by (simp add: host_safe_parameter_bytes)
qed

lemma host_safe_mit:
  assumes "encode_mit c = Ok pr"
  shows "host_safe (tx_frame pr)"
proof (cases pr)
  case (Pair i d)
  then show ?thesis
    using encode_mit_Ok(3) [of c i d] assms
    by (simp add: host_safe_def tx_allowed_def tx_frame_def frame_comm_type_pack TX_COMMUNICATION_TYPES_def)
qed

lemma host_safe_batch:
  assumes "list_all (\<lambda>c. mit_in_range (amc_command c)) cmds"
  shows "\<forall>fr \<in> set (batch_frames cmds). host_safe fr"
proof
  fix fr
  assume "fr \<in> set (batch_frames cmds)"
  then obtain c where c: "c \<in> set cmds"
    "fr = (case encode_mit (amc_command c) of Inr p \<Rightarrow> tx_frame p | Inl _ \<Rightarrow> tx_frame (0, zero8))"
    by (auto simp: batch_frames_def)
  then have "mit_in_range (amc_command c)" using assms by (simp add: list_all_iff)
  then obtain i d where "encode_mit (amc_command c) = Ok (i, d)"
    using encode_mit_in_range by blast
  then show "host_safe fr" using c(2) host_safe_mit by simp
qed

context can_transport
begin

lemma send_encoded_safe:
  assumes "all_safe (sent b)" and "host_safe (tx_frame p)"
  shows "all_safe (sent (snd (send_encoded_frame_to ops a p b)))"
  using assms by (simp add: send_encoded_sent all_safe_def)

lemma mit_control_safe:
  assumes "all_safe (sent b)"
  shows "all_safe (sent (snd (mit_control_all_at ops cmds b)))"
proof (cases "validate_batch ops b [] cmds")
  case (Inl e)
  then show ?thesis using assms by (simp add: mit_control_all_at_def)
next
  case (Inr u)
  then have v: "list_all (\<lambda>c. mit_in_range (amc_command c)) cmds"
    using validate_batch_Ok [of ops b "[]" cmds u] by simp
  obtain k where "sent (snd (send_batch ops cmds b)) = sent b + mset (take k (batch_frames cmds))"
    using send_batch_sent [OF v] by blast
  then show ?thesis
    using assms host_safe_batch [OF v] Inr
    by (auto simp: mit_control_all_at_def all_safe_def dest: in_set_takeD)
qed

lemma motor_step_safe:
  assumes "motor_step ops b b'" and "all_safe (sent b)"
  shows "all_safe (sent b')"
  using assms(1)
proof (cases rule: motor_step.cases)
  case (step_receive clk mt budget quiet limits)
  then show ?thesis
    using assms(2) drain_keeps by (simp add: recv_feedback_report_with_limits_def split_beta Let_def)
next
  case (step_write a p v)
  then show ?thesis
    using assms(2) host_safe_write [of DEFAULT_HOST_ID "addr_device_id a" p v]
    by (cases "encode_write_parameter DEFAULT_HOST_ID (addr_device_id a) p v")
      (simp_all add: write_parameter_at_def send_encoded_safe)
next
  case (step_speed a x)
  then show ?thesis
    using assms(2) host_safe_write [of DEFAULT_HOST_ID "addr_device_id a" SpeedTarget "ValF32 x"]
    by (cases "encode_write_parameter DEFAULT_HOST_ID (addr_device_id a) SpeedTarget (ValF32 x)")
      (simp_all add: speed_control_at_def encode_speed_ref_def send_encoded_safe)
next
  case (step_run_mode a m)
  then show ?thesis
    using assms(2)
    by (simp add: set_run_mode_at_def encode_set_run_mode_def send_encoded_safe
        host_safe_parameter_bytes)
qed (use assms(2) in \<open>simp_all add: enable_drive_at_def disable_drive_at_def set_zero_position_at_def
      read_parameter_at_def get_device_id_at_def get_firmware_version_at_def
      enable_active_reporting_at_def disable_active_reporting_at_def
      send_encoded_safe host_safe_encoders mit_control_safe\<close>)

lemma motor_steps_safe:
  assumes "(motor_step ops)\<^sup>*\<^sup>* b b'" and "all_safe (sent b)"
  shows "all_safe (sent b')"
  using assms by (induction rule: rtranclp_induct) (auto dest: motor_step_safe)

end

text \<open>A property of a bus that its own operations keep is kept by every motor operation.\<close>

locale bus_invariant =
  fixes ops :: "'b can_bus" and inv :: "'b \<Rightarrow> bool"
  assumes send_inv: "inv b \<Longrightarrow> inv (snd (bus_send_frame_to ops a fr b))"
    and recv_inv: "inv b \<Longrightarrow> inv (snd (bus_recv_one ops t b))"
    and begin_inv: "inv b \<Longrightarrow> inv (bus_begin_receive ops b)"
begin

lemma send_encoded_inv: "inv b \<Longrightarrow> inv (snd (send_encoded_frame_to ops a p b))"
  by (simp add: send_encoded_frame_to_def send_inv)

lemma send_batch_inv: "inv b \<Longrightarrow> inv (snd (send_batch ops cmds b))"
proof (induction cmds arbitrary: b)
  case (Cons c cs)
  show ?case
  proof (cases "encode_mit (amc_command c)")
    case (Inr p)
    obtain r b' where s: "send_encoded_frame_to ops (amc_address c) p b = (r, b')" by fastforce
    have "inv b'" using send_encoded_inv [OF Cons.prems, of "amc_address c" p] s by simp
    then show ?thesis using Cons.IH Inr s by (cases r) simp_all
  qed (use Cons.prems in simp)
qed simp

lemma reads_inv: "inv b \<Longrightarrow> inv (snd (bus_reads ops ts b))"
  by (induction ts arbitrary: b) (simp_all add: split_beta recv_inv)

lemma drain_keeps_inv: "inv b \<Longrightarrow> inv (snd (drain ops clk budget quiet limits b))"
proof (cases "0 < bus_source_count ops b \<and> (budget = 0 \<or> time_checked_add (clk 0) budget \<noteq> None)")
  case True
  assume b: "inv b"
  from True have "drain_post ops (min (lim_max_frames limits) MAX_RX_FRAMES_PER_POLL)
    (min (lim_max_attempts limits) MAX_RX_ATTEMPTS_PER_POLL) (bus_source_count ops b)
    (bus_begin_receive ops b) (drain ops clk budget quiet limits b)"
    by (intro drain_started) auto
  then obtain ts rs where
    "bus_reads ops ts (bus_begin_receive ops b) = (rs, snd (drain ops clk budget quiet limits b))"
    unfolding drain_post_def by blast
  then show ?thesis
    using reads_inv [OF begin_inv [OF b], of ts] by simp
qed (auto simp: drain_def Let_def split: option.splits)

lemma motor_step_inv:
  assumes "motor_step ops b b'" and "inv b"
  shows "inv b'"
  using assms(1)
proof (cases rule: motor_step.cases)
  case (step_mit cmds)
  then show ?thesis
    using assms(2) by (simp add: mit_control_all_at_def send_batch_inv split: sum.splits)
next
  case (step_receive clk mt budget quiet limits)
  then show ?thesis
    using assms(2) drain_keeps_inv by (simp add: recv_feedback_report_with_limits_def split_beta Let_def)
qed (use assms(2) in \<open>simp_all add: enable_drive_at_def disable_drive_at_def set_zero_position_at_def
      read_parameter_at_def get_device_id_at_def get_firmware_version_at_def
      enable_active_reporting_at_def disable_active_reporting_at_def write_parameter_at_def
      speed_control_at_def set_run_mode_at_def send_encoded_inv split: sum.splits\<close>)

lemma motor_steps_inv:
  assumes "(motor_step ops)\<^sup>*\<^sup>* b b'" and "inv b"
  shows "inv b'"
  using assms by (induction rule: rtranclp_induct) (auto dest: motor_step_inv)

end

section \<open>Projection of received frames\<close>

text \<open>The report without its evidence lists: what ingesting frames never changes.\<close>

lemma ingest_feedback_frame_obs:
  obtains "fr_observations (ingest_feedback_frame mt n f rep) = fr_observations rep"
  | x ty ct where "fr_observations (ingest_feedback_frame mt n f rep) = fr_observations rep @ [x]"
      "fo_order x = n" "fo_received_at x = tf_received_at f" "fo_can_id x = cf_id (rx_frame (tf_received f))"
      "address_for_frame mt (rx_interface (tf_received f))
         (inbound_motor_device_id (cf_id (rx_frame (tf_received f))) ct) = Some (fo_address x, ty)"
      "ct \<in> {OperationStatus, ActiveReporting, FaultReport}"
      "status_event ty ct (tf_received f) = Some (fo_event x)"
proof -
  have reply: "fr_observations (ingest_reply_frame mt n f c rep) = fr_observations rep" for c
    by (auto simp: ingest_reply_frame_def Let_def split: option.splits prod.splits decoded_reply.splits)
  have echo: "fr_observations (ingest_host_echo mt n f c rep) = fr_observations rep" for c
    by (auto simp: ingest_host_echo_def Let_def split: option.splits prod.splits)
  consider "rx_kind (tf_received f) = RxError \<or> \<not> cf_extended (rx_frame (tf_received f)) \<or>
      unpack_ext_id (cf_id (rx_frame (tf_received f))) = None"
    | ext where "rx_kind (tf_received f) \<noteq> RxError" "cf_extended (rx_frame (tf_received f))"
      "unpack_ext_id (cf_id (rx_frame (tf_received f))) = Some ext"
    by blast
  then show thesis
  proof cases
    case 1
    then show thesis by (intro that(1)) (auto simp: ingest_feedback_frame_def Let_def)
  next
    case (2 ext)
    show thesis
    proof (cases "comm_from_u8 (comm_type ext)")
      case None
      with 2 show thesis by (intro that(1)) (simp add: ingest_feedback_frame_def Let_def)
    next
      case (Some ct)
      let ?dev = "inbound_motor_device_id (cf_id (rx_frame (tf_received f))) ct"
      show thesis
      proof (cases "ct \<in> {OperationStatus, ActiveReporting, FaultReport} \<and> ?dev \<noteq> DEFAULT_HOST_ID")
        case False
        with 2 Some show thesis
          by (intro that(1)) (auto simp: ingest_feedback_frame_def Let_def reply echo split: option.splits)
      next
        case True
        then have plain: "ct \<notin> {GetDeviceId, ReadParameter, Enable, SetZeroPosition}" by auto
        have unf: "ingest_feedback_frame mt n f rep =
            (case address_for_frame mt (rx_interface (tf_received f)) ?dev of None \<Rightarrow> rep
             | Some (address, ty) \<Rightarrow> (case status_event ty ct (tf_received f) of None \<Rightarrow> rep
                | Some event \<Rightarrow> rep\<lparr>fr_observations := fr_observations rep @
                    [\<lparr>fo_order = n, fo_address = address, fo_received_at = tf_received_at f,
                      fo_can_id = cf_id (rx_frame (tf_received f)), fo_event = event\<rparr>]\<rparr>))"
          using 2 Some True plain by (auto simp: ingest_feedback_frame_def Let_def split: option.splits)
        show thesis
        proof (cases "address_for_frame mt (rx_interface (tf_received f)) ?dev")
          case None
          then show thesis by (intro that(1)) (simp add: unf)
        next
          case (Some hit)
          then obtain address ty where hit: "hit = (address, ty)" by fastforce
          show thesis
          proof (cases "status_event ty ct (tf_received f)")
            case None
            then show thesis using Some hit by (intro that(1)) (simp add: unf)
          next
            case ev: (Some event)
            then show thesis
              using Some hit True
              by (intro that(2) [of "\<lparr>fo_order = n, fo_address = address, fo_received_at = tf_received_at f,
                      fo_can_id = cf_id (rx_frame (tf_received f)), fo_event = event\<rparr>" ct ty])
                (simp_all add: unf)
          qed
        qed
      qed
    qed
  qed
qed

text \<open>An observation is explained by the frame it is numbered after.\<close>

definition observation_of :: "motor_types \<Rightarrow> timed_can_frame \<Rightarrow> feedback_observation \<Rightarrow> bool" where
  "observation_of mt f x \<longleftrightarrow>
     (\<exists>ty ct. fo_received_at x = tf_received_at f \<and> fo_can_id x = cf_id (rx_frame (tf_received f)) \<and>
        ct \<in> {OperationStatus, ActiveReporting, FaultReport} \<and>
        address_for_frame mt (rx_interface (tf_received f))
          (inbound_motor_device_id (fo_can_id x) ct) = Some (fo_address x, ty) \<and>
        status_event ty ct (tf_received f) = Some (fo_event x))"

definition obs_inv :: "motor_types \<Rightarrow> timed_can_frame list \<Rightarrow> nat \<Rightarrow> feedback_report \<Rightarrow> bool" where
  "obs_inv mt fs n rep \<longleftrightarrow>
     sorted_wrt (<) (map fo_order (fr_observations rep)) \<and>
     (\<forall>x \<in> set (fr_observations rep). fo_order x < n \<and> fo_order x < length fs \<and>
        observation_of mt (fs ! fo_order x) x)"

lemma obs_inv_step:
  assumes "obs_inv mt fs n rep" and "n < length fs"
  shows "obs_inv mt fs (Suc n) (ingest_feedback_frame mt n (fs ! n) rep)"
proof (cases rule: ingest_feedback_frame_obs [of mt n "fs ! n" rep])
  case 1
  then show ?thesis using assms by (auto simp: obs_inv_def)
next
  case (2 x ty ct)
  then have "observation_of mt (fs ! n) x" by (auto simp: observation_of_def)
  with 2 assms show ?thesis
    by (auto simp: obs_inv_def sorted_wrt_append)
qed

lemma obs_inv_from:
  "obs_inv mt fs n rep \<Longrightarrow> n \<le> length fs \<Longrightarrow> obs_inv mt fs (length fs) (ingest_from mt n (drop n fs) rep)"
proof (induction "length fs - n" arbitrary: n rep)
  case 0
  then show ?case by simp
next
  case (Suc k)
  then have n: "n < length fs" by simp
  then have d: "drop n fs = fs ! n # drop (Suc n) fs" by (rule Cons_nth_drop_Suc [symmetric])
  show ?case
    unfolding d using Suc(1) [of "Suc n"] Suc.hyps(2) obs_inv_step [OF Suc.prems(1) n] n by simp
qed

lemma feedback_from_raw_obs: "obs_inv mt (rr_frames raw) (length (rr_frames raw)) (feedback_from_raw mt raw budget)"
proof -
  have "obs_inv mt (rr_frames raw) 0 (report_from_raw raw)"
    by (simp add: obs_inv_def report_from_raw_def)
  from obs_inv_from [OF this] show ?thesis
    by (simp add: feedback_from_raw_def ingest_feedback_frames_def Let_def obs_inv_def)
qed

lemma address_for_frame_Some:
  assumes "address_for_frame mt i d = Some (a, ty)"
  shows "(a, ty) \<in> set mt" and "addr_device_id a = d" and "i = Some j \<Longrightarrow> addr_interface a = j"
proof -
  define M where "M = filter (\<lambda>(a, _). addr_device_id a = d) mt"
  have "(a, ty) \<in> set M"
    using assms unfolding address_for_frame_def Let_def M_def [symmetric]
    by (auto dest: find_Some_set split: option.splits list.splits)
  then show "(a, ty) \<in> set mt" "addr_device_id a = d" by (auto simp: M_def)
  show "i = Some j \<Longrightarrow> addr_interface a = j"
    using assms by (auto simp: address_for_frame_def Let_def dest: find_Some_set)
qed

lemma status_event_pose:
  assumes "status_event ty ct r = Some (EventStatus fb)"
  shows "rx_kind r = RxData" and "rx_payload_len r = 8" and "ct \<in> {OperationStatus, ActiveReporting}"
    and "decode_firmware_version_reply (cf_id (rx_frame r)) (cf_data (rx_frame r)) = None"
    and "fb = decode_status_payload ty ct (cf_id (rx_frame r)) (cf_data (rx_frame r))"
  using assms
  by (auto simp: status_event_def malformed_of_def Let_def split: option.splits if_splits prod.splits)

definition batch_valid :: "'b can_bus \<Rightarrow> 'b \<Rightarrow> addressed_mit_command list \<Rightarrow> bool" where
  "batch_valid ops b cmds \<longleftrightarrow>
     list_all (\<lambda>c. mit_in_range (amc_command c)) cmds \<and>
     list_all (\<lambda>c. cmd_device_id (amc_command c) = addr_device_id (amc_address c)) cmds \<and>
     distinct (map amc_address cmds) \<and>
     list_all (\<lambda>c. bus_validate_address ops (amc_address c) b = Ok ()) cmds"

text \<open>An echo is exactly a frame this host transmits, to a configured address.\<close>

definition echo_of :: "motor_types \<Rightarrow> timed_can_frame \<Rightarrow> host_echo_observation \<Rightarrow> bool" where
  "echo_of mt f x \<longleftrightarrow>
     ho_received_at x = tf_received_at f \<and> ho_can_id x = cf_id (rx_frame (tf_received f)) \<and>
     ho_address x \<in> fst ` set mt \<and> rx_kind (tf_received f) = RxData \<and>
     echo_frame (ho_command x) (addr_device_id (ho_address x)) =
       (cf_id (rx_frame (tf_received f)), the (rx_payload (tf_received f)))"

definition echo_step :: "motor_types \<Rightarrow> nat \<Rightarrow> timed_can_frame \<Rightarrow> feedback_report \<Rightarrow> feedback_report \<Rightarrow> bool"
  where "echo_step mt n f rep rep' \<longleftrightarrow>
     fr_host_echoes rep' = fr_host_echoes rep \<or>
     (\<exists>x. fr_host_echoes rep' = fr_host_echoes rep @ [x] \<and> ho_order x = n \<and> echo_of mt f x)"

lemma echo_step_same: "fr_host_echoes rep' = fr_host_echoes rep \<Longrightarrow> echo_step mt n f rep rep'"
  by (simp add: echo_step_def)

lemma ingest_host_echo_step: "echo_step mt n f rep (ingest_host_echo mt n f c rep)"
proof -
  let ?r = "tf_received f" and ?i = "cf_id (rx_frame (tf_received f))"
  let ?d = "ucast (?i AND 0xFF) :: u8"
  obtain i d where e: "echo_frame c ?d = (i, d)" by fastforce
  show ?thesis
  proof (cases "rx_kind ?r = RxData \<and> ?i = i \<and> rx_payload ?r = Some d")
    case False
    then show ?thesis by (intro echo_step_same) (auto simp: ingest_host_echo_def Let_def e)
  next
    case True
    then show ?thesis
      using e address_for_frame_Some(1,2) [of mt "rx_interface ?r" ?d]
      by (cases "address_for_frame mt (rx_interface ?r) ?d")
        (force simp: ingest_host_echo_def Let_def echo_of_def echo_step_def)+
  qed
qed

lemma ingest_reply_frame_echo: "echo_step mt n f rep (ingest_reply_frame mt n f c rep)"
  by (intro echo_step_same)
    (auto simp: ingest_reply_frame_def Let_def split: option.splits prod.splits decoded_reply.splits)

lemma ingest_feedback_frame_echo: "echo_step mt n f rep (ingest_feedback_frame mt n f rep)"
  by (simp add: ingest_feedback_frame_def Let_def ingest_reply_frame_echo ingest_host_echo_step
      echo_step_same split: option.split prod.split)

definition echo_inv :: "motor_types \<Rightarrow> timed_can_frame list \<Rightarrow> nat \<Rightarrow> feedback_report \<Rightarrow> bool" where
  "echo_inv mt fs n rep \<longleftrightarrow>
     sorted_wrt (<) (map ho_order (fr_host_echoes rep)) \<and>
     (\<forall>x \<in> set (fr_host_echoes rep). ho_order x < n \<and> ho_order x < length fs \<and>
        echo_of mt (fs ! ho_order x) x)"

lemma echo_inv_from:
  "echo_inv mt fs n rep \<Longrightarrow> n \<le> length fs \<Longrightarrow> echo_inv mt fs (length fs) (ingest_from mt n (drop n fs) rep)"
proof (induction "length fs - n" arbitrary: n rep)
  case 0
  then show ?case by simp
next
  case (Suc k)
  then have n: "n < length fs" by simp
  have "echo_inv mt fs (Suc n) (ingest_feedback_frame mt n (fs ! n) rep)"
    using ingest_feedback_frame_echo [of mt n "fs ! n" rep] Suc.prems n
    by (auto simp: echo_inv_def echo_step_def sorted_wrt_append less_Suc_eq)
  then show ?case
    unfolding Cons_nth_drop_Suc [OF n, symmetric] using Suc(1) [of "Suc n"] Suc.hyps(2) n by simp
qed

lemma feedback_from_raw_echo: "echo_inv mt (rr_frames raw) (length (rr_frames raw)) (feedback_from_raw mt raw budget)"
proof -
  have "echo_inv mt (rr_frames raw) 0 (report_from_raw raw)"
    by (simp add: echo_inv_def report_from_raw_def)
  from echo_inv_from [OF this] show ?thesis
    by (simp add: feedback_from_raw_def ingest_feedback_frames_def Let_def echo_inv_def)
qed

section \<open>Properties\<close>



text \<open>C16: wire-order markers are exactly this host's own frames. Every echo in a report
  stands for a received data frame whose identifier and payload are byte for byte the
  Enable, reporting-Off or SetZero frame this host sends to the echo's address, which is
  configured; echoes are strictly ordered by raw frame number. Another host's command, a
  reporting-On or a truncated frame is never an echo.\<close>

theorem host_echoes_exact:
  "let rep = feedback_from_raw mt raw budget in
   sorted_wrt (<) (map ho_order (fr_host_echoes rep)) \<and>
   list_all (\<lambda>x. ho_order x < length (rr_frames raw) \<and>
      echo_of mt (rr_frames raw ! ho_order x) x) (fr_host_echoes rep)"
  using feedback_from_raw_echo [of mt raw budget] by (simp add: echo_inv_def Let_def list_all_iff)

end
