(* ===== verification/Robstride_Socket.thy ===== *)
theory Robstride_Socket
  imports Robstride_Bus "HOL-Library.AList" "HOL-Library.Char_ord" "HOL-Library.List_Lexorder"
begin

unbundle bit_operations_syntax

text \<open>
  The SocketCAN backends of \<open>crates/robstride/src/bus.rs\<close>: the echo ledger that attributes
  host commands to the socket that sent them, one socket, and the router over all configured
  interfaces.

  The kernel and the \<open>socketcan\<close> crate are outside the program. A socket's state therefore
  carries what the kernel will answer: the outcomes of the coming reads and writes, in order,
  each an arbitrary value; when a list runs out, reads would block and writes are accepted.
  \<open>sk_wire\<close> collects the frames the kernel accepted.
\<close>

section \<open>Attribution of host commands\<close>

definition is_host_command :: "u32 \<Rightarrow> bool" where
  "is_host_command can_id =
     (case unpack_ext_id can_id of
        None \<Rightarrow> False
      | Some ext \<Rightarrow>
          if comm_type ext \<in> {1, 3, 4, 6, 7, 18, 22, 23, 25} then True
          else if comm_type ext \<in> {0, 17, 24} then extra_data ext = ucast DEFAULT_HOST_ID
          else False)"

definition MAX_PENDING_ECHOES :: nat where "MAX_PENDING_ECHOES = 1024"

type_synonym echo_ledger = "(u32 \<times> u8 list) list"

definition transmitted :: "can_frame \<Rightarrow> echo_ledger \<Rightarrow> echo_ledger" where
  "transmitted fr led =
     (if \<not> cf_extended fr then led
      else (if length led = MAX_PENDING_ECHOES then tl led else led) @ [(cf_id fr, cf_data fr)])"

definition claim :: "received_can_frame \<Rightarrow> echo_ledger \<Rightarrow> bool \<times> echo_ledger" where
  "claim received led =
     (if rx_kind received \<noteq> RxData \<or> \<not> cf_extended (rx_frame received) \<or> rx_payload_len received \<noteq> 8
      then (False, led)
      else let key = (cf_id (rx_frame received), cf_data (rx_frame received))
           in case position (\<lambda>pending. pending = key) led of
                Some index \<Rightarrow> (True, remove_at index led)
              | None \<Rightarrow> (False, led))"

definition admit ::
    "string \<Rightarrow> received_can_frame \<Rightarrow> echo_ledger \<Rightarrow> (unit, bus_error) result \<times> echo_ledger" where
  "admit interface received led =
     (let (claimed, led') = claim received led
      in if claimed \<or> rx_kind received = RxError \<or> \<not> cf_extended (rx_frame received) \<or>
            \<not> is_host_command (cf_id (rx_frame received))
         then (Ok (), led')
         else (Err (DriverError (''SocketCAN '' @ interface @ '': host command '' @
                 show_hex_010 (cf_id (rx_frame received)) @
                 '' that this socket did not send; another CAN writer is active'')), led'))"

definition settle_read ::
    "string \<Rightarrow> u32 option \<Rightarrow> received_can_frame option \<Rightarrow> echo_ledger \<Rightarrow>
     (unit, bus_error) result \<times> echo_ledger" where
  "settle_read interface dropped received led =
     (case dropped of
        Some n \<Rightarrow>
          (Err (DriverError (''SocketCAN '' @ interface @ '': kernel dropped '' @ show_nat (unat n) @
             '' received frame(s) from a full receive queue'')),
           case received of Some r \<Rightarrow> snd (claim r led) | None \<Rightarrow> led)
      | None \<Rightarrow>
          (case received of Some r \<Rightarrow> admit interface r led | None \<Rightarrow> (Ok (), led)))"

text \<open>The cumulative drop counter wraps; every new drop is reported once.\<close>

definition new_kernel_drops :: "u32 \<Rightarrow> u32 option \<Rightarrow> u32 option \<times> u32" where
  "new_kernel_drops reported cumulative =
     (case cumulative of
        None \<Rightarrow> (None, reported)
      | Some c \<Rightarrow> if c - reported = 0 then (None, reported) else (Some (c - reported), c))"

section \<open>One socket\<close>

text \<open>What the dependency's typed frame exposes of a received one.\<close>

datatype any_frame =
    AnyNormal nat u32 bool "u8 list"
  | AnyRemote u32 bool nat
  | AnyError nat u32 bool "u8 list"
  | AnyFd

definition from_socketcan :: "string option \<Rightarrow> any_frame \<Rightarrow> (received_can_frame, bus_error) result"
  where "from_socketcan interface fr =
     (case fr of
        AnyNormal dlc raw_id ext data \<Rightarrow>
          if 8 < dlc then Err (DriverError ''invalid classic CAN data length'')
          else new_data interface raw_id ext data
      | AnyRemote raw_id ext dlc \<Rightarrow> new_remote interface raw_id ext (of_nat dlc)
      | AnyError dlc bits ext data \<Rightarrow>
          if 8 < dlc then Err (DriverError ''invalid classic CAN error length'')
          else rbind (new_data interface bits ext (take dlc data)) (\<lambda>r. Ok (r\<lparr>rx_kind := RxError\<rparr>))
      | AnyFd \<Rightarrow> Err (DriverError ''received unsupported CAN FD frame on classic CAN backend''))"

text \<open>Foreign envelopes are skipped: an oversized remote request among them.\<close>

definition classic_frame :: "any_frame \<Rightarrow> (any_frame, string) result" where
  "classic_frame fr =
     (case fr of
        AnyRemote _ _ dlc \<Rightarrow> if 8 < dlc then Err ''oversized classic CAN remote frame'' else Ok fr
      | _ \<Rightarrow> Ok fr)"

definition CAN_MTU :: nat where "CAN_MTU = 16"
definition CANFD_MTU :: nat where "CANFD_MTU = 72"

record kernel_datagram =
  kd_bytes :: nat
  kd_frame :: any_frame
  kd_kernel :: "system_time option"
  kd_drops :: "u32 option"
  kd_wall :: system_time
  kd_read_instant :: instant

datatype read_outcome = ReadOk kernel_datagram | ReadWouldBlock | ReadInterrupted | ReadFailed string

datatype write_outcome = Wrote nat | WriteFailed string bool

record socketcan =
  sk_interface :: string
  sk_rx_clock :: rx_clock
  sk_echoes :: echo_ledger
  sk_receives :: bool
  sk_drops_reported :: u32
  sk_reads :: "read_outcome list"
  sk_writes :: "write_outcome list"
  sk_wire :: "can_frame list"

definition socket_validate_address :: "motor_address \<Rightarrow> socketcan \<Rightarrow> (unit, bus_error) result" where
  "socket_validate_address a sk =
     (if addr_interface a \<noteq> sk_interface sk
      then Err (UnknownMotorAddress (addr_interface a) (addr_device_id a)) else Ok ())"

text \<open>Checks of the identifier constructors: 29 bits extended, 11 bits standard, the latter
  after the identifier is cut to sixteen bits.\<close>

definition socket_frame :: "can_frame \<Rightarrow> (can_frame, bus_error) result" where
  "socket_frame fr =
     (if cf_extended fr then
        (if cf_id fr > EXTENDED_ID_MASK
         then Err (SendError (''invalid extended id '' @ show_nat (unat (cf_id fr))) False)
         else Ok fr)
      else let std = (ucast (cf_id fr) :: u16)
           in if std > 0x7FF
              then Err (SendError (''invalid standard id '' @ show_nat (unat (cf_id fr))) False)
              else Ok (fr\<lparr>cf_id := ucast std\<rparr>))"

definition socket_write :: "can_frame \<Rightarrow> socketcan \<Rightarrow> write_outcome \<times> socketcan" where
  "socket_write fr sk =
     (let out = (case sk_writes sk of [] \<Rightarrow> Wrote CAN_MTU | w # _ \<Rightarrow> w)
      in (out, sk\<lparr>sk_writes := tl (sk_writes sk),
                  sk_wire := (if out = Wrote CAN_MTU then sk_wire sk @ [fr] else sk_wire sk)\<rparr>))"

definition socket_send_frame :: "can_frame \<Rightarrow> socketcan \<Rightarrow> (unit, bus_error) result \<times> socketcan" where
  "socket_send_frame sent sk =
     (case validate_can_tx sent of
        Inl e \<Rightarrow> (Err e, sk)
      | Inr _ \<Rightarrow>
          (case socket_frame sent of
             Inl e \<Rightarrow> (Err e, sk)
           | Inr fr \<Rightarrow>
               (case socket_write fr sk of
                  (WriteFailed msg transient, sk') \<Rightarrow> (Err (SendError msg transient), sk')
                | (Wrote written, sk') \<Rightarrow>
                    if written \<noteq> CAN_MTU then
                      (Err (SendError (''short CAN datagram write: '' @ show_nat written @ ''/'' @
                         show_nat CAN_MTU @ '' bytes'') False), sk')
                    else (Ok (), sk'\<lparr>sk_echoes := transmitted sent (sk_echoes sk')\<rparr>))))"

definition socket_send_frame_to ::
    "motor_address \<Rightarrow> can_frame \<Rightarrow> socketcan \<Rightarrow> (unit, bus_error) result \<times> socketcan" where
  "socket_send_frame_to a fr sk =
     (case socket_validate_address a sk of
        Inl e \<Rightarrow> (Err e, sk)
      | Inr _ \<Rightarrow> socket_send_frame fr sk)"

text \<open>The typed frame of a datagram: \<open>Ok None\<close> is a foreign frame to be skipped.\<close>

definition parse_datagram ::
    "string \<Rightarrow> kernel_datagram \<Rightarrow> (received_can_frame option, bus_error) result" where
  "parse_datagram interface d =
     (if kd_bytes d = CAN_MTU then
        (case classic_frame (kd_frame d) of
           Inr fr \<Rightarrow> rbind (from_socketcan (Some interface) fr) (\<lambda>r. Ok (Some r))
         | Inl _ \<Rightarrow> Ok None)
      else if kd_bytes d = CANFD_MTU then Ok None
      else Err (DriverError (''SocketCAN '' @ interface @ '' receive: unexpected '' @
             show_nat (kd_bytes d) @ ''-byte datagram'')))"

definition parsed_frame :: "(received_can_frame option, bus_error) result \<Rightarrow> received_can_frame option"
  where "parsed_frame p = (case p of Inr r \<Rightarrow> r | Inl _ \<Rightarrow> None)"

definition socket_recv_datagram ::
    "kernel_datagram \<Rightarrow> socketcan \<Rightarrow> (receive_attempt, bus_error) result \<times> socketcan" where
  "socket_recv_datagram d sk0 =
     (let (dropped, reported) = new_kernel_drops (sk_drops_reported sk0) (kd_drops d);
          parsed = parse_datagram (sk_interface sk0) d;
          (settled, led) = settle_read (sk_interface sk0) dropped (parsed_frame parsed) (sk_echoes sk0);
          sk = sk0\<lparr>sk_drops_reported := reported, sk_echoes := led\<rparr>
      in case settled of
           Inl e \<Rightarrow> (Err e, sk)
         | Inr _ \<Rightarrow>
             (case parsed of
                Inl e \<Rightarrow> (Err e, sk)
              | Inr None \<Rightarrow> (Ok AttemptIgnored, sk)
              | Inr (Some received) \<Rightarrow>
                  (let (stamped, _, clock) =
                         rx_stamp (kd_kernel d) (kd_wall d) (kd_read_instant d) (sk_rx_clock sk)
                   in (Ok (AttemptFrame \<lparr>tf_received_at = stamped, tf_received = received\<rparr>),
                       sk\<lparr>sk_rx_clock := clock\<rparr>))))"

definition socket_recv_one ::
    "instant \<Rightarrow> socketcan \<Rightarrow> (receive_attempt, bus_error) result \<times> socketcan" where
  "socket_recv_one before_read sk =
     (if \<not> sk_receives sk then
        (Err (DriverError (''SocketCAN '' @ sk_interface sk @ '' is transmit-only'')), sk)
      else let sk1 = sk\<lparr>sk_reads := tl (sk_reads sk)\<rparr>
           in case (case sk_reads sk of [] \<Rightarrow> ReadWouldBlock | r # _ \<Rightarrow> r) of
                ReadOk d \<Rightarrow> socket_recv_datagram d sk1
              | ReadWouldBlock \<Rightarrow>
                  (Ok AttemptIdle, sk1\<lparr>sk_rx_clock := observe_empty before_read (sk_rx_clock sk1)\<rparr>)
              | ReadInterrupted \<Rightarrow> (Ok AttemptInterrupted, sk1)
              | ReadFailed msg \<Rightarrow>
                  (Err (DriverError (''SocketCAN '' @ sk_interface sk @ '' receive: '' @ msg)), sk1))"

definition socket_ops :: "socketcan can_bus" where
  "socket_ops =
     \<lparr>bus_send_frame = socket_send_frame, bus_recv_one = socket_recv_one,
      bus_source_count = (\<lambda>_. 1), bus_begin_receive = (\<lambda>sk. sk), bus_echoes = sk_receives,
      bus_validate_address = socket_validate_address, bus_send_frame_to = socket_send_frame_to\<rparr>"

text \<open>A socket as \<open>open_socket\<close> leaves it, with nothing yet read or written.\<close>

definition open_socket :: "string \<Rightarrow> bool \<Rightarrow> instant \<Rightarrow> socketcan" where
  "open_socket interface receives opened =
     \<lparr>sk_interface = interface, sk_rx_clock = rx_clock_new opened, sk_echoes = [],
      sk_receives = receives, sk_drops_reported = 0, sk_reads = [], sk_writes = [], sk_wire = []\<rparr>"

section \<open>The router\<close>

record can_router =
  ro_sockets :: "(string \<times> socketcan) list"
  ro_addresses :: "motor_address list"
  ro_interfaces :: "string list"
  ro_cursor :: nat
  ro_next_start :: nat

text \<open>The loop over the configured motors of \<open>SocketCanRouter::open\<close>.\<close>

fun router_addresses ::
    "motor_address list \<Rightarrow> motor_address list \<Rightarrow> (motor_address list, bus_error) result" where
  "router_addresses seen [] = Ok seen"
| "router_addresses seen (a # as) =
     (if a \<in> set seen then Err (DuplicateMotorAddress (addr_interface a) (addr_device_id a))
      else router_addresses (seen @ [a]) as)"

text \<open>A \<open>BTreeSet\<close> of names iterates in byte order without repetition.\<close>

definition interface_names :: "motor_address list \<Rightarrow> string list" where
  "interface_names as = sort (remdups (map addr_interface as))"

fun open_sockets ::
    "(string \<Rightarrow> (socketcan, bus_error) result) \<Rightarrow> string list \<Rightarrow>
     ((string \<times> socketcan) list, bus_error) result" where
  "open_sockets open_owner [] = Ok []"
| "open_sockets open_owner (i # is) =
     rbind (open_owner i) (\<lambda>sk. rbind (open_sockets open_owner is) (\<lambda>sks. Ok ((i, sk) # sks)))"

definition router_open ::
    "(string \<Rightarrow> (socketcan, bus_error) result) \<Rightarrow> motor_address list \<Rightarrow> (can_router, bus_error) result"
  where "router_open open_owner motors =
     rbind (router_addresses [] motors) (\<lambda>addresses.
     rbind (open_sockets open_owner (interface_names motors)) (\<lambda>sockets.
       Ok \<lparr>ro_sockets = sockets, ro_addresses = addresses, ro_interfaces = interface_names motors,
           ro_cursor = 0, ro_next_start = 0\<rparr>))"

definition router_validate_address :: "motor_address \<Rightarrow> can_router \<Rightarrow> (unit, bus_error) result" where
  "router_validate_address a r =
     (if a \<notin> set (ro_addresses r) \<or> map_of (ro_sockets r) (addr_interface a) = None
      then Err (UnknownMotorAddress (addr_interface a) (addr_device_id a)) else Ok ())"

definition router_send_frame :: "can_frame \<Rightarrow> can_router \<Rightarrow> (unit, bus_error) result \<times> can_router"
  where "router_send_frame fr r =
     (case ro_sockets r of
        [(i, sk)] \<Rightarrow>
          (let (res, sk') = socket_send_frame fr sk in (res, r\<lparr>ro_sockets := [(i, sk')]\<rparr>))
      | _ \<Rightarrow> (Err (DriverError ''routed SocketCAN requires a configured motor address''), r))"

definition router_send_frame_to ::
    "motor_address \<Rightarrow> can_frame \<Rightarrow> can_router \<Rightarrow> (unit, bus_error) result \<times> can_router" where
  "router_send_frame_to a fr r =
     (let unknown = Err (UnknownMotorAddress (addr_interface a) (addr_device_id a))
      in if a \<notin> set (ro_addresses r) then (unknown, r)
         else case map_of (ro_sockets r) (addr_interface a) of
             None \<Rightarrow> (unknown, r)
           | Some sk \<Rightarrow>
               (let (res, sk') = socket_send_frame fr sk
                in (res, r\<lparr>ro_sockets := AList.update (addr_interface a) sk' (ro_sockets r)\<rparr>)))"

definition router_begin_receive :: "can_router \<Rightarrow> can_router" where
  "router_begin_receive r =
     (if ro_interfaces r = [] then r
      else r\<lparr>ro_cursor := ro_next_start r,
             ro_next_start := (ro_next_start r + 1) mod length (ro_interfaces r)\<rparr>)"

definition router_recv_one ::
    "instant \<Rightarrow> can_router \<Rightarrow> (receive_attempt, bus_error) result \<times> can_router" where
  "router_recv_one before_read r =
     (if length (ro_interfaces r) \<le> ro_cursor r then
        (Err (DriverError ''routed SocketCAN has no receive source''), r)
      else let interface = ro_interfaces r ! ro_cursor r;
               r1 = r\<lparr>ro_cursor := (ro_cursor r + 1) mod length (ro_interfaces r)\<rparr>
           in case map_of (ro_sockets r1) interface of
                None \<Rightarrow> (Err (DriverError (''missing routed SocketCAN interface '' @ interface)), r1)
              | Some sk \<Rightarrow>
                  (let (res, sk') = socket_recv_one before_read sk
                   in (res, r1\<lparr>ro_sockets := AList.update interface sk' (ro_sockets r1)\<rparr>)))"

definition router_ops :: "can_router can_bus" where
  "router_ops =
     \<lparr>bus_send_frame = router_send_frame, bus_recv_one = router_recv_one,
      bus_source_count = (\<lambda>r. length (ro_interfaces r)), bus_begin_receive = router_begin_receive,
      bus_echoes = (\<lambda>r. list_all (sk_receives \<circ> snd) (ro_sockets r)),
      bus_validate_address = router_validate_address, bus_send_frame_to = router_send_frame_to\<rparr>"

section \<open>The ledger\<close>

abbreviation echo_key :: "received_can_frame \<Rightarrow> u32 \<times> u8 list" where
  "echo_key r \<equiv> (cf_id (rx_frame r), cf_data (rx_frame r))"

text \<open>A frame that could be this socket's echo: complete extended data.\<close>

definition echo_shaped :: "received_can_frame \<Rightarrow> bool" where
  "echo_shaped r \<longleftrightarrow> rx_kind r = RxData \<and> cf_extended (rx_frame r) \<and> rx_payload_len r = 8"

lemma claim_eq:
  "claim r led =
     (if echo_shaped r \<and> echo_key r \<in> set led then (True, remove1 (echo_key r) led) else (False, led))"
proof (cases "position (\<lambda>p. p = echo_key r) led")
  case None
  then have "echo_key r \<notin> set led" by (auto simp: position_None)
  with None show ?thesis by (simp add: claim_def echo_shaped_def)
next
  case (Some i)
  then have "echo_key r \<in> set led"
    using position_SomeD(1,2) [OF Some] nth_mem by force
  then show ?thesis
    using Some position_remove1 [of "echo_key r" led i] by (auto simp: claim_def echo_shaped_def)
qed

lemma length_claim: "length (snd (claim r led)) \<le> length led"
  by (simp add: claim_eq length_remove1)

lemma length_transmitted:
  "length led \<le> MAX_PENDING_ECHOES \<Longrightarrow> length (transmitted fr led) \<le> MAX_PENDING_ECHOES"
  by (auto simp: transmitted_def MAX_PENDING_ECHOES_def)

lemma admit_snd: "snd (admit i r led) = snd (claim r led)"
  by (simp add: admit_def split_beta Let_def)

lemma settle_read_snd:
  "snd (settle_read i d r led) = (case r of Some x \<Rightarrow> snd (claim x led) | None \<Rightarrow> led)"
  by (auto simp: settle_read_def admit_snd split: option.splits)

section \<open>One socket as a transport\<close>

lemma socket_send_frame_cases:
  obtains (refused) e sk' where "socket_send_frame fr sk = (Err e, sk')" "sk_wire sk' = sk_wire sk"
      "sk_echoes sk' = sk_echoes sk"
  | (sent) fr' sk' where "socket_send_frame fr sk = (Ok (), sk')" "socket_frame fr = Ok fr'"
      "validate_can_tx fr = Ok ()" "sk_wire sk' = sk_wire sk @ [fr']"
      "sk_echoes sk' = transmitted fr (sk_echoes sk)"
proof (cases "validate_can_tx fr")
  case (Inl e)
  then show thesis by (intro refused) (simp_all add: socket_send_frame_def)
next
  case v: (Inr u)
  show thesis
  proof (cases "socket_frame fr")
    case (Inl e)
    then show thesis using v by (intro refused) (simp_all add: socket_send_frame_def)
  next
    case (Inr fr')
    define out where "out = (case sk_writes sk of [] \<Rightarrow> Wrote CAN_MTU | w # _ \<Rightarrow> w)"
    show thesis
    proof (cases "out = Wrote CAN_MTU")
      case True
      then have "socket_send_frame fr sk = (Ok (), sk\<lparr>sk_writes := tl (sk_writes sk),
          sk_wire := sk_wire sk @ [fr'], sk_echoes := transmitted fr (sk_echoes sk)\<rparr>)"
        using v Inr by (simp add: socket_send_frame_def socket_write_def Let_def out_def)
      from sent [OF this Inr] v show thesis by simp
    next
      case False
      then obtain e where "socket_send_frame fr sk = (Err e, sk\<lparr>sk_writes := tl (sk_writes sk)\<rparr>)"
        using v Inr
        by (cases out) (auto simp: socket_send_frame_def socket_write_def Let_def out_def)
      from refused [OF this] show thesis by simp
    qed
  qed
qed

lemma socket_recv_wire [simp]: "sk_wire (snd (socket_recv_one t sk)) = sk_wire sk"
  by (auto simp: socket_recv_one_def socket_recv_datagram_def Let_def split_beta
      split: read_outcome.splits list.splits sum.splits option.splits)

lemma socket_frame_tx_frame: "socket_frame (tx_frame p) = Ok fr \<Longrightarrow> fr = tx_frame p"
  by (auto simp: socket_frame_def tx_frame_def split: if_splits)

lemma socket_send_tx_frame:
  "socket_send_frame (tx_frame p) sk = (Ok u, sk') \<Longrightarrow>
     sk_wire sk' = sk_wire sk @ [tx_frame p] \<and> tx_allowed (tx_frame p)"
  "socket_send_frame (tx_frame p) sk = (Err e, sk') \<Longrightarrow> sk_wire sk' = sk_wire sk"
  by (cases rule: socket_send_frame_cases [of "tx_frame p" sk];
      auto simp: validate_can_tx_Ok dest: socket_frame_tx_frame)+

interpretation socket: can_transport socket_ops "\<lambda>sk. mset (sk_wire sk)"
proof
  fix a p and sk sk' :: socketcan and u e t
  show "bus_send_frame_to socket_ops a (tx_frame p) sk = (Ok u, sk') \<Longrightarrow>
      mset (sk_wire sk') = add_mset (tx_frame p) (mset (sk_wire sk)) \<and> tx_allowed (tx_frame p)"
    using socket_send_tx_frame(1) [of p sk u sk']
    by (auto simp: socket_ops_def socket_send_frame_to_def split: sum.splits)
  show "bus_send_frame_to socket_ops a (tx_frame p) sk = (Err e, sk') \<Longrightarrow> mset (sk_wire sk') = mset (sk_wire sk)"
    using socket_send_tx_frame(2) [of p sk e sk']
    by (auto simp: socket_ops_def socket_send_frame_to_def split: sum.splits)
  show "mset (sk_wire (snd (bus_recv_one socket_ops t sk))) = mset (sk_wire sk)"
    by (simp add: socket_ops_def)
  show "mset (sk_wire (bus_begin_receive socket_ops sk)) = mset (sk_wire sk)"
    by (simp add: socket_ops_def)
qed

section \<open>The router as a transport\<close>

definition router_sent :: "can_router \<Rightarrow> can_frame multiset" where
  "router_sent r = sum_list (map (\<lambda>(_, sk). mset (sk_wire sk)) (ro_sockets r))"

lemma sum_list_update:
  fixes g :: "'a \<Rightarrow> 'm::comm_monoid_add"
  assumes "map_of xs k = Some v"
  shows "sum_list (map (\<lambda>(_, x). g x) (AList.update k v' xs)) + g v =
    sum_list (map (\<lambda>(_, x). g x) xs) + g v'"
  using assms by (induction xs) (auto simp: ac_simps split: if_splits)

lemma router_sent_update:
  assumes "map_of (ro_sockets r) k = Some sk"
  shows "mset (sk_wire sk') = mset (sk_wire sk) + M \<Longrightarrow>
    router_sent (r\<lparr>ro_sockets := AList.update k sk' (ro_sockets r)\<rparr>) = router_sent r + M"
  using sum_list_update [OF assms, of "\<lambda>sk. mset (sk_wire sk)" sk'] by (simp add: router_sent_def ac_simps)

lemma router_recv_sent: "router_sent (snd (router_recv_one t r)) = router_sent r"
proof (cases "length (ro_interfaces r) \<le> ro_cursor r")
  case False
  let ?i = "ro_interfaces r ! ro_cursor r"
  let ?r = "r\<lparr>ro_cursor := (ro_cursor r + 1) mod length (ro_interfaces r)\<rparr>"
  have same: "router_sent ?r = router_sent r" by (simp add: router_sent_def)
  show ?thesis
  proof (cases "map_of (ro_sockets r) ?i")
    case (Some sk)
    then have "router_sent (?r\<lparr>ro_sockets := AList.update ?i (snd (socket_recv_one t sk)) (ro_sockets ?r)\<rparr>)
        = router_sent ?r + {#}"
      by (intro router_sent_update) simp_all
    with False Some same show ?thesis
      by (simp add: router_recv_one_def Let_def split_beta)
  qed (use False same in \<open>simp add: router_recv_one_def Let_def\<close>)
qed (simp add: router_recv_one_def)

lemma router_send_cases:
  obtains (unknown) e where "router_send_frame_to a fr r = (Err e, r)"
  | (socket) sk res sk' where "map_of (ro_sockets r) (addr_interface a) = Some sk"
      "socket_send_frame fr sk = (res, sk')"
      "router_send_frame_to a fr r = (res, r\<lparr>ro_sockets := AList.update (addr_interface a) sk' (ro_sockets r)\<rparr>)"
proof (cases "a \<in> set (ro_addresses r)")
  case False
  then show thesis by (intro unknown) (simp add: router_send_frame_to_def Let_def)
next
  case True
  show thesis
  proof (cases "map_of (ro_sockets r) (addr_interface a)")
    case None
    with True show thesis by (intro unknown) (simp add: router_send_frame_to_def Let_def)
  next
    case (Some sk)
    obtain res sk' where "socket_send_frame fr sk = (res, sk')" by fastforce
    with True Some show thesis
      by (intro socket [of sk res sk']) (simp_all add: router_send_frame_to_def Let_def)
  qed
qed

interpretation router: can_transport router_ops router_sent
proof
  fix a :: motor_address and p and r r' :: can_router and u e t
  have ops: "bus_send_frame_to router_ops = router_send_frame_to" by (simp add: router_ops_def)
  show "bus_send_frame_to router_ops a (tx_frame p) r = (Ok u, r') \<Longrightarrow>
      router_sent r' = add_mset (tx_frame p) (router_sent r) \<and> tx_allowed (tx_frame p)"
  proof (cases rule: router_send_cases [of a "tx_frame p" r])
    case (socket sk res sk')
    assume "bus_send_frame_to router_ops a (tx_frame p) r = (Ok u, r')"
    with socket ops have eq: "res = Ok u" "r' = r\<lparr>ro_sockets := AList.update (addr_interface a) sk' (ro_sockets r)\<rparr>"
      by auto
    note ok = socket_send_tx_frame(1) [OF socket(2) [unfolded eq(1)]]
    have w: "mset (sk_wire sk') = mset (sk_wire sk) + {#tx_frame p#}" using ok by simp
    show ?thesis unfolding eq(2) router_sent_update [OF socket(1) w] using ok by simp
  qed (simp add: ops)
  show "bus_send_frame_to router_ops a (tx_frame p) r = (Err e, r') \<Longrightarrow> router_sent r' = router_sent r"
  proof (cases rule: router_send_cases [of a "tx_frame p" r])
    case (socket sk res sk')
    assume "bus_send_frame_to router_ops a (tx_frame p) r = (Err e, r')"
    with socket ops have eq: "res = Err e" "r' = r\<lparr>ro_sockets := AList.update (addr_interface a) sk' (ro_sockets r)\<rparr>"
      by auto
    have w: "mset (sk_wire sk') = mset (sk_wire sk) + {#}"
      using socket_send_tx_frame(2) [OF socket(2) [unfolded eq(1)]] by simp
    show ?thesis unfolding eq(2) router_sent_update [OF socket(1) w] by simp
  qed (simp add: ops)
  show "router_sent (snd (bus_recv_one router_ops t r)) = router_sent r"
    by (simp add: router_ops_def router_recv_sent)
  show "router_sent (bus_begin_receive router_ops r) = router_sent r"
    by (simp add: router_ops_def router_begin_receive_def router_sent_def)
qed

section \<open>Whose host commands a socket delivers\<close>

text \<open>
  A receiving socket from its opening on, against every behaviour of the kernel (\<open>rs\<close> and
  \<open>ws\<close> are the outcomes of all its coming reads and writes), with the frames it delivered.
\<close>

inductive socket_reach :: "socketcan \<Rightarrow> received_can_frame list \<Rightarrow> bool" where
  reach_open: "socket_reach ((open_socket i True t)\<lparr>sk_reads := rs, sk_writes := ws\<rparr>) []"
| reach_send: "socket_reach sk del \<Longrightarrow> socket_reach (snd (socket_send_frame fr sk)) del"
| reach_recv: "socket_reach sk del \<Longrightarrow>
    socket_reach (snd (socket_recv_one t sk))
      (case fst (socket_recv_one t sk) of
         Inr (AttemptFrame tf) \<Rightarrow> del @ [tf_received tf] | _ \<Rightarrow> del)"

definition delivered_command :: "received_can_frame \<Rightarrow> bool" where
  "delivered_command r \<longleftrightarrow>
     rx_kind r \<noteq> RxError \<and> cf_extended (rx_frame r) \<and> is_host_command (cf_id (rx_frame r))"

definition command_keys :: "received_can_frame list \<Rightarrow> (u32 \<times> u8 list) multiset" where
  "command_keys del = image_mset echo_key (mset (filter delivered_command del))"

definition wire_keys :: "can_frame list \<Rightarrow> (u32 \<times> u8 list) multiset" where
  "wire_keys fs = image_mset (\<lambda>f. (cf_id f, cf_data f)) (mset (filter cf_extended fs))"

lemma socket_frame_keys:
  assumes "socket_frame fr = Ok fr'"
  shows "wire_keys [fr'] = wire_keys [fr]"
  using assms by (auto simp: socket_frame_def wire_keys_def Let_def split: if_splits)

lemma transmitted_keys: "mset (transmitted fr led) \<subseteq># mset led + wire_keys [fr]"
  by (cases led) (auto simp: transmitted_def wire_keys_def)

text \<open>The attribution of one frame: a delivered host command costs the ledger its key.\<close>

lemma admit_keys:
  assumes "admit i r led = (Ok (), led')"
  shows "mset led' + command_keys [r] \<subseteq># mset led"
proof (cases "echo_shaped r \<and> echo_key r \<in> set led")
  case True
  then have "led' = remove1 (echo_key r) led" using assms by (simp add: admit_def claim_eq split: if_splits)
  then show ?thesis using True by (simp add: command_keys_def)
next
  case False
  then have c: "claim r led = (False, led)" unfolding claim_eq by (rule if_not_P)
  with assms have "led' = led" "\<not> delivered_command r"
    by (auto simp: admit_def delivered_command_def split: if_splits)
  then show ?thesis by (simp add: command_keys_def)
qed

lemma claim_keys: "mset (snd (claim r led)) \<subseteq># mset led"
  by (simp add: claim_eq)

lemma settle_keys:
  assumes "settle_read i d r led = (res, led')"
  shows "mset led' \<subseteq># mset led \<and>
    (res = Ok () \<longrightarrow> (case r of Some x \<Rightarrow> mset led' + command_keys [x] \<subseteq># mset led | None \<Rightarrow> True))"
proof -
  have "led' = snd (settle_read i d r led)" using assms by simp
  then have "mset led' \<subseteq># mset led"
    by (simp add: settle_read_snd claim_keys split: option.splits)
  moreover have "case r of Some x \<Rightarrow> mset led' + command_keys [x] \<subseteq># mset led | None \<Rightarrow> True" if "res = Ok ()"
    using assms that by (auto simp: settle_read_def intro: admit_keys split: option.splits)
  ultimately show ?thesis by blast
qed

lemma socket_recv_keys:
  assumes "socket_recv_one t sk = (res, sk')"
  shows "mset (sk_echoes sk') +
      (case res of Inr (AttemptFrame tf) \<Rightarrow> command_keys [tf_received tf] | _ \<Rightarrow> {#}) \<subseteq># mset (sk_echoes sk)"
proof (cases "sk_receives sk \<and> (\<exists>d ds. sk_reads sk = ReadOk d # ds)")
  case True
  then obtain d ds where d: "sk_reads sk = ReadOk d # ds" and rcv: "sk_receives sk" by blast
  let ?i = "sk_interface sk"
  obtain dropped rep where nd: "new_kernel_drops (sk_drops_reported sk) (kd_drops d) = (dropped, rep)" by fastforce
  obtain settled led where st:
    "settle_read ?i dropped (parsed_frame (parse_datagram ?i d)) (sk_echoes sk) = (settled, led)" by fastforce
  obtain stamp x clock where rs: "rx_stamp (kd_kernel d) (kd_wall d) (kd_read_instant d) (sk_rx_clock sk) = (stamp, x, clock)"
    using prod_cases3 by blast
  note keys = settle_keys [OF st]
  have "sk_echoes sk' = led \<and>
      (case res of Inr (AttemptFrame tf) \<Rightarrow> settled = Ok () \<and> parse_datagram ?i d = Ok (Some (tf_received tf))
       | _ \<Rightarrow> True)"
    using assms d rcv nd st rs
    by (auto simp: socket_recv_one_def socket_recv_datagram_def Let_def split: sum.splits option.splits)
  with keys show ?thesis
    by (auto simp: parsed_frame_def split: sum.splits receive_attempt.splits)
next
  case False
  then show ?thesis
    using assms by (auto simp: socket_recv_one_def Let_def split: list.splits read_outcome.splits if_splits)
qed

lemma wire_keys_append: "wire_keys (xs @ ys) = wire_keys xs + wire_keys ys"
  by (simp add: wire_keys_def)

lemma socket_reach_keys:
  assumes "socket_reach sk del"
  shows "command_keys del + mset (sk_echoes sk) \<subseteq># wire_keys (sk_wire sk) \<and>
    length (sk_echoes sk) \<le> MAX_PENDING_ECHOES"
  using assms
proof induction
  case (reach_open i t rs ws)
  then show ?case by (simp add: open_socket_def command_keys_def)
next
  case (reach_send sk del fr)
  show ?case
  proof (cases rule: socket_send_frame_cases [of fr sk])
    case (refused e sk')
    then show ?thesis using reach_send.IH by simp
  next
    case (sent fr' sk')
    have "command_keys del + mset (transmitted fr (sk_echoes sk)) \<subseteq>#
        command_keys del + (mset (sk_echoes sk) + wire_keys [fr'])"
      using transmitted_keys [of fr] socket_frame_keys [OF sent(2)] by (simp add: subset_mset.add_left_mono)
    also have "\<dots> \<subseteq># wire_keys (sk_wire sk) + wire_keys [fr']"
      using reach_send.IH by (simp add: add.assoc [symmetric] subset_mset.add_right_mono)
    finally show ?thesis
      using sent reach_send.IH by (simp add: wire_keys_append length_transmitted)
  qed
next
  case (reach_recv sk del t)
  obtain res sk' where r: "socket_recv_one t sk = (res, sk')" by fastforce
  have w: "sk_wire sk' = sk_wire sk" using socket_recv_wire [of t sk] r by simp
  let ?new = "case res of Inr (AttemptFrame tf) \<Rightarrow> command_keys [tf_received tf] | _ \<Rightarrow> {#}"
  let ?del = "case res of Inr (AttemptFrame tf) \<Rightarrow> del @ [tf_received tf] | _ \<Rightarrow> del"
  have k: "mset (sk_echoes sk') + ?new \<subseteq># mset (sk_echoes sk)" by (rule socket_recv_keys [OF r])
  have "command_keys ?del + mset (sk_echoes sk') = command_keys del + (mset (sk_echoes sk') + ?new)"
    by (auto simp: command_keys_def split: sum.splits receive_attempt.splits)
  also have "\<dots> \<subseteq># command_keys del + mset (sk_echoes sk)" by (rule subset_mset.add_left_mono [OF k])
  finally have "command_keys ?del + mset (sk_echoes sk') \<subseteq># wire_keys (sk_wire sk)"
    using reach_recv.IH subset_mset.order_trans by blast
  moreover have "length (sk_echoes sk') \<le> length (sk_echoes sk)"
    using size_mset_mono [OF k] by simp
  ultimately show ?case using reach_recv.IH r w by simp
qed


definition echoed_enable :: kernel_datagram where
  "echoed_enable = \<lparr>kd_bytes = CAN_MTU, kd_frame = AnyNormal 8 0x0300FD01 True (replicate 8 0), kd_kernel = None,
     kd_drops = None, kd_wall = 0, kd_read_instant = 7\<rparr>"

lemma echoed_enable_run:
  defines "sk0 \<equiv> (open_socket ''can0'' True 0)\<lparr>sk_reads := [ReadOk echoed_enable], sk_writes := []\<rparr>"
  shows "(case socket_recv_one 6 (snd (socket_send_frame (tx_frame (encode_default_enable 1)) sk0)) of
      (Inr (AttemptFrame tf), sk) \<Rightarrow> delivered_command (tf_received tf) \<and>
         wire_keys (sk_wire sk) = {#(0x0300FD01, replicate 8 0)#}
    | _ \<Rightarrow> False)"
  unfolding sk0_def by code_simp


section \<open>The receive order of the router\<close>

definition router_wf :: "can_router \<Rightarrow> bool" where
  "router_wf r \<longleftrightarrow> distinct (ro_interfaces r) \<and> map fst (ro_sockets r) = ro_interfaces r \<and>
     ro_cursor r < length (ro_interfaces r) \<and> ro_next_start r < length (ro_interfaces r)"

lemma open_sockets_fst: "open_sockets f is = Ok sks \<Longrightarrow> map fst sks = is"
  by (induction "is" arbitrary: sks) (auto simp: rbind_Ok_iff split: sum.splits)

lemma router_open_wf:
  assumes "router_open f motors = Ok r" and "motors \<noteq> []"
  shows "router_wf r"
proof -
  have "interface_names motors \<noteq> []"
    using assms(2) by (simp add: interface_names_def) (metis list.map_disc_iff remdups_eq_nil_iff length_0_conv length_sort)
  moreover have "distinct (interface_names motors)" by (simp add: interface_names_def)
  ultimately show ?thesis
    using assms(1) by (auto simp: router_open_def router_wf_def rbind_Ok_iff split: sum.splits dest: open_sockets_fst)
qed

lemma update_keys: "k \<in> set (map fst xs) \<Longrightarrow> map fst (AList.update k v xs) = map fst xs"
  by (simp add: AList.update_keys)

lemma router_recv_socket:
  assumes "router_wf r"
  obtains sk where "map_of (ro_sockets r) (ro_interfaces r ! ro_cursor r) = Some sk"
    "router_recv_one t r = (fst (socket_recv_one t sk),
       r\<lparr>ro_cursor := (ro_cursor r + 1) mod length (ro_interfaces r),
         ro_sockets := AList.update (ro_interfaces r ! ro_cursor r) (snd (socket_recv_one t sk)) (ro_sockets r)\<rparr>)"
proof -
  have "ro_interfaces r ! ro_cursor r \<in> set (map fst (ro_sockets r))"
    using assms by (simp add: router_wf_def)
  then obtain sk where "map_of (ro_sockets r) (ro_interfaces r ! ro_cursor r) = Some sk"
    by (auto dest: weak_map_of_SomeI)
  with that assms show thesis by (simp add: router_recv_one_def router_wf_def split_beta)
qed

lemma router_recv_wf:
  assumes "router_wf r"
  shows "router_wf (snd (router_recv_one t r))"
    and "ro_interfaces (snd (router_recv_one t r)) = ro_interfaces r"
    and "ro_cursor (snd (router_recv_one t r)) = (ro_cursor r + 1) mod length (ro_interfaces r)"
proof -
  from router_recv_socket [OF assms, of t] obtain sk where
    eq: "router_recv_one t r = (fst (socket_recv_one t sk),
       r\<lparr>ro_cursor := (ro_cursor r + 1) mod length (ro_interfaces r),
         ro_sockets := AList.update (ro_interfaces r ! ro_cursor r) (snd (socket_recv_one t sk)) (ro_sockets r)\<rparr>)" .
  have "ro_interfaces r ! ro_cursor r \<in> set (map fst (ro_sockets r))"
    using assms by (simp add: router_wf_def)
  moreover have "0 < length (ro_interfaces r)" using assms by (auto simp: router_wf_def)
  ultimately show "router_wf (snd (router_recv_one t r))"
    using assms unfolding eq by (simp add: router_wf_def update_keys)
  show "ro_interfaces (snd (router_recv_one t r)) = ro_interfaces r"
    "ro_cursor (snd (router_recv_one t r)) = (ro_cursor r + 1) mod length (ro_interfaces r)"
    unfolding eq by simp_all
qed

abbreviation router_reads :: "instant list \<Rightarrow> can_router \<Rightarrow> attempt_result list \<times> can_router" where
  "router_reads \<equiv> bus_reads router_ops"

lemma bus_recv_router [simp]: "bus_recv_one router_ops = router_recv_one"
  by (simp add: router_ops_def)

lemma router_reads_wf:
  assumes "router_wf r"
  shows "router_wf (snd (router_reads ts r)) \<and> ro_interfaces (snd (router_reads ts r)) = ro_interfaces r \<and>
    ro_cursor (snd (router_reads ts r)) = (ro_cursor r + length ts) mod length (ro_interfaces r)"
  using assms
proof (induction ts arbitrary: r)
  case Nil
  then show ?case by (simp add: router_wf_def)
next
  case (Cons t ts)
  note w = router_recv_wf [OF Cons.prems, of t]
  show ?case using Cons.IH [OF w(1)] w(2,3) by (simp add: split_beta mod_simps)
qed

text \<open>A socket whose last read found it empty.\<close>

definition read_empty :: "socketcan \<Rightarrow> bool" where
  "read_empty sk' \<longleftrightarrow> (\<exists>t sk. socket_recv_one t sk = (Ok AttemptIdle, sk'))"

lemma mod_shift_neq:
  fixes c j m n :: nat
  assumes "j < m" "m < n"
  shows "(c + j) mod n \<noteq> (c + m) mod n"
proof
  assume "(c + j) mod n = (c + m) mod n"
  then have "n dvd (c + m) - (c + j)" using assms by (intro mod_eq_dvd_iff_nat [THEN iffD1]) auto
  then have "n dvd m - j" by simp
  then show False using assms by (auto dest: dvd_imp_le)
qed

lemma router_round_empty:
  assumes "router_wf r" and "router_reads ts r = (rs, r')" and "length ts \<le> length (ro_interfaces r)"
    and "list_all (\<lambda>x. x = Ok AttemptIdle) rs" and "j < length ts"
  shows "\<exists>sk. map_of (ro_sockets r') (ro_interfaces r ! ((ro_cursor r + j) mod length (ro_interfaces r))) = Some sk \<and>
    read_empty sk"
  using assms(2-)
proof (induction ts arbitrary: rs r' rule: rev_induct)
  case Nil
  then show ?case by simp
next
  case (snoc t ts)
  let ?n = "length (ro_interfaces r)"
  let ?m = "snd (router_reads ts r)"
  let ?at = "\<lambda>k. ro_interfaces r ! ((ro_cursor r + k) mod ?n)"
  have w: "router_wf ?m" "ro_interfaces ?m = ro_interfaces r" "ro_cursor ?m = (ro_cursor r + length ts) mod ?n"
    using router_reads_wf [OF assms(1)] by auto
  from router_recv_socket [OF w(1), of t] obtain sk where sk:
    "router_recv_one t ?m = (fst (socket_recv_one t sk),
       ?m\<lparr>ro_cursor := (ro_cursor ?m + 1) mod ?n,
         ro_sockets := AList.update (?at (length ts)) (snd (socket_recv_one t sk)) (ro_sockets ?m)\<rparr>)"
    by (auto simp: w)
  have rs: "rs = fst (router_reads ts r) @ [fst (router_recv_one t ?m)]" "r' = snd (router_recv_one t ?m)"
    using snoc.prems(1) by (auto simp: bus_reads_snoc)
  have socks: "ro_sockets r' = AList.update (?at (length ts)) (snd (socket_recv_one t sk)) (ro_sockets ?m)"
    using rs(2) sk by simp
  have n: "0 < ?n" using assms(1) by (auto simp: router_wf_def)
  show ?case
  proof (cases "j = length ts")
    case True
    have "fst (socket_recv_one t sk) = Ok AttemptIdle" using snoc.prems(3) rs(1) sk by simp
    then have "read_empty (snd (socket_recv_one t sk))"
      unfolding read_empty_def by (metis prod.collapse)
    then show ?thesis using True socks by (simp add: update_Some_unfold)
  next
    case False
    then have j: "j < length ts" using snoc.prems(4) by simp
    have ne: "?at j \<noteq> ?at (length ts)"
      using mod_shift_neq [of j "length ts" ?n "ro_cursor r"] j snoc.prems(2) assms(1) n
      by (auto simp: router_wf_def nth_eq_iff_index_eq)
    have "\<exists>sk. map_of (ro_sockets ?m) (?at j) = Some sk \<and> read_empty sk"
      using snoc.IH [of "fst (router_reads ts r)" ?m] j snoc.prems rs by simp
    then show ?thesis using socks ne by (simp add: update_conv')
  qed
qed

lemma router_send_wf:
  assumes "router_wf r"
  shows "router_wf (snd (router_send_frame_to a fr r)) \<and>
    ro_interfaces (snd (router_send_frame_to a fr r)) = ro_interfaces r"
proof (cases rule: router_send_cases [of a fr r])
  case (socket sk res sk')
  have "addr_interface a \<in> fst ` set (ro_sockets r)"
    using map_of_SomeD [OF socket(1)] by (rule image_eqI [rotated]) simp
  then have "map fst (AList.update (addr_interface a) sk' (ro_sockets r)) = map fst (ro_sockets r)"
    by (intro update_keys) simp
  then show ?thesis using socket(3) assms by (simp add: router_wf_def)
qed (simp add: assms)

lemma router_begin_wf:
  assumes "router_wf r"
  shows "router_wf (router_begin_receive r) \<and> ro_interfaces (router_begin_receive r) = ro_interfaces r"
  using assms by (auto simp: router_wf_def router_begin_receive_def)

interpretation router_shape: bus_invariant router_ops "\<lambda>r. router_wf r \<and> ro_interfaces r = names"
  for names
  by unfold_locales (simp_all add: router_ops_def router_send_wf router_begin_wf router_recv_wf)

lemma router_open_interfaces: "router_open f motors = Ok r \<Longrightarrow> ro_interfaces r = interface_names motors"
  by (auto simp: router_open_def rbind_Ok_iff)

lemma bus_reads_append:
  "bus_reads ops (ts @ us) b =
     (let (rs, b') = bus_reads ops ts b; (ss, b'') = bus_reads ops us b' in (rs @ ss, b''))"
  by (induction ts arbitrary: b) (simp_all add: split_beta)

lemma length_bus_reads: "length (fst (bus_reads ops ts b)) = length ts"
  by (induction ts arbitrary: b) (simp_all add: split_beta)

text \<open>An idle tail of one attempt per interface visits every interface once.\<close>

lemma router_idle_round:
  assumes "router_wf r" and "router_reads ts r = (rs, r')" and "idle_suffix (length (ro_interfaces r)) rs"
    and "i \<in> set (ro_interfaces r)"
  shows "\<exists>sk. map_of (ro_sockets r') i = Some sk \<and> read_empty sk"
proof -
  let ?n = "length (ro_interfaces r)"
  define pre where "pre = take (length ts - ?n) ts"
  define suf where "suf = drop (length ts - ?n) ts"
  have len: "length rs = length ts" using length_bus_reads [of router_ops ts r] assms(2) by simp
  have n: "?n \<le> length ts" using assms(3) len by (simp add: idle_suffix_def)
  let ?m = "snd (router_reads pre r)"
  have ts: "ts = pre @ suf" by (simp add: pre_def suf_def)
  have rs: "rs = fst (router_reads pre r) @ fst (router_reads suf ?m)" "r' = snd (router_reads suf ?m)"
    using assms(2) unfolding ts bus_reads_append by (auto simp: split_beta)
  have idle: "list_all (\<lambda>x. x = Ok AttemptIdle) (fst (router_reads suf ?m))"
    using assms(3) len n unfolding idle_suffix_def rs(1)
    by (simp add: length_bus_reads pre_def)
  have w: "router_wf ?m" "ro_interfaces ?m = ro_interfaces r" using router_reads_wf [OF assms(1)] by auto
  have n0: "0 < ?n" using assms(1) by (auto simp: router_wf_def)
  obtain k where k: "k < ?n" "i = ro_interfaces r ! k" using assms(4) by (auto simp: in_set_conv_nth)
  define j where "j = (k + ?n - ro_cursor ?m) mod ?n"
  have c: "ro_cursor ?m < ?n" using w by (simp add: router_wf_def)
  then have "(ro_cursor ?m + j) mod ?n = k" using k(1) by (simp add: j_def mod_simps)
  moreover have "j < ?n" using n0 by (simp add: j_def)
  moreover have "length suf = ?n" using n by (simp add: suf_def)
  ultimately show ?thesis
    using router_round_empty [OF w(1) _ _ idle, of suf r' j] rs(2) w(2) k(2) by simp
qed


definition sample_motors :: "motor_address list" where
  "sample_motors =
     [\<lparr>addr_interface = ''can1'', addr_device_id = 1\<rparr>, \<lparr>addr_interface = ''can0'', addr_device_id = 2\<rparr>]"

definition sample_router :: can_router where
  "sample_router =
     \<lparr>ro_sockets = [(''can0'', open_socket ''can0'' True 0), (''can1'', open_socket ''can1'' True 0)],
      ro_addresses = sample_motors, ro_interfaces = [''can0'', ''can1''], ro_cursor = 0, ro_next_start = 0\<rparr>"

lemma sample_router_open: "router_open (\<lambda>i. Ok (open_socket i True 0)) sample_motors = Ok sample_router"
  by code_simp

lemma sample_router_poll:
  "rr_completion (fst (drain router_ops (\<lambda>_. 0) 0 0 receive_limits_default sample_router)) = CompIdle"
  by code_simp


section \<open>The bus the binaries run on\<close>

text \<open>\<open>RuntimeBus\<close>: one socket or the router, chosen when the process starts.\<close>

datatype runtime_bus = RuntimeSocket socketcan | RuntimeRouter can_router

definition runtime_validate_address :: "motor_address \<Rightarrow> runtime_bus \<Rightarrow> (unit, bus_error) result" where
  "runtime_validate_address a b =
     (case b of RuntimeSocket sk \<Rightarrow> socket_validate_address a sk | RuntimeRouter r \<Rightarrow> router_validate_address a r)"

definition runtime_send_frame :: "can_frame \<Rightarrow> runtime_bus \<Rightarrow> (unit, bus_error) result \<times> runtime_bus" where
  "runtime_send_frame fr b =
     (case b of
        RuntimeSocket sk \<Rightarrow> apsnd RuntimeSocket (socket_send_frame fr sk)
      | RuntimeRouter r \<Rightarrow> apsnd RuntimeRouter (router_send_frame fr r))"

definition runtime_send_frame_to ::
    "motor_address \<Rightarrow> can_frame \<Rightarrow> runtime_bus \<Rightarrow> (unit, bus_error) result \<times> runtime_bus" where
  "runtime_send_frame_to a fr b =
     (case b of
        RuntimeSocket sk \<Rightarrow> apsnd RuntimeSocket (socket_send_frame_to a fr sk)
      | RuntimeRouter r \<Rightarrow> apsnd RuntimeRouter (router_send_frame_to a fr r))"

definition runtime_recv_one ::
    "instant \<Rightarrow> runtime_bus \<Rightarrow> (receive_attempt, bus_error) result \<times> runtime_bus" where
  "runtime_recv_one t b =
     (case b of
        RuntimeSocket sk \<Rightarrow> apsnd RuntimeSocket (socket_recv_one t sk)
      | RuntimeRouter r \<Rightarrow> apsnd RuntimeRouter (router_recv_one t r))"

definition runtime_source_count :: "runtime_bus \<Rightarrow> nat" where
  "runtime_source_count b =
     (case b of
        RuntimeSocket sk \<Rightarrow> bus_source_count socket_ops sk
      | RuntimeRouter r \<Rightarrow> bus_source_count router_ops r)"

definition runtime_begin_receive :: "runtime_bus \<Rightarrow> runtime_bus" where
  "runtime_begin_receive b =
     (case b of
        RuntimeSocket sk \<Rightarrow> RuntimeSocket (bus_begin_receive socket_ops sk)
      | RuntimeRouter r \<Rightarrow> RuntimeRouter (router_begin_receive r))"

definition runtime_echoes :: "runtime_bus \<Rightarrow> bool" where
  "runtime_echoes b =
     (case b of RuntimeSocket sk \<Rightarrow> bus_echoes socket_ops sk | RuntimeRouter r \<Rightarrow> bus_echoes router_ops r)"

definition runtime_ops :: "runtime_bus can_bus" where
  "runtime_ops =
     \<lparr>bus_send_frame = runtime_send_frame, bus_recv_one = runtime_recv_one,
      bus_source_count = runtime_source_count, bus_begin_receive = runtime_begin_receive,
      bus_echoes = runtime_echoes, bus_validate_address = runtime_validate_address,
      bus_send_frame_to = runtime_send_frame_to\<rparr>"

definition runtime_sent :: "runtime_bus \<Rightarrow> can_frame multiset" where
  "runtime_sent b =
     (case b of RuntimeSocket sk \<Rightarrow> mset (sk_wire sk) | RuntimeRouter r \<Rightarrow> router_sent r)"

interpretation runtime: can_transport runtime_ops runtime_sent
proof
  fix a :: motor_address and p and b b' :: runtime_bus and u e t
  have sk: "bus_send_frame_to socket_ops = socket_send_frame_to" "bus_recv_one socket_ops = socket_recv_one"
    by (simp_all add: socket_ops_def)
  have ro: "bus_send_frame_to router_ops = router_send_frame_to" "bus_begin_receive router_ops = router_begin_receive"
    by (simp_all add: router_ops_def)
  show "bus_send_frame_to runtime_ops a (tx_frame p) b = (Ok u, b') \<Longrightarrow>
      runtime_sent b' = add_mset (tx_frame p) (runtime_sent b) \<and> tx_allowed (tx_frame p)"
    using socket.send_ok [of a p, unfolded sk] router.send_ok [of a p, unfolded ro]
    by (cases b) (auto simp: runtime_ops_def runtime_send_frame_to_def runtime_sent_def apsnd_def map_prod_def split: prod.splits)
  show "bus_send_frame_to runtime_ops a (tx_frame p) b = (Err e, b') \<Longrightarrow> runtime_sent b' = runtime_sent b"
    using socket.send_err [of a p, unfolded sk] router.send_err [of a p, unfolded ro]
    by (cases b) (auto simp: runtime_ops_def runtime_send_frame_to_def runtime_sent_def apsnd_def map_prod_def split: prod.splits)
  show "runtime_sent (snd (bus_recv_one runtime_ops t b)) = runtime_sent b"
    by (cases b) (simp_all add: runtime_ops_def runtime_recv_one_def runtime_sent_def router_recv_sent)
  show "runtime_sent (bus_begin_receive runtime_ops b) = runtime_sent b"
    using router.begin_keeps [unfolded ro]
    by (cases b) (simp_all add: runtime_ops_def runtime_begin_receive_def runtime_sent_def socket_ops_def)
qed

text \<open>C7: whatever sequence of motor operations and receives a process performs on the bus
  it opened, and whatever the kernel answers, every frame it puts on any wire has an allowed
  communication type, never writes the power-on zero, zero-offset or measured registers, and
  never clears a drive's fault.\<close>

theorem host_traffic_safe:
  assumes "(motor_step runtime_ops)\<^sup>*\<^sup>* b b'" and "runtime_sent b = {#}" and "fr \<in># runtime_sent b'"
  shows "(cf_extended fr \<longrightarrow> frame_comm_type (cf_id fr) \<in> set TX_COMMUNICATION_TYPES) \<and>
    (frame_comm_type (cf_id fr) = comm_as_u8 WriteParameter \<longrightarrow>
       u16_from_le_bytes (cf_data fr ! 0) (cf_data fr ! 1) \<notin>
         param_as_u16 ` {ZeroSta, AddOffset, MechPos, MechVel}) \<and>
    (frame_comm_type (cf_id fr) = comm_as_u8 Disable \<longrightarrow> cf_data fr ! 0 = 0)"
  using runtime.motor_steps_safe [OF assms(1)] assms(2,3)
  by (auto simp: all_safe_def host_safe_def tx_allowed_def)

lemma sample_enable_sent:
  "runtime_sent (snd (enable_drive_at runtime_ops \<lparr>addr_interface = ''can1'', addr_device_id = 1\<rparr>
     (RuntimeRouter sample_router))) = {#tx_frame (encode_default_enable 1)#}"
  by code_simp

theorem host_traffic_safe_witness:
  "cf_extended (tx_frame (encode_default_enable 1)) \<and>
     frame_comm_type (cf_id (tx_frame (encode_default_enable 1))) \<in> set TX_COMMUNICATION_TYPES"
proof -
  let ?b = "RuntimeRouter sample_router"
  let ?a = "\<lparr>addr_interface = ''can1'', addr_device_id = 1\<rparr>"
  have step: "(motor_step runtime_ops)\<^sup>*\<^sup>* ?b (snd (enable_drive_at runtime_ops ?a ?b))"
    by (intro r_into_rtranclp step_enable)
  have empty: "runtime_sent ?b = {#}" by code_simp
  have "tx_frame (encode_default_enable 1) \<in># runtime_sent (snd (enable_drive_at runtime_ops ?a ?b))"
    by (simp add: sample_enable_sent)
  from host_traffic_safe [OF step empty this] show ?thesis by (simp add: tx_frame_def)
qed

end
