(* ===== verification/Davout_Faults.thy ===== *)
theory Davout_Faults
  imports Robstride_Bus "HOL-Library.Sublist"
begin

unbundle bit_operations_syntax

text \<open>
  The persistent safety authority of \<open>crates/davout/src/faults.rs\<close>: fault records, device
  warnings and stop reports, all kept for the rest of the process. Each operation reads the
  host clock at most once; the instant it read is the argument \<open>now\<close>.
\<close>

section \<open>Evidence\<close>

datatype fault_class =
    FcDevice | FcFeedback | FcDriveState | FcCommunication | FcTransport | FcController
  | FcHardwareEstop | FcStopDelivery | FcWrongSign | FcDangerZone

record device_fault_evidence =
  dfe_status_flags :: u8
  dfe_detailed_fault_bytes :: "u8 list"
  dfe_warning_bytes :: "u8 list"
  dfe_partial_fault_bytes :: "u8 list"
  dfe_partial_fault_available :: u8
  dfe_partial_warning_bytes :: "u8 list"
  dfe_partial_warning_available :: u8
  dfe_drive_mode :: "u8 option"
  dfe_received_at :: "instant option"

definition device_fault_default :: device_fault_evidence where
  "device_fault_default =
     \<lparr>dfe_status_flags = 0, dfe_detailed_fault_bytes = [0, 0, 0, 0], dfe_warning_bytes = [0, 0, 0, 0],
      dfe_partial_fault_bytes = [0, 0, 0, 0], dfe_partial_fault_available = 0,
      dfe_partial_warning_bytes = [0, 0, 0, 0], dfe_partial_warning_available = 0,
      dfe_drive_mode = None, dfe_received_at = None\<rparr>"

text \<open>\<open>iter_mut().zip(..)\<close> with \<open>|=\<close>: a longer stored array keeps its rest.\<close>

fun or_bytes :: "u8 list \<Rightarrow> u8 list \<Rightarrow> u8 list" where
  "or_bytes (a # as) (b # bs) = (a OR b) # or_bytes as bs"
| "or_bytes as [] = as"
| "or_bytes [] (_ # _) = []"

text \<open>The order of \<open>Option<Instant>\<close>: \<open>None\<close> first.\<close>

fun later_option :: "instant option \<Rightarrow> instant option \<Rightarrow> bool" where
  "later_option (Some a) (Some b) = (b < a)"
| "later_option (Some _) None = True"
| "later_option None _ = False"

definition device_merge :: "device_fault_evidence \<Rightarrow> device_fault_evidence \<Rightarrow> device_fault_evidence" where
  "device_merge other self =
     \<lparr>dfe_status_flags = dfe_status_flags self OR dfe_status_flags other,
      dfe_detailed_fault_bytes = or_bytes (dfe_detailed_fault_bytes self) (dfe_detailed_fault_bytes other),
      dfe_warning_bytes = or_bytes (dfe_warning_bytes self) (dfe_warning_bytes other),
      dfe_partial_fault_bytes = or_bytes (dfe_partial_fault_bytes self) (dfe_partial_fault_bytes other),
      dfe_partial_fault_available = dfe_partial_fault_available self OR dfe_partial_fault_available other,
      dfe_partial_warning_bytes = or_bytes (dfe_partial_warning_bytes self) (dfe_partial_warning_bytes other),
      dfe_partial_warning_available = dfe_partial_warning_available self OR dfe_partial_warning_available other,
      dfe_drive_mode = (if dfe_drive_mode other \<noteq> None then dfe_drive_mode other else dfe_drive_mode self),
      dfe_received_at =
        (if later_option (dfe_received_at other) (dfe_received_at self)
         then dfe_received_at other else dfe_received_at self)\<rparr>"

record receive_frame_evidence =
  rfe_interface :: "string option"
  rfe_can_id :: u32
  rfe_extended :: bool
  rfe_received_at :: instant
  rfe_raw :: "u8 list"
  rfe_payload_len :: u8
  rfe_kind :: rx_frame_kind
  rfe_reason :: "malformed_reason option"

record receive_drain_evidence =
  rde_completion :: receive_completion
  rde_raw_frames :: nat
  rde_read_attempts :: nat

record receive_fault_evidence =
  rev_first_frame :: "receive_frame_evidence option"
  rev_latest_frame :: "receive_frame_evidence option"
  rev_frame_count :: u64
  rev_first_incomplete :: "receive_drain_evidence option"
  rev_latest_incomplete :: "receive_drain_evidence option"
  rev_incomplete_count :: u64

definition receive_fault_default :: receive_fault_evidence where
  "receive_fault_default =
     \<lparr>rev_first_frame = None, rev_latest_frame = None, rev_frame_count = 0,
      rev_first_incomplete = None, rev_latest_incomplete = None, rev_incomplete_count = 0\<rparr>"

definition receive_frame_fault :: "receive_frame_evidence \<Rightarrow> receive_fault_evidence" where
  "receive_frame_fault fr =
     receive_fault_default\<lparr>rev_first_frame := Some fr, rev_latest_frame := Some fr, rev_frame_count := 1\<rparr>"

definition receive_incomplete_fault :: "receive_drain_evidence \<Rightarrow> receive_fault_evidence" where
  "receive_incomplete_fault d =
     receive_fault_default\<lparr>rev_first_incomplete := Some d, rev_latest_incomplete := Some d,
       rev_incomplete_count := 1\<rparr>"

text \<open>\<open>first\<close> keeps what is stored, \<open>latest\<close> takes what is new.\<close>

fun option_or :: "'a option \<Rightarrow> 'a option \<Rightarrow> 'a option" where
  "option_or (Some a) _ = Some a"
| "option_or None b = b"

definition receive_merge :: "receive_fault_evidence \<Rightarrow> receive_fault_evidence \<Rightarrow> receive_fault_evidence" where
  "receive_merge other self =
     \<lparr>rev_first_frame = option_or (rev_first_frame self) (rev_first_frame other),
      rev_latest_frame = option_or (rev_latest_frame other) (rev_latest_frame self),
      rev_frame_count = u64_saturating_add (rev_frame_count self) (rev_frame_count other),
      rev_first_incomplete = option_or (rev_first_incomplete self) (rev_first_incomplete other),
      rev_latest_incomplete = option_or (rev_latest_incomplete other) (rev_latest_incomplete self),
      rev_incomplete_count = u64_saturating_add (rev_incomplete_count self) (rev_incomplete_count other)\<rparr>"

section \<open>Records\<close>

record fault_record =
  flt_id :: u64
  flt_class :: fault_class
  flt_joint :: "string option"
  flt_address :: "motor_address option"
  flt_first_seen :: instant
  flt_last_seen :: instant
  flt_message :: string
  flt_device :: device_fault_evidence
  flt_receive :: receive_fault_evidence

record device_warning =
  dw_joint :: string
  dw_address :: motor_address
  dw_first_seen :: instant
  dw_last_seen :: instant
  dw_warning_bytes :: "u8 list"

datatype stop_action = StopZeroSpeed | StopNeutralMit | StopDisable

record stop_attempt =
  sa_address :: motor_address
  sa_action :: stop_action
  sa_error :: "string option"

record stop_report =
  sr_generation :: u64
  sr_attempts :: "stop_attempt list"

definition failed_writes :: "stop_report \<Rightarrow> nat" where
  "failed_writes rep = length (filter (\<lambda>a. sa_error a \<noteq> None) (sr_attempts rep))"

record fault_authority =
  fa_faults :: "fault_record list"
  fa_warnings :: "device_warning list"
  fa_stop_generation :: u64
  fa_last_stop :: "stop_report option"
  fa_first_failed_stop :: "stop_report option"

definition fault_authority_default :: fault_authority where
  "fault_authority_default =
     \<lparr>fa_faults = [], fa_warnings = [], fa_stop_generation = 0, fa_last_stop = None,
      fa_first_failed_stop = None\<rparr>"

record safety_snapshot =
  ss_faults :: "fault_record list"
  ss_observed_warnings :: "device_warning list"
  ss_stop_generation :: u64
  ss_hardware_estop_asserted :: bool
  ss_last_stop :: "stop_report option"
  ss_first_failed_stop :: "stop_report option"
  ss_recovery_available :: bool

section \<open>Operations\<close>

definition MAX_FAULT_MESSAGE_LEN :: nat where "MAX_FAULT_MESSAGE_LEN = 1024"

definition bounded_message :: "string \<Rightarrow> string" where "bounded_message message = take 512 message"

definition fa_is_latched :: "fault_authority \<Rightarrow> bool" where
  "fa_is_latched fa = (fa_faults fa \<noteq> [])"

definition fa_first_fault :: "fault_authority \<Rightarrow> fault_record option" where
  "fa_first_fault fa = (case fa_faults fa of [] \<Rightarrow> None | f # _ \<Rightarrow> Some f)"

definition joint_is_faulted :: "string \<Rightarrow> fault_authority \<Rightarrow> bool" where
  "joint_is_faulted joint fa =
     list_ex (\<lambda>f. case flt_joint f of None \<Rightarrow> True | Some name \<Rightarrow> name = joint) (fa_faults fa)"

definition record_warning ::
    "instant \<Rightarrow> string \<Rightarrow> motor_address \<Rightarrow> u8 list \<Rightarrow> fault_authority \<Rightarrow> fault_authority" where
  "record_warning now joint address bytes fa =
     (if bytes = [0, 0, 0, 0] then fa
      else if list_ex (\<lambda>w. dw_address w = address) (fa_warnings fa)
      then fa\<lparr>fa_warnings := update_first (\<lambda>w. dw_address w = address)
             (\<lambda>w. w\<lparr>dw_last_seen := now, dw_warning_bytes := or_bytes (dw_warning_bytes w) bytes\<rparr>)
             (fa_warnings fa)\<rparr>
      else fa\<lparr>fa_warnings := fa_warnings fa @
             [\<lparr>dw_joint = joint, dw_address = address, dw_first_seen = now, dw_last_seen = now,
               dw_warning_bytes = bytes\<rparr>]\<rparr>)"

definition append_cause :: "string \<Rightarrow> string \<Rightarrow> string" where
  "append_cause message existing =
     (let incoming = bounded_message message
      in if incoming \<noteq> [] \<and> \<not> sublist incoming existing \<and> length existing < MAX_FAULT_MESSAGE_LEN
         then take MAX_FAULT_MESSAGE_LEN (existing @ ''; '' @ incoming)
         else existing)"

definition same_fault :: "fault_class \<Rightarrow> motor_address option \<Rightarrow> fault_record \<Rightarrow> bool" where
  "same_fault cls address f \<longleftrightarrow> flt_class f = cls \<and> flt_address f = address"

definition fa_record ::
    "instant \<Rightarrow> fault_class \<Rightarrow> string option \<Rightarrow> motor_address option \<Rightarrow> string \<Rightarrow>
     device_fault_evidence \<Rightarrow> fault_authority \<Rightarrow> bool \<times> fault_authority" where
  "fa_record now cls joint address message device fa =
     (if list_ex (same_fault cls address) (fa_faults fa)
      then (False, fa\<lparr>fa_faults := update_first (same_fault cls address)
             (\<lambda>f. f\<lparr>flt_last_seen := now, flt_device := device_merge device (flt_device f),
                     flt_message := append_cause message (flt_message f)\<rparr>) (fa_faults fa)\<rparr>)
      else (fa_faults fa = [],
            fa\<lparr>fa_faults := fa_faults fa @
             [\<lparr>flt_id = of_nat (length (fa_faults fa)) + 1, flt_class = cls, flt_joint = joint,
               flt_address = address, flt_first_seen = now, flt_last_seen = now,
               flt_message = bounded_message message, flt_device = device,
               flt_receive = receive_fault_default\<rparr>]\<rparr>))"

definition fa_record_receive ::
    "instant \<Rightarrow> fault_class \<Rightarrow> string option \<Rightarrow> motor_address option \<Rightarrow> string \<Rightarrow>
     device_fault_evidence \<Rightarrow> receive_fault_evidence \<Rightarrow> fault_authority \<Rightarrow> bool \<times> fault_authority" where
  "fa_record_receive now cls joint address message device receive fa =
     (let (first, fa') = fa_record now cls joint address message device fa
      in (first, fa'\<lparr>fa_faults := update_first (same_fault cls address)
            (\<lambda>f. f\<lparr>flt_receive := receive_merge receive (flt_receive f)\<rparr>) (fa_faults fa')\<rparr>))"

definition begin_stop :: "fault_authority \<Rightarrow> u64 \<times> fault_authority" where
  "begin_stop fa =
     (let g = u64_saturating_add (fa_stop_generation fa) 1 in (g, fa\<lparr>fa_stop_generation := g\<rparr>))"

definition set_stop_report :: "stop_report \<Rightarrow> fault_authority \<Rightarrow> fault_authority" where
  "set_stop_report rep fa =
     fa\<lparr>fa_first_failed_stop :=
          (if 0 < failed_writes rep \<and> fa_first_failed_stop fa = None then Some rep else fa_first_failed_stop fa),
        fa_last_stop := Some rep\<rparr>"

definition fa_snapshot :: "bool \<Rightarrow> fault_authority \<Rightarrow> safety_snapshot" where
  "fa_snapshot estop fa =
     \<lparr>ss_faults = fa_faults fa, ss_observed_warnings = fa_warnings fa,
      ss_stop_generation = fa_stop_generation fa, ss_hardware_estop_asserted = estop,
      ss_last_stop = fa_last_stop fa, ss_first_failed_stop = fa_first_failed_stop fa,
      ss_recovery_available = False\<rparr>"

section \<open>What the authority keeps\<close>

text \<open>One operation, at any instant, on the configured addresses \<open>A\<close>.\<close>

inductive fault_step :: "motor_address set \<Rightarrow> fault_authority \<Rightarrow> fault_authority \<Rightarrow> bool"
  for A :: "motor_address set" where
  step_warning: "a \<in> A \<Longrightarrow> length bytes = 4 \<Longrightarrow> fault_step A fa (record_warning now joint a bytes fa)"
| step_record: "a \<in> insert None (Some ` A) \<Longrightarrow> fault_step A fa (snd (fa_record now cls joint a msg dev fa))"
| step_record_receive: "a \<in> insert None (Some ` A) \<Longrightarrow>
    fault_step A fa (snd (fa_record_receive now cls joint a msg dev rcv fa))"
| step_begin_stop: "fault_step A fa (snd (begin_stop fa))"
| step_stop_report: "fault_step A fa (set_stop_report rep fa)"

abbreviation fault_key :: "fault_record \<Rightarrow> fault_class \<times> motor_address option" where
  "fault_key f \<equiv> (flt_class f, flt_address f)"

text \<open>A record, later: the same fault with at least the same evidence.\<close>

definition record_grows :: "fault_record \<Rightarrow> fault_record \<Rightarrow> bool" where
  "record_grows f g \<longleftrightarrow>
     flt_id g = flt_id f \<and> flt_class g = flt_class f \<and> flt_joint g = flt_joint f \<and>
     flt_address g = flt_address f \<and> flt_first_seen g = flt_first_seen f \<and>
     prefix (flt_message f) (flt_message g) \<and>
     dfe_status_flags (flt_device f) OR dfe_status_flags (flt_device g) = dfe_status_flags (flt_device g) \<and>
     rev_frame_count (flt_receive f) \<le> rev_frame_count (flt_receive g) \<and>
     option_or (rev_first_frame (flt_receive f)) (rev_first_frame (flt_receive g)) = rev_first_frame (flt_receive g)"

definition authority_grows :: "fault_authority \<Rightarrow> fault_authority \<Rightarrow> bool" where
  "authority_grows fa fb \<longleftrightarrow>
     (\<exists>gs new. fa_faults fb = gs @ new \<and> list_all2 record_grows (fa_faults fa) gs) \<and>
     option_or (fa_first_failed_stop fa) (fa_first_failed_stop fb) = fa_first_failed_stop fb \<and>
     fa_stop_generation fa \<le> fa_stop_generation fb"

definition authority_wf :: "motor_address set \<Rightarrow> fault_authority \<Rightarrow> bool" where
  "authority_wf A fa \<longleftrightarrow>
     distinct (map fault_key (fa_faults fa)) \<and>
     set (map flt_address (fa_faults fa)) \<subseteq> insert None (Some ` A) \<and>
     map flt_id (fa_faults fa) = map (\<lambda>i. of_nat i + 1) [0 ..< length (fa_faults fa)] \<and>
     list_all (\<lambda>f. length (flt_message f) \<le> MAX_FAULT_MESSAGE_LEN) (fa_faults fa) \<and>
     distinct (map dw_address (fa_warnings fa)) \<and> set (map dw_address (fa_warnings fa)) \<subseteq> A"

lemma append_cause_prefix: "prefix m (append_cause c m)"
proof (cases "length m < MAX_FAULT_MESSAGE_LEN")
  case True
  then show ?thesis
    by (auto simp: append_cause_def Let_def take_append prefix_def)
qed (simp add: append_cause_def Let_def)

lemma append_cause_length:
  "length m \<le> MAX_FAULT_MESSAGE_LEN \<Longrightarrow> length (append_cause c m) \<le> MAX_FAULT_MESSAGE_LEN"
  by (auto simp: append_cause_def Let_def)

lemma record_grows_refl [simp]: "record_grows f f"
  by (cases "rev_first_frame (flt_receive f)") (simp_all add: record_grows_def)

lemma option_or_trans: "option_or a b = b \<Longrightarrow> option_or b c = c \<Longrightarrow> option_or a c = c"
  by (cases a; cases b) auto

lemma word_or_trans:
  fixes a b c :: "'a::len word"
  assumes "a OR b = b" and "b OR c = c"
  shows "a OR c = c"
  using assms by (metis or.assoc)

lemma record_grows_trans:
  assumes "record_grows f g" and "record_grows g h"
  shows "record_grows f h"
  using assms unfolding record_grows_def
  by (auto intro: word_or_trans option_or_trans prefix_order.trans order.trans)

lemma list_all2_grows_refl [simp]: "list_all2 record_grows fs fs"
  by (simp add: list_all2_same)

lemma list_all2_grows_update:
  "(\<And>f. record_grows f (h f)) \<Longrightarrow> list_all2 record_grows fs (update_first P h fs)"
  by (induction fs) auto

lemma option_or_same [simp]: "option_or a a = a"
  by (cases a) simp_all

lemma authority_growsI:
  assumes "fa_faults fb = gs @ new" and "list_all2 record_grows (fa_faults fa) gs"
    and "option_or (fa_first_failed_stop fa) (fa_first_failed_stop fb) = fa_first_failed_stop fb"
    and "fa_stop_generation fa \<le> fa_stop_generation fb"
  shows "authority_grows fa fb"
  using assms unfolding authority_grows_def by blast

lemma authority_grows_same:
  assumes "fa_faults fb = fa_faults fa"
    and "option_or (fa_first_failed_stop fa) (fa_first_failed_stop fb) = fa_first_failed_stop fb"
    and "fa_stop_generation fa \<le> fa_stop_generation fb"
  shows "authority_grows fa fb"
  using assms by (intro authority_growsI [where gs = "fa_faults fa" and new = "[]"]) simp_all

lemma authority_grows_refl [simp]: "authority_grows fa fa"
  by (rule authority_grows_same) simp_all

lemma authority_grows_trans:
  assumes "authority_grows fa fb" and "authority_grows fb fc"
  shows "authority_grows fa fc"
proof -
  from assms obtain gs new hs new' where
    b: "fa_faults fb = gs @ new" "list_all2 record_grows (fa_faults fa) gs" and
    c: "fa_faults fc = hs @ new'" "list_all2 record_grows (gs @ new) hs"
    unfolding authority_grows_def by auto
  from c(2) obtain hs1 hs2 where hs: "hs = hs1 @ hs2" "list_all2 record_grows gs hs1"
    by (auto simp: list_all2_append1)
  have "list_all2 record_grows (fa_faults fa) hs1"
    using b(2) hs(2) by (rule list_all2_trans [rotated]) (rule record_grows_trans)
  then show ?thesis
    using assms c(1) hs(1)
    by (intro authority_growsI [where gs = hs1 and new = "hs2 @ new'"])
      (auto simp: authority_grows_def intro: option_or_trans)
qed

lemma record_grows_record:
  "record_grows f (f\<lparr>flt_last_seen := now, flt_device := device_merge dev (flt_device f),
     flt_message := append_cause msg (flt_message f)\<rparr>)"
  by (cases "rev_first_frame (flt_receive f)")
    (simp_all add: record_grows_def append_cause_prefix device_merge_def or.assoc [symmetric])

lemma record_grows_receive: "record_grows f (f\<lparr>flt_receive := receive_merge rcv (flt_receive f)\<rparr>)"
  by (cases "rev_first_frame (flt_receive f)")
    (simp_all add: record_grows_def receive_merge_def u64_saturating_add_ge)

lemma authority_grows_update:
  "(\<And>f. record_grows f (h f)) \<Longrightarrow> authority_grows fa (fa\<lparr>fa_faults := update_first P h (fa_faults fa)\<rparr>)"
  by (rule authority_growsI [where new = "[]" and gs = "update_first P h (fa_faults fa)"])
    (simp_all, rule list_all2_grows_update)

lemma record_grows_authority: "authority_grows fa (snd (fa_record now cls joint a msg dev fa))"
proof (cases "list_ex (same_fault cls a) (fa_faults fa)")
  case True
  then show ?thesis
    by (simp add: fa_record_def authority_grows_update record_grows_record)
next
  case False
  then show ?thesis
    unfolding fa_record_def by (intro authority_growsI [where gs = "fa_faults fa"]) simp_all
qed

lemma fault_step_grows: "fault_step A fa fb \<Longrightarrow> authority_grows fa fb"
proof (induction rule: fault_step.induct)
  case (step_warning a bytes fa now joint)
  show ?case
    by (rule authority_grows_same) (simp_all add: record_warning_def)
next
  case (step_record a fa now cls joint msg dev)
  show ?case by (rule record_grows_authority)
next
  case (step_record_receive a fa now cls joint msg dev rcv)
  have "authority_grows (snd (fa_record now cls joint a msg dev fa))
      (snd (fa_record_receive now cls joint a msg dev rcv fa))"
    by (simp add: fa_record_receive_def split_beta Let_def authority_grows_update record_grows_receive)
  then show ?case by (rule authority_grows_trans [OF record_grows_authority])
next
  case (step_begin_stop fa)
  show ?case
    by (rule authority_grows_same) (simp_all add: begin_stop_def Let_def u64_saturating_add_ge)
next
  case (step_stop_report fa rep)
  show ?case
    by (rule authority_grows_same; cases "fa_first_failed_stop fa") (simp_all add: set_stop_report_def)
qed

lemma fault_steps_grow:
  assumes "(fault_step A)\<^sup>*\<^sup>* fa fb"
  shows "authority_grows fa fb"
  using assms by induction (auto dest: fault_step_grows intro: authority_grows_trans)

lemma fault_key_same: "same_fault cls a f \<longleftrightarrow> fault_key f = (cls, a)"
  by (simp add: same_fault_def)

lemma authority_wf_update:
  assumes "authority_wf A fa" and "\<And>f. fault_key (h f) = fault_key f \<and> flt_id (h f) = flt_id f"
    and "\<And>f. length (flt_message f) \<le> MAX_FAULT_MESSAGE_LEN \<Longrightarrow>
      length (flt_message (h f)) \<le> MAX_FAULT_MESSAGE_LEN"
  shows "authority_wf A (fa\<lparr>fa_faults := update_first P h (fa_faults fa)\<rparr>)"
proof -
  have "map fault_key (update_first P h fs) = map fault_key fs"
    "map flt_address (update_first P h fs) = map flt_address fs"
    "map flt_id (update_first P h fs) = map flt_id fs" for fs
    using assms(2) by (auto intro: map_update_first)
  moreover have "list_all (\<lambda>f. length (flt_message f) \<le> MAX_FAULT_MESSAGE_LEN) (update_first P h fs)"
    if "list_all (\<lambda>f. length (flt_message f) \<le> MAX_FAULT_MESSAGE_LEN) fs" for fs
    using that assms(3) by (induction fs) auto
  ultimately show ?thesis using assms(1) by (simp add: authority_wf_def)
qed

lemma record_wf:
  assumes "authority_wf A fa" and "a \<in> insert None (Some ` A)"
  shows "authority_wf A (snd (fa_record now cls joint a msg dev fa))"
proof (cases "list_ex (same_fault cls a) (fa_faults fa)")
  case True
  then show ?thesis
    using assms by (simp add: fa_record_def authority_wf_update append_cause_length)
next
  case False
  then have "(cls, a) \<notin> set (map fault_key (fa_faults fa))"
    by (auto simp: list_ex_iff same_fault_def)
  with False assms show ?thesis
    by (auto simp: fa_record_def authority_wf_def bounded_message_def MAX_FAULT_MESSAGE_LEN_def)
qed

lemma record_warning_addresses:
  "map dw_address (fa_warnings (record_warning now joint a bytes fa)) =
     (if bytes = [0, 0, 0, 0] \<or> a \<in> set (map dw_address (fa_warnings fa))
      then map dw_address (fa_warnings fa) else map dw_address (fa_warnings fa) @ [a])"
proof -
  have "map dw_address (update_first P (\<lambda>w. w\<lparr>dw_last_seen := t, dw_warning_bytes := g w\<rparr>) ws) = map dw_address ws"
    for P t g and ws :: "device_warning list" by (rule map_update_first) simp
  moreover have "list_ex (\<lambda>w. dw_address w = a) ws \<longleftrightarrow> a \<in> set (map dw_address ws)"
    for ws :: "device_warning list"
    by (auto simp: list_ex_iff)
  ultimately show ?thesis by (simp add: record_warning_def)
qed

lemma record_warning_wf:
  assumes "authority_wf A fa" and "a \<in> A"
  shows "authority_wf A (record_warning now joint a bytes fa)"
proof -
  have "fa_faults (record_warning now joint a bytes fa) = fa_faults fa" by (simp add: record_warning_def)
  then show ?thesis
    using assms unfolding authority_wf_def record_warning_addresses by auto
qed

lemma fault_step_wf: "fault_step A fa fb \<Longrightarrow> authority_wf A fa \<Longrightarrow> authority_wf A fb"
proof (induction rule: fault_step.induct)
  case (step_record_receive a fa now cls joint msg dev rcv)
  then show ?case
    by (simp add: fa_record_receive_def split_beta Let_def authority_wf_update record_wf)
next
  case (step_begin_stop fa)
  then show ?case by (simp add: begin_stop_def Let_def authority_wf_def)
next
  case (step_stop_report fa rep)
  then show ?case by (simp add: set_stop_report_def authority_wf_def)
qed (simp_all add: record_wf record_warning_wf)

lemma fault_steps_wf:
  assumes "(fault_step A)\<^sup>*\<^sup>* fault_authority_default fa"
  shows "authority_wf A fa"
  using assms
proof induction
  case base
  show ?case by (simp add: authority_wf_def fault_authority_default_def)
qed (rule fault_step_wf)

section \<open>Properties\<close>

text \<open>C20: the safety latch is permanent. Whatever is recorded later, a latched authority
  stays latched; every record keeps its id, class, joint, address and first instant, its
  message keeps what it said, its accumulated status flags and frame counts only grow; a
  faulted joint stays faulted; the first fault stays the first; and the first failed stop
  stays the evidence it was.\<close>

theorem fault_latch_permanent:
  assumes "(fault_step A)\<^sup>*\<^sup>* fa fb"
  shows "(fa_is_latched fa \<longrightarrow> fa_is_latched fb) \<and> (joint_is_faulted j fa \<longrightarrow> joint_is_faulted j fb) \<and>
    list_all2 record_grows (fa_faults fa) (take (length (fa_faults fa)) (fa_faults fb)) \<and>
    (case fa_first_fault fa of Some f \<Rightarrow> \<exists>g. fa_first_fault fb = Some g \<and> record_grows f g | None \<Rightarrow> True) \<and>
    (fa_first_failed_stop fa \<noteq> None \<longrightarrow> fa_first_failed_stop fb = fa_first_failed_stop fa) \<and>
    fa_stop_generation fa \<le> fa_stop_generation fb"
proof -
  from fault_steps_grow [OF assms] obtain gs new where
    gs: "fa_faults fb = gs @ new" "list_all2 record_grows (fa_faults fa) gs"
    and stop: "option_or (fa_first_failed_stop fa) (fa_first_failed_stop fb) = fa_first_failed_stop fb"
      "fa_stop_generation fa \<le> fa_stop_generation fb"
    unfolding authority_grows_def by blast
  have joints: "map flt_joint gs = map flt_joint (fa_faults fa)"
    using gs(2) by (induction rule: list_all2_induct) (simp_all add: record_grows_def)
  have "list_ex P gs \<longleftrightarrow> list_ex P (fa_faults fa)" if "P = (\<lambda>f. Q (flt_joint f))"
    for P and Q :: "string option \<Rightarrow> bool"
    using arg_cong [OF joints, of "list_ex Q"] that by (simp add: list_ex_iff)
  then have "joint_is_faulted j fa \<longrightarrow> joint_is_faulted j fb"
    by (auto simp: joint_is_faulted_def gs(1))
  moreover have "fa_is_latched fa \<longrightarrow> fa_is_latched fb"
    using gs by (auto simp: fa_is_latched_def)
  moreover have "take (length (fa_faults fa)) (fa_faults fb) = gs"
    using gs list_all2_lengthD [OF gs(2)] by simp
  moreover have "case fa_first_fault fa of Some f \<Rightarrow> \<exists>g. fa_first_fault fb = Some g \<and> record_grows f g | None \<Rightarrow> True"
    using gs by (auto simp: fa_first_fault_def list_all2_Cons1 split: list.splits)
  ultimately show ?thesis
    using gs(2) stop by (cases "fa_first_failed_stop fa") simp_all
qed

definition sample_address :: motor_address where
  "sample_address = \<lparr>addr_interface = ''can0'', addr_device_id = 1\<rparr>"

definition sample_latched :: fault_authority where
  "sample_latched =
     snd (fa_record 5 FcDriveState (Some ''elbow'') (Some sample_address) ''missing Enable echo''
       device_fault_default fault_authority_default)"

theorem fault_latch_permanent_witness:
  "(fault_step {sample_address})\<^sup>*\<^sup>* sample_latched (snd (begin_stop sample_latched)) \<and>
   fa_is_latched (snd (begin_stop sample_latched)) \<and> joint_is_faulted ''elbow'' (snd (begin_stop sample_latched))"
proof -
  have "(fault_step {sample_address})\<^sup>*\<^sup>* sample_latched (snd (begin_stop sample_latched))"
    by (intro r_into_rtranclp step_begin_stop)
  moreover have "fa_is_latched sample_latched" "joint_is_faulted ''elbow'' sample_latched" by code_simp+
  ultimately show ?thesis
    using fault_latch_permanent [of "{sample_address}" sample_latched "snd (begin_stop sample_latched)" "''elbow''"]
    by blast
qed

text \<open>C25: the authority stays small and unambiguous. In a process that addresses a
  set A of motors, there is at most one record per fault class and address, numbered from one in order
  of first occurrence, with at most 1024 characters of message; so at most ten records per
  address and ten without one, and at most one warning per address, however long it runs.\<close>

theorem fault_authority_bounded:
  assumes "finite A" and "(fault_step A)\<^sup>*\<^sup>* fault_authority_default fa"
  shows "distinct (map fault_key (fa_faults fa)) \<and>
    map flt_id (fa_faults fa) = map (\<lambda>i. of_nat i + 1) [0 ..< length (fa_faults fa)] \<and>
    list_all (\<lambda>f. length (flt_message f) \<le> MAX_FAULT_MESSAGE_LEN) (fa_faults fa) \<and>
    length (fa_faults fa) \<le> 10 * (card A + 1) \<and> length (fa_warnings fa) \<le> card A"
proof -
  note wf = fault_steps_wf [OF assms(2), unfolded authority_wf_def]
  have univ: "(UNIV :: fault_class set) = {FcDevice, FcFeedback, FcDriveState, FcCommunication, FcTransport,
      FcController, FcHardwareEstop, FcStopDelivery, FcWrongSign, FcDangerZone}"
    using fault_class.exhaust by auto
  have "length (fa_faults fa) = card (set (map fault_key (fa_faults fa)))"
    using wf distinct_card [of "map fault_key (fa_faults fa)"] by simp
  also have "\<dots> \<le> card ((UNIV :: fault_class set) \<times> insert None (Some ` A))"
  proof (rule card_mono)
    show "finite ((UNIV :: fault_class set) \<times> insert None (Some ` A))" using assms(1) by (simp add: univ)
    have "set (map flt_address (fa_faults fa)) \<subseteq> insert None (Some ` A)" using wf by blast
    then show "set (map fault_key (fa_faults fa)) \<subseteq> UNIV \<times> insert None (Some ` A)" by force
  qed
  also have "\<dots> = 10 * card (insert None (Some ` A))" 
    unfolding card_cartesian_product by (simp add: univ)
  also have "\<dots> = 10 * (card A + 1)"
    using assms(1) by (subst card_insert_disjoint) (auto simp: card_image)
  finally have "length (fa_faults fa) \<le> 10 * (card A + 1)" .
  moreover have "length (fa_warnings fa) = card (set (map dw_address (fa_warnings fa)))"
    using wf distinct_card [of "map dw_address (fa_warnings fa)"] by simp
  then have "length (fa_warnings fa) \<le> card A"
    using wf card_mono [OF assms(1), of "set (map dw_address (fa_warnings fa))"] by simp
  ultimately show ?thesis using wf by blast
qed

theorem fault_authority_bounded_witness:
  "(fault_step {sample_address})\<^sup>*\<^sup>* fault_authority_default sample_latched \<and>
   length (fa_faults sample_latched) \<le> 20"
proof -
  have s: "(fault_step {sample_address})\<^sup>*\<^sup>* fault_authority_default sample_latched"
    unfolding sample_latched_def by (intro r_into_rtranclp step_record) simp
  show ?thesis using fault_authority_bounded [OF _ s] s by simp
qed

end
