(* ===== verification/Davout_Facets.thy ===== *)
theory Davout_Facets
  imports Prelude "HOL-Library.Multiset" "HOL-Library.AList" "HOL-Library.Char_ord" "HOL-Library.List_Lexorder"
begin

text \<open>
  Readiness and the choice of joints to enable, \<open>crates/davout/src/homing_facets.rs\<close>: the
  facets of each joint, Robot Ready over the built joints, and the targets of Enable with and
  without a commissioning scope.
\<close>

datatype joint_homing_state = JhUnhomed | JhHoming | JhVerified | JhFaulted

datatype proto_homing_state = PhUnspecified | PhUnhomed | PhHoming | PhVerified | PhFaulted

fun to_proto_homing_state :: "joint_homing_state \<Rightarrow> proto_homing_state" where
  "to_proto_homing_state JhUnhomed = PhUnhomed"
| "to_proto_homing_state JhHoming = PhHoming"
| "to_proto_homing_state JhVerified = PhVerified"
| "to_proto_homing_state JhFaulted = PhFaulted"

text \<open>The latch set: a map to \<open>true\<close> with no way to clear an entry.\<close>

type_synonym out_of_limits_flags = "(string \<times> bool) list"

definition ool_mark :: "string \<Rightarrow> bool \<Rightarrow> out_of_limits_flags \<Rightarrow> out_of_limits_flags" where
  "ool_mark joint configured flags = (if configured then AList.update joint True flags else flags)"

definition ool_is_set :: "string \<Rightarrow> out_of_limits_flags \<Rightarrow> bool" where
  "ool_is_set joint flags = (case map_of flags joint of Some b \<Rightarrow> b | None \<Rightarrow> False)"

record joint_facet_input =
  jf_name :: string
  jf_homing_state :: joint_homing_state
  jf_online :: bool
  jf_motor_mapped :: bool
  jf_fault :: bool
  jf_out_of_limits :: bool

definition is_built :: "joint_facet_input \<Rightarrow> bool" where
  "is_built j = (jf_online j \<or> jf_motor_mapped j)"

definition is_ready :: "joint_facet_input \<Rightarrow> bool" where
  "is_ready j = (jf_homing_state j = JhVerified)"

definition is_ready_healthy :: "joint_facet_input \<Rightarrow> bool" where
  "is_ready_healthy j = (is_ready j \<and> \<not> jf_fault j \<and> \<not> jf_out_of_limits j)"

definition robot_ready :: "joint_facet_input list \<Rightarrow> bool" where
  "robot_ready master_joints =
     (let built = filter is_built master_joints
      in if built = [] then False else list_all is_ready_healthy built)"

definition is_enable_eligible :: "joint_facet_input \<Rightarrow> bool" where
  "is_enable_eligible j = (jf_online j \<and> is_ready_healthy j)"

text \<open>The parts of the refusal message: \<open>{:?}\<close> of a state and \<open>[String]::join\<close>.\<close>

fun show_homing_state :: "joint_homing_state \<Rightarrow> string" where
  "show_homing_state JhUnhomed = ''Unhomed''"
| "show_homing_state JhHoming = ''Homing''"
| "show_homing_state JhVerified = ''Verified''"
| "show_homing_state JhFaulted = ''Faulted''"

fun join_strings :: "string \<Rightarrow> string list \<Rightarrow> string" where
  "join_strings sep [] = []"
| "join_strings sep [s] = s"
| "join_strings sep (s # ss) = s @ sep @ join_strings sep ss"

definition failing_facets :: "joint_facet_input \<Rightarrow> string list" where
  "failing_facets j =
     (if \<not> is_ready j then [show_homing_state (jf_homing_state j)] else []) @
     (if jf_fault j then [''fault''] else []) @
     (if jf_out_of_limits j then [''out of limits''] else [])"

definition not_ready :: "joint_facet_input list \<Rightarrow> string" where
  "not_ready master_joints =
     (let blockers = map (\<lambda>j. jf_name j @ '' '' @ join_strings ''+'' (failing_facets j))
            (filter (\<lambda>j. is_built j \<and> \<not> is_ready_healthy j) master_joints)
      in if blockers = [] then ''no built joint'' else join_strings '', '' blockers)"

definition select_enable_targets ::
    "joint_facet_input list \<Rightarrow> joint_facet_input list \<Rightarrow> string list option \<Rightarrow> (string list, string) result"
  where "select_enable_targets master_joints loaded_joints effective_scope =
     (case effective_scope of
        Some scope \<Rightarrow>
          (let targets = sort (map jf_name
                 (filter (\<lambda>j. jf_name j \<in> set scope \<and> is_enable_eligible j) loaded_joints))
           in if targets = [] then Err ''no Verified in-scope joints eligible for enable'' else Ok targets)
      | None \<Rightarrow>
          if \<not> robot_ready master_joints then
            Err (''Enable requires full-master Robot Ready when no commissioning scope is set (not ready: '' @
                 not_ready master_joints @ '')'')
          else
            (let targets = sort (map jf_name (filter is_enable_eligible loaded_joints))
             in if targets = [] then Err ''no loaded joints eligible for enable'' else Ok targets))"

section \<open>Lemmas\<close>

lemma robot_ready_iff:
  "robot_ready js \<longleftrightarrow> (\<exists>j \<in> set js. is_built j) \<and> (\<forall>j \<in> set js. is_built j \<longrightarrow> is_ready_healthy j)"
  by (auto simp: robot_ready_def Let_def filter_empty_conv list_all_iff)

lemma failing_facets_nonempty: "failing_facets j \<noteq> [] \<longleftrightarrow> \<not> is_ready_healthy j"
  by (auto simp: failing_facets_def is_ready_healthy_def)

lemma ool_mark_permanent: "ool_is_set j flags \<Longrightarrow> ool_is_set j (ool_mark k c flags)"
  by (simp add: ool_is_set_def ool_mark_def update_conv')

lemma ool_is_set_mark: "ool_is_set j (ool_mark k c flags) \<longleftrightarrow> (c \<and> j = k) \<or> ool_is_set j flags"
  by (simp add: ool_is_set_def ool_mark_def update_conv')

text \<open>The joints Enable may address under a scope.\<close>

definition enable_allowed :: "string list option \<Rightarrow> joint_facet_input \<Rightarrow> bool" where
  "enable_allowed scope j \<longleftrightarrow>
     jf_online j \<and> jf_homing_state j = JhVerified \<and> \<not> jf_fault j \<and> \<not> jf_out_of_limits j \<and>
     (case scope of Some names \<Rightarrow> jf_name j \<in> set names | None \<Rightarrow> True)"

text \<open>C24: Enable addresses exactly the joints it may. Without a scope it is refused unless
  some joint is built and every built joint is verified and healthy; when it is not refused
  the targets are, in order and without omission, the loaded joints that are online, verified,
  free of faults and inside their limits, and in the scope when there is one; it is refused
  when there is none.\<close>

theorem enable_targets_exact:
  "case select_enable_targets master loaded scope of
     Inr targets \<Rightarrow>
       targets \<noteq> [] \<and> sorted targets \<and>
       mset targets = mset (map jf_name (filter (enable_allowed scope) loaded)) \<and>
       (if scope = None
        then list_ex is_built master \<and> list_all (\<lambda>j. if is_built j then is_ready_healthy j else True) master
        else True)
   | Inl _ \<Rightarrow>
       (if scope = None \<and> \<not> robot_ready master then True else filter (enable_allowed scope) loaded = [])"
proof -
  have e: "enable_allowed None = is_enable_eligible"
    "enable_allowed (Some names) = (\<lambda>j. jf_name j \<in> set names \<and> is_enable_eligible j)" for names
    by (auto simp: fun_eq_iff enable_allowed_def is_enable_eligible_def is_ready_healthy_def is_ready_def)
  have empty: "sort xs = [] \<longleftrightarrow> xs = []" for xs :: "string list"
    by (simp flip: length_0_conv)
  have ready: "robot_ready master \<longleftrightarrow>
      list_ex is_built master \<and> list_all (\<lambda>j. if is_built j then is_ready_healthy j else True) master"
    by (auto simp: robot_ready_iff list_ex_iff list_all_iff)
  show ?thesis
  proof (cases scope)
    case None
    then show ?thesis
      by (simp add: select_enable_targets_def e Let_def empty ready)
  next
    case (Some names)
    then show ?thesis
      by (simp add: select_enable_targets_def e Let_def empty)
  qed
qed

end
