(* ===== verification/Config_Types.thy ===== *)
theory Config_Types
  imports Robstride_Mit "HOL-Library.AList"
begin

text \<open>
  The configuration files of \<open>crates/marengo-config\<close> as data: robot, motors, control and
  homing sections, their defaults and the derived values of the control entries.

  A hash map is an association list in its iteration order, which is arbitrary; lookups use
  the first entry, and a parsed file has one entry per key. An error message that prints a
  number keeps the number (\<open>Num\<close>), since its decimal spelling carries no decision.
\<close>

section \<open>Errors and results\<close>

datatype fragment = Txt string | Num f64

type_synonym message = "fragment list"

datatype config_error =
    CfgIo string message
  | CfgParse string message
  | UrdfMissing string
  | UnknownMotorJoint string
  | CfgDuplicateMotorAddress string u8
  | InvalidSafetyConfig string message
  | InvalidLimitMargin string message
  | InvalidActuatorGroup string message
  | InvalidVelocity string message
  | InvalidGravityCompGains string message
  | MissingControlJoint string
  | UnknownJointSubset string
  | EmptyJointSubset

text \<open>\<open>if cond { return Err(e) }\<close> and a loop whose body may return an error.\<close>

definition refuse_if :: "bool \<Rightarrow> 'e \<Rightarrow> (unit, 'e) result" where
  "refuse_if b e = (if b then Err e else Ok ())"

fun for_each :: "('a \<Rightarrow> (unit, 'e) result) \<Rightarrow> 'a list \<Rightarrow> (unit, 'e) result" where
  "for_each f [] = Ok ()"
| "for_each f (x # xs) = rbind (f x) (\<lambda>_. for_each f xs)"

text \<open>A loop over \<open>iter().enumerate()\<close> that looks at the prefix already visited.\<close>

fun for_each_prior :: "'a list \<Rightarrow> ('a list \<Rightarrow> 'a \<Rightarrow> (unit, 'e) result) \<Rightarrow> 'a list \<Rightarrow> (unit, 'e) result" where
  "for_each_prior seen f [] = Ok ()"
| "for_each_prior seen f (x # xs) = rbind (f seen x) (\<lambda>_. for_each_prior (seen @ [x]) f xs)"

lemma refuse_if_Ok [simp]: "refuse_if b e = Ok u \<longleftrightarrow> \<not> b"
  by (simp add: refuse_if_def)

lemma refuse_if_Err [simp]: "refuse_if b e = Err e' \<longleftrightarrow> b \<and> e' = e"
  by (auto simp: refuse_if_def)

lemma for_each_Ok: "for_each f xs = Ok u \<longleftrightarrow> (\<forall>x \<in> set xs. f x = Ok ())"
  by (induction xs) (auto simp: rbind_Ok_iff)

lemma for_each_prior_Ok:
  "for_each_prior seen f xs = Ok u \<longleftrightarrow> (\<forall>i < length xs. f (seen @ take i xs) (xs ! i) = Ok ())"
proof (induction xs arbitrary: seen)
  case Nil
  then show ?case by simp
next
  case (Cons x xs)
  show ?case
    using Cons.IH [of "seen @ [x]"] by (auto simp: rbind_Ok_iff All_less_Suc2)
qed

text \<open>
  ASCII whitespace is trimmed: joint, interface and client names are ASCII throughout.
\<close>

definition is_space :: "char \<Rightarrow> bool" where
  "is_space c \<longleftrightarrow> of_char c \<in> {9, 10, 11, 12, 13, 32 :: nat}"

definition trim :: "string \<Rightarrow> string" where
  "trim s = rev (dropWhile is_space (rev (dropWhile is_space s)))"

section \<open>Double precision\<close>

abbreviation f64_lt :: "f64 \<Rightarrow> f64 \<Rightarrow> bool" where "f64_lt \<equiv> flt Binary64"
abbreviation f64_le :: "f64 \<Rightarrow> f64 \<Rightarrow> bool" where "f64_le \<equiv> fle Binary64"
abbreviation f64_finite :: "f64 \<Rightarrow> bool" where "f64_finite \<equiv> is_finite Binary64"
abbreviation f64_val :: "f64 \<Rightarrow> rat" where "f64_val \<equiv> fval Binary64"

text \<open>A decimal literal is the double nearest to it.\<close>

definition f64_lit :: "rat \<Rightarrow> f64" where "f64_lit q = fround Binary64 False q"

abbreviation f64_zero :: f64 where "f64_zero \<equiv> Flt False 0"

section \<open>Robot and motors\<close>

record robot_section =
  rb_urdf :: string
  rb_max_joint_torque_nm :: f64
  rb_joints :: "string list"
  rb_limbs :: "(string \<times> string list) list"

record motor_bench_limits =
  bl_position_lower_rad :: f64
  bl_position_upper_rad :: f64
  bl_velocity_limit_rad_s :: f64
  bl_torque_limit_nm :: f64

record motor_entry =
  me_joint :: string
  me_driver :: string
  me_motor_type :: motor_type
  me_can_interface :: string
  me_device_id :: u8
  me_direction :: "8 word"
  me_gear_ratio :: f64
  me_recv_can_id :: u32
  me_firmware_version :: string
  me_bench :: motor_bench_limits

definition motor_for_joint :: "motor_entry list \<Rightarrow> string \<Rightarrow> motor_entry option" where
  "motor_for_joint motors joint = List.find (\<lambda>m. me_joint m = joint) motors"

section \<open>Control\<close>

datatype on_drive_loss = DisableAll | ShedSubtree

datatype position_law = LawLegacy | LawScaledPd

datatype position_integral_mode = TargetBand | LeakyReference

record drive_loss_config =
  dl_hold_window_s :: f64
  dl_lower_velocity_rad_s :: f64
  dl_lower_settle_s :: f64
  dl_lower_max_s :: f64
  dl_tau_margin_nm :: f64

record wrong_sign_watchdog_config =
  wsw_enabled :: bool
  wsw_expected_sign_at_positive_q :: "8 word"
  wsw_min_velocity_rad_s :: f64
  wsw_min_opposition_ticks :: u32
  wsw_grace_period_ticks :: u32

record actuator_group_entry =
  ag_joints :: "string list"
  ag_velocity_max_rad_s :: f64

record motor_type_defaults =
  mtd_kp_max :: f64
  mtd_kd_max :: f64
  mtd_tau_ff_max_nm :: f64
  mtd_velocity_max_rad_s :: f64

record mode_gains =
  mg_kp :: f64
  mg_kd :: f64
  mg_ki :: f64

record friction_gains =
  fg_fc :: f64
  fg_fv :: f64
  fg_fo :: f64
  fg_k :: f64
  fg_fs :: "f64 option"
  fg_v_b :: "f64 option"

record joint_control_entry =
  jc_motor_type :: motor_type
  jc_gravity_comp :: mode_gains
  jc_impedance :: mode_gains
  jc_friction :: friction_gains
  jc_velocity_max_rad_s :: "f64 option"
  jc_position_slew_rad_s :: f64
  jc_position_slew_max_lead_rad :: f64
  jc_position_trajectory_threshold_rad :: f64
  jc_position_trajectory_velocity_rad_s :: f64
  jc_position_trajectory_accel_rad_s2 :: f64
  jc_position_trajectory_velocity_deadband_rad :: f64
  jc_position_hold_trim_rad :: f64
  jc_on_drive_loss :: on_drive_loss
  jc_position_law :: position_law
  jc_position_time_scale_e0_rad :: "f64 option"
  jc_position_integral_band_rad :: "f64 option"
  jc_position_integral_leak_s :: "f64 option"
  jc_position_integral_mode :: "position_integral_mode option"
  jc_position_integral_cap_nm :: "f64 option"
  jc_position_host_damping_nm_s_per_rad :: "f64 option"
  jc_position_host_damping_filter_s :: "f64 option"
  jc_position_ff_step_max_nm :: "f64 option"
  jc_position_limit_margin_min_rad :: f64
  jc_position_limit_margin_k_v_s :: f64
  jc_position_limit_margin_k_stop :: f64
  jc_position_limit_measured_fault_slack_rad :: f64
  jc_position_soft_lower_rad :: "f64 option"
  jc_position_soft_upper_rad :: "f64 option"

record danger_zone_rule =
  dz_name :: string
  dz_joint :: string
  dz_position_above_rad :: f64
  dz_velocity_below_rad_s :: f64
  dz_action :: string
  dz_max_velocity_rad_s :: f64
  dz_max_torque_nm :: "f64 option"

record control_section =
  cs_loop_hz :: u32
  cs_chappe_state_hz :: u32
  cs_comm_watchdog_ms :: u64
  cs_feedback_drain_quiet_us :: u64
  cs_tau_ff_rate_limit_nm_per_s :: f64
  cs_disable_on_exit :: bool
  cs_active_reporting_diagnostics :: bool
  cs_motor_type_defaults :: "(string \<times> motor_type_defaults) list"
  cs_actuator_groups :: "(string \<times> actuator_group_entry) list"
  cs_joints :: "(string \<times> joint_control_entry) list"
  cs_danger_zones :: "danger_zone_rule list"
  cs_wrong_sign_watchdog :: wrong_sign_watchdog_config
  cs_drive_loss :: "drive_loss_config option"

definition wrong_sign_watchdog_default :: wrong_sign_watchdog_config where
  "wrong_sign_watchdog_default =
     \<lparr>wsw_enabled = True, wsw_expected_sign_at_positive_q = - 1, wsw_min_velocity_rad_s = f64_lit (5 / 100),
      wsw_min_opposition_ticks = 10, wsw_grace_period_ticks = 20\<rparr>"

definition DEFAULT_POSITION_TIME_SCALE_E0_FRACTION :: f64 where
  "DEFAULT_POSITION_TIME_SCALE_E0_FRACTION = f64_lit (1 / 4)"
definition DEFAULT_POSITION_INTEGRAL_BAND_RAD :: f64 where
  "DEFAULT_POSITION_INTEGRAL_BAND_RAD = f64_lit (1 / 10)"
definition DEFAULT_POSITION_INTEGRAL_LEAK_S :: f64 where
  "DEFAULT_POSITION_INTEGRAL_LEAK_S = f64_lit (1 / 2)"
definition DEFAULT_POSITION_INTEGRAL_CAP_NM :: f64 where
  "DEFAULT_POSITION_INTEGRAL_CAP_NM = f64_lit (1 / 2)"
definition DEFAULT_POSITION_HOST_DAMPING_FILTER_S :: f64 where
  "DEFAULT_POSITION_HOST_DAMPING_FILTER_S = f64_lit (1 / 100)"
definition DEFAULT_FRICTION_STRIBECK_VELOCITY_RAD_S :: f64 where
  "DEFAULT_FRICTION_STRIBECK_VELOCITY_RAD_S = f64_lit (5 / 100)"

definition unwrap_or :: "'a option \<Rightarrow> 'a \<Rightarrow> 'a" where
  "unwrap_or x d = (case x of Some v \<Rightarrow> v | None \<Rightarrow> d)"

definition time_scale_e1_rad :: "joint_control_entry \<Rightarrow> f64" where
  "time_scale_e1_rad e = jc_position_slew_max_lead_rad e"

definition time_scale_e0_rad :: "joint_control_entry \<Rightarrow> f64" where
  "time_scale_e0_rad e =
     unwrap_or (jc_position_time_scale_e0_rad e)
       (fmul Binary64 (jc_position_slew_max_lead_rad e) DEFAULT_POSITION_TIME_SCALE_E0_FRACTION)"

definition integral_band_rad :: "joint_control_entry \<Rightarrow> f64" where
  "integral_band_rad e = unwrap_or (jc_position_integral_band_rad e) DEFAULT_POSITION_INTEGRAL_BAND_RAD"

definition integral_leak_s :: "joint_control_entry \<Rightarrow> f64" where
  "integral_leak_s e = unwrap_or (jc_position_integral_leak_s e) DEFAULT_POSITION_INTEGRAL_LEAK_S"

definition integral_mode :: "joint_control_entry \<Rightarrow> position_integral_mode" where
  "integral_mode e = unwrap_or (jc_position_integral_mode e) TargetBand"

definition integral_cap_nm :: "joint_control_entry \<Rightarrow> f64" where
  "integral_cap_nm e = unwrap_or (jc_position_integral_cap_nm e) DEFAULT_POSITION_INTEGRAL_CAP_NM"

definition host_damping_nm_s_per_rad :: "joint_control_entry \<Rightarrow> f64" where
  "host_damping_nm_s_per_rad e = unwrap_or (jc_position_host_damping_nm_s_per_rad e) f64_zero"

definition host_damping_filter_s :: "joint_control_entry \<Rightarrow> f64" where
  "host_damping_filter_s e =
     unwrap_or (jc_position_host_damping_filter_s e) DEFAULT_POSITION_HOST_DAMPING_FILTER_S"

definition static_nm :: "friction_gains \<Rightarrow> f64" where
  "static_nm g = unwrap_or (fg_fs g) (fg_fc g)"

definition stribeck_velocity_rad_s :: "friction_gains \<Rightarrow> f64" where
  "stribeck_velocity_rad_s g = unwrap_or (fg_v_b g) DEFAULT_FRICTION_STRIBECK_VELOCITY_RAD_S"

section \<open>Homing\<close>

datatype homing_method = HomingNone | ManualReference | HallThreeSensor

datatype search_direction = SearchPositive | SearchNegative

record sensor_input =
  si_gpio :: u8
  si_active_high :: bool

record homing_sensors =
  hn_home :: sensor_input
  hn_min_limit :: sensor_input
  hn_max_limit :: sensor_input

record homing_joint_defaults =
  hd_home_offset_rad :: f64
  hd_search_direction :: search_direction
  hd_search_velocity_rad_s :: f64
  hd_search_torque_nm :: f64
  hd_search_timeout_s :: f64
  hd_backoff_rad :: f64
  hd_sign_test_required :: bool
  hd_allow_sensor_overlap :: bool

definition homing_joint_defaults_default :: homing_joint_defaults where
  "homing_joint_defaults_default =
     \<lparr>hd_home_offset_rad = f64_zero, hd_search_direction = SearchPositive,
      hd_search_velocity_rad_s = f64_lit (15 / 100), hd_search_torque_nm = f64_lit (1 / 2),
      hd_search_timeout_s = f64_lit 30, hd_backoff_rad = f64_lit (5 / 100),
      hd_sign_test_required = True, hd_allow_sensor_overlap = False\<rparr>"

record homing_joint_overrides =
  ho_home_offset_rad :: "f64 option"
  ho_search_direction :: "search_direction option"
  ho_search_velocity_rad_s :: "f64 option"
  ho_search_torque_nm :: "f64 option"
  ho_search_timeout_s :: "f64 option"
  ho_backoff_rad :: "f64 option"
  ho_sign_test_required :: "bool option"
  ho_allow_sensor_overlap :: "bool option"
  ho_sensors :: "homing_sensors option"

record homing_joint_entry =
  hj_method :: homing_method
  hj_overrides :: homing_joint_overrides

record homing_section =
  hs_zero_verify_tolerance_rad :: f64
  hs_calibration_record_path :: string
  hs_defaults :: homing_joint_defaults
  hs_joints :: "(string \<times> homing_joint_entry) list"

record effective_homing_joint =
  eh_joint :: string
  eh_method :: homing_method
  eh_home_offset_rad :: f64
  eh_search_direction :: search_direction
  eh_search_velocity_rad_s :: f64
  eh_search_torque_nm :: f64
  eh_search_timeout_s :: f64
  eh_backoff_rad :: f64
  eh_sign_test_required :: bool
  eh_allow_sensor_overlap :: bool
  eh_sensors :: "homing_sensors option"

definition effective_joint_ref :: "homing_section \<Rightarrow> string \<Rightarrow> effective_homing_joint option" where
  "effective_joint_ref hs joint =
     (case map_of (hs_joints hs) joint of
        None \<Rightarrow> None
      | Some entry \<Rightarrow>
          (let d = hs_defaults hs; ov = hj_overrides entry
           in Some \<lparr>eh_joint = joint, eh_method = hj_method entry,
                eh_home_offset_rad = unwrap_or (ho_home_offset_rad ov) (hd_home_offset_rad d),
                eh_search_direction = unwrap_or (ho_search_direction ov) (hd_search_direction d),
                eh_search_velocity_rad_s = unwrap_or (ho_search_velocity_rad_s ov) (hd_search_velocity_rad_s d),
                eh_search_torque_nm = unwrap_or (ho_search_torque_nm ov) (hd_search_torque_nm d),
                eh_search_timeout_s = unwrap_or (ho_search_timeout_s ov) (hd_search_timeout_s d),
                eh_backoff_rad = unwrap_or (ho_backoff_rad ov) (hd_backoff_rad d),
                eh_sign_test_required = unwrap_or (ho_sign_test_required ov) (hd_sign_test_required d),
                eh_allow_sensor_overlap = unwrap_or (ho_allow_sensor_overlap ov) (hd_allow_sensor_overlap d),
                eh_sensors = ho_sensors ov\<rparr>))"

end
