(* ===== verification/Config_Validation.thy ===== *)
theory Config_Validation
  imports Config_Types
begin

text \<open>
  Validation of the safety configuration: \<open>crates/marengo-config/src/safety_validation.rs\<close> and
  the validators of \<open>lib.rs\<close>, in the order they run, with the error each check returns.
\<close>

section \<open>Numbers and names\<close>

definition inv_cfg :: "string \<Rightarrow> string \<Rightarrow> config_error" where
  "inv_cfg field message = InvalidSafetyConfig field [Txt message]"

definition finite_field :: "string \<Rightarrow> f64 \<Rightarrow> (unit, config_error) result" where
  "finite_field field v = refuse_if (\<not> f64_finite v) (inv_cfg field ''must be finite'')"

definition nonnegative_field :: "string \<Rightarrow> f64 \<Rightarrow> (unit, config_error) result" where
  "nonnegative_field field v =
     rbind (finite_field field v) (\<lambda>_. refuse_if (f64_lt v f64_zero) (inv_cfg field ''must be >= 0''))"

definition positive_field :: "string \<Rightarrow> f64 \<Rightarrow> (unit, config_error) result" where
  "positive_field field v =
     rbind (finite_field field v) (\<lambda>_. refuse_if (f64_le v f64_zero) (inv_cfg field ''must be > 0''))"

definition named_field :: "string \<Rightarrow> string \<Rightarrow> (unit, config_error) result" where
  "named_field field v = refuse_if (trim v = []) (inv_cfg field ''must not be empty'')"

text \<open>A check of an optional number.\<close>

definition when_some :: "'a option \<Rightarrow> ('a \<Rightarrow> (unit, 'e) result) \<Rightarrow> (unit, 'e) result" where
  "when_some x f = (case x of Some v \<Rightarrow> f v | None \<Rightarrow> Ok ())"

section \<open>Robot and motors\<close>

definition validate_robot_config :: "robot_section \<Rightarrow> (unit, config_error) result" where
  "validate_robot_config robot =
     rbind (named_field ''robot.urdf'' (rb_urdf robot)) (\<lambda>_.
     rbind (nonnegative_field ''robot.bench.max_joint_torque_nm'' (rb_max_joint_torque_nm robot)) (\<lambda>_.
     for_each_prior [] (\<lambda>seen joint.
       rbind (named_field ''robot.joints'' joint) (\<lambda>_.
       refuse_if (joint \<in> set seen) (inv_cfg ''robot.joints'' (''duplicate joint '' @ joint))))
       (rb_joints robot)))"

definition validate_motor_entry :: "motor_entry list \<Rightarrow> motor_entry \<Rightarrow> (unit, config_error) result" where
  "validate_motor_entry seen motor =
     (let joint = me_joint motor; bench = me_bench motor in
     rbind (named_field ''motors.joint'' joint) (\<lambda>_.
     rbind (named_field ''motors.can_interface'' (me_can_interface motor)) (\<lambda>_.
     rbind (refuse_if (list_ex (\<lambda>p. me_joint p = joint) seen)
       (inv_cfg ''motors.joint'' (''duplicate joint '' @ joint))) (\<lambda>_.
     rbind (refuse_if (list_ex (\<lambda>p. me_can_interface p = me_can_interface motor \<and>
         me_device_id p = me_device_id motor) seen)
       (CfgDuplicateMotorAddress (me_can_interface motor) (me_device_id motor))) (\<lambda>_.
     rbind (refuse_if (me_direction motor \<notin> {- 1, 1})
       (inv_cfg (''motors.'' @ joint @ ''.direction'') ''must be -1 or +1'')) (\<lambda>_.
     rbind (positive_field (''motors.'' @ joint @ ''.gear_ratio'') (me_gear_ratio motor)) (\<lambda>_.
     rbind (finite_field (''motors.'' @ joint @ ''.bench.position_lower_rad'') (bl_position_lower_rad bench)) (\<lambda>_.
     rbind (finite_field (''motors.'' @ joint @ ''.bench.position_upper_rad'') (bl_position_upper_rad bench)) (\<lambda>_.
     rbind (refuse_if (f64_le (bl_position_upper_rad bench) (bl_position_lower_rad bench))
       (inv_cfg (''motors.'' @ joint @ ''.bench'') ''hard lower must be < hard upper'')) (\<lambda>_.
     rbind (nonnegative_field (''motors.'' @ joint @ ''.bench.velocity_limit_rad_s'') (bl_velocity_limit_rad_s bench)) (\<lambda>_.
     nonnegative_field (''motors.'' @ joint @ ''.bench.torque_limit_nm'') (bl_torque_limit_nm bench))))))))))))"

definition validate_motors_config :: "motor_entry list \<Rightarrow> (unit, config_error) result" where
  "validate_motors_config motors = for_each_prior [] validate_motor_entry motors"

definition validate_motors_against_robot ::
    "robot_section \<Rightarrow> motor_entry list \<Rightarrow> (unit, config_error) result" where
  "validate_motors_against_robot robot motors =
     rbind (validate_robot_config robot) (\<lambda>_.
     rbind (validate_motors_config motors) (\<lambda>_.
     for_each (\<lambda>m. refuse_if (me_joint m \<notin> set (rb_joints robot)) (UnknownMotorJoint (me_joint m))) motors))"

section \<open>Joint control entries\<close>

definition limit_margin_fields_valid :: "string \<Rightarrow> joint_control_entry \<Rightarrow> (unit, config_error) result" where
  "limit_margin_fields_valid joint e =
     (let bad = (\<lambda>v. \<not> f64_finite v \<or> f64_lt v f64_zero);
          err = (\<lambda>m. InvalidLimitMargin joint [Txt m]);
          unbounded = (\<lambda>x. case x of Some v \<Rightarrow> \<not> f64_finite v | None \<Rightarrow> False) in
     rbind (refuse_if (bad (jc_position_limit_margin_min_rad e))
       (err ''position_limit_margin_min_rad must be finite and >= 0'')) (\<lambda>_.
     rbind (refuse_if (bad (jc_position_limit_margin_k_v_s e))
       (err ''position_limit_margin_k_v_s must be finite and >= 0'')) (\<lambda>_.
     rbind (refuse_if (bad (jc_position_limit_margin_k_stop e))
       (err ''position_limit_margin_k_stop must be finite and >= 0'')) (\<lambda>_.
     rbind (refuse_if (bad (jc_position_limit_measured_fault_slack_rad e))
       (err ''position_limit_measured_fault_slack_rad must be finite and >= 0'')) (\<lambda>_.
     rbind (refuse_if (unbounded (jc_position_soft_lower_rad e) \<or> unbounded (jc_position_soft_upper_rad e))
       (err ''soft bounds must be finite'')) (\<lambda>_.
     case (jc_position_soft_lower_rad e, jc_position_soft_upper_rad e) of
       (Some lo, Some hi) \<Rightarrow>
         refuse_if (f64_lt hi lo) (InvalidLimitMargin joint
           [Txt ''position_soft_lower_rad '', Num lo, Txt '' > position_soft_upper_rad '', Num hi])
     | _ \<Rightarrow> Ok ()))))))"

definition validate_scaled_pd_numbers :: "string \<Rightarrow> joint_control_entry \<Rightarrow> (unit, config_error) result" where
  "validate_scaled_pd_numbers joint e =
     (let field = (\<lambda>n. ''control.joints.'' @ joint @ ''.'' @ n) in
     rbind (when_some (jc_position_time_scale_e0_rad e) (\<lambda>e0.
       rbind (nonnegative_field (field ''position_time_scale_e0_rad'') e0) (\<lambda>_.
       refuse_if (f64_le (jc_position_slew_max_lead_rad e) e0)
         (inv_cfg (field ''position_time_scale_e0_rad'') ''must be below position_slew_max_lead_rad (e1)'')))) (\<lambda>_.
     rbind (when_some (jc_position_integral_band_rad e)
       (positive_field (field ''position_integral_band_rad''))) (\<lambda>_.
     rbind (when_some (jc_position_integral_cap_nm e) (\<lambda>cap.
       rbind (positive_field (field ''position_integral_cap_nm'') cap) (\<lambda>_.
       refuse_if (f64_lt DEFAULT_POSITION_INTEGRAL_CAP_NM cap)
         (inv_cfg (field ''position_integral_cap_nm'') ''must be <= 0.5'')))) (\<lambda>_.
     rbind (when_some (jc_position_host_damping_nm_s_per_rad e) (\<lambda>damping.
       rbind (finite_field (field ''position_host_damping_nm_s_per_rad'') damping) (\<lambda>_.
       refuse_if (f64_lt damping f64_zero)
         (inv_cfg (field ''position_host_damping_nm_s_per_rad'') ''must be >= 0'')))) (\<lambda>_.
     rbind (when_some (jc_position_host_damping_filter_s e)
       (positive_field (field ''position_host_damping_filter_s''))) (\<lambda>_.
     rbind (when_some (jc_position_ff_step_max_nm e)
       (positive_field (field ''position_ff_step_max_nm''))) (\<lambda>_.
     rbind (when_some (jc_position_integral_leak_s e)
       (positive_field (field ''position_integral_leak_s''))) (\<lambda>_.
     rbind (when_some (fg_fs (jc_friction e)) (\<lambda>fs.
       rbind (finite_field (field ''friction.fs'') fs) (\<lambda>_.
       refuse_if (f64_lt fs (fg_fc (jc_friction e)))
         (inv_cfg (field ''friction.fs'') ''must be >= friction.fc'')))) (\<lambda>_.
     rbind (when_some (fg_v_b (jc_friction e)) (positive_field (field ''friction.v_b''))) (\<lambda>_.
     if jc_position_law e = LawScaledPd
     then positive_field (field ''position_slew_max_lead_rad'') (jc_position_slew_max_lead_rad e)
     else Ok ()))))))))))"

definition validate_joint_numbers :: "string \<Rightarrow> joint_control_entry \<Rightarrow> (unit, config_error) result" where
  "validate_joint_numbers joint e =
     (let field = (\<lambda>n. ''control.joints.'' @ joint @ ''.'' @ n) in
     rbind (named_field ''control.joints'' joint) (\<lambda>_.
     rbind (for_each (\<lambda>(name, v). nonnegative_field (field name) v)
       [(''position_slew_rad_s'', jc_position_slew_rad_s e),
        (''position_slew_max_lead_rad'', jc_position_slew_max_lead_rad e),
        (''position_trajectory_threshold_rad'', jc_position_trajectory_threshold_rad e),
        (''position_trajectory_velocity_deadband_rad'', jc_position_trajectory_velocity_deadband_rad e)]) (\<lambda>_.
     rbind (positive_field (field ''position_trajectory_velocity_rad_s'')
       (jc_position_trajectory_velocity_rad_s e)) (\<lambda>_.
     rbind (positive_field (field ''position_trajectory_accel_rad_s2'')
       (jc_position_trajectory_accel_rad_s2 e)) (\<lambda>_.
     rbind (finite_field (field ''position_hold_trim_rad'') (jc_position_hold_trim_rad e)) (\<lambda>_.
     validate_scaled_pd_numbers joint e))))))"

fun motor_type_key :: "motor_type \<Rightarrow> string" where
  "motor_type_key Rs00 = ''rs00''"
| "motor_type_key Rs02 = ''rs02''"
| "motor_type_key Rs03 = ''rs03''"
| "motor_type_key Rs04 = ''rs04''"

definition control_parse_error :: "message \<Rightarrow> config_error" where
  "control_parse_error m = CfgParse ''control.yaml'' m"

definition validate_entry_gains_against_motor_type ::
    "control_section \<Rightarrow> string \<Rightarrow> joint_control_entry \<Rightarrow> (unit, config_error) result" where
  "validate_entry_gains_against_motor_type cs joint e =
     (let key = motor_type_key (jc_motor_type e); imp = jc_impedance e; fr = jc_friction e in
     case map_of (cs_motor_type_defaults cs) key of
       None \<Rightarrow> Err (control_parse_error [Txt (''missing motor_type_defaults.'' @ key)])
     | Some d \<Rightarrow>
         (let exceeds = (\<lambda>name v limit cap.
                control_parse_error [Txt (name @ '' ''), Num v, Txt ('' exceeds '' @ limit @ '' ''), Num cap,
                  Txt ('' for '' @ key)]) in
         rbind (refuse_if
           (list_ex (\<lambda>v. \<not> f64_finite v \<or> f64_lt v f64_zero)
              [mg_kp imp, mg_kd imp, mg_ki imp, fg_fc fr, fg_fv fr, fg_k fr,
               mtd_kp_max d, mtd_kd_max d, mtd_tau_ff_max_nm d] \<or>
            \<not> f64_finite (fg_fo fr))
           (control_parse_error [Txt (''joint '' @ joint @
             '' gains and type maxima must be finite and >= 0; friction.fo must be finite'')])) (\<lambda>_.
         rbind (refuse_if (f64_lt (mtd_kp_max d) (mg_kp imp))
           (exceeds ''impedance.kp'' (mg_kp imp) ''kp_max'' (mtd_kp_max d))) (\<lambda>_.
         rbind (refuse_if (f64_lt (mtd_kd_max d) (mg_kd imp))
           (exceeds ''impedance.kd'' (mg_kd imp) ''kd_max'' (mtd_kd_max d))) (\<lambda>_.
         rbind (refuse_if (f64_lt (mtd_kp_max d) (mg_ki imp))
           (exceeds ''impedance.ki'' (mg_ki imp) ''kp_max'' (mtd_kp_max d))) (\<lambda>_.
         rbind (refuse_if (f64_lt (mtd_tau_ff_max_nm d) (fg_fc fr))
           (exceeds ''friction.fc'' (fg_fc fr) ''tau_ff_max_nm'' (mtd_tau_ff_max_nm d))) (\<lambda>_.
         refuse_if (f64_lt (mtd_tau_ff_max_nm d) (static_nm fr))
           (exceeds ''friction.fs'' (static_nm fr) ''tau_ff_max_nm'' (mtd_tau_ff_max_nm d)))))))))"

definition validate_joint_gains_against_motor_type ::
    "control_section \<Rightarrow> string \<Rightarrow> (unit, config_error) result" where
  "validate_joint_gains_against_motor_type cs joint =
     (case map_of (cs_joints cs) joint of
        None \<Rightarrow> Err (control_parse_error [Txt (''unknown joint '' @ joint)])
      | Some e \<Rightarrow> validate_entry_gains_against_motor_type cs joint e)"

section \<open>Velocity caps and groups\<close>

definition actuator_group_for_joint :: "string \<Rightarrow> control_section \<Rightarrow> (string \<times> actuator_group_entry) option" where
  "actuator_group_for_joint joint cs =
     List.find (\<lambda>(_, g). joint \<in> set (ag_joints g)) (cs_actuator_groups cs)"

definition bad_velocity :: "f64 \<Rightarrow> bool" where
  "bad_velocity v \<longleftrightarrow> \<not> f64_finite v \<or> f64_le v f64_zero"

definition resolve_joint_velocity_cap ::
    "string \<Rightarrow> motor_type \<Rightarrow> control_section \<Rightarrow> (f64, config_error) result" where
  "resolve_joint_velocity_cap joint ty cs =
     (case (case map_of (cs_joints cs) joint of Some e \<Rightarrow> jc_velocity_max_rad_s e | None \<Rightarrow> None) of
        Some v \<Rightarrow>
          if bad_velocity v
          then Err (InvalidVelocity joint [Txt ''velocity_max_rad_s must be finite and > 0'']) else Ok v
      | None \<Rightarrow>
          (case actuator_group_for_joint joint cs of
             Some (_, g) \<Rightarrow>
               if bad_velocity (ag_velocity_max_rad_s g)
               then Err (InvalidVelocity joint [Txt ''actuator group velocity_max_rad_s must be finite and > 0''])
               else Ok (ag_velocity_max_rad_s g)
           | None \<Rightarrow>
               (case map_of (cs_motor_type_defaults cs) (motor_type_key ty) of
                  None \<Rightarrow> Err (InvalidVelocity joint [Txt (''missing motor_type_defaults.'' @ motor_type_key ty)])
                | Some d \<Rightarrow>
                    if bad_velocity (mtd_velocity_max_rad_s d)
                    then Err (InvalidVelocity joint [Txt (''motor_type_defaults.'' @ motor_type_key ty @
                           ''.velocity_max_rad_s must be finite and > 0'')])
                    else Ok (mtd_velocity_max_rad_s d))))"

text \<open>The group that claimed a joint earlier in the pass.\<close>

definition claimed_by ::
    "(string \<times> actuator_group_entry) list \<Rightarrow> string \<Rightarrow> string list \<Rightarrow> string \<Rightarrow> string option" where
  "claimed_by earlier grp before joint =
     (case List.find (\<lambda>(_, prior). joint \<in> set (ag_joints prior)) earlier of
        Some (name, _) \<Rightarrow> Some name
      | None \<Rightarrow> if joint \<in> set before then Some grp else None)"

definition validate_actuator_group ::
    "control_section \<Rightarrow> (string \<times> actuator_group_entry) list \<Rightarrow> string \<times> actuator_group_entry \<Rightarrow>
     (unit, config_error) result" where
  "validate_actuator_group cs earlier ge =
     (let (grp, entry) = ge; err = (\<lambda>m. InvalidActuatorGroup grp [Txt m]) in
     rbind (refuse_if (bad_velocity (ag_velocity_max_rad_s entry))
       (err ''velocity_max_rad_s must be finite and > 0'')) (\<lambda>_.
     rbind (refuse_if (ag_joints entry = []) (err ''joints must not be empty'')) (\<lambda>_.
     for_each_prior [] (\<lambda>before joint.
       rbind (refuse_if (map_of (cs_joints cs) joint = None)
         (err (''joint '' @ joint @ '' not in control.joints''))) (\<lambda>_.
       case claimed_by earlier grp before joint of
         Some other \<Rightarrow> Err (err (''joint '' @ joint @ '' already in group '' @ other))
       | None \<Rightarrow> Ok ()))
       (ag_joints entry))))"

definition validate_actuator_groups :: "control_section \<Rightarrow> (unit, config_error) result" where
  "validate_actuator_groups cs = for_each_prior [] (validate_actuator_group cs) (cs_actuator_groups cs)"

section \<open>The control section\<close>

definition validate_danger_zone ::
    "control_section \<Rightarrow> danger_zone_rule list \<Rightarrow> danger_zone_rule \<Rightarrow> (unit, config_error) result" where
  "validate_danger_zone cs earlier rule =
     (let name = dz_name rule; field = (\<lambda>n. ''control.danger_zones.'' @ name @ ''.'' @ n) in
     rbind (named_field ''control.danger_zones.name'' name) (\<lambda>_.
     rbind (refuse_if (list_ex (\<lambda>p. dz_name p = name) earlier)
       (inv_cfg ''control.danger_zones.name'' (''duplicate rule '' @ name))) (\<lambda>_.
     rbind (refuse_if (map_of (cs_joints cs) (dz_joint rule) = None)
       (inv_cfg (field ''joint'') ''must name a control joint'')) (\<lambda>_.
     rbind (refuse_if (dz_action rule \<notin> {''clamp_velocity'', ''clamp_torque''})
       (inv_cfg (field ''action'') ''must be clamp_velocity or clamp_torque'')) (\<lambda>_.
     rbind (refuse_if (dz_action rule = ''clamp_torque'' \<and> dz_max_torque_nm rule = None)
       (inv_cfg (field ''max_torque_nm'') ''clamp_torque requires an explicit torque cap'')) (\<lambda>_.
     rbind (finite_field (field ''position_above_rad'') (dz_position_above_rad rule)) (\<lambda>_.
     rbind (finite_field (field ''velocity_below_rad_s'') (dz_velocity_below_rad_s rule)) (\<lambda>_.
     rbind (nonnegative_field (field ''max_velocity_rad_s'') (dz_max_velocity_rad_s rule)) (\<lambda>_.
     when_some (dz_max_torque_nm rule) (nonnegative_field (field ''max_torque_nm''))))))))))) "

definition validate_motor_type_defaults :: "string \<times> motor_type_defaults \<Rightarrow> (unit, config_error) result" where
  "validate_motor_type_defaults kd =
     (let (ty, d) = kd; field = (\<lambda>n. ''control.motor_type_defaults.'' @ ty @ ''.'' @ n) in
     rbind (refuse_if (ty \<notin> {''rs00'', ''rs02'', ''rs03'', ''rs04''})
       (inv_cfg ''control.motor_type_defaults'' (''unsupported motor type '' @ ty))) (\<lambda>_.
     rbind (for_each (\<lambda>(name, v). nonnegative_field (field name) v)
       [(''kp_max'', mtd_kp_max d), (''kd_max'', mtd_kd_max d), (''tau_ff_max_nm'', mtd_tau_ff_max_nm d)]) (\<lambda>_.
     positive_field (field ''velocity_max_rad_s'') (mtd_velocity_max_rad_s d))))"

definition validate_drive_loss :: "control_section \<Rightarrow> (unit, config_error) result" where
  "validate_drive_loss cs =
     (case cs_drive_loss cs of
        None \<Rightarrow>
          (case List.find (\<lambda>(_, e). jc_on_drive_loss e = ShedSubtree) (cs_joints cs) of
             Some (joint, _) \<Rightarrow>
               Err (inv_cfg (''control.joints.'' @ joint @ ''.on_drive_loss'')
                 ''shed_subtree requires a control.drive_loss block'')
           | None \<Rightarrow> Ok ())
      | Some d \<Rightarrow>
          rbind (for_each (\<lambda>(name, v). positive_field (''control.drive_loss.'' @ name) v)
            [(''hold_window_s'', dl_hold_window_s d), (''lower_velocity_rad_s'', dl_lower_velocity_rad_s d),
             (''lower_settle_s'', dl_lower_settle_s d), (''lower_max_s'', dl_lower_max_s d)]) (\<lambda>_.
          nonnegative_field ''control.drive_loss.tau_margin_nm'' (dl_tau_margin_nm d)))"

definition validate_control_numbers :: "control_section \<Rightarrow> (unit, config_error) result" where
  "validate_control_numbers cs =
     (let sign = cs_wrong_sign_watchdog cs in
     rbind (refuse_if (cs_loop_hz cs = 0 \<or> 1000000 < cs_loop_hz cs)
       (inv_cfg ''control.loop_hz'' ''must be between 1 and 1000000 Hz'')) (\<lambda>_.
     rbind (refuse_if (cs_chappe_state_hz cs = 0 \<or> cs_loop_hz cs < cs_chappe_state_hz cs)
       (inv_cfg ''control.chappe_state_hz'' ''must be positive and <= loop_hz'')) (\<lambda>_.
     rbind (refuse_if (cs_comm_watchdog_ms cs = 0)
       (inv_cfg ''control.comm_watchdog_ms'' ''must be > 0'')) (\<lambda>_.
     rbind (refuse_if (cs_feedback_drain_quiet_us cs = 0 \<or>
         1000000 div ucast (cs_loop_hz cs) < cs_feedback_drain_quiet_us cs)
       (inv_cfg ''control.feedback_drain_quiet_us'' ''must be positive and fit within one control tick'')) (\<lambda>_.
     rbind (nonnegative_field ''control.tau_ff_rate_limit_nm_per_s'' (cs_tau_ff_rate_limit_nm_per_s cs)) (\<lambda>_.
     rbind (for_each validate_motor_type_defaults (cs_motor_type_defaults cs)) (\<lambda>_.
     rbind (for_each (\<lambda>(joint, e).
       rbind (validate_joint_numbers joint e) (\<lambda>_. validate_entry_gains_against_motor_type cs joint e))
       (cs_joints cs)) (\<lambda>_.
     rbind (for_each_prior [] (validate_danger_zone cs) (cs_danger_zones cs)) (\<lambda>_.
     rbind (refuse_if (wsw_expected_sign_at_positive_q sign \<notin> {- 1, 1})
       (inv_cfg ''control.wrong_sign_watchdog.expected_sign_at_positive_q'' ''must be -1 or +1'')) (\<lambda>_.
     rbind (nonnegative_field ''control.wrong_sign_watchdog.min_velocity_rad_s'' (wsw_min_velocity_rad_s sign)) (\<lambda>_.
     rbind (refuse_if (wsw_min_opposition_ticks sign = 0)
       (inv_cfg ''control.wrong_sign_watchdog.min_opposition_ticks'' ''must be > 0'')) (\<lambda>_.
     validate_drive_loss cs))))))))))))"

definition EPS :: f64 where "EPS = f64_lit (1 / 10 ^ 9)"

text \<open>The body of the joint loop of \<open>validate_control_config\<close>.\<close>

definition validate_joint_entry :: "string \<times> joint_control_entry \<Rightarrow> (unit, config_error) result" where
  "validate_joint_entry je =
     (let (joint, e) = je; g = jc_gravity_comp e in
     rbind (limit_margin_fields_valid joint e) (\<lambda>_.
     rbind (when_some (jc_velocity_max_rad_s e) (\<lambda>v. refuse_if (bad_velocity v)
       (InvalidVelocity joint [Txt ''velocity_max_rad_s must be finite and > 0'']))) (\<lambda>_.
     rbind (refuse_if (\<not> f64_finite (mg_kp g) \<or> \<not> f64_finite (mg_kd g) \<or> \<not> f64_finite (mg_ki g))
       (InvalidGravityCompGains joint [Txt ''gravity_comp kp/kd/ki must be finite''])) (\<lambda>_.
     refuse_if (f64_lt EPS (fabs (mg_kp g)) \<or> f64_lt EPS (fabs (mg_kd g)) \<or> f64_lt EPS (fabs (mg_ki g)))
       (InvalidGravityCompGains joint [Txt ''gravity_comp kp/kd/ki must be 0.0 (ADR 0004)''])))))"

definition validate_control_config :: "control_section \<Rightarrow> (unit, config_error) result" where
  "validate_control_config cs =
     rbind (validate_actuator_groups cs) (\<lambda>_.
     rbind (for_each validate_joint_entry (cs_joints cs)) (\<lambda>_.
     validate_control_numbers cs))"

definition validate_robot_control_joint_coverage ::
    "robot_section \<Rightarrow> control_section \<Rightarrow> (unit, config_error) result" where
  "validate_robot_control_joint_coverage robot cs =
     for_each (\<lambda>joint. refuse_if (map_of (cs_joints cs) joint = None) (MissingControlJoint joint))
       (rb_joints robot)"

text \<open>The body of the last loop of \<open>validate_control_against_limits\<close>.\<close>

definition validate_joint_limits ::
    "motor_entry list \<Rightarrow> control_section \<Rightarrow> string \<Rightarrow> (unit, config_error) result" where
  "validate_joint_limits motors cs joint =
     (case map_of (cs_joints cs) joint of
        None \<Rightarrow> Err (MissingControlJoint joint)
      | Some e \<Rightarrow>
          (case motor_for_joint motors joint of
             None \<Rightarrow> Err (inv_cfg ''robot.joints'' (''joint '' @ joint @ '' has no matching motors.yaml entry''))
           | Some m \<Rightarrow>
               rbind (refuse_if (jc_motor_type e \<noteq> me_motor_type m)
                 (inv_cfg (''control.joints.'' @ joint @ ''.motor_type'') ''must match motors.yaml'')) (\<lambda>_.
               rbind (for_each (\<lambda>bound. when_some bound (\<lambda>v.
                 refuse_if (f64_lt v (bl_position_lower_rad (me_bench m)) \<or>
                     f64_lt (bl_position_upper_rad (me_bench m)) v)
                   (InvalidLimitMargin joint [Txt ''soft bounds must lie within motor hard bounds''])))
                 [jc_position_soft_lower_rad e, jc_position_soft_upper_rad e]) (\<lambda>_.
               rbind (resolve_joint_velocity_cap joint (me_motor_type m) cs) (\<lambda>cap.
               refuse_if (f64_lt (fadd Binary64 cap EPS) (jc_position_trajectory_velocity_rad_s e))
                 (InvalidVelocity joint
                   [Txt ''position_trajectory_velocity_rad_s '', Num (jc_position_trajectory_velocity_rad_s e),
                    Txt '' > velocity cap '', Num cap]))))))"

definition validate_control_against_limits ::
    "robot_section \<Rightarrow> motor_entry list \<Rightarrow> control_section \<Rightarrow> (unit, config_error) result" where
  "validate_control_against_limits robot motors cs =
     rbind (validate_motors_against_robot robot motors) (\<lambda>_.
     rbind (validate_control_config cs) (\<lambda>_.
     rbind (validate_robot_control_joint_coverage robot cs) (\<lambda>_.
     rbind (for_each (\<lambda>(joint, _). refuse_if (joint \<notin> set (rb_joints robot))
       (inv_cfg ''control.joints'' (''joint '' @ joint @ '' not in robot.joints''))) (cs_joints cs)) (\<lambda>_.
     rbind (for_each (\<lambda>(grp, entry). for_each (\<lambda>joint. refuse_if (joint \<notin> set (rb_joints robot))
         (InvalidActuatorGroup grp [Txt (''joint '' @ joint @ '' not in robot.joints'')])) (ag_joints entry))
       (cs_actuator_groups cs)) (\<lambda>_.
     for_each (validate_joint_limits motors cs) (rb_joints robot))))))"

section \<open>Homing\<close>

text \<open>\<open>Duration::try_from_secs_f64\<close> fails for a negative, non-finite or too large value.\<close>

definition fits_duration :: "f64 \<Rightarrow> bool" where
  "fits_duration v \<longleftrightarrow> f64_finite v \<and> 0 \<le> f64_val v \<and> \<lfloor>f64_val v * 1000000000 + 1 / 2\<rfloor> < 2 ^ 64 * 1000000000"

definition validate_homing_numbers ::
    "string \<Rightarrow> f64 \<Rightarrow> f64 \<Rightarrow> f64 \<Rightarrow> f64 \<Rightarrow> f64 \<Rightarrow> (unit, config_error) result" where
  "validate_homing_numbers field offset velocity torque timeout backoff =
     rbind (finite_field (field @ ''.home_offset_rad'') offset) (\<lambda>_.
     rbind (positive_field (field @ ''.search_velocity_rad_s'') velocity) (\<lambda>_.
     rbind (nonnegative_field (field @ ''.search_torque_nm'') torque) (\<lambda>_.
     rbind (positive_field (field @ ''.search_timeout_s'') timeout) (\<lambda>_.
     rbind (refuse_if (f64_lt (f64_lit 300) timeout)
       (inv_cfg (field @ ''.search_timeout_s'') ''must be <= 300 seconds'')) (\<lambda>_.
     rbind (refuse_if (\<not> fits_duration timeout)
       (inv_cfg (field @ ''.search_timeout_s'') ''must fit in a Duration'')) (\<lambda>_.
     nonnegative_field (field @ ''.backoff_rad'') backoff))))))"

definition validate_effective_homing :: "homing_section \<Rightarrow> string \<Rightarrow> (unit, config_error) result" where
  "validate_effective_homing hs joint =
     rbind (named_field ''homing.joints'' joint) (\<lambda>_.
     case effective_joint_ref hs joint of
       None \<Rightarrow> Err (inv_cfg ''homing.joints'' (''missing joint '' @ joint))
     | Some eff \<Rightarrow>
         rbind (validate_homing_numbers (''homing.joints.'' @ joint) (eh_home_offset_rad eff)
           (eh_search_velocity_rad_s eff) (eh_search_torque_nm eff) (eh_search_timeout_s eff)
           (eh_backoff_rad eff)) (\<lambda>_.
         rbind (refuse_if (eh_method eff = HallThreeSensor \<and> eh_sensors eff = None)
           (inv_cfg (''homing.joints.'' @ joint @ ''.sensors'')
             ''Hall homing requires home, min_limit, and max_limit sensors'')) (\<lambda>_.
         when_some (eh_sensors eff) (\<lambda>s.
           let p0 = si_gpio (hn_home s); p1 = si_gpio (hn_min_limit s); p2 = si_gpio (hn_max_limit s)
           in refuse_if (p0 = p1 \<or> p0 = p2 \<or> p1 = p2)
             (inv_cfg (''homing.joints.'' @ joint @ ''.sensors'')
               ''home, min_limit, and max_limit must use distinct GPIOs'')))))"

definition validate_homing_config :: "homing_section \<Rightarrow> (unit, config_error) result" where
  "validate_homing_config hs =
     (let d = hs_defaults hs in
     rbind (positive_field ''homing.zero_verify_tolerance_rad'' (hs_zero_verify_tolerance_rad hs)) (\<lambda>_.
     rbind (refuse_if (f64_lt (f64_lit (1 / 10)) (hs_zero_verify_tolerance_rad hs))
       (inv_cfg ''homing.zero_verify_tolerance_rad'' ''must be <= 0.1 rad'')) (\<lambda>_.
     rbind (validate_homing_numbers ''homing.defaults'' (hd_home_offset_rad d) (hd_search_velocity_rad_s d)
       (hd_search_torque_nm d) (hd_search_timeout_s d) (hd_backoff_rad d)) (\<lambda>_.
     for_each (validate_effective_homing hs) (map fst (hs_joints hs))))))"

text \<open>The body of the loop of \<open>validate_safety_config\<close>.\<close>

definition validate_joint_homing ::
    "robot_section \<Rightarrow> motor_entry list \<Rightarrow> control_section \<Rightarrow> homing_section \<Rightarrow> string \<Rightarrow>
     (unit, config_error) result" where
  "validate_joint_homing robot motors cs hs joint =
     (case effective_joint_ref hs joint of
        None \<Rightarrow> Err (inv_cfg ''homing.joints'' (''active joint '' @ joint @ '' has no homing entry''))
      | Some eff \<Rightarrow>
          if eh_method eff \<noteq> HallThreeSensor then Ok ()
          else (case motor_for_joint motors joint of
             None \<Rightarrow> Err (UnknownMotorJoint joint)
           | Some m \<Rightarrow>
               rbind (resolve_joint_velocity_cap joint (me_motor_type m) cs) (\<lambda>cap.
               rbind (refuse_if (f64_lt cap (eh_search_velocity_rad_s eff))
                 (inv_cfg (''homing.joints.'' @ joint @ ''.search_velocity_rad_s'') ''exceeds command velocity cap'')) (\<lambda>_.
               case map_of (cs_motor_type_defaults cs) (motor_type_key (me_motor_type m)) of
                 None \<Rightarrow> Err (inv_cfg ''control.motor_type_defaults'' (''missing defaults for '' @ joint))
               | Some d \<Rightarrow>
                   (let tcap = fmin Binary64 (fmin Binary64 (rb_max_joint_torque_nm robot)
                          (bl_torque_limit_nm (me_bench m))) (mtd_tau_ff_max_nm d)
                    in refuse_if (f64_lt tcap (eh_search_torque_nm eff))
                      (inv_cfg (''homing.joints.'' @ joint @ ''.search_torque_nm'')
                        ''exceeds effective torque cap''))))))"

definition validate_safety_config ::
    "robot_section \<Rightarrow> motor_entry list \<Rightarrow> control_section \<Rightarrow> homing_section \<Rightarrow>
     (unit, config_error) result" where
  "validate_safety_config robot motors cs hs =
     rbind (validate_control_against_limits robot motors cs) (\<lambda>_.
     rbind (validate_homing_config hs) (\<lambda>_.
     for_each (validate_joint_homing robot motors cs hs) (rb_joints robot)))"

section \<open>What each check accepts\<close>

named_theorems accepts
  \<comment> \<open>the inputs a validator accepts\<close>

lemma finite_field_Ok [accepts]: "finite_field n v = Ok u \<longleftrightarrow> f64_finite v"
  by (simp add: finite_field_def)

lemma nonnegative_field_Ok [accepts]: "nonnegative_field n v = Ok u \<longleftrightarrow> f64_finite v \<and> 0 \<le> f64_val v"
  by (auto simp: nonnegative_field_def rbind_Ok_iff finite_field_Ok flt_finite)

lemma positive_field_Ok [accepts]: "positive_field n v = Ok u \<longleftrightarrow> f64_finite v \<and> 0 < f64_val v"
  by (auto simp: positive_field_def rbind_Ok_iff finite_field_Ok fle_finite)

lemma named_field_Ok [accepts]: "named_field n s = Ok u \<longleftrightarrow> trim s \<noteq> []"
  by (simp add: named_field_def)

lemma when_some_Ok [accepts]: "when_some x f = Ok u \<longleftrightarrow> (\<forall>v. x = Some v \<longrightarrow> f v = Ok ())"
  by (auto simp: when_some_def split: option.splits)

lemma bad_velocity_iff: "bad_velocity v \<longleftrightarrow> \<not> (f64_finite v \<and> 0 < f64_val v)"
  by (auto simp: bad_velocity_def fle_finite)

declare rbind_Ok_iff [accepts] for_each_Ok [accepts]

section \<open>Motors\<close>

definition motor_ok :: "motor_entry \<Rightarrow> bool" where
  "motor_ok m \<longleftrightarrow>
     trim (me_joint m) \<noteq> [] \<and> trim (me_can_interface m) \<noteq> [] \<and> me_direction m \<in> {- 1, 1} \<and>
     f64_finite (me_gear_ratio m) \<and> 0 < f64_val (me_gear_ratio m) \<and>
     f64_finite (bl_position_lower_rad (me_bench m)) \<and> f64_finite (bl_position_upper_rad (me_bench m)) \<and>
     f64_val (bl_position_lower_rad (me_bench m)) < f64_val (bl_position_upper_rad (me_bench m)) \<and>
     f64_finite (bl_velocity_limit_rad_s (me_bench m)) \<and> 0 \<le> f64_val (bl_velocity_limit_rad_s (me_bench m)) \<and>
     f64_finite (bl_torque_limit_nm (me_bench m)) \<and> 0 \<le> f64_val (bl_torque_limit_nm (me_bench m))"

lemma validate_motor_entry_Ok:
  "validate_motor_entry seen m = Ok u \<longleftrightarrow>
     motor_ok m \<and> me_joint m \<notin> set (map me_joint seen) \<and>
     (me_can_interface m, me_device_id m) \<notin> set (map (\<lambda>p. (me_can_interface p, me_device_id p)) seen)"
proof -
  have "list_ex (\<lambda>p. me_joint p = j) seen \<longleftrightarrow> j \<in> set (map me_joint seen)" for j
    by (auto simp: list_ex_iff)
  moreover have "list_ex (\<lambda>p. me_can_interface p = i \<and> me_device_id p = d) seen \<longleftrightarrow>
      (i, d) \<in> set (map (\<lambda>p. (me_can_interface p, me_device_id p)) seen)" for i d
    by (auto simp: list_ex_iff)
  ultimately show ?thesis
    by (auto simp: validate_motor_entry_def Let_def accepts motor_ok_def fle_finite not_le)
qed

lemma distinct_prior:
  "distinct (map f xs) \<longleftrightarrow> (\<forall>i < length xs. f (xs ! i) \<notin> set (map f (take i xs)))"
proof (induction xs rule: rev_induct)
  case Nil
  then show ?case by simp
next
  case (snoc x xs)
  then show ?case by (auto simp: nth_append less_Suc_eq)
qed

lemma validate_motors_config_Ok [accepts]:
  "validate_motors_config motors = Ok u \<longleftrightarrow>
     (\<forall>m \<in> set motors. motor_ok m) \<and> distinct (map me_joint motors) \<and>
     distinct (map (\<lambda>m. (me_can_interface m, me_device_id m)) motors)"
  unfolding validate_motors_config_def for_each_prior_Ok validate_motor_entry_Ok distinct_prior
    all_set_conv_all_nth by auto

lemma validate_robot_config_Ok [accepts]:
  "validate_robot_config robot = Ok u \<longleftrightarrow>
     trim (rb_urdf robot) \<noteq> [] \<and> f64_finite (rb_max_joint_torque_nm robot) \<and>
     0 \<le> f64_val (rb_max_joint_torque_nm robot) \<and> (\<forall>j \<in> set (rb_joints robot). trim j \<noteq> []) \<and>
     distinct (rb_joints robot)"
  using distinct_prior [of id "rb_joints robot"]
  by (auto simp: validate_robot_config_def accepts for_each_prior_Ok all_set_conv_all_nth)

lemma validate_motors_against_robot_Ok [accepts]:
  "validate_motors_against_robot robot motors = Ok u \<longleftrightarrow>
     validate_robot_config robot = Ok () \<and> validate_motors_config motors = Ok () \<and>
     (\<forall>m \<in> set motors. me_joint m \<in> set (rb_joints robot))"
  by (simp add: validate_motors_against_robot_def rbind_Ok_iff for_each_Ok)

section \<open>Control\<close>

definition soft_bounds_ok :: "joint_control_entry \<Rightarrow> bool" where
  "soft_bounds_ok e \<longleftrightarrow>
     (\<forall>v. jc_position_soft_lower_rad e = Some v \<longrightarrow> f64_finite v) \<and>
     (\<forall>v. jc_position_soft_upper_rad e = Some v \<longrightarrow> f64_finite v) \<and>
     (\<forall>lo hi. jc_position_soft_lower_rad e = Some lo \<and> jc_position_soft_upper_rad e = Some hi \<longrightarrow>
        f64_val lo \<le> f64_val hi)"

definition margins_ok :: "joint_control_entry \<Rightarrow> bool" where
  "margins_ok e \<longleftrightarrow>
     list_all (\<lambda>v. f64_finite v \<and> 0 \<le> f64_val v)
       [jc_position_limit_margin_min_rad e, jc_position_limit_margin_k_v_s e,
        jc_position_limit_margin_k_stop e, jc_position_limit_measured_fault_slack_rad e]"

lemma limit_margin_fields_valid_Ok [accepts]:
  "limit_margin_fields_valid joint e = Ok u \<longleftrightarrow> margins_ok e \<and> soft_bounds_ok e"
proof -
  have neg: "\<not> f64_finite v \<or> f64_lt v f64_zero \<longleftrightarrow> \<not> (f64_finite v \<and> 0 \<le> f64_val v)" for v
    by (auto simp: flt_finite not_less)
  show ?thesis
    by (cases "jc_position_soft_lower_rad e"; cases "jc_position_soft_upper_rad e")
      (auto simp: limit_margin_fields_valid_def Let_def accepts neg margins_ok_def soft_bounds_ok_def
        flt_finite not_less)
qed

definition gravity_gains_zero :: "joint_control_entry \<Rightarrow> bool" where
  "gravity_gains_zero e \<longleftrightarrow>
     list_all (\<lambda>g. f64_finite g \<and> \<bar>f64_val g\<bar> \<le> f64_val EPS)
       [mg_kp (jc_gravity_comp e), mg_kd (jc_gravity_comp e), mg_ki (jc_gravity_comp e)]"

lemma finite_EPS [simp]: "f64_finite EPS"
  unfolding EPS_def f64_lit_def
proof (rule fround_finite)
  have "\<bar>1 / 10 ^ 9 :: rat\<bar> \<le> 2 ^ 100" by simp
  also note pow_100_le_fmax_val
  finally show "\<bar>1 / 10 ^ 9\<bar> \<le> fmax_val Binary64" .
qed

lemma validate_joint_entry_Ok [accepts]:
  "validate_joint_entry (joint, e) = Ok u \<longleftrightarrow>
     margins_ok e \<and> soft_bounds_ok e \<and> gravity_gains_zero e \<and>
     (\<forall>v. jc_velocity_max_rad_s e = Some v \<longrightarrow> f64_finite v \<and> 0 < f64_val v)"
  by (auto simp: validate_joint_entry_def Let_def accepts bad_velocity_iff gravity_gains_zero_def flt_finite not_less)

text \<open>The gains of a joint are inside the maxima of its motor type.\<close>

definition gains_within :: "control_section \<Rightarrow> joint_control_entry \<Rightarrow> bool" where
  "gains_within cs e \<longleftrightarrow>
     (case map_of (cs_motor_type_defaults cs) (motor_type_key (jc_motor_type e)) of
        None \<Rightarrow> False
      | Some d \<Rightarrow>
          0 \<le> f64_val (mg_kp (jc_impedance e)) \<and> f64_val (mg_kp (jc_impedance e)) \<le> f64_val (mtd_kp_max d) \<and>
          0 \<le> f64_val (mg_kd (jc_impedance e)) \<and> f64_val (mg_kd (jc_impedance e)) \<le> f64_val (mtd_kd_max d) \<and>
          0 \<le> f64_val (mg_ki (jc_impedance e)) \<and> f64_val (mg_ki (jc_impedance e)) \<le> f64_val (mtd_kp_max d) \<and>
          0 \<le> f64_val (fg_fc (jc_friction e)) \<and> f64_val (fg_fc (jc_friction e)) \<le> f64_val (mtd_tau_ff_max_nm d) \<and>
          f64_finite (mg_kp (jc_impedance e)) \<and> f64_finite (mg_kd (jc_impedance e)) \<and>
          f64_finite (mg_ki (jc_impedance e)) \<and> f64_finite (fg_fc (jc_friction e)))"

lemma validate_entry_gains_OkD:
  assumes "validate_entry_gains_against_motor_type cs joint e = Ok u"
  shows "gains_within cs e"
proof -
  have neg: "\<not> f64_finite v \<or> f64_lt v f64_zero \<longleftrightarrow> \<not> (f64_finite v \<and> 0 \<le> f64_val v)" for v
    by (auto simp: flt_finite not_less)
  show ?thesis
    using assms
    by (auto simp: validate_entry_gains_against_motor_type_def Let_def accepts neg gains_within_def
        flt_finite not_less split: option.splits)
qed

lemma validate_control_config_OkD:
  assumes "validate_control_config cs = Ok u" and "(joint, e) \<in> set (cs_joints cs)"
  shows "margins_ok e" "soft_bounds_ok e" "gravity_gains_zero e" "gains_within cs e"
    "f64_finite (jc_position_trajectory_velocity_rad_s e)" "0 < f64_val (jc_position_trajectory_velocity_rad_s e)"
proof -
  have "for_each validate_joint_entry (cs_joints cs) = Ok ()" "validate_control_numbers cs = Ok ()"
    using assms(1) by (auto simp: validate_control_config_def rbind_Ok_iff)
  then have "validate_joint_entry (joint, e) = Ok ()" "validate_joint_numbers joint e = Ok ()"
    "validate_entry_gains_against_motor_type cs joint e = Ok ()"
    using assms(2) by (auto simp: for_each_Ok validate_control_numbers_def Let_def rbind_Ok_iff)
  then show "margins_ok e" "soft_bounds_ok e" "gravity_gains_zero e" "gains_within cs e"
    "f64_finite (jc_position_trajectory_velocity_rad_s e)" "0 < f64_val (jc_position_trajectory_velocity_rad_s e)"
    by (auto simp: accepts validate_joint_numbers_def Let_def dest: validate_entry_gains_OkD)
qed

lemma resolve_joint_velocity_cap_Ok:
  assumes "resolve_joint_velocity_cap joint ty cs = Ok cap"
  shows "f64_finite cap" and "0 < f64_val cap"
  using assms
  by (auto simp: resolve_joint_velocity_cap_def bad_velocity_iff split: option.splits if_splits prod.splits)

text \<open>Soft bounds inside the motor's hard bounds.\<close>

definition soft_within :: "joint_control_entry \<Rightarrow> motor_entry \<Rightarrow> bool" where
  "soft_within e m \<longleftrightarrow>
     (\<forall>v. Some v \<in> {jc_position_soft_lower_rad e, jc_position_soft_upper_rad e} \<longrightarrow>
        f64_val (bl_position_lower_rad (me_bench m)) \<le> f64_val v \<and>
        f64_val v \<le> f64_val (bl_position_upper_rad (me_bench m)))"

lemma validate_joint_limits_OkD:
  assumes "validate_joint_limits motors cs joint = Ok u"
    and "\<And>e. map_of (cs_joints cs) joint = Some e \<Longrightarrow>
      soft_bounds_ok e \<and> f64_finite (jc_position_trajectory_velocity_rad_s e)"
    and "\<forall>m \<in> set motors. motor_ok m"
  obtains e m cap where "map_of (cs_joints cs) joint = Some e" "motor_for_joint motors joint = Some m"
    "jc_motor_type e = me_motor_type m" "soft_within e m"
    "resolve_joint_velocity_cap joint (me_motor_type m) cs = Ok cap"
    "f64_le (jc_position_trajectory_velocity_rad_s e) (fadd Binary64 cap EPS)"
proof -
  from assms(1) obtain e m cap where em: "map_of (cs_joints cs) joint = Some e" "motor_for_joint motors joint = Some m"
    "jc_motor_type e = me_motor_type m" "resolve_joint_velocity_cap joint (me_motor_type m) cs = Ok cap"
    and traj: "\<not> f64_lt (fadd Binary64 cap EPS) (jc_position_trajectory_velocity_rad_s e)"
    and soft: "\<forall>v. Some v \<in> {jc_position_soft_lower_rad e, jc_position_soft_upper_rad e} \<longrightarrow>
      \<not> (f64_lt v (bl_position_lower_rad (me_bench m)) \<or> f64_lt (bl_position_upper_rad (me_bench m)) v)"
    by (auto simp: validate_joint_limits_def accepts split: option.splits)
  have m: "motor_ok m" using em(2) assms(3) by (auto simp: motor_for_joint_def find_Some_iff)
  have "f64_finite v" if "Some v \<in> {jc_position_soft_lower_rad e, jc_position_soft_upper_rad e}" for v
    using assms(2) [OF em(1)] that by (auto simp: soft_bounds_ok_def)
  then have "soft_within e m"
    using soft m by (auto simp: soft_within_def motor_ok_def flt_finite not_less)
  moreover have "f64_le (jc_position_trajectory_velocity_rad_s e) (fadd Binary64 cap EPS)"
    using fle_not_flt [OF traj] assms(2) [OF em(1)] resolve_joint_velocity_cap_Ok [OF em(4)]
    by (simp add: fadd_finite finite_cases)
  ultimately show thesis using that em by blast
qed

text \<open>A joint that searches for its Hall sensors stays inside every cap.\<close>

definition hall_search_ok ::
    "robot_section \<Rightarrow> motor_entry \<Rightarrow> control_section \<Rightarrow> effective_homing_joint \<Rightarrow> f64 \<Rightarrow> bool" where
  "hall_search_ok robot m cs eff cap \<longleftrightarrow>
     (case map_of (cs_motor_type_defaults cs) (motor_type_key (me_motor_type m)) of
        None \<Rightarrow> False
      | Some d \<Rightarrow>
          eh_sensors eff \<noteq> None \<and> f64_val (eh_search_velocity_rad_s eff) \<le> f64_val cap \<and>
          f64_val (eh_search_torque_nm eff) \<le> f64_val (rb_max_joint_torque_nm robot) \<and>
          f64_val (eh_search_torque_nm eff) \<le> f64_val (bl_torque_limit_nm (me_bench m)) \<and>
          f64_val (eh_search_torque_nm eff) \<le> f64_val (mtd_tau_ff_max_nm d))"

lemma effective_joint_key: "effective_joint_ref hs joint = Some eff \<Longrightarrow> joint \<in> set (map fst (hs_joints hs))"
  using map_of_eq_None_iff [of "hs_joints hs" joint] by (auto simp: effective_joint_ref_def split: option.splits)

lemma validate_homing_config_OkD:
  assumes "validate_homing_config hs = Ok u" and "effective_joint_ref hs joint = Some eff"
  shows "f64_finite (eh_search_velocity_rad_s eff)" "0 < f64_val (eh_search_velocity_rad_s eff)"
    "f64_finite (eh_search_torque_nm eff)" "0 \<le> f64_val (eh_search_torque_nm eff)"
    "eh_method eff = HallThreeSensor \<longrightarrow> eh_sensors eff \<noteq> None"
proof -
  have "validate_effective_homing hs joint = Ok ()"
    using assms(1) effective_joint_key [OF assms(2)]
    by (auto simp: validate_homing_config_def Let_def rbind_Ok_iff for_each_Ok)
  then show "f64_finite (eh_search_velocity_rad_s eff)" "0 < f64_val (eh_search_velocity_rad_s eff)"
    "f64_finite (eh_search_torque_nm eff)" "0 \<le> f64_val (eh_search_torque_nm eff)"
    "eh_method eff = HallThreeSensor \<longrightarrow> eh_sensors eff \<noteq> None"
    using assms(2) by (auto simp: validate_effective_homing_def validate_homing_numbers_def accepts)
qed

lemma defaults_finite:
  assumes "validate_control_numbers cs = Ok u" and "map_of (cs_motor_type_defaults cs) k = Some d"
  shows "f64_finite (mtd_tau_ff_max_nm d)"
proof -
  have "validate_motor_type_defaults (k, d) = Ok ()"
    using assms map_of_SomeD [OF assms(2)]
    by (auto simp: validate_control_numbers_def Let_def rbind_Ok_iff for_each_Ok)
  then show ?thesis by (auto simp: validate_motor_type_defaults_def Let_def accepts)
qed

lemma validate_joint_homing_OkD:
  assumes "validate_joint_homing robot motors cs hs joint = Ok u"
    and "validate_homing_config hs = Ok v" and "validate_control_numbers cs = Ok w"
    and "motor_for_joint motors joint = Some m" and "motor_ok m"
    and "resolve_joint_velocity_cap joint (me_motor_type m) cs = Ok cap"
    and "f64_finite (rb_max_joint_torque_nm robot)"
  obtains eff where "effective_joint_ref hs joint = Some eff"
    "eh_method eff = HallThreeSensor \<longrightarrow> hall_search_ok robot m cs eff cap"
proof -
  from assms(1) obtain eff where eff: "effective_joint_ref hs joint = Some eff"
    by (auto simp: validate_joint_homing_def split: option.splits)
  note num = validate_homing_config_OkD [OF assms(2) eff]
  have "hall_search_ok robot m cs eff cap" if hall: "eh_method eff = HallThreeSensor"
  proof -
    from assms(1,4,6) eff hall obtain d where d:
      "map_of (cs_motor_type_defaults cs) (motor_type_key (me_motor_type m)) = Some d"
      and v: "\<not> f64_lt cap (eh_search_velocity_rad_s eff)"
      and t: "\<not> f64_lt (fmin Binary64 (fmin Binary64 (rb_max_joint_torque_nm robot)
          (bl_torque_limit_nm (me_bench m))) (mtd_tau_ff_max_nm d)) (eh_search_torque_nm eff)"
      by (auto simp: validate_joint_homing_def rbind_Ok_iff Let_def split: option.splits)
    have f: "f64_finite (mtd_tau_ff_max_nm d)" "f64_finite (bl_torque_limit_nm (me_bench m))"
      using defaults_finite [OF assms(3) d] assms(5) by (auto simp: motor_ok_def)
    have "f64_val (eh_search_torque_nm eff) \<le>
        min (min (f64_val (rb_max_joint_torque_nm robot)) (f64_val (bl_torque_limit_nm (me_bench m))))
          (f64_val (mtd_tau_ff_max_nm d))"
      using t f assms(7) num(3) by (simp only: flt_finite fmin_finite not_less)
    then show ?thesis
      using v d num resolve_joint_velocity_cap_Ok [OF assms(6)] hall
      by (simp add: hall_search_ok_def flt_finite)
  qed
  then show thesis using that eff by blast
qed

section \<open>The accepted policy\<close>

definition joint_policy ::
    "robot_section \<Rightarrow> motor_entry list \<Rightarrow> control_section \<Rightarrow> homing_section \<Rightarrow> string \<Rightarrow> bool" where
  "joint_policy robot motors cs hs joint \<longleftrightarrow>
     (case (map_of (cs_joints cs) joint, motor_for_joint motors joint, effective_joint_ref hs joint) of
        (Some e, Some m, Some eff) \<Rightarrow>
          motor_ok m \<and> jc_motor_type e = me_motor_type m \<and> margins_ok e \<and> soft_bounds_ok e \<and> soft_within e m \<and>
          gravity_gains_zero e \<and> gains_within cs e \<and>
          (case resolve_joint_velocity_cap joint (me_motor_type m) cs of
             Inl _ \<Rightarrow> False
           | Inr cap \<Rightarrow>
               0 < f64_val cap \<and> f64_le (jc_position_trajectory_velocity_rad_s e) (fadd Binary64 cap EPS) \<and>
               (eh_method eff = HallThreeSensor \<longrightarrow> hall_search_ok robot m cs eff cap))
      | _ \<Rightarrow> False)"

lemma motor_for_joint_ok: "motor_for_joint motors joint = Some m \<Longrightarrow> m \<in> set motors \<and> me_joint m = joint"
  by (auto simp: motor_for_joint_def find_Some_iff)

lemma validated_joint_policy:
  assumes "validate_safety_config robot motors cs hs = Ok u" and "joint \<in> set (rb_joints robot)"
  shows "joint_policy robot motors cs hs joint"
proof -
  have cal: "validate_control_against_limits robot motors cs = Ok ()" and hom: "validate_homing_config hs = Ok ()"
    and jh: "validate_joint_homing robot motors cs hs joint = Ok ()"
    using assms by (auto simp: validate_safety_config_def rbind_Ok_iff for_each_Ok)
  from cal have mot: "validate_motors_against_robot robot motors = Ok ()" and cc: "validate_control_config cs = Ok ()"
    and jl: "validate_joint_limits motors cs joint = Ok ()"
    using assms(2) by (auto simp: validate_control_against_limits_def rbind_Ok_iff for_each_Ok)
  have cn: "validate_control_numbers cs = Ok ()" using cc by (simp add: validate_control_config_def rbind_Ok_iff)
  have ms: "\<forall>m \<in> set motors. motor_ok m" and rb: "f64_finite (rb_max_joint_torque_nm robot)"
    using mot by (auto simp: accepts)
  have ent: "margins_ok e \<and> soft_bounds_ok e \<and> gravity_gains_zero e \<and> gains_within cs e \<and>
      f64_finite (jc_position_trajectory_velocity_rad_s e)" if "map_of (cs_joints cs) joint = Some e" for e
    using validate_control_config_OkD [OF cc map_of_SomeD [OF that]] by simp
  obtain e m cap where em: "map_of (cs_joints cs) joint = Some e" "motor_for_joint motors joint = Some m"
    "jc_motor_type e = me_motor_type m" "soft_within e m"
    "resolve_joint_velocity_cap joint (me_motor_type m) cs = Ok cap"
    "f64_le (jc_position_trajectory_velocity_rad_s e) (fadd Binary64 cap EPS)"
    using validate_joint_limits_OkD [OF jl _ ms] ent by blast
  have m: "motor_ok m" using motor_for_joint_ok [OF em(2)] ms by simp
  obtain eff where "effective_joint_ref hs joint = Some eff"
    "eh_method eff = HallThreeSensor \<longrightarrow> hall_search_ok robot m cs eff cap"
    by (rule validate_joint_homing_OkD [OF jh hom cn em(2) m em(5) rb])
  then show ?thesis
    using em m ent [OF em(1)] resolve_joint_velocity_cap_Ok [OF em(5)] by (simp add: joint_policy_def)
qed

lemma find_joint_iff: "motor_for_joint motors joint \<noteq> None \<longleftrightarrow> joint \<in> set (map me_joint motors)"
  by (auto simp: motor_for_joint_def find_None_iff)


definition f64_one :: f64 where "f64_one = Flt False 4607182418800017408"
definition f64_tiny :: f64 where "f64_tiny = Flt False 1"

lemma f64_one_facts [simp]: "f64_finite f64_one" "f64_val f64_one = 1"
  by (simp_all add: f64_one_def is_finite_def fval_def mag_def)

lemma f64_tiny_facts [simp]: "f64_finite f64_tiny" "0 < f64_val f64_tiny" "f64_val f64_tiny \<le> 1 / 10"
  by (simp_all add: f64_tiny_def is_finite_def fval_def mag_def)

definition sample_robot :: robot_section where
  "sample_robot = \<lparr>rb_urdf = ''arm.urdf'', rb_max_joint_torque_nm = f64_one, rb_joints = [''elbow''], rb_limbs = []\<rparr>"

definition sample_motor :: motor_entry where
  "sample_motor =
     \<lparr>me_joint = ''elbow'', me_driver = ''robstride'', me_motor_type = Rs02, me_can_interface = ''can0'',
      me_device_id = 4, me_direction = 1, me_gear_ratio = f64_one, me_recv_can_id = 0x244,
      me_firmware_version = [],
      me_bench = \<lparr>bl_position_lower_rad = f64_zero, bl_position_upper_rad = f64_one,
        bl_velocity_limit_rad_s = f64_one, bl_torque_limit_nm = f64_one\<rparr>\<rparr>"

definition sample_entry :: joint_control_entry where
  "sample_entry =
     \<lparr>jc_motor_type = Rs02, jc_gravity_comp = \<lparr>mg_kp = f64_zero, mg_kd = f64_zero, mg_ki = f64_zero\<rparr>,
      jc_impedance = \<lparr>mg_kp = f64_one, mg_kd = f64_one, mg_ki = f64_zero\<rparr>,
      jc_friction = \<lparr>fg_fc = f64_zero, fg_fv = f64_zero, fg_fo = f64_zero, fg_k = f64_zero, fg_fs = None, fg_v_b = None\<rparr>,
      jc_velocity_max_rad_s = None, jc_position_slew_rad_s = f64_one, jc_position_slew_max_lead_rad = f64_one,
      jc_position_trajectory_threshold_rad = f64_one, jc_position_trajectory_velocity_rad_s = f64_one,
      jc_position_trajectory_accel_rad_s2 = f64_one, jc_position_trajectory_velocity_deadband_rad = f64_zero,
      jc_position_hold_trim_rad = f64_zero, jc_on_drive_loss = DisableAll, jc_position_law = LawLegacy,
      jc_position_time_scale_e0_rad = None, jc_position_integral_band_rad = None, jc_position_integral_leak_s = None,
      jc_position_integral_mode = None, jc_position_integral_cap_nm = None,
      jc_position_host_damping_nm_s_per_rad = None, jc_position_host_damping_filter_s = None,
      jc_position_ff_step_max_nm = None, jc_position_limit_margin_min_rad = f64_zero,
      jc_position_limit_margin_k_v_s = f64_zero, jc_position_limit_margin_k_stop = f64_zero,
      jc_position_limit_measured_fault_slack_rad = f64_zero,
      jc_position_soft_lower_rad = Some f64_zero, jc_position_soft_upper_rad = Some f64_one\<rparr>"

definition sample_control :: control_section where
  "sample_control =
     \<lparr>cs_loop_hz = 200, cs_chappe_state_hz = 50, cs_comm_watchdog_ms = 100, cs_feedback_drain_quiet_us = 300,
      cs_tau_ff_rate_limit_nm_per_s = f64_one, cs_disable_on_exit = True, cs_active_reporting_diagnostics = False,
      cs_motor_type_defaults = [(''rs02'', \<lparr>mtd_kp_max = f64_one, mtd_kd_max = f64_one, mtd_tau_ff_max_nm = f64_one,
        mtd_velocity_max_rad_s = f64_one\<rparr>)],
      cs_actuator_groups = [], cs_joints = [(''elbow'', sample_entry)], cs_danger_zones = [],
      cs_wrong_sign_watchdog = \<lparr>wsw_enabled = True, wsw_expected_sign_at_positive_q = - 1,
        wsw_min_velocity_rad_s = f64_zero, wsw_min_opposition_ticks = 10, wsw_grace_period_ticks = 20\<rparr>,
      cs_drive_loss = None\<rparr>"

definition sample_homing :: homing_section where
  "sample_homing =
     \<lparr>hs_zero_verify_tolerance_rad = f64_tiny, hs_calibration_record_path = ''homing.yaml'',
      hs_defaults = \<lparr>hd_home_offset_rad = f64_zero, hd_search_direction = SearchPositive,
        hd_search_velocity_rad_s = f64_one, hd_search_torque_nm = f64_one, hd_search_timeout_s = f64_one,
        hd_backoff_rad = f64_zero, hd_sign_test_required = True, hd_allow_sensor_overlap = False\<rparr>,
      hs_joints = [(''elbow'', \<lparr>hj_method = HallThreeSensor, hj_overrides =
        \<lparr>ho_home_offset_rad = None, ho_search_direction = None, ho_search_velocity_rad_s = None,
         ho_search_torque_nm = None, ho_search_timeout_s = None, ho_backoff_rad = None,
         ho_sign_test_required = None, ho_allow_sensor_overlap = None,
         ho_sensors = Some \<lparr>hn_home = \<lparr>si_gpio = 1, si_active_high = True\<rparr>,
           hn_min_limit = \<lparr>si_gpio = 2, si_active_high = True\<rparr>,
           hn_max_limit = \<lparr>si_gpio = 3, si_active_high = True\<rparr>\<rparr>\<rparr>\<rparr>)]\<rparr>"

lemmas sample_defs = sample_robot_def sample_motor_def sample_entry_def sample_control_def sample_homing_def

lemma EPS_nonneg: "0 \<le> f64_val EPS"
  using fround_ge [of Binary64 f64_zero "1 / 10 ^ 9" False] fval_less [of Binary64 EPS f64_zero]
  by (simp add: EPS_def f64_lit_def)

lemma one_plus_EPS: "\<not> f64_lt (fadd Binary64 f64_one EPS) f64_one"
  using fround_ge [of Binary64 f64_one "f64_val f64_one + f64_val EPS"] EPS_nonneg
  by (simp add: fadd_finite flt_def not_less)

lemma tiny_tolerance: "\<not> f64_lt (f64_lit (1 / 10)) f64_tiny"
  using fround_ge [OF f64_tiny_facts(1,3)] by (simp add: f64_lit_def flt_def not_less)

lemma short_timeout: "\<not> f64_lt (f64_lit 300) f64_one"
  using fround_ge [of Binary64 f64_one 300] by (simp add: f64_lit_def flt_def not_less)

lemma trim_samples: "trim ''elbow'' \<noteq> []" "trim ''can0'' \<noteq> []" "trim ''arm.urdf'' \<noteq> []"
  by code_simp+

lemma sample_cap: "resolve_joint_velocity_cap ''elbow'' Rs02 sample_control = Ok f64_one"
  by (simp add: sample_defs resolve_joint_velocity_cap_def actuator_group_for_joint_def bad_velocity_iff)

lemma sample_control_ok: "validate_control_config sample_control = Ok ()"
  by (simp add: validate_control_config_def validate_control_numbers_def validate_actuator_groups_def
      validate_joint_entry_Ok margins_ok_def soft_bounds_ok_def gravity_gains_zero_def
      validate_motor_type_defaults_def validate_joint_numbers_def validate_scaled_pd_numbers_def
      validate_entry_gains_against_motor_type_def validate_drive_loss_def static_nm_def unwrap_or_def
      accepts sample_defs Let_def flt_finite trim_samples EPS_nonneg)

lemma sample_limits_ok: "validate_control_against_limits sample_robot [sample_motor] sample_control = Ok ()"
proof -
  have "validate_joint_limits [sample_motor] sample_control ''elbow'' = Ok ()"
    using sample_cap by (simp add: validate_joint_limits_def motor_for_joint_def accepts sample_defs flt_finite one_plus_EPS)
  then show ?thesis
    using sample_control_ok
    by (simp add: validate_control_against_limits_def validate_robot_control_joint_coverage_def accepts
        motor_ok_def sample_defs trim_samples)
qed

lemma sample_config_ok: "validate_safety_config sample_robot [sample_motor] sample_control sample_homing = Ok ()"
proof -
  have "validate_homing_config sample_homing = Ok ()"
    by (simp add: validate_homing_config_def validate_effective_homing_def effective_joint_ref_def unwrap_or_def
        validate_homing_numbers_def accepts sample_defs Let_def tiny_tolerance short_timeout trim_samples
        fits_duration_def)
  moreover have "validate_joint_homing sample_robot [sample_motor] sample_control sample_homing ''elbow'' = Ok ()"
    using sample_cap
    by (simp add: validate_joint_homing_def effective_joint_ref_def motor_for_joint_def unwrap_or_def
        accepts sample_defs Let_def flt_finite fmin_finite)
  ultimately show ?thesis
    using sample_limits_ok by (simp add: validate_safety_config_def accepts sample_robot_def)
qed


end
