(* ===== verification/Config_Limits.thy ===== *)
theory Config_Limits
  imports Config_Validation "HOL-Library.Char_ord" "HOL-Library.List_Lexorder" "HOL-Library.Sublist"
begin

text \<open>
  Limit patches (\<open>limit_patch.rs\<close>), the window of operator position commands (\<open>lib.rs\<close>),
  tuning overlays, the operator speed fraction (\<open>speed_fraction.rs\<close>), the joint subset and
  command allowlist (\<open>bench_joints.rs\<close>) and the commissioning scope
  (\<open>commissioning_scope.rs\<close>) of \<open>crates/marengo-config\<close>.
\<close>

section \<open>Limit patches\<close>

record limit_patch =
  lp_joint :: string
  lp_position_lower_rad :: f64
  lp_position_upper_rad :: f64
  lp_torque_limit_nm :: "f64 option"
  lp_position_soft_lower_rad :: "f64 option"
  lp_position_soft_upper_rad :: "f64 option"
  lp_velocity_max_rad_s :: "f64 option"

definition DEFAULT_SOFT_INSET_RAD :: f64 where "DEFAULT_SOFT_INSET_RAD = f64_lit (27 / 1000)"

definition soft_limits_with_inset :: "f64 \<Rightarrow> f64 \<Rightarrow> f64 \<Rightarrow> f64 \<times> f64" where
  "soft_limits_with_inset hard_lower hard_upper inset =
     (let span = fsub Binary64 hard_upper hard_lower
      in if \<not> f64_finite span \<or> f64_le span f64_zero then (hard_lower, hard_upper)
         else let inset = fclamp Binary64 inset f64_zero (fmul Binary64 span (f64_lit (1 / 4)))
              in (fadd Binary64 hard_lower inset, fsub Binary64 hard_upper inset))"

definition get_or_insert :: "'a option \<Rightarrow> 'a \<Rightarrow> 'a option" where
  "get_or_insert x d = (case x of Some v \<Rightarrow> Some v | None \<Rightarrow> Some d)"

definition ensure_soft_inset :: "limit_patch \<Rightarrow> limit_patch" where
  "ensure_soft_inset patch =
     (let (lo, hi) = soft_limits_with_inset (lp_position_lower_rad patch) (lp_position_upper_rad patch)
            DEFAULT_SOFT_INSET_RAD
      in patch\<lparr>lp_position_soft_lower_rad := get_or_insert (lp_position_soft_lower_rad patch) lo,
               lp_position_soft_upper_rad := get_or_insert (lp_position_soft_upper_rad patch) hi\<rparr>)"

definition invalid_patch :: "message \<Rightarrow> config_error" where
  "invalid_patch m = CfgParse ''limit patch'' m"

definition validate_finite_optional :: "string \<Rightarrow> f64 option \<Rightarrow> (unit, config_error) result" where
  "validate_finite_optional name v =
     refuse_if (case v of Some x \<Rightarrow> \<not> f64_finite x | None \<Rightarrow> False)
       (invalid_patch [Txt (name @ '' must be finite'')])"

definition validate_positive_optional :: "string \<Rightarrow> f64 option \<Rightarrow> (unit, config_error) result" where
  "validate_positive_optional name v =
     rbind (validate_finite_optional name v) (\<lambda>_.
     refuse_if (case v of Some x \<Rightarrow> f64_le x f64_zero | None \<Rightarrow> False)
       (invalid_patch [Txt (name @ '' must be greater than zero'')]))"

definition validate_limit_patch :: "limit_patch \<Rightarrow> (unit, config_error) result" where
  "validate_limit_patch patch =
     rbind (refuse_if (trim (lp_joint patch) = []) (invalid_patch [Txt ''joint must not be empty''])) (\<lambda>_.
     rbind (refuse_if (\<not> f64_finite (lp_position_lower_rad patch) \<or> \<not> f64_finite (lp_position_upper_rad patch))
       (invalid_patch [Txt ''hard position limits must be finite''])) (\<lambda>_.
     rbind (refuse_if (f64_le (lp_position_upper_rad patch) (lp_position_lower_rad patch))
       (invalid_patch [Txt ''position_lower_rad '', Num (lp_position_lower_rad patch),
         Txt '' must be less than position_upper_rad '', Num (lp_position_upper_rad patch)])) (\<lambda>_.
     rbind (validate_positive_optional ''torque_limit_nm'' (lp_torque_limit_nm patch)) (\<lambda>_.
     rbind (validate_finite_optional ''position_soft_lower_rad'' (lp_position_soft_lower_rad patch)) (\<lambda>_.
     rbind (validate_finite_optional ''position_soft_upper_rad'' (lp_position_soft_upper_rad patch)) (\<lambda>_.
     rbind (validate_positive_optional ''velocity_max_rad_s'' (lp_velocity_max_rad_s patch)) (\<lambda>_.
     case (lp_position_soft_lower_rad patch, lp_position_soft_upper_rad patch) of
       (Some lower, Some upper) \<Rightarrow>
         refuse_if (f64_lt upper lower) (invalid_patch [Txt ''position_soft_lower_rad '', Num lower,
           Txt '' must not exceed position_soft_upper_rad '', Num upper])
     | _ \<Rightarrow> Ok ())))))))"

definition apply_limit_patch_to_motor :: "limit_patch \<Rightarrow> motor_entry \<Rightarrow> (motor_entry, config_error) result" where
  "apply_limit_patch_to_motor patch motor =
     rbind (validate_limit_patch patch) (\<lambda>_.
     if me_joint motor \<noteq> lp_joint patch
     then Err (invalid_patch [Txt (''patch for joint '' @ lp_joint patch @ '' cannot update motor for '' @ me_joint motor)])
     else let bench = (me_bench motor)\<lparr>bl_position_lower_rad := lp_position_lower_rad patch,
                bl_position_upper_rad := lp_position_upper_rad patch\<rparr>
          in Ok (motor\<lparr>me_bench := (case lp_torque_limit_nm patch of
               Some t \<Rightarrow> bench\<lparr>bl_torque_limit_nm := t\<rparr> | None \<Rightarrow> bench)\<rparr>))"

definition effective_soft :: "limit_patch \<Rightarrow> f64 option \<Rightarrow> f64 option \<Rightarrow> f64 option" where
  "effective_soft patch proposed stored =
     map_option (\<lambda>v. fclamp Binary64 v (lp_position_lower_rad patch) (lp_position_upper_rad patch))
       (case proposed of Some v \<Rightarrow> Some v | None \<Rightarrow> stored)"

definition apply_limit_patch_to_control ::
    "limit_patch \<Rightarrow> joint_control_entry \<Rightarrow> (joint_control_entry, config_error) result" where
  "apply_limit_patch_to_control patch entry =
     rbind (validate_limit_patch patch) (\<lambda>_.
     let lower = effective_soft patch (lp_position_soft_lower_rad patch) (jc_position_soft_lower_rad entry);
         upper = effective_soft patch (lp_position_soft_upper_rad patch) (jc_position_soft_upper_rad entry);
         entry' = entry\<lparr>jc_position_soft_lower_rad := lower, jc_position_soft_upper_rad := upper\<rparr>;
         patched = Ok (case lp_velocity_max_rad_s patch of
           Some v \<Rightarrow> entry'\<lparr>jc_velocity_max_rad_s := Some v\<rparr> | None \<Rightarrow> entry')
     in case (lower, upper) of
          (Some lo, Some hi) \<Rightarrow>
            if f64_lt hi lo
            then Err (invalid_patch [Txt ''effective soft lower '', Num lo,
                   Txt '' must not exceed effective soft upper '', Num hi])
            else patched
        | _ \<Rightarrow> patched)"

definition commanded_position_window ::
    "control_section \<Rightarrow> motor_entry list \<Rightarrow> string \<Rightarrow> (f64 \<times> f64) option" where
  "commanded_position_window cs motors joint =
     (case (map_of (cs_joints cs) joint, motor_for_joint motors joint) of
        (Some soft, Some m) \<Rightarrow>
          (case (jc_position_soft_lower_rad soft, jc_position_soft_upper_rad soft) of
             (Some lo, Some hi) \<Rightarrow>
               (let lower = fmax Binary64 lo (bl_position_lower_rad (me_bench m));
                    upper = fmin Binary64 hi (bl_position_upper_rad (me_bench m))
                in if f64_le lower upper then Some (lower, upper) else None)
           | _ \<Rightarrow> None)
      | _ \<Rightarrow> None)"

section \<open>Tuning overlays and the speed fraction\<close>

definition gain_params :: "string list" where
  "gain_params = [''impedance.kp'', ''impedance.kd'', ''impedance.ki'', ''friction.fc'', ''friction.fv'', ''friction.k'']"

definition apply_joint_config_param ::
    "string \<Rightarrow> f64 \<Rightarrow> joint_control_entry \<Rightarrow> (f64 \<times> joint_control_entry, config_error) result" where
  "apply_joint_config_param param v e =
     (let err = (\<lambda>m. Err (CfgParse ''control.yaml'' [Txt m])); imp = jc_impedance e; fr = jc_friction e in
      if \<not> f64_finite v then err (''non-finite value for '' @ param)
      else if f64_lt v f64_zero \<and> param \<in> set gain_params then err (param @ '' must be >= 0'')
      else if param = ''impedance.kp'' then Ok (mg_kp imp, e\<lparr>jc_impedance := imp\<lparr>mg_kp := v\<rparr>\<rparr>)
      else if param = ''impedance.kd'' then Ok (mg_kd imp, e\<lparr>jc_impedance := imp\<lparr>mg_kd := v\<rparr>\<rparr>)
      else if param = ''impedance.ki'' then Ok (mg_ki imp, e\<lparr>jc_impedance := imp\<lparr>mg_ki := v\<rparr>\<rparr>)
      else if param = ''friction.fc'' then Ok (fg_fc fr, e\<lparr>jc_friction := fr\<lparr>fg_fc := v\<rparr>\<rparr>)
      else if param = ''friction.fv'' then Ok (fg_fv fr, e\<lparr>jc_friction := fr\<lparr>fg_fv := v\<rparr>\<rparr>)
      else if param = ''friction.fo'' then Ok (fg_fo fr, e\<lparr>jc_friction := fr\<lparr>fg_fo := v\<rparr>\<rparr>)
      else if param = ''friction.k'' then Ok (fg_k fr, e\<lparr>jc_friction := fr\<lparr>fg_k := v\<rparr>\<rparr>)
      else if param = ''velocity_max_rad_s'' then
        err ''velocity_max_rad_s is not a tuning overlay; send it in a limit patch (Set Limits)''
      else err (''unsupported config overlay param: '' @ param))"

datatype speed_fraction = SpeedFraction (fraction_of: f64)

definition speed_fraction_full :: speed_fraction where "speed_fraction_full = SpeedFraction (f64_lit 1)"

definition speed_fraction_new :: "f64 \<Rightarrow> (speed_fraction, f64) result" where
  "speed_fraction_new v =
     (if f64_finite v \<and> f64_lt f64_zero v \<and> f64_le v (f64_lit 1) then Ok (SpeedFraction v) else Err v)"

definition speed_fraction_from_optional :: "f64 option \<Rightarrow> (speed_fraction, f64) result" where
  "speed_fraction_from_optional v = (case v of None \<Rightarrow> Ok speed_fraction_full | Some x \<Rightarrow> speed_fraction_new x)"

section \<open>Joint subsets and the command allowlist\<close>

text \<open>A hash set of names is a list; only membership and emptiness are read.\<close>

type_synonym command_joint_allowlist = "string list"

definition intersect_subset :: "string list \<Rightarrow> command_joint_allowlist \<Rightarrow> command_joint_allowlist" where
  "intersect_subset wanted joints = filter (\<lambda>j. j \<in> set wanted) joints"

fun split_on :: "char \<Rightarrow> string \<Rightarrow> string list" where
  "split_on sep [] = [[]]"
| "split_on sep (c # cs) =
     (case split_on sep cs of
        [] \<Rightarrow> [[c]]
      | w # ws \<Rightarrow> if c = sep then [] # w # ws else (c # w) # ws)"

text \<open>The value of \<open>MARENGO_JOINT_SUBSET\<close> is the argument.\<close>

definition joint_subset_from_env :: "string option \<Rightarrow> string list option" where
  "joint_subset_from_env raw =
     (case raw of
        None \<Rightarrow> None
      | Some s \<Rightarrow>
          (let joints = remdups (filter (\<lambda>j. j \<noteq> []) (map trim (split_on (CHR '','') s)))
           in if joints = [] then None else Some joints))"

definition validate_joint_subset :: "robot_section \<Rightarrow> string list \<Rightarrow> (unit, config_error) result" where
  "validate_joint_subset robot wanted =
     for_each (\<lambda>name. refuse_if (name \<notin> set (rb_joints robot)) (UnknownJointSubset name)) wanted"

definition load_command_joint_allowlist ::
    "robot_section \<Rightarrow> string option \<Rightarrow> (command_joint_allowlist, config_error) result" where
  "load_command_joint_allowlist robot env =
     (case joint_subset_from_env env of
        None \<Rightarrow> Ok (rb_joints robot)
      | Some wanted \<Rightarrow>
          rbind (validate_joint_subset robot wanted) (\<lambda>_.
          let joints = intersect_subset wanted (rb_joints robot)
          in if joints = [] then Err EmptyJointSubset else Ok joints))"

definition apply_joint_subset ::
    "string list \<Rightarrow> robot_section \<Rightarrow> motor_entry list \<Rightarrow> control_section \<Rightarrow>
     (robot_section \<times> motor_entry list \<times> control_section, config_error) result" where
  "apply_joint_subset wanted robot motors cs =
     rbind (validate_joint_subset robot wanted) (\<lambda>_.
     let keep = filter (\<lambda>j. j \<in> set wanted) (rb_joints robot) in
     if keep = [] then Err EmptyJointSubset
     else let motors' = filter (\<lambda>m. me_joint m \<in> set keep) motors in
       if motors' = [] then Err EmptyJointSubset
       else Ok (robot\<lparr>rb_joints := keep\<rparr>, motors',
         cs\<lparr>cs_joints := filter (\<lambda>(j, _). j \<in> set keep) (cs_joints cs),
            cs_actuator_groups := filter (\<lambda>(_, g). ag_joints g \<noteq> [])
              (map (\<lambda>(n, g). (n, g\<lparr>ag_joints := filter (\<lambda>j. j \<in> set keep) (ag_joints g)\<rparr>)) (cs_actuator_groups cs)),
            cs_danger_zones := filter (\<lambda>z. dz_joint z \<in> set keep) (cs_danger_zones cs)\<rparr>))"

definition joint_aliases :: "string \<Rightarrow> string list" where
  "joint_aliases input =
     (if input = ''left_shoulder_roll'' then [''shoulder_roll'']
      else if input = ''left_shoulder_pitch'' then [''shoulder_pitch'']
      else if input = ''left_upper_arm_yaw'' then [''upper_arm_yaw'']
      else if input = ''left_elbow'' then [''elbow'']
      else if input = ''shoulder_roll'' then [''left_shoulder_roll'']
      else if input = ''shoulder_pitch'' then [''left_shoulder_pitch'']
      else if input = ''upper_arm_yaw'' then [''left_upper_arm_yaw'']
      else if input = ''elbow'' then [''right_elbow_pitch'', ''left_elbow'']
      else if input = ''right_elbow_pitch'' then [''elbow'']
      else [])"

text \<open>The loop of \<open>resolve_command_joint\<close> over the remaining candidates.\<close>

fun resolve_candidates :: "command_joint_allowlist \<Rightarrow> string option \<Rightarrow> string list \<Rightarrow> string option" where
  "resolve_candidates joints resolved [] = resolved"
| "resolve_candidates joints resolved (c # cs) =
     (if c \<notin> set joints then resolve_candidates joints resolved cs
      else case resolved of
          Some previous \<Rightarrow> if previous \<noteq> c then None else resolve_candidates joints (Some c) cs
        | None \<Rightarrow> resolve_candidates joints (Some c) cs)"

definition resolve_command_joint :: "string \<Rightarrow> command_joint_allowlist \<Rightarrow> string option" where
  "resolve_command_joint input joints =
     (if input \<in> set joints then Some input else resolve_candidates joints None (joint_aliases input))"

section \<open>Commissioning scope\<close>

definition COMMISSIONING_SCOPE_VERSION :: u32 where "COMMISSIONING_SCOPE_VERSION = 1"

record commissioning_scope_file =
  sc_version :: u32
  sc_joints :: "string list"

definition scope_normalized :: "string list \<Rightarrow> commissioning_scope_file" where
  "scope_normalized joints =
     \<lparr>sc_version = COMMISSIONING_SCOPE_VERSION,
      sc_joints = sort (remdups (filter (\<lambda>j. j \<noteq> []) (map trim joints)))\<rparr>"

text \<open>What the read and the parse of the file gave: missing, unreadable, not parsed, parsed.\<close>

datatype scope_read = ScopeMissing | ScopeUnreadable string | ScopeCorrupt string | ScopeParsed commissioning_scope_file

definition load_commissioning_scope ::
    "string \<Rightarrow> scope_read \<Rightarrow> (commissioning_scope_file option, config_error) result" where
  "load_commissioning_scope path outcome =
     (case outcome of
        ScopeMissing \<Rightarrow> Ok None
      | ScopeUnreadable e \<Rightarrow> Err (CfgIo path [Txt e])
      | ScopeCorrupt e \<Rightarrow> Err (CfgParse path [Txt e])
      | ScopeParsed parsed \<Rightarrow>
          if sc_version parsed \<noteq> COMMISSIONING_SCOPE_VERSION
          then Err (CfgParse path [Txt (''unsupported commissioning-scope version '' @
                 show_nat (unat (sc_version parsed)) @ '' (expected 1)'')])
          else Ok (Some (scope_normalized (sc_joints parsed))))"

definition validate_commissioning_scope_joints ::
    "string list \<Rightarrow> string list \<Rightarrow> (unit, config_error) result" where
  "validate_commissioning_scope_joints joints master =
     for_each (\<lambda>j. refuse_if (j \<notin> set master) (UnknownJointSubset j)) joints"

text \<open>\<open>Vec::dedup\<close> removes consecutive repetitions.\<close>

definition effective_commissioning_scope :: "string list \<Rightarrow> string list option \<Rightarrow> string list" where
  "effective_commissioning_scope persisted ceil_set =
     remdups_adj (sort (case ceil_set of
        Some ceil \<Rightarrow> filter (\<lambda>j. j \<in> set ceil) persisted
      | None \<Rightarrow> persisted))"

definition scope_widens :: "string list \<Rightarrow> string list \<Rightarrow> bool" where
  "scope_widens previous next_scope = list_ex (\<lambda>j. j \<notin> set previous) next_scope"

section \<open>Soft bounds inside hard bounds\<close>

lemma quarter_lit [simp]: "f64_val (f64_lit (1 / 4)) = 1 / 4" "f64_finite (f64_lit (1 / 4))"
proof -
  have v: "f64_val (Flt False 4598175219545276416) = 1 / 4" "f64_finite (Flt False 4598175219545276416)"
    by (simp_all add: is_finite_def fval_def mag_def)
  have "fkey (f64_lit (1 / 4)) = fkey (Flt False 4598175219545276416)"
    using fkey_fround_exact [OF v(2), of False] unfolding v(1) f64_lit_def .
  moreover have "\<not> fneg (f64_lit (1 / 4))" by (simp add: f64_lit_def fround_def)
  ultimately have "f64_lit (1 / 4) = Flt False 4598175219545276416"
    by (simp add: fkey_def ieee.expand)
  then show "f64_val (f64_lit (1 / 4)) = 1 / 4" "f64_finite (f64_lit (1 / 4))" using v by simp_all
qed

text \<open>
  The quarter of a rounded span, rounded again, is at most half of the exact span: in units
  of the least positive double, with \<open>d\<close> the exact span.
\<close>

lemma quarter_of_span:
  assumes "0 < d" and "s = mag 52 (round_mag 52 (of_nat d))" and "r = mag 52 (round_mag 52 (of_nat s / 4))"
  shows "2 * r \<le> d"
proof -
  have s: "\<bar>of_nat s - of_nat d :: rat\<bar> \<le> max (1 / 2) (of_nat d / 2 ^ 53)"
    using mag_round_mag_error [of "of_nat d" 52] assms(2) by simp
  have r: "\<bar>of_nat r - of_nat s / 4 :: rat\<bar> \<le> max (1 / 2) (of_nat s / 4 / 2 ^ 53)"
    using mag_round_mag_error [of "of_nat s / 4" 52] assms(3) by simp
  show ?thesis
  proof (cases "d \<le> 2 ^ 52")
    case True
    then have "(of_nat d :: rat) \<le> 2 ^ 52" by (metis of_nat_le_iff of_nat_numeral of_nat_power)
    then have "\<bar>of_nat s - of_nat d :: rat\<bar> \<le> 1 / 2" using s by simp
    then have "\<bar>of_int (int s - int d) :: rat\<bar> \<le> 1 / 2" by simp
    then have "int s = int d" by linarith
    then have "\<bar>of_nat r - of_nat d / 4 :: rat\<bar> \<le> 1 / 2" using r \<open>(of_nat d :: rat) \<le> 2 ^ 52\<close> by simp
    then have "4 * (of_nat r :: rat) \<le> of_nat d + 2" by linarith
    then have "(of_nat (4 * r) :: rat) \<le> of_nat (d + 2)" by simp
    then have "4 * r \<le> d + 2" by (simp only: of_nat_le_iff)
    then show ?thesis using assms(1) by linarith
  next
    case False
    then have big: "(2 ^ 52 :: rat) < of_nat d" by (metis not_le of_nat_less_iff of_nat_numeral of_nat_power)
    have mx: "max (1 / 2) x \<le> 1 / 2 + x" if "0 \<le> x" for x :: rat using that by simp
    have "(of_nat s :: rat) \<le> of_nat d + (1 / 2 + of_nat d / 2 ^ 53)"
      using s mx [of "of_nat d / 2 ^ 53"] by simp
    moreover have "(of_nat r :: rat) \<le> of_nat s / 4 + (1 / 2 + of_nat s / 4 / 2 ^ 53)"
      using r mx [of "of_nat s / 4 / 2 ^ 53"] by simp
    ultimately have "2 * (of_nat r :: rat) \<le> of_nat d" using big by simp
    then have "(of_nat (2 * r) :: rat) \<le> of_nat d" by simp
    then show ?thesis by (simp only: of_nat_le_iff)
  qed
qed

lemma fround_nonneg_mag:
  assumes "is_finite f (fround f z q)" and "0 \<le> q"
  shows "fval f (fround f z q) = of_nat (mag (mbits f) (round_mag (mbits f) (q * 2 ^ kscale f))) / 2 ^ kscale f"
  using assms fval_fround [of f q z] by (cases "q = 0") (simp_all add: is_finite_fround)

lemma inset_half:
  assumes "f64_finite x" "f64_finite y" "f64_val x < f64_val y"
    and sp0: "spn = fsub Binary64 y x" "f64_finite spn"
    and quarter: "quarter = fmul Binary64 spn (f64_lit (1 / 4))"
  shows "f64_finite quarter" and "0 \<le> f64_val quarter" and "2 * f64_val quarter \<le> f64_val y - f64_val x"
proof -
  let ?K = "2 ^ 1074 :: rat"
  define k where "k = fsigned 52 y - fsigned 52 x"
  have diff: "f64_val y - f64_val x = of_int k / ?K"
    using fval_fsigned [of Binary64 y] fval_fsigned [of Binary64 x] by (simp add: k_def diff_divide_distrib)
  have "0 < k" using assms(3) diff by (simp add: zero_less_divide_iff)
  define d where "d = nat k"
  have d: "f64_val y - f64_val x = of_nat d / ?K" "0 < d" using diff \<open>0 < k\<close> by (simp_all add: d_def)
  have sp: "spn = fround Binary64 (fneg y \<and> \<not> fneg x) (of_nat d / ?K)"
    using sp0(1) fsub_finite [OF assms(2,1)] d(1) by simp
  define s where "s = mag 52 (round_mag 52 (of_nat d))"
  have sv: "f64_val spn = of_nat s / ?K"
    using fround_nonneg_mag [of Binary64 _ "of_nat d / ?K"] sp0(2) unfolding sp s_def by simp
  have qu: "quarter = fround Binary64 (fneg spn \<noteq> fneg (f64_lit (1 / 4))) (of_nat s / 4 / ?K)"
    using quarter fmul_finite [OF sp0(2) quarter_lit(2)] sv by simp
  have b: "f64_val f64_zero \<le> of_nat s / 4 / ?K" "of_nat s / 4 / ?K \<le> f64_val spn"
    unfolding sv by (simp_all add: divide_right_mono)
  show fin: "f64_finite quarter" and "0 \<le> f64_val quarter"
    using fround_between [OF finite_zero sp0(2) b] unfolding qu by simp_all
  have "f64_val quarter = of_nat (mag 52 (round_mag 52 (of_nat s / 4))) / ?K"
    using fround_nonneg_mag [of Binary64 _ "of_nat s / 4 / ?K"] fin unfolding qu by simp
  moreover have "2 * mag 52 (round_mag 52 (of_nat s / 4 :: rat)) \<le> d"
    using quarter_of_span [OF d(2) s_def refl] .
  then have "(of_nat (2 * mag 52 (round_mag 52 (of_nat s / 4 :: rat))) :: rat) \<le> of_nat d"
    by (simp only: of_nat_le_iff)
  then have "2 * (of_nat (mag 52 (round_mag 52 (of_nat s / 4 :: rat))) :: rat) / ?K \<le> of_nat d / ?K"
    by (intro divide_right_mono) simp_all
  ultimately show "2 * f64_val quarter \<le> f64_val y - f64_val x" using d(1) by simp
qed

lemma fval_le_iff: "fval f x \<le> fval f y \<longleftrightarrow> fkey x \<le> fkey y"
  using fval_less [of f y x] by (simp add: not_less [symmetric])

lemma soft_limits_inside:
  assumes "f64_finite x" "f64_finite y" "f64_val x < f64_val y" "f64_finite i"
    and "soft_limits_with_inset x y i = (lo, hi)"
  shows "f64_finite lo" "f64_finite hi" "f64_val x \<le> f64_val lo" "f64_val lo \<le> f64_val hi" "f64_val hi \<le> f64_val y"
proof -
  define spn where "spn = fsub Binary64 y x"
  define quarter where "quarter = fmul Binary64 spn (f64_lit (1 / 4))"
  define i' where "i' = fclamp Binary64 i f64_zero quarter"
  have "f64_finite lo \<and> f64_finite hi \<and> f64_val x \<le> f64_val lo \<and> f64_val lo \<le> f64_val hi \<and> f64_val hi \<le> f64_val y"
  proof (cases "\<not> f64_finite spn \<or> f64_le spn f64_zero")
    case True
    then have "lo = x" "hi = y" using assms(5) by (auto simp: soft_limits_with_inset_def spn_def Let_def)
    then show ?thesis using assms by simp
  next
    case False
    then have fs: "f64_finite spn" by simp
    note half = inset_half [OF assms(1-3) spn_def fs quarter_def]
    have i': "f64_finite i'" "0 \<le> f64_val i'" "f64_val i' \<le> f64_val quarter"
      using fclamp_finite [OF assms(4) finite_zero half(1)] half(2) unfolding i'_def by auto
    have eq: "lo = fround Binary64 (fneg x \<and> fneg i') (f64_val x + f64_val i')"
        "hi = fround Binary64 (fneg y \<and> \<not> fneg i') (f64_val y - f64_val i')"
      using assms(5) False fadd_finite [OF assms(1) i'(1)] fsub_finite [OF assms(2) i'(1)]
      by (auto simp: soft_limits_with_inset_def spn_def quarter_def i'_def Let_def)
    have "f64_val x + f64_val i' \<le> f64_val y - f64_val i'" using half(3) i'(3) by linarith
    then have "f64_val lo \<le> f64_val hi" unfolding eq fval_le_iff by (rule fround_mono)
    moreover have "f64_finite lo" "f64_val x \<le> f64_val lo"
      using fround_between [OF assms(1,2), of "f64_val x + f64_val i'"] i' half unfolding eq by auto
    moreover have "f64_finite hi" "f64_val hi \<le> f64_val y"
      using fround_between [OF assms(1,2), of "f64_val y - f64_val i'"] i' half unfolding eq by auto
    ultimately show ?thesis by blast
  qed
  then show "f64_finite lo" "f64_finite hi" "f64_val x \<le> f64_val lo" "f64_val lo \<le> f64_val hi" "f64_val hi \<le> f64_val y"
    by simp_all
qed

lemma validate_limit_patch_OkD:
  assumes "validate_limit_patch p = Ok u"
  shows "f64_finite (lp_position_lower_rad p)" "f64_finite (lp_position_upper_rad p)"
    "f64_val (lp_position_lower_rad p) < f64_val (lp_position_upper_rad p)"
    "\<And>v. lp_position_soft_lower_rad p = Some v \<Longrightarrow> f64_finite v"
    "\<And>v. lp_position_soft_upper_rad p = Some v \<Longrightarrow> f64_finite v"
  using assms
  by (auto simp: validate_limit_patch_def validate_finite_optional_def rbind_Ok_iff fle_finite not_le)

lemma ensure_soft_inset_fields:
  "lp_position_lower_rad (ensure_soft_inset p) = lp_position_lower_rad p"
  "lp_position_upper_rad (ensure_soft_inset p) = lp_position_upper_rad p"
  "\<exists>v. lp_position_soft_lower_rad (ensure_soft_inset p) = Some v"
  "\<exists>v. lp_position_soft_upper_rad (ensure_soft_inset p) = Some v"
  by (simp_all add: ensure_soft_inset_def get_or_insert_def split_beta Let_def split: option.splits)

lemma patched_soft_bounds:
  assumes "apply_limit_patch_to_control p e = Ok e'"
    and "lp_position_soft_lower_rad p = Some slo" and "lp_position_soft_upper_rad p = Some shi"
  obtains lo hi where "jc_position_soft_lower_rad e' = Some lo" "jc_position_soft_upper_rad e' = Some hi"
    "f64_finite lo" "f64_finite hi" "f64_val (lp_position_lower_rad p) \<le> f64_val lo" "f64_val lo \<le> f64_val hi"
    "f64_val hi \<le> f64_val (lp_position_upper_rad p)"
proof -
  have v: "validate_limit_patch p = Ok ()" using assms(1) by (auto simp: apply_limit_patch_to_control_def rbind_Ok_iff)
  note h = validate_limit_patch_OkD [OF v]
  define lo where "lo = fclamp Binary64 slo (lp_position_lower_rad p) (lp_position_upper_rad p)"
  define hi where "hi = fclamp Binary64 shi (lp_position_lower_rad p) (lp_position_upper_rad p)"
  have fin: "f64_finite lo" "f64_finite hi"
    unfolding lo_def hi_def using h(1,2) h(4) [OF assms(2)] h(5) [OF assms(3)] by (simp_all add: fclamp_finite)
  have e': "\<not> f64_lt hi lo" "jc_position_soft_lower_rad e' = Some lo" "jc_position_soft_upper_rad e' = Some hi"
    using assms v by (auto simp: apply_limit_patch_to_control_def effective_soft_def Let_def lo_def hi_def
        split: if_splits option.splits)
  have "f64_val lo \<le> f64_val hi" using e'(1) fin by (simp add: flt_finite)
  moreover have "f64_val (lp_position_lower_rad p) \<le> f64_val lo" "f64_val hi \<le> f64_val (lp_position_upper_rad p)"
    unfolding lo_def hi_def using h(1-3) h(4) [OF assms(2)] h(5) [OF assms(3)] by (simp_all add: fclamp_finite)
  ultimately show thesis using that e' fin by blast
qed

text \<open>C23: Set Limits always leaves a usable command window inside the new hard bounds. When
  a patch, completed with the default soft inset, is applied to a joint's motor and control
  entries, the window operators may command is not empty and lies, as real numbers and after
  all rounding, inside the patched hard bounds.\<close>

theorem limit_patch_window:
  assumes "apply_limit_patch_to_motor (ensure_soft_inset p) m = Ok m'"
    and "apply_limit_patch_to_control (ensure_soft_inset p) e = Ok e'"
    and "map_of (cs_joints cs) joint = Some e'" and "motor_for_joint motors joint = Some m'"
  shows "\<exists>lo hi. commanded_position_window cs motors joint = Some (lo, hi) \<and> f64_finite lo \<and> f64_finite hi \<and>
    f64_val (lp_position_lower_rad p) \<le> f64_val lo \<and> f64_val lo \<le> f64_val hi \<and>
    f64_val hi \<le> f64_val (lp_position_upper_rad p)"
proof -
  let ?q = "ensure_soft_inset p"
  obtain slo shi where "lp_position_soft_lower_rad ?q = Some slo" "lp_position_soft_upper_rad ?q = Some shi"
    using ensure_soft_inset_fields(3,4) by blast
  from patched_soft_bounds [OF assms(2) this] obtain lo hi where
    b: "jc_position_soft_lower_rad e' = Some lo" "jc_position_soft_upper_rad e' = Some hi"
      "f64_finite lo" "f64_finite hi" "f64_val (lp_position_lower_rad p) \<le> f64_val lo" "f64_val lo \<le> f64_val hi"
      "f64_val hi \<le> f64_val (lp_position_upper_rad p)"
    unfolding ensure_soft_inset_fields(1,2) by blast
  have m': "bl_position_lower_rad (me_bench m') = lp_position_lower_rad p"
      "bl_position_upper_rad (me_bench m') = lp_position_upper_rad p"
    and fin: "f64_finite (lp_position_lower_rad p)" "f64_finite (lp_position_upper_rad p)"
    using assms(1) validate_limit_patch_OkD [of ?q]
    by (auto simp: apply_limit_patch_to_motor_def rbind_Ok_iff Let_def ensure_soft_inset_fields
        split: if_splits option.splits)
  let ?lo = "fmax Binary64 lo (lp_position_lower_rad p)" and ?hi = "fmin Binary64 hi (lp_position_upper_rad p)"
  have v: "f64_finite ?lo" "f64_val ?lo = f64_val lo" "f64_finite ?hi" "f64_val ?hi = f64_val hi"
    using b fin by (simp_all add: fmax_finite fmin_finite)
  then have "commanded_position_window cs motors joint = Some (?lo, ?hi)"
    using assms(3,4) b m' by (simp add: commanded_position_window_def fle_finite)
  then show ?thesis using v b by (intro exI [of _ ?lo] exI [of _ ?hi]) simp
qed

definition sample_patch :: limit_patch where
  "sample_patch =
     \<lparr>lp_joint = ''elbow'', lp_position_lower_rad = f64_zero, lp_position_upper_rad = f64_one,
      lp_torque_limit_nm = None, lp_position_soft_lower_rad = None, lp_position_soft_upper_rad = None,
      lp_velocity_max_rad_s = None\<rparr>"

lemma finite_default_inset [simp]: "f64_finite DEFAULT_SOFT_INSET_RAD"
  unfolding DEFAULT_SOFT_INSET_RAD_def f64_lit_def
proof (rule fround_finite)
  have "\<bar>27 / 1000 :: rat\<bar> \<le> 2 ^ 100" by simp
  also note pow_100_le_fmax_val
  finally show "\<bar>27 / 1000\<bar> \<le> fmax_val Binary64" .
qed

lemma ensure_soft_inset_valid:
  assumes "validate_limit_patch p = Ok ()"
    and "lp_position_soft_lower_rad p = None" and "lp_position_soft_upper_rad p = None"
  shows "validate_limit_patch (ensure_soft_inset p) = Ok ()"
proof -
  note h = validate_limit_patch_OkD [OF assms(1)]
  obtain lo hi where s: "soft_limits_with_inset (lp_position_lower_rad p) (lp_position_upper_rad p)
      DEFAULT_SOFT_INSET_RAD = (lo, hi)" by fastforce
  note i = soft_limits_inside [OF h(1-3) finite_default_inset s]
  have "ensure_soft_inset p = p\<lparr>lp_position_soft_lower_rad := Some lo, lp_position_soft_upper_rad := Some hi\<rparr>"
    using s assms(2,3) by (simp add: ensure_soft_inset_def get_or_insert_def)
  then show ?thesis
    using assms i by (auto simp: validate_limit_patch_def validate_finite_optional_def rbind_Ok_iff flt_finite)
qed

lemma default_soft_applies:
  assumes "validate_limit_patch p = Ok ()"
    and "lp_position_soft_lower_rad p = None" and "lp_position_soft_upper_rad p = None"
    and "me_joint m = lp_joint p"
  shows "is_ok (apply_limit_patch_to_motor (ensure_soft_inset p) m) \<and>
    is_ok (apply_limit_patch_to_control (ensure_soft_inset p) e)"
proof -
  let ?q = "ensure_soft_inset p"
  note v = ensure_soft_inset_valid [OF assms(1-3)]
  note h = validate_limit_patch_OkD [OF assms(1)]
  obtain lo hi where s: "soft_limits_with_inset (lp_position_lower_rad p) (lp_position_upper_rad p)
      DEFAULT_SOFT_INSET_RAD = (lo, hi)" by fastforce
  note i = soft_limits_inside [OF h(1-3) finite_default_inset s]
  have q: "?q = p\<lparr>lp_position_soft_lower_rad := Some lo, lp_position_soft_upper_rad := Some hi\<rparr>"
    using s assms(2,3) by (simp add: ensure_soft_inset_def get_or_insert_def)
  let ?c = "\<lambda>x. fclamp Binary64 x (lp_position_lower_rad p) (lp_position_upper_rad p)"
  have "f64_val (?c lo) \<le> f64_val (?c hi)" "f64_finite (?c lo)" "f64_finite (?c hi)"
    using i h(1-3) by (auto simp: fclamp_finite)
  then have "is_ok (apply_limit_patch_to_control ?q e)"
    using v by (simp add: apply_limit_patch_to_control_def effective_soft_def q Let_def flt_finite)
  moreover have "is_ok (apply_limit_patch_to_motor ?q m)"
    using v assms(4) by (simp add: apply_limit_patch_to_motor_def q Let_def)
  ultimately show ?thesis by simp
qed

text \<open>A valid patch that names no soft bounds is never refused. The default inset, taken
  from hard bounds that may be arbitrarily close or far apart, gives ordered soft bounds
  inside them, and both the motor and the control entry of the joint accept the patch.\<close>

theorem limit_patch_default_soft_applies:
  assumes "validate_limit_patch p = Ok ()"
    and "lp_position_soft_lower_rad p = None" and "lp_position_soft_upper_rad p = None"
    and "me_joint m = lp_joint p"
  shows "is_ok (apply_limit_patch_to_motor (ensure_soft_inset p) m) \<and>
    is_ok (apply_limit_patch_to_control (ensure_soft_inset p) e)"
  using default_soft_applies [OF assms] .

lemma sample_patch_valid: "validate_limit_patch sample_patch = Ok ()"
  by (simp add: sample_patch_def validate_limit_patch_def validate_positive_optional_def
      validate_finite_optional_def fle_finite trim_samples refuse_if_def)

theorem limit_patch_default_soft_applies_witness:
  "validate_limit_patch sample_patch = Ok () \<and> is_ok (apply_limit_patch_to_control (ensure_soft_inset sample_patch) sample_entry)"
  using limit_patch_default_soft_applies [OF sample_patch_valid, of sample_motor sample_entry] sample_patch_valid
  by (simp add: sample_patch_def sample_motor_def)

theorem limit_patch_window_witness:
  "\<exists>m' e' lo hi. apply_limit_patch_to_motor (ensure_soft_inset sample_patch) sample_motor = Ok m' \<and>
     apply_limit_patch_to_control (ensure_soft_inset sample_patch) sample_entry = Ok e' \<and>
     commanded_position_window (sample_control\<lparr>cs_joints := [(''elbow'', e')]\<rparr>) [m'] ''elbow'' = Some (lo, hi) \<and>
     f64_val lo \<le> f64_val hi"
proof -
  let ?p = "sample_patch"
  have v: "validate_limit_patch (ensure_soft_inset ?p) = Ok ()"
    by (rule ensure_soft_inset_valid [OF sample_patch_valid]) (simp_all add: sample_patch_def)
  obtain m' where m': "apply_limit_patch_to_motor (ensure_soft_inset ?p) sample_motor = Ok m'"
    using v by (auto simp: apply_limit_patch_to_motor_def ensure_soft_inset_def sample_patch_def sample_motor_def
        split_beta Let_def)
  then have j: "motor_for_joint [m'] ''elbow'' = Some m'"
    by (auto simp: apply_limit_patch_to_motor_def rbind_Ok_iff motor_for_joint_def sample_motor_def Let_def
        split: if_splits option.splits)
  have "is_ok (apply_limit_patch_to_control (ensure_soft_inset ?p) sample_entry)"
    using default_soft_applies [OF sample_patch_valid, of sample_motor sample_entry]
    by (simp add: sample_patch_def sample_motor_def)
  then obtain e' where e': "apply_limit_patch_to_control (ensure_soft_inset ?p) sample_entry = Ok e'"
    by (auto simp: is_ok_iff)
  have "map_of (cs_joints (sample_control\<lparr>cs_joints := [(''elbow'', e')]\<rparr>)) ''elbow'' = Some e'" by simp
  from limit_patch_window [OF m' e' this j] m' e' show ?thesis by blast
qed

section \<open>Narrowing an accepted configuration\<close>

text \<open>What the group and danger-zone loops accept.\<close>

lemma claimed_by_None:
  "claimed_by earlier grp before joint = None \<longleftrightarrow>
     joint \<notin> set (concat (map (ag_joints \<circ> snd) earlier)) \<and> joint \<notin> set before"
proof (cases "List.find (\<lambda>(_, prior). joint \<in> set (ag_joints prior)) earlier")
  case None
  then have "joint \<notin> set (concat (map (ag_joints \<circ> snd) earlier))"
    by (auto simp: find_None_iff)
  with None show ?thesis by (simp add: claimed_by_def)
next
  case (Some ng)
  then have "ng \<in> set earlier" "joint \<in> set (ag_joints (snd ng))"
    by (auto simp: find_Some_iff split_beta)
  then have "joint \<in> set (concat (map (ag_joints \<circ> snd) earlier))" by auto
  with Some show ?thesis by (simp add: claimed_by_def split_beta)
qed

definition group_ok :: "control_section \<Rightarrow> actuator_group_entry \<Rightarrow> bool" where
  "group_ok cs g \<longleftrightarrow>
     \<not> bad_velocity (ag_velocity_max_rad_s g) \<and> ag_joints g \<noteq> [] \<and>
     (\<forall>j \<in> set (ag_joints g). map_of (cs_joints cs) j \<noteq> None)"

lemma validate_actuator_group_Ok:
  "validate_actuator_group cs earlier (n, g) = Ok u \<longleftrightarrow>
     group_ok cs g \<and> distinct (ag_joints g) \<and>
     set (ag_joints g) \<inter> set (concat (map (ag_joints \<circ> snd) earlier)) = {}"
proof -
  have c: "(case claimed_by earlier n before j of Some other \<Rightarrow> Err (f other) | None \<Rightarrow> Ok ()) = Ok () \<longleftrightarrow>
      claimed_by earlier n before j = None" for before j and f :: "string \<Rightarrow> config_error"
    by (simp split: option.splits)
  have d: "distinct (ag_joints g) \<longleftrightarrow> (\<forall>i < length (ag_joints g). ag_joints g ! i \<notin> set (take i (ag_joints g)))"
    using distinct_prior [of id "ag_joints g"] by simp
  define E where "E = set (concat (map (ag_joints \<circ> snd) earlier))"
  have disj: "A \<inter> E = {} \<longleftrightarrow> (\<forall>j \<in> A. j \<notin> E)" for A by blast
  show ?thesis
    unfolding validate_actuator_group_def Let_def prod.case rbind_Ok_iff refuse_if_Ok for_each_prior_Ok c
      claimed_by_None group_ok_def d E_def [symmetric] disj all_set_conv_all_nth
    by auto
qed

lemma validate_actuator_groups_Ok:
  "validate_actuator_groups cs = Ok u \<longleftrightarrow>
     (\<forall>(n, g) \<in> set (cs_actuator_groups cs). group_ok cs g) \<and>
     distinct (concat (map (ag_joints \<circ> snd) (cs_actuator_groups cs)))"
proof -
  have "(\<forall>i < length gs. validate_actuator_group cs (take i gs) (gs ! i) = Ok ()) \<longleftrightarrow>
      (\<forall>(n, g) \<in> set gs. group_ok cs g) \<and> distinct (concat (map (ag_joints \<circ> snd) gs))" for gs
  proof (induction gs rule: rev_induct)
    case Nil
    then show ?case by simp
  next
    case (snoc x gs)
    obtain n g where x: "x = (n, g)" by fastforce
    have "(\<forall>i < length (gs @ [x]). validate_actuator_group cs (take i (gs @ [x])) ((gs @ [x]) ! i) = Ok ()) \<longleftrightarrow>
        (\<forall>i < length gs. validate_actuator_group cs (take i gs) (gs ! i) = Ok ()) \<and>
        validate_actuator_group cs gs x = Ok ()"
      by (auto simp: nth_append less_Suc_eq)
    also have "\<dots> \<longleftrightarrow> (\<forall>(n, g) \<in> set (gs @ [x]). group_ok cs g) \<and>
        distinct (concat (map (ag_joints \<circ> snd) (gs @ [x])))"
      unfolding snoc.IH x validate_actuator_group_Ok map_append concat_append distinct_append
      by (simp del: set_concat) blast
    finally show ?case .
  qed
  then show ?thesis by (simp add: validate_actuator_groups_def for_each_prior_Ok)
qed

lemma validate_danger_zone_Ok:
  "validate_danger_zone cs earlier z = Ok () \<longleftrightarrow>
     validate_danger_zone cs [] z = Ok () \<and> dz_name z \<notin> set (map dz_name earlier)"
proof -
  have e: "list_ex (\<lambda>p. dz_name p = n) zs \<longleftrightarrow> n \<in> set (map dz_name zs)" for n and zs :: "danger_zone_rule list"
    by (auto simp: list_ex_iff)
  show ?thesis
    unfolding validate_danger_zone_def Let_def rbind_Ok_iff refuse_if_Ok e list.map list.set(1) empty_iff by blast
qed

lemma validate_danger_zones_Ok:
  "for_each_prior [] (validate_danger_zone cs) zs = Ok u \<longleftrightarrow>
     (\<forall>z \<in> set zs. validate_danger_zone cs [] z = Ok ()) \<and> distinct (map dz_name zs)"
  unfolding for_each_prior_Ok distinct_prior all_set_conv_all_nth append_Nil
  by (subst validate_danger_zone_Ok) blast

text \<open>The narrowed configuration.\<close>

definition narrow_groups ::
    "string list \<Rightarrow> (string \<times> actuator_group_entry) list \<Rightarrow> (string \<times> actuator_group_entry) list" where
  "narrow_groups keep gs =
     filter (\<lambda>(_, g). ag_joints g \<noteq> [])
       (map (\<lambda>(n, g). (n, g\<lparr>ag_joints := filter (\<lambda>j. j \<in> set keep) (ag_joints g)\<rparr>)) gs)"

definition narrow_control :: "string list \<Rightarrow> control_section \<Rightarrow> control_section" where
  "narrow_control keep cs =
     cs\<lparr>cs_joints := filter (\<lambda>(j, _). j \<in> set keep) (cs_joints cs),
        cs_actuator_groups := narrow_groups keep (cs_actuator_groups cs),
        cs_danger_zones := filter (\<lambda>z. dz_joint z \<in> set keep) (cs_danger_zones cs)\<rparr>"

lemma apply_joint_subset_Ok:
  assumes "apply_joint_subset wanted robot motors cs = Ok (robot', motors', cs')"
  obtains keep where "keep = filter (\<lambda>j. j \<in> set wanted) (rb_joints robot)" "robot' = robot\<lparr>rb_joints := keep\<rparr>"
    "motors' = filter (\<lambda>m. me_joint m \<in> set keep) motors" "cs' = narrow_control keep cs"
  using assms that
  by (auto simp: apply_joint_subset_def narrow_control_def narrow_groups_def Let_def rbind_Ok_iff split: if_splits)

lemma map_of_filter_keep: "P k \<Longrightarrow> map_of (filter (\<lambda>(j, _). P j) xs) k = map_of xs k"
  by (induction xs) auto

lemma motor_for_joint_filter:
  "joint \<in> set keep \<Longrightarrow>
     motor_for_joint (filter (\<lambda>m. me_joint m \<in> set keep) motors) joint = motor_for_joint motors joint"
  unfolding motor_for_joint_def by (induction motors) auto

lemma narrow_groups_concat:
  "concat (map (ag_joints \<circ> snd) (narrow_groups keep gs)) =
     filter (\<lambda>j. j \<in> set keep) (concat (map (ag_joints \<circ> snd) gs))"
  unfolding narrow_groups_def by (induction gs) auto

lemma narrow_groups_find:
  assumes "joint \<in> set keep"
  shows "map_option (\<lambda>(n, g). (n, ag_velocity_max_rad_s g))
      (List.find (\<lambda>(_, g). joint \<in> set (ag_joints g)) (narrow_groups keep gs)) =
    map_option (\<lambda>(n, g). (n, ag_velocity_max_rad_s g)) (List.find (\<lambda>(_, g). joint \<in> set (ag_joints g)) gs)"
  using assms unfolding narrow_groups_def by (induction gs) (auto simp: filter_empty_conv)

lemma narrow_resolve:
  assumes "joint \<in> set keep"
  shows "resolve_joint_velocity_cap joint ty (narrow_control keep cs) = resolve_joint_velocity_cap joint ty cs"
proof -
  have g: "map_option (\<lambda>(n, g). (n, ag_velocity_max_rad_s g)) (actuator_group_for_joint joint (narrow_control keep cs)) =
      map_option (\<lambda>(n, g). (n, ag_velocity_max_rad_s g)) (actuator_group_for_joint joint cs)"
    using narrow_groups_find [OF assms] by (simp add: actuator_group_for_joint_def narrow_control_def)
  have r: "resolve_joint_velocity_cap joint ty c =
      (case (case map_of (cs_joints c) joint of Some e \<Rightarrow> jc_velocity_max_rad_s e | None \<Rightarrow> None) of
        Some v \<Rightarrow>
          if bad_velocity v
          then Err (InvalidVelocity joint [Txt ''velocity_max_rad_s must be finite and > 0'']) else Ok v
      | None \<Rightarrow>
          (case map_option (\<lambda>(n, g). (n, ag_velocity_max_rad_s g)) (actuator_group_for_joint joint c) of
             Some (_, v) \<Rightarrow>
               if bad_velocity v
               then Err (InvalidVelocity joint [Txt ''actuator group velocity_max_rad_s must be finite and > 0''])
               else Ok v
           | None \<Rightarrow>
               (case map_of (cs_motor_type_defaults c) (motor_type_key ty) of
                  None \<Rightarrow> Err (InvalidVelocity joint [Txt (''missing motor_type_defaults.'' @ motor_type_key ty)])
                | Some d \<Rightarrow>
                    if bad_velocity (mtd_velocity_max_rad_s d)
                    then Err (InvalidVelocity joint [Txt (''motor_type_defaults.'' @ motor_type_key ty @
                           ''.velocity_max_rad_s must be finite and > 0'')])
                    else Ok (mtd_velocity_max_rad_s d))))" for c
    unfolding resolve_joint_velocity_cap_def by (auto split: option.splits)
  have j: "map_of (cs_joints (narrow_control keep cs)) joint = map_of (cs_joints cs) joint"
    "cs_motor_type_defaults (narrow_control keep cs) = cs_motor_type_defaults cs"
    using map_of_filter_keep [of "\<lambda>j. j \<in> set keep" joint "cs_joints cs"] assms by (simp_all add: narrow_control_def)
  show ?thesis unfolding r g j ..
qed

lemma narrow_fields [simp]:
  "cs_motor_type_defaults (narrow_control keep cs) = cs_motor_type_defaults cs"
  "cs_loop_hz (narrow_control keep cs) = cs_loop_hz cs"
  "cs_chappe_state_hz (narrow_control keep cs) = cs_chappe_state_hz cs"
  "cs_comm_watchdog_ms (narrow_control keep cs) = cs_comm_watchdog_ms cs"
  "cs_feedback_drain_quiet_us (narrow_control keep cs) = cs_feedback_drain_quiet_us cs"
  "cs_tau_ff_rate_limit_nm_per_s (narrow_control keep cs) = cs_tau_ff_rate_limit_nm_per_s cs"
  "cs_wrong_sign_watchdog (narrow_control keep cs) = cs_wrong_sign_watchdog cs"
  "cs_drive_loss (narrow_control keep cs) = cs_drive_loss cs"
  "cs_joints (narrow_control keep cs) = filter (\<lambda>(j, _). j \<in> set keep) (cs_joints cs)"
  "cs_danger_zones (narrow_control keep cs) = filter (\<lambda>z. dz_joint z \<in> set keep) (cs_danger_zones cs)"
  "cs_actuator_groups (narrow_control keep cs) = narrow_groups keep (cs_actuator_groups cs)"
  by (simp_all add: narrow_control_def)

lemma narrow_map_of [simp]:
  "j \<in> set keep \<Longrightarrow> map_of (filter (\<lambda>(j, _). j \<in> set keep) xs) j = map_of xs j"
  by (rule map_of_filter_keep)

lemma narrow_groups_ok:
  assumes "validate_actuator_groups cs = Ok ()"
  shows "validate_actuator_groups (narrow_control keep cs) = Ok ()"
proof -
  have d: "distinct (concat (map (ag_joints \<circ> snd) (cs_actuator_groups cs)))"
    and ok: "\<forall>(n, g) \<in> set (cs_actuator_groups cs). group_ok cs g"
    using assms unfolding validate_actuator_groups_Ok by blast+
  have "group_ok (narrow_control keep cs) g" if "(n, g) \<in> set (narrow_groups keep (cs_actuator_groups cs))" for n g
  proof -
    from that obtain h where h: "(n, h) \<in> set (cs_actuator_groups cs)" "ag_joints g \<noteq> []"
      "g = h\<lparr>ag_joints := filter (\<lambda>j. j \<in> set keep) (ag_joints h)\<rparr>"
      by (auto simp: narrow_groups_def)
    moreover have "group_ok cs h" using ok h(1) by blast
    ultimately show ?thesis by (auto simp: group_ok_def)
  qed
  then show ?thesis
    unfolding validate_actuator_groups_Ok narrow_fields narrow_groups_concat
    using distinct_filter [OF d] by blast
qed

lemma narrow_danger_zone:
  assumes "validate_danger_zone cs [] z = Ok ()" and "dz_joint z \<in> set keep"
  shows "validate_danger_zone (narrow_control keep cs) [] z = Ok ()"
  using assms(1) unfolding validate_danger_zone_def Let_def narrow_fields narrow_map_of [OF assms(2)] .

lemma narrow_drive_loss:
  assumes "validate_drive_loss cs = Ok ()"
  shows "validate_drive_loss (narrow_control keep cs) = Ok ()"
proof (cases "cs_drive_loss cs")
  case None
  then have "List.find (\<lambda>(_, e). jc_on_drive_loss e = ShedSubtree) (cs_joints cs) = None"
    using assms by (auto simp: validate_drive_loss_def split: option.splits)
  then have "List.find (\<lambda>(_, e). jc_on_drive_loss e = ShedSubtree)
      (filter (\<lambda>(j, _). j \<in> set keep) (cs_joints cs)) = None"
    by (auto simp: find_None_iff)
  then show ?thesis using None by (simp add: validate_drive_loss_def)
qed (use assms in \<open>simp add: validate_drive_loss_def\<close>)

lemma narrow_control_ok:
  assumes "validate_control_config cs = Ok ()"
  shows "validate_control_config (narrow_control keep cs) = Ok ()"
proof -
  have g: "validate_actuator_groups cs = Ok ()" and j: "for_each validate_joint_entry (cs_joints cs) = Ok ()"
    and n: "validate_control_numbers cs = Ok ()"
    using assms by (auto simp: validate_control_config_def rbind_Ok_iff)
  have dz: "for_each_prior [] (validate_danger_zone cs) (cs_danger_zones cs) = Ok ()"
    and dl: "validate_drive_loss cs = Ok ()"
    using n by (auto simp: validate_control_numbers_def Let_def rbind_Ok_iff)
  have "for_each_prior [] (validate_danger_zone (narrow_control keep cs))
      (filter (\<lambda>z. dz_joint z \<in> set keep) (cs_danger_zones cs)) = Ok ()"
    using dz unfolding validate_danger_zones_Ok by (auto simp: narrow_danger_zone distinct_map_filter)
  moreover have "validate_entry_gains_against_motor_type (narrow_control keep cs) = validate_entry_gains_against_motor_type cs"
    by (simp add: fun_eq_iff validate_entry_gains_against_motor_type_def)
  ultimately have "validate_control_numbers (narrow_control keep cs) = Ok ()"
    using n narrow_drive_loss [OF dl] by (auto simp: validate_control_numbers_def Let_def rbind_Ok_iff for_each_Ok)
  then show ?thesis
    using narrow_groups_ok [OF g] j by (auto simp: validate_control_config_def rbind_Ok_iff for_each_Ok)
qed

lemma narrow_joint_limits:
  assumes "joint \<in> set keep"
  shows "validate_joint_limits (filter (\<lambda>m. me_joint m \<in> set keep) motors) (narrow_control keep cs) joint =
    validate_joint_limits motors cs joint"
  unfolding validate_joint_limits_def narrow_fields narrow_map_of [OF assms] narrow_resolve [OF assms]
    motor_for_joint_filter [OF assms] ..

lemma narrow_joint_homing:
  assumes "joint \<in> set keep"
  shows "validate_joint_homing (robot\<lparr>rb_joints := keep\<rparr>) (filter (\<lambda>m. me_joint m \<in> set keep) motors)
      (narrow_control keep cs) hs joint = validate_joint_homing robot motors cs hs joint"
proof -
  have r: "rb_max_joint_torque_nm (robot\<lparr>rb_joints := keep\<rparr>) = rb_max_joint_torque_nm robot" by simp
  show ?thesis
    unfolding validate_joint_homing_def narrow_fields narrow_resolve [OF assms] motor_for_joint_filter [OF assms] r ..
qed



text \<open>An operator's joint name only ever reaches a wired joint. An exact wired name is
  taken as it is; an alias resolves to a wired joint it names, and is refused when it names
  none or more than one.\<close>

theorem resolved_joint_exact:
  "resolve_command_joint input joints =
     (if input \<in> set joints then Some input
      else case remdups (filter (\<lambda>c. c \<in> set joints) (joint_aliases input)) of
          [c] \<Rightarrow> Some c
        | _ \<Rightarrow> None)"
proof -
  have "length (joint_aliases input) \<le> 2" by (simp add: joint_aliases_def)
  then consider "joint_aliases input = []" | a where "joint_aliases input = [a]"
    | a b where "joint_aliases input = [a, b]"
    by (cases "joint_aliases input"; cases "tl (joint_aliases input)") auto
  then show ?thesis by cases (auto simp: resolve_command_joint_def)
qed

text \<open>The effective commissioning scope is the persisted scope cut to the configured
  ceiling, sorted and without repetition; so it never names a joint outside the ceiling, and
  it widens over another scope exactly when it names a joint that one does not.\<close>

theorem effective_scope_exact:
  "set (effective_commissioning_scope persisted ceil_set) =
     (case ceil_set of Some c \<Rightarrow> set persisted \<inter> set c | None \<Rightarrow> set persisted) \<and>
   sorted (effective_commissioning_scope persisted ceil_set) \<and>
   distinct (effective_commissioning_scope persisted ceil_set) \<and>
   (scope_widens previous (effective_commissioning_scope persisted ceil_set) =
     (set (effective_commissioning_scope persisted ceil_set) - set previous \<noteq> {}))"
proof -
  have d: "distinct (remdups_adj xs)" if "sorted xs" for xs :: "string list"
    using that by (induction xs rule: remdups_adj.induct) (auto simp: order.antisym)
  show ?thesis
    by (auto simp: effective_commissioning_scope_def scope_widens_def list_ex_iff sorted_remdups_adj d
        split: option.splits)
qed

end
