(* ===== verification/Davout_Reporting.thy ===== *)
theory Davout_Reporting
  imports Config_Validation Robstride_Bus
begin

text \<open>
  Active Reporting of the drives (type-24 streams), \<open>crates/davout/src/active_reporting.rs\<close>,
  and the pacer of host write bursts, \<open>burst.rs\<close>: leases, the state last applied to each
  drive, and the paced writes that bring it to the desired state. Maps are association lists,
  the bus is any bus, and the instant of a call is its argument \<open>now\<close>.
\<close>

section \<open>State\<close>

definition DEFAULT_LEASE_TTL :: duration where "DEFAULT_LEASE_TTL = secs 30"
definition ACTIVE_REPORTING_HEARTBEAT :: duration where "ACTIVE_REPORTING_HEARTBEAT = secs 1"
definition ACTIVE_REPORTING_WRITE_SPACING :: duration where "ACTIVE_REPORTING_WRITE_SPACING = millis 5"
definition ACTIVE_REPORTING_FEEDBACK_STALE :: duration where "ACTIVE_REPORTING_FEEDBACK_STALE = millis 200"
definition MAX_LEASE_ID_LEN :: nat where "MAX_LEASE_ID_LEN = 64"
definition MAX_CLIENT_ID_LEN :: nat where "MAX_CLIENT_ID_LEN = 64"
definition MAX_LEASES_PER_JOINT :: nat where "MAX_LEASES_PER_JOINT = 8"

record lease_entry =
  le_client_id :: string
  le_expires :: instant

record active_reporting_state =
  ar_leases :: "(string \<times> (string \<times> lease_entry) list) list"
  ar_applied :: "(string \<times> bool) list"
  ar_last_enable_tx :: "(string \<times> instant) list"
  ar_heartbeat_cursor :: nat
  ar_last_heartbeat_attempt :: "instant option"
  ar_last_write_by_interface :: "(string \<times> instant) list"
  ar_off_written_at :: "(string \<times> instant) list"

definition active_reporting_default :: active_reporting_state where
  "active_reporting_default =
     \<lparr>ar_leases = [], ar_applied = [], ar_last_enable_tx = [], ar_heartbeat_cursor = 0,
      ar_last_heartbeat_attempt = None, ar_last_write_by_interface = [], ar_off_written_at = []\<rparr>"

datatype active_reporting_lease_error =
    UnknownJoint string
  | InvalidLeaseId
  | InvalidClientId
  | InvalidTtl
  | TooManyLeases string
  | MissingLease string string

record reporting_suspend_attempt =
  rs_joint :: string
  rs_address :: motor_address
  rs_error :: "bus_error option"

datatype exit_reporting_off = ExitSent | ExitFailed string | ExitShed | ExitBlackout

definition exit_all_sent :: "(motor_address \<times> exit_reporting_off) list \<Rightarrow> bool" where
  "exit_all_sent drives = (drives \<noteq> [] \<and> list_all (\<lambda>(_, out). out = ExitSent) drives)"

definition motor_address_of :: "motor_entry \<Rightarrow> motor_address" where
  "motor_address_of m = motor_address_new (me_can_interface m) (me_device_id m)"

section \<open>Pacing of bursts\<close>

text \<open>
  The host clock: its present instant and, per reading or sleep, how much later than asked the
  thread runs on (none once the list is used up). A sleep lasts at least the time asked for.
\<close>

record host_clock =
  hc_now :: instant
  hc_lags :: "nat list"

definition run_on :: "duration \<Rightarrow> host_clock \<Rightarrow> host_clock" where
  "run_on d h =
     (case hc_lags h of
        [] \<Rightarrow> h\<lparr>hc_now := hc_now h + int d\<rparr>
      | lag # lags \<Rightarrow> h\<lparr>hc_now := hc_now h + int d + int lag, hc_lags := lags\<rparr>)"

definition instant_now :: "host_clock \<Rightarrow> instant \<times> host_clock" where
  "instant_now h = (let h' = run_on 0 h in (hc_now h', h'))"

definition thread_sleep :: "duration \<Rightarrow> host_clock \<Rightarrow> host_clock" where
  "thread_sleep d h = run_on d h"

definition BURST_GROUP_SPACING :: duration where "BURST_GROUP_SPACING = millis 2"

record burst_pacer =
  bp_last_group :: "(string \<times> instant) list"

definition record_group :: "string \<Rightarrow> burst_pacer \<times> host_clock \<Rightarrow> burst_pacer \<times> host_clock" where
  "record_group interface ph =
     (let (p, h) = ph; (now, h') = instant_now h
      in (p\<lparr>bp_last_group := AList.update interface now (bp_last_group p)\<rparr>, h'))"

definition begin_group :: "string \<Rightarrow> burst_pacer \<times> host_clock \<Rightarrow> burst_pacer \<times> host_clock" where
  "begin_group interface ph =
     (let (p, h) = ph in
      case map_of (bp_last_group p) interface of
        None \<Rightarrow> record_group interface (p, h)
      | Some last_group \<Rightarrow>
          (let (now, h1) = instant_now h;
               wait = BURST_GROUP_SPACING - saturating_since now last_group;
               h2 = (if wait = 0 then h1 else thread_sleep wait h1)
           in record_group interface (p, h2)))"

section \<open>Leases\<close>

definition validate_ids :: "string \<Rightarrow> string \<Rightarrow> (unit, active_reporting_lease_error) result" where
  "validate_ids client_id lease_id =
     (let client = trim client_id; lease = trim lease_id in
      if client = [] \<or> MAX_CLIENT_ID_LEN < length client then Err InvalidClientId
      else if lease = [] \<or> MAX_LEASE_ID_LEN < length lease then Err InvalidLeaseId
      else Ok ())"

definition ensure_known_joint :: "string \<Rightarrow> motor_entry list \<Rightarrow> (unit, active_reporting_lease_error) result" where
  "ensure_known_joint joint known =
     (if list_ex (\<lambda>m. me_joint m = joint) known then Ok () else Err (UnknownJoint joint))"

definition has_live_lease :: "string \<Rightarrow> instant \<Rightarrow> active_reporting_state \<Rightarrow> bool" where
  "has_live_lease joint now st =
     (case map_of (ar_leases st) joint of
        None \<Rightarrow> False
      | Some by_id \<Rightarrow> list_ex (\<lambda>(_, e). now < le_expires e) by_id)"

definition expire_stale :: "instant \<Rightarrow> active_reporting_state \<Rightarrow> bool \<times> active_reporting_state" where
  "expire_stale now st =
     (let kept = map (\<lambda>(joint, by_id). (joint, filter (\<lambda>(_, e). now < le_expires e) by_id)) (ar_leases st)
      in (list_ex (\<lambda>(_, by_id). length (filter (\<lambda>(_, e). now < le_expires e) by_id) \<noteq> length by_id) (ar_leases st),
          st\<lparr>ar_leases := filter (\<lambda>(_, by_id). by_id \<noteq> []) kept\<rparr>))"

definition lease_acquire ::
    "string \<Rightarrow> string \<Rightarrow> string \<Rightarrow> duration \<Rightarrow> instant \<Rightarrow> motor_entry list \<Rightarrow> active_reporting_state \<Rightarrow>
     (unit, active_reporting_lease_error) result \<times> active_reporting_state" where
  "lease_acquire joint client_id lease_id ttl now known st =
     (case validate_ids client_id lease_id of
        Inl e \<Rightarrow> (Err e, st)
      | Inr _ \<Rightarrow>
          (case time_checked_add now ttl of
             None \<Rightarrow> (Err InvalidTtl, st)
           | Some expires \<Rightarrow>
               (case ensure_known_joint joint known of
                  Inl e \<Rightarrow> (Err e, st)
                | Inr _ \<Rightarrow>
                    (let by_id = (case map_of (ar_leases st) joint of Some b \<Rightarrow> b | None \<Rightarrow> []);
                         lease = trim lease_id
                     in if map_of by_id lease = None \<and> MAX_LEASES_PER_JOINT \<le> length by_id
                        then (Err (TooManyLeases joint), st\<lparr>ar_leases := AList.update joint by_id (ar_leases st)\<rparr>)
                        else (Ok (), st\<lparr>ar_leases := AList.update joint
                               (AList.update lease \<lparr>le_client_id = trim client_id, le_expires = expires\<rparr> by_id)
                               (ar_leases st)\<rparr>)))))"

definition lease_renew ::
    "string \<Rightarrow> string \<Rightarrow> string \<Rightarrow> duration \<Rightarrow> instant \<Rightarrow> motor_entry list \<Rightarrow> active_reporting_state \<Rightarrow>
     (unit, active_reporting_lease_error) result \<times> active_reporting_state" where
  "lease_renew joint client_id lease_id ttl now known st =
     (case validate_ids client_id lease_id of
        Inl e \<Rightarrow> (Err e, st)
      | Inr _ \<Rightarrow>
          (case time_checked_add now ttl of
             None \<Rightarrow> (Err InvalidTtl, st)
           | Some expires \<Rightarrow>
               (case ensure_known_joint joint known of
                  Inl e \<Rightarrow> (Err e, st)
                | Inr _ \<Rightarrow>
                    (let lease = trim lease_id; missing = Err (MissingLease joint lease)
                     in case map_of (ar_leases st) joint of
                          None \<Rightarrow> (missing, st)
                        | Some by_id \<Rightarrow>
                            (case map_of by_id lease of
                               None \<Rightarrow> (missing, st)
                             | Some _ \<Rightarrow>
                                 (Ok (), st\<lparr>ar_leases := AList.update joint
                                    (AList.update lease \<lparr>le_client_id = trim client_id, le_expires = expires\<rparr> by_id)
                                    (ar_leases st)\<rparr>))))))"

definition lease_release ::
    "string \<Rightarrow> string \<Rightarrow> motor_entry list \<Rightarrow> active_reporting_state \<Rightarrow>
     (unit, active_reporting_lease_error) result \<times> active_reporting_state" where
  "lease_release joint lease_id known st =
     (let lease = trim lease_id in
      if lease = [] \<or> MAX_LEASE_ID_LEN < length lease then (Err InvalidLeaseId, st)
      else (case ensure_known_joint joint known of
          Inl e \<Rightarrow> (Err e, st)
        | Inr _ \<Rightarrow>
            (case map_of (ar_leases st) joint of
               None \<Rightarrow> (Ok (), st)
             | Some by_id \<Rightarrow>
                 (let rest = AList.delete lease by_id
                  in (Ok (), st\<lparr>ar_leases :=
                       (if rest = [] then AList.delete joint (ar_leases st)
                        else AList.update joint rest (ar_leases st))\<rparr>)))))"

section \<open>Writes\<close>

definition applied_on :: "string \<Rightarrow> active_reporting_state \<Rightarrow> bool" where
  "applied_on joint st = (case map_of (ar_applied st) joint of Some b \<Rightarrow> b | None \<Rightarrow> False)"

definition off_written_at :: "string \<Rightarrow> active_reporting_state \<Rightarrow> instant option" where
  "off_written_at joint st = map_of (ar_off_written_at st) joint"

definition last_on_written :: "string \<Rightarrow> active_reporting_state \<Rightarrow> instant option" where
  "last_on_written joint st = map_of (ar_last_enable_tx st) joint"

definition desired :: "string \<Rightarrow> bool \<Rightarrow> bool \<Rightarrow> instant \<Rightarrow> active_reporting_state \<Rightarrow> bool" where
  "desired joint mode_active global_diagnostics now st =
     (\<not> mode_active \<and> (global_diagnostics \<or> has_live_lease joint now st))"

definition record_off :: "string \<Rightarrow> instant \<Rightarrow> active_reporting_state \<Rightarrow> active_reporting_state" where
  "record_off joint now st =
     st\<lparr>ar_applied := AList.update joint False (ar_applied st),
        ar_last_enable_tx := AList.delete joint (ar_last_enable_tx st),
        ar_off_written_at := AList.update joint now (ar_off_written_at st)\<rparr>"

definition record_on :: "string \<Rightarrow> instant \<Rightarrow> active_reporting_state \<Rightarrow> active_reporting_state" where
  "record_on joint now st =
     st\<lparr>ar_applied := AList.update joint True (ar_applied st),
        ar_last_enable_tx := AList.update joint now (ar_last_enable_tx st),
        ar_off_written_at := AList.delete joint (ar_off_written_at st)\<rparr>"

definition slot_free :: "string \<Rightarrow> instant \<Rightarrow> active_reporting_state \<Rightarrow> bool" where
  "slot_free interface now st =
     (case map_of (ar_last_write_by_interface st) interface of
        None \<Rightarrow> True
      | Some t \<Rightarrow> ACTIVE_REPORTING_WRITE_SPACING \<le> saturating_since now t)"

definition write_off ::
    "'b can_bus \<Rightarrow> motor_entry \<Rightarrow> instant \<Rightarrow> bool \<Rightarrow> active_reporting_state \<times> 'b \<Rightarrow>
     (unit, bus_error) result option \<times> active_reporting_state \<times> 'b" where
  "write_off ops motor now force stb =
     (let (st, b) = stb in
      if \<not> force \<and> \<not> slot_free (me_can_interface motor) now st then (None, st, b)
      else let st1 = st\<lparr>ar_last_write_by_interface :=
                 AList.update (me_can_interface motor) now (ar_last_write_by_interface st)\<rparr>;
               (res, b') = disable_active_reporting_at ops (motor_address_of motor) b
           in (Some res, if is_ok res then record_off (me_joint motor) now st1 else st1, b'))"

text \<open>The loop of \<open>suspend\<close>, with the pacer when one is given. \<open>leave_on\<close> is the
  caller's closure.\<close>

definition pace :: "string \<Rightarrow> burst_pacer option \<times> host_clock \<Rightarrow> burst_pacer option \<times> host_clock" where
  "pace interface ph =
     (case ph of
        (None, h) \<Rightarrow> (None, h)
      | (Some p, h) \<Rightarrow> (let (p', h') = begin_group interface (p, h) in (Some p', h')))"

fun suspend ::
    "'b can_bus \<Rightarrow> motor_address option \<Rightarrow> (motor_address \<Rightarrow> bool) \<Rightarrow> instant \<Rightarrow> motor_entry list \<Rightarrow>
     active_reporting_state \<times> (burst_pacer option \<times> host_clock) \<times> 'b \<Rightarrow>
     reporting_suspend_attempt list \<times> active_reporting_state \<times> (burst_pacer option \<times> host_clock) \<times> 'b" where
  "suspend ops unrecorded leave_on now [] s = ([], s)"
| "suspend ops unrecorded leave_on now (motor # motors) (st, ph, b) =
     (let address = motor_address_of motor in
      if unrecorded \<noteq> Some address \<and> (\<not> applied_on (me_joint motor) st \<or> leave_on address)
      then suspend ops unrecorded leave_on now motors (st, ph, b)
      else let (res, b') = disable_active_reporting_at ops address b;
               error = (case res of Inl e \<Rightarrow> Some e | Inr _ \<Rightarrow> None);
               st' = (if error = None then record_off (me_joint motor) now st else st);
               (attempts, s') = suspend ops unrecorded leave_on now motors
                 (st', pace (me_can_interface motor) ph, b')
           in (\<lparr>rs_joint = me_joint motor, rs_address = address, rs_error = error\<rparr> # attempts, s'))"

section \<open>Synchronisation\<close>

definition heartbeat_due ::
    "(string \<times> instant) list \<Rightarrow> string list \<Rightarrow> bool \<Rightarrow> bool \<Rightarrow> instant \<Rightarrow> active_reporting_state \<Rightarrow> string \<Rightarrow> bool"
  where "heartbeat_due last_rx held mode_active diag now st joint =
     (joint \<notin> set held \<and> desired joint mode_active diag now st \<and> applied_on joint st \<and>
      (case map_of last_rx joint of
         Some t \<Rightarrow> saturating_since now t < ACTIVE_REPORTING_FEEDBACK_STALE | None \<Rightarrow> False) \<and>
      (case map_of (ar_last_enable_tx st) joint of
         Some t \<Rightarrow> ACTIVE_REPORTING_HEARTBEAT \<le> saturating_since now t | None \<Rightarrow> True))"

definition heartbeat_motor ::
    "(string \<times> instant) list \<Rightarrow> string list \<Rightarrow> bool \<Rightarrow> bool \<Rightarrow> instant \<Rightarrow> motor_entry list \<Rightarrow>
     active_reporting_state \<Rightarrow> nat option" where
  "heartbeat_motor last_rx held mode_active diag now motors st =
     (let spacing_elapsed = (case ar_last_heartbeat_attempt st of
            Some t \<Rightarrow> ACTIVE_REPORTING_WRITE_SPACING \<le> saturating_since now t | None \<Rightarrow> True);
          count = length motors; start = ar_heartbeat_cursor st mod count
      in if spacing_elapsed \<and> motors \<noteq> []
         then List.find (\<lambda>i. heartbeat_due last_rx held mode_active diag now st (me_joint (motors ! i)))
           (map (\<lambda>offset. (start + offset) mod count) [0 ..< count])
         else None)"

definition feedback_stale ::
    "(string \<times> instant) list \<Rightarrow> instant \<Rightarrow> active_reporting_state \<Rightarrow> string \<Rightarrow> bool" where
  "feedback_stale last_rx now st joint =
     (applied_on joint st \<and>
      (case map_of last_rx joint of
         Some t \<Rightarrow> ACTIVE_REPORTING_FEEDBACK_STALE \<le> saturating_since now t
       | None \<Rightarrow>
           (case map_of (ar_last_enable_tx st) joint of
              Some t \<Rightarrow> ACTIVE_REPORTING_FEEDBACK_STALE \<le> saturating_since now t
            | None \<Rightarrow> False)))"

text \<open>The writes due, in configured order, with what is wanted and whether a write only
  refreshes a healthy stream; then stably sorted, refreshes last.\<close>

definition due_writes ::
    "(string \<times> instant) list \<Rightarrow> nat option \<Rightarrow> bool \<Rightarrow> bool \<Rightarrow> instant \<Rightarrow> motor_entry list \<Rightarrow>
     active_reporting_state \<Rightarrow> (nat \<times> bool \<times> bool) list" where
  "due_writes last_rx heartbeat mode_active diag now motors st =
     concat (map (\<lambda>index.
       let joint = me_joint (motors ! index);
           want = desired joint mode_active diag now st;
           have_on = applied_on joint st;
           stale = feedback_stale last_rx now st joint;
           refresh = (heartbeat = Some index);
           need_enable = want \<and> (\<not> have_on \<or> refresh \<or> stale);
           need_disable = \<not> want \<and> have_on
       in if need_enable \<or> need_disable then [(index, want, want \<and> have_on \<and> \<not> stale)] else [])
       [0 ..< length motors])"

definition sort_due :: "(nat \<times> bool \<times> bool) list \<Rightarrow> (nat \<times> bool \<times> bool) list" where
  "sort_due due = sort_key (\<lambda>(_, _, refresh_only). refresh_only) due"

definition write_due ::
    "'b can_bus \<Rightarrow> motor_entry list \<Rightarrow> string list \<Rightarrow> instant \<Rightarrow> nat \<times> bool \<times> bool \<Rightarrow>
     string list \<times> active_reporting_state \<times> 'b \<Rightarrow> string list \<times> active_reporting_state \<times> 'b" where
  "write_due ops motors held now d s =
     (let (index, want, refresh_only) = d; (deferred, st, b) = s;
          motor = motors ! index; joint = me_joint motor; interface = me_can_interface motor
      in if joint \<in> set held
         then (if want \<and> \<not> applied_on joint st then deferred @ [joint] else deferred, st, b)
         else if \<not> slot_free interface now st then (deferred, st, b)
         else let st1 = st\<lparr>ar_last_write_by_interface :=
                    AList.update interface now (ar_last_write_by_interface st)\<rparr>;
                  st2 = (if refresh_only
                    then st1\<lparr>ar_last_heartbeat_attempt := Some now,
                             ar_heartbeat_cursor := (index + 1) mod length motors\<rparr> else st1);
                  address = motor_address_of motor;
                  (res, b') = (if want then enable_active_reporting_at ops address b
                               else disable_active_reporting_at ops address b)
              in (deferred,
                  if is_ok res then (if want then record_on joint now st2 else record_off joint now st2) else st2,
                  b'))"

definition sync_holding ::
    "'b can_bus \<Rightarrow> motor_entry list \<Rightarrow> bool \<Rightarrow> bool \<Rightarrow> instant \<Rightarrow> (string \<times> instant) list \<Rightarrow> string list \<Rightarrow>
     active_reporting_state \<times> 'b \<Rightarrow> string list \<times> active_reporting_state \<times> 'b" where
  "sync_holding ops motors mode_active diag now last_rx held stb =
     (let st = snd (expire_stale now (fst stb));
          heartbeat = heartbeat_motor last_rx held mode_active diag now motors st;
          due = sort_due (due_writes last_rx heartbeat mode_active diag now motors st)
      in fold (write_due ops motors held now) due ([], st, snd stb))"

section \<open>Spacing\<close>

text \<open>A log of writes or group starts, oldest first; \<open>spaced d\<close>: two on one interface are at
  least \<open>d\<close> apart.\<close>

type_synonym tx_log = "(instant \<times> string) list"

definition spaced :: "duration \<Rightarrow> tx_log \<Rightarrow> bool" where
  "spaced d lg = sorted_wrt (\<lambda>(t, i) (t', i'). i = i' \<longrightarrow> t + int d \<le> t') lg"

lemma spaced_Nil [simp]: "spaced d []"
  by (simp add: spaced_def)

lemma spaced_snoc: "spaced d (lg @ [(t, i)]) \<longleftrightarrow> spaced d lg \<and> (\<forall>(s, j)\<in>set lg. i = j \<longrightarrow> s + int d \<le> t)"
  by (auto simp: spaced_def sorted_wrt_append)

text \<open>The bus that also notes each frame it is asked to send, with the instant of the call.\<close>

definition rec_ops :: "instant \<Rightarrow> 'b can_bus \<Rightarrow> ('b \<times> tx_log) can_bus" where
  "rec_ops now ops =
     \<lparr>bus_send_frame = (\<lambda>fr (b, lg). let (r, b') = bus_send_frame ops fr b in (r, b', lg)),
      bus_recv_one = (\<lambda>t (b, lg). let (r, b') = bus_recv_one ops t b in (r, b', lg)),
      bus_source_count = (\<lambda>(b, _). bus_source_count ops b),
      bus_begin_receive = (\<lambda>(b, lg). (bus_begin_receive ops b, lg)),
      bus_echoes = (\<lambda>(b, _). bus_echoes ops b),
      bus_validate_address = (\<lambda>a (b, _). bus_validate_address ops a b),
      bus_send_frame_to = (\<lambda>a fr (b, lg).
        let (r, b') = bus_send_frame_to ops a fr b in (r, b', lg @ [(now, addr_interface a)]))\<rparr>"

lemma rec_reporting:
  "enable_active_reporting_at (rec_ops now ops) a (b, lg) =
     (let (r, b') = enable_active_reporting_at ops a b in (r, b', lg @ [(now, addr_interface a)]))"
  "disable_active_reporting_at (rec_ops now ops) a (b, lg) =
     (let (r, b') = disable_active_reporting_at ops a b in (r, b', lg @ [(now, addr_interface a)]))"
  by (simp_all add: enable_active_reporting_at_def disable_active_reporting_at_def
      send_encoded_frame_to_def rec_ops_def split_beta)

lemma addr_interface_of [simp]: "addr_interface (motor_address_of m) = me_can_interface m"
  by (simp add: motor_address_of_def motor_address_new_def)

lemma record_last_write [simp]:
  "ar_last_write_by_interface (record_off j now st) = ar_last_write_by_interface st"
  "ar_last_write_by_interface (record_on j now st) = ar_last_write_by_interface st"
  by (simp_all add: record_off_def record_on_def)

text \<open>What the paced writers keep: every logged write is at most as late as the interface's
  recorded last write.\<close>

definition paced :: "active_reporting_state \<Rightarrow> tx_log \<Rightarrow> bool" where
  "paced st lg \<longleftrightarrow> spaced ACTIVE_REPORTING_WRITE_SPACING lg \<and>
     (\<forall>(t, i)\<in>set lg. \<exists>l. map_of (ar_last_write_by_interface st) i = Some l \<and> t \<le> l)"

lemma spacing_pos: "0 < ACTIVE_REPORTING_WRITE_SPACING"
  by (simp add: ACTIVE_REPORTING_WRITE_SPACING_def millis_def)

lemma paced_write:
  assumes "paced st lg" and "slot_free i now st"
    and "ar_last_write_by_interface st' = AList.update i now (ar_last_write_by_interface st)"
  shows "paced st' (lg @ [(now, i)])"
proof -
  have late: "t + int ACTIVE_REPORTING_WRITE_SPACING \<le> now" if "(t, i) \<in> set lg" for t
    using assms(1,2) that spacing_pos
    by (fastforce simp: paced_def slot_free_def saturating_since_ge_iff)
  have le: "t \<le> now" if "(t, i) \<in> set lg" for t using late [OF that] by simp
  from assms(1) late le show ?thesis
    unfolding paced_def spaced_snoc assms(3) by (fastforce simp: update_conv)
qed

lemma paced_cong:
  "ar_last_write_by_interface st' = ar_last_write_by_interface st \<Longrightarrow> paced st' lg = paced st lg"
  by (simp add: paced_def)

lemma write_off_paced:
  assumes "write_off (rec_ops now ops) m now False (st, b, lg) = (r, st', b', lg')" and "paced st lg"
  shows "paced st' lg'"
proof (cases "slot_free (me_can_interface m) now st")
  case True
  obtain res b1 where d: "disable_active_reporting_at ops (motor_address_of m) b = (res, b1)" by fastforce
  from assms(1) True d have "lg' = lg @ [(now, me_can_interface m)]"
    "ar_last_write_by_interface st' = AList.update (me_can_interface m) now (ar_last_write_by_interface st)"
    by (auto simp: write_off_def rec_reporting Let_def split: if_splits)
  with paced_write [OF assms(2) True] show ?thesis by simp
qed (use assms in \<open>auto simp: write_off_def\<close>)

lemma write_due_paced:
  assumes "paced st lg" and "write_due (rec_ops now ops) motors held now d (df, st, b, lg) = (df', st', b', lg')"
  shows "paced st' lg'"
proof -
  obtain index want refresh where dd: "d = (index, want, refresh)" by (cases d)
  let ?i = "me_can_interface (motors ! index)"
  show ?thesis
  proof (cases "me_joint (motors ! index) \<in> set held \<or> \<not> slot_free ?i now st")
    case True
    then show ?thesis using assms by (auto simp: write_due_def dd Let_def split: if_splits)
  next
    case False
    obtain res b1 where d: "(if want then enable_active_reporting_at ops (motor_address_of (motors ! index)) b
      else disable_active_reporting_at ops (motor_address_of (motors ! index)) b) = (res, b1)" by fastforce
    have "lg' = lg @ [(now, ?i)] \<and>
      ar_last_write_by_interface st' = AList.update ?i now (ar_last_write_by_interface st)"
      using assms(2) False d
      by (cases want; cases refresh) (auto simp: write_due_def dd rec_reporting Let_def)
    with paced_write [OF assms(1), of ?i now st'] False show ?thesis by simp
  qed
qed

lemma expire_last_write [simp]:
  "ar_last_write_by_interface (snd (expire_stale now st)) = ar_last_write_by_interface st"
  "ar_applied (snd (expire_stale now st)) = ar_applied st"
  by (simp_all add: expire_stale_def Let_def)

lemma sync_holding_paced:
  assumes "sync_holding (rec_ops now ops) motors act diag now rx held (st, b, lg) = (df, st', b', lg')"
    and "paced st lg"
  shows "paced st' lg'"
proof -
  have fold: "paced (fst (snd s)) (snd (snd (snd s))) \<Longrightarrow>
      paced (fst (snd (fold (write_due (rec_ops now ops) motors held now) ds s)))
        (snd (snd (snd (fold (write_due (rec_ops now ops) motors held now) ds s))))" for ds s
  proof (induction ds arbitrary: s)
    case (Cons d ds)
    obtain df st b lg where s: "s = (df, st, b, lg)" by (cases s)
    obtain df' st' b' lg' where w: "write_due (rec_ops now ops) motors held now d s = (df', st', b', lg')"
      by (cases "write_due (rec_ops now ops) motors held now d s")
    from Cons.IH [of "(df', st', b', lg')"] write_due_paced [of st lg now ops motors held d df b] Cons.prems w
    show ?case by (simp add: s)
  qed simp
  define ds where "ds = sort_due (due_writes rx (heartbeat_motor rx held act diag now motors
    (snd (expire_stale now st))) act diag now motors (snd (expire_stale now st)))"
  have eq: "fold (write_due (rec_ops now ops) motors held now) ds ([], snd (expire_stale now st), b, lg) =
      (df, st', b', lg')"
    using assms(1) by (simp add: sync_holding_def Let_def ds_def)
  have "paced (snd (expire_stale now st)) lg" using assms(2) by (simp add: paced_def)
  with fold [of "([], snd (expire_stale now st), b, lg)" ds] show ?thesis by (simp add: eq)
qed

section \<open>Reachable states\<close>

text \<open>
  The calls on the reporting state, with the paced writes logged. Unforced \<open>write_off\<close> and
  \<open>sync_holding\<close> are the paced ones; \<open>suspend\<close> has the burst pacer instead, and any other user
  may move the bus in between.
\<close>

inductive reporting_step ::
    "'b can_bus \<Rightarrow> active_reporting_state \<times> 'b \<times> tx_log \<Rightarrow> active_reporting_state \<times> 'b \<times> tx_log \<Rightarrow> bool"
  for ops where
    step_sync: "sync_holding (rec_ops now ops) motors act diag now rx held (st, b, lg) = (df, s') \<Longrightarrow>
      reporting_step ops (st, b, lg) s'"
  | step_off: "write_off (rec_ops now ops) m now False (st, b, lg) = (r, s') \<Longrightarrow>
      reporting_step ops (st, b, lg) s'"
  | step_suspend: "suspend ops unrecorded leave_on now motors (st, ph, b) = (at', st', ph', b') \<Longrightarrow>
      reporting_step ops (st, b, lg) (st', b', lg)"
  | step_acquire: "reporting_step ops (st, b, lg) (snd (lease_acquire j c l ttl now known st), b, lg)"
  | step_renew: "reporting_step ops (st, b, lg) (snd (lease_renew j c l ttl now known st), b, lg)"
  | step_release: "reporting_step ops (st, b, lg) (snd (lease_release j l known st), b, lg)"
  | step_bus: "reporting_step ops (st, b, lg) (st, b', lg)"

lemma suspend_last_write:
  "suspend ops unrecorded leave_on now motors (st, ph, b) = (at', st', ph', b') \<Longrightarrow>
     ar_last_write_by_interface st' = ar_last_write_by_interface st \<and> ar_leases st' = ar_leases st"
proof (induction motors arbitrary: st ph b at' st' ph' b')
  case (Cons m motors)
  show ?case
  proof (cases "unrecorded \<noteq> Some (motor_address_of m) \<and> (\<not> applied_on (me_joint m) st \<or> leave_on (motor_address_of m))")
    case False
    obtain res b1 where d: "disable_active_reporting_at ops (motor_address_of m) b = (res, b1)" by fastforce
    define st1 where "st1 = (if is_ok res then record_off (me_joint m) now st else st)"
    obtain at1 where "suspend ops unrecorded leave_on now motors (st1, pace (me_can_interface m) ph, b1) = (at1, st', ph', b')"
      using Cons.prems False d
      by (cases res) (auto simp: st1_def Let_def split: prod.splits)
    from Cons.IH [OF this] show ?thesis by (simp add: st1_def record_off_def)
  qed (use Cons in \<open>auto simp: Let_def\<close>)
qed simp

lemma lease_last_write [simp]:
  "ar_last_write_by_interface (snd (lease_acquire j c l ttl now known st)) = ar_last_write_by_interface st"
  "ar_last_write_by_interface (snd (lease_renew j c l ttl now known st)) = ar_last_write_by_interface st"
  "ar_last_write_by_interface (snd (lease_release j l known st)) = ar_last_write_by_interface st"
  by (auto simp: lease_acquire_def lease_renew_def lease_release_def Let_def split: sum.splits option.splits)

lemma reporting_step_paced:
  "reporting_step ops s s' \<Longrightarrow> paced (fst s) (snd (snd s)) \<Longrightarrow> paced (fst s') (snd (snd s'))"
proof (induction rule: reporting_step.induct)
  case (step_sync now motors act diag rx held st b lg df s')
  then show ?case by (cases s') (auto dest: sync_holding_paced)
next
  case (step_off now m st b lg r s')
  then show ?case by (cases s') (auto dest: write_off_paced)
next
  case (step_suspend unrecorded leave_on now motors st ph b at' st' ph' b' lg)
  from suspend_last_write [OF step_suspend(1)] step_suspend(2) show ?case by (simp add: paced_def)
qed (simp_all add: paced_def)

lemma reporting_steps_paced:
  "(reporting_step ops)\<^sup>*\<^sup>* s s' \<Longrightarrow> paced (fst s) (snd (snd s)) \<Longrightarrow> paced (fst s') (snd (snd s'))"
  by (induction rule: rtranclp_induct) (auto dest: reporting_step_paced)

text \<open>C26: however syncs, unforced Off writes, suspensions, lease calls and other bus traffic
  interleave, any two type-24 writes that sync or write_off put on one CAN interface are at
  least 5 ms apart, whatever instants the calls are given.\<close>

theorem reporting_writes_paced:
  assumes "(reporting_step ops)\<^sup>*\<^sup>* (active_reporting_default, b, []) (st, b', lg)"
  shows "spaced ACTIVE_REPORTING_WRITE_SPACING lg"
  using reporting_steps_paced [OF assms] by (simp add: paced_def)

definition sample_second :: motor_entry where
  "sample_second = sample_motor\<lparr>me_joint := ''wrist'', me_device_id := 5\<rparr>"

definition sample_tx :: memory_bus where
  "sample_tx = \<lparr>mb_tx = [], mb_rx_queue = []\<rparr>"

definition sample_sync ::
    "instant \<Rightarrow> active_reporting_state \<times> memory_bus \<times> tx_log \<Rightarrow> active_reporting_state \<times> memory_bus \<times> tx_log" where
  "sample_sync now s =
     snd (sync_holding (rec_ops now memory_bus_ops) [sample_motor, sample_second] False True now [] [] s)"

lemma memory_reporting_ok:
  "fst (enable_active_reporting_at memory_bus_ops a b) = Ok ()"
  "fst (disable_active_reporting_at memory_bus_ops a b) = Ok ()"
proof -
  have "tx_allowed (tx_frame (encode_default_active_reporting d on))" for d on
    by (simp add: tx_allowed_def tx_frame_def encode_default_active_reporting_def
        encode_active_reporting_def frame_comm_type_pack TX_COMMUNICATION_TYPES_def)
  then have "validate_can_tx (tx_frame (encode_default_active_reporting d on)) = Ok ()" for d on
    by (simp add: validate_can_tx_Ok)
  then show "fst (enable_active_reporting_at memory_bus_ops a b) = Ok ()"
    "fst (disable_active_reporting_at memory_bus_ops a b) = Ok ()"
    by (simp_all add: enable_active_reporting_at_def disable_active_reporting_at_def
        send_encoded_tx_frame memory_bus_ops_def memory_send_frame_def)
qed

lemma sample_paced_run:
  "snd (snd (sample_sync 5000000 (sample_sync 0 (active_reporting_default, sample_tx, [])))) =
     [(0, ''can0''), (5000000, ''can0'')]"
  by (simp add: sample_sync_def sync_holding_def expire_stale_def active_reporting_default_def
      heartbeat_motor_def heartbeat_due_def due_writes_def feedback_stale_def desired_def applied_on_def
      sort_due_def write_due_def slot_free_def sample_second_def sample_motor_def rec_reporting
      memory_reporting_ok record_on_def split_beta Let_def upt_rec motor_address_of_def motor_address_new_def
      saturating_since_def ACTIVE_REPORTING_WRITE_SPACING_def ACTIVE_REPORTING_FEEDBACK_STALE_def millis_def)

lemma sample_sync_step: "reporting_step memory_bus_ops s (sample_sync now s)"
  by (cases s) (auto simp: sample_sync_def intro!: step_sync surjective_pairing)

theorem reporting_writes_paced_witness:
  "\<exists>st b. (reporting_step memory_bus_ops)\<^sup>*\<^sup>* (active_reporting_default, sample_tx, [])
      (st, b, [(0, ''can0''), (5000000, ''can0'')]) \<and>
     spaced ACTIVE_REPORTING_WRITE_SPACING [(0, ''can0''), (5000000, ''can0'')]"
proof -
  let ?s = "(active_reporting_default, sample_tx, [])"
  obtain st b where run: "sample_sync 5000000 (sample_sync 0 ?s) = (st, b, [(0, ''can0''), (5000000, ''can0'')])"
    using sample_paced_run by (cases "sample_sync 5000000 (sample_sync 0 ?s)") auto
  have "(reporting_step memory_bus_ops)\<^sup>*\<^sup>* ?s (sample_sync 5000000 (sample_sync 0 ?s))"
    by (rule converse_rtranclp_into_rtranclp, rule sample_sync_step, rule r_into_rtranclp, rule sample_sync_step)
  then have "(reporting_step memory_bus_ops)\<^sup>*\<^sup>* ?s (st, b, [(0, ''can0''), (5000000, ''can0'')])"
    unfolding run .
  from this reporting_writes_paced [OF this] show ?thesis by blast
qed

section \<open>Entering Active mode turns every stream off\<close>

definition streams_on :: "motor_entry list \<Rightarrow> active_reporting_state \<Rightarrow> nat" where
  "streams_on motors st = length (filter (\<lambda>m. applied_on (me_joint m) st) motors)"

definition writes_until :: "instant \<Rightarrow> active_reporting_state \<Rightarrow> bool" where
  "writes_until t st \<longleftrightarrow> (\<forall>i l. map_of (ar_last_write_by_interface st) i = Some l \<longrightarrow> l \<le> t)"

lemma applied_on_record [simp]:
  "applied_on j (record_off k now st) \<longleftrightarrow> applied_on j st \<and> j \<noteq> k"
  "applied_on j (record_on k now st) \<longleftrightarrow> applied_on j st \<or> j = k"
  by (auto simp: applied_on_def record_off_def record_on_def update_conv)

lemma applied_on_cong: "ar_applied st' = ar_applied st \<Longrightarrow> applied_on j st' = applied_on j st"
  by (simp add: applied_on_def)

lemma streams_on_mono:
  "(\<And>j. applied_on j st' \<Longrightarrow> applied_on j st) \<Longrightarrow> streams_on motors st' \<le> streams_on motors st"
  unfolding streams_on_def by (induction motors) auto

lemma streams_on_less:
  assumes "\<And>j. applied_on j st' \<Longrightarrow> applied_on j st" and "m \<in> set motors"
    and "applied_on (me_joint m) st" and "\<not> applied_on (me_joint m) st'"
  shows "streams_on motors st' < streams_on motors st"
proof -
  let ?P = "\<lambda>st m. applied_on (me_joint m) st"
  have "filter (?P st') motors = filter (?P st') (filter (?P st) motors)"
    using assms(1) by (auto intro: filter_cong)
  moreover have "length (filter (?P st') (filter (?P st) motors)) < length (filter (?P st) motors)"
    using assms(2-4) by (intro length_filter_less [of m]) auto
  ultimately show ?thesis by (simp add: streams_on_def)
qed

lemma concat_map_if: "concat (map (\<lambda>x. if P x then [f x] else []) xs) = map f (filter P xs)"
  by (induction xs) simp_all

lemma active_due:
  "sort_due (due_writes rx hb True diag now motors st) =
     map (\<lambda>i. (i, False, False)) (filter (\<lambda>i. applied_on (me_joint (motors ! i)) st) [0 ..< length motors])"
proof -
  have "due_writes rx hb True diag now motors st =
      map (\<lambda>i. (i, False, False)) (filter (\<lambda>i. applied_on (me_joint (motors ! i)) st) [0 ..< length motors])"
    by (simp add: due_writes_def desired_def Let_def concat_map_if cong: if_cong)
  then show ?thesis
    by (simp add: sort_due_def sort_key_id_if_sorted o_def map_replicate_const)
qed

lemma write_off_due:
  assumes "write_due ops motors [] now (i, False, False) (df, st, b) = (df', st', b')"
  shows "applied_on j st' \<Longrightarrow> applied_on j st"
    and "writes_until now st \<Longrightarrow> writes_until now st'"
    and "is_ok (fst (disable_active_reporting_at ops (motor_address_of (motors ! i)) b)) \<Longrightarrow>
      slot_free (me_can_interface (motors ! i)) now st \<Longrightarrow> \<not> applied_on (me_joint (motors ! i)) st'"
proof -
  obtain r b1 where d: "disable_active_reporting_at ops (motor_address_of (motors ! i)) b = (r, b1)" by fastforce
  define st1 where "st1 = st\<lparr>ar_last_write_by_interface :=
    AList.update (me_can_interface (motors ! i)) now (ar_last_write_by_interface st)\<rparr>"
  have st': "st' = (if slot_free (me_can_interface (motors ! i)) now st
      then if is_ok r then record_off (me_joint (motors ! i)) now st1 else st1 else st)"
    using assms d by (auto simp: write_due_def Let_def st1_def split: if_splits)
  have a: "applied_on j st1 = applied_on j st" for j by (simp add: st1_def applied_on_def)
  show "applied_on j st' \<Longrightarrow> applied_on j st" by (auto simp: st' a split: if_splits)
  show "writes_until now st \<Longrightarrow> writes_until now st'"
    by (auto simp: st' st1_def writes_until_def update_conv split: if_splits)
  show "is_ok (fst (disable_active_reporting_at ops (motor_address_of (motors ! i)) b)) \<Longrightarrow>
      slot_free (me_can_interface (motors ! i)) now st \<Longrightarrow> \<not> applied_on (me_joint (motors ! i)) st'"
    by (simp add: st' d)
qed

lemma write_off_dues:
  assumes "fold (write_due ops motors [] now) (map (\<lambda>i. (i, False, False)) ks) s = s'"
  shows "applied_on j (fst (snd s')) \<Longrightarrow> applied_on j (fst (snd s))"
    and "writes_until now (fst (snd s)) \<Longrightarrow> writes_until now (fst (snd s'))"
  using assms
proof (induction ks arbitrary: s)
  case (Cons i ks)
  case 1
  then show ?case using Cons.IH(1) [of "write_due ops motors [] now (i, False, False) s"]
      write_off_due(1) [of ops motors now i "fst s" "fst (snd s)" "snd (snd s)"]
    by (cases "write_due ops motors [] now (i, False, False) s") auto
next
  case (Cons i ks)
  case 2
  then show ?case using Cons.IH(2) [of "write_due ops motors [] now (i, False, False) s"]
      write_off_due(2) [of ops motors now i "fst s" "fst (snd s)" "snd (snd s)"]
    by (cases "write_due ops motors [] now (i, False, False) s") auto
qed auto

lemma active_sync:
  assumes "sync_holding ops motors True diag now rx [] (st, b) = (df, st', b')"
  shows "writes_until now st \<Longrightarrow> writes_until now st'"
    and "\<forall>a b. is_ok (fst (disable_active_reporting_at ops a b)) \<Longrightarrow>
      writes_until (now - int ACTIVE_REPORTING_WRITE_SPACING) st \<Longrightarrow>
      streams_on motors st' \<le> streams_on motors st - 1"
proof -
  define st1 where "st1 = snd (expire_stale now st)"
  define js where "js = filter (\<lambda>i. applied_on (me_joint (motors ! i)) st1) [0 ..< length motors]"
  have st1: "applied_on j st1 = applied_on j st" "writes_until t st1 = writes_until t st"
    "slot_free i now st1 = slot_free i now st" for j t i
    by (simp_all add: st1_def applied_on_def writes_until_def slot_free_def)
  have eq: "fold (write_due ops motors [] now) (map (\<lambda>i. (i, False, False)) js) ([], st1, b) = (df, st', b')"
    using assms by (simp add: sync_holding_def Let_def st1_def js_def active_due)
  show "writes_until now st \<Longrightarrow> writes_until now st'" using write_off_dues(2) [OF eq] by (simp add: st1)
  assume ok: "\<forall>a b. is_ok (fst (disable_active_reporting_at ops a b))"
    and free: "writes_until (now - int ACTIVE_REPORTING_WRITE_SPACING) st"
  show "streams_on motors st' \<le> streams_on motors st - 1"
  proof (cases js)
    case Nil
    then have "streams_on motors st = 0"
      by (auto simp: js_def st1 streams_on_def filter_empty_conv in_set_conv_nth)
    then show ?thesis
      using write_off_dues(1) [OF eq] streams_on_mono [of st' st motors] by (auto simp: st1)
  next
    case (Cons i ks)
    then have "i \<in> set js" by simp
    then have i: "i < length motors" "applied_on (me_joint (motors ! i)) st" by (simp_all add: js_def st1)
    obtain df2 st2 b2 where w: "write_due ops motors [] now (i, False, False) ([], st1, b) = (df2, st2, b2)"
      by (cases "write_due ops motors [] now (i, False, False) ([], st1, b)")
    have "slot_free (me_can_interface (motors ! i)) now st1"
      unfolding st1 using free spacing_pos
      by (cases "map_of (ar_last_write_by_interface st) (me_can_interface (motors ! i))")
        (fastforce simp: slot_free_def writes_until_def saturating_since_ge_iff)+
    with write_off_due(3) [OF w] ok have off: "\<not> applied_on (me_joint (motors ! i)) st2" by simp
    have "fold (write_due ops motors [] now) (map (\<lambda>i. (i, False, False)) ks) (df2, st2, b2) = (df, st', b')"
      using eq by (simp add: Cons w)
    note rest = write_off_dues(1) [OF this]
    have "streams_on motors st' < streams_on motors st"
      using streams_on_less [of st' st "motors ! i" motors] rest write_off_due(1) [OF w] off i
      by (auto simp: st1)
    then show ?thesis by simp
  qed
qed

text \<open>Successive syncs in Active mode.\<close>

definition active_syncs ::
    "'b can_bus \<Rightarrow> motor_entry list \<Rightarrow> bool \<Rightarrow> (string \<times> instant) list \<Rightarrow> instant list \<Rightarrow>
     active_reporting_state \<times> 'b \<Rightarrow> active_reporting_state \<times> 'b" where
  "active_syncs ops motors diag rx nows s =
     fold (\<lambda>now s. snd (sync_holding ops motors True diag now rx [] s)) nows s"

lemma active_syncs_off:
  assumes "\<forall>a b. is_ok (fst (disable_active_reporting_at ops a b))"
    and "sorted_wrt (\<lambda>t t'. t + int ACTIVE_REPORTING_WRITE_SPACING \<le> t') (t0 # nows)"
    and "writes_until t0 (fst s)"
  shows "streams_on motors (fst (active_syncs ops motors diag rx nows s)) \<le> streams_on motors (fst s) - length nows"
  using assms(2,3)
proof (induction nows arbitrary: s t0)
  case Nil
  then show ?case by (simp add: active_syncs_def)
next
  case (Cons now nows)
  obtain st b where s: "s = (st, b)" by (cases s)
  obtain df st' b' where sy: "sync_holding ops motors True diag now rx [] (st, b) = (df, st', b')"
    by (cases "sync_holding ops motors True diag now rx [] (st, b)")
  from Cons.prems have "writes_until (now - int ACTIVE_REPORTING_WRITE_SPACING) st" "writes_until now st"
    by (fastforce simp: s writes_until_def)+
  with active_sync [OF sy] assms(1) have "writes_until now st'" "streams_on motors st' \<le> streams_on motors st - 1"
    by auto
  with Cons.IH [of now "(st', b')"] Cons.prems show ?case
    by (fastforce simp: active_syncs_def s sy)
qed



section \<open>The lease table\<close>

definition lease_row_ok :: "(string \<times> lease_entry) list \<Rightarrow> bool" where
  "lease_row_ok by_id \<longleftrightarrow> by_id \<noteq> [] \<and> distinct (map fst by_id) \<and> length by_id \<le> MAX_LEASES_PER_JOINT \<and>
     list_all (\<lambda>(i, e). i \<noteq> [] \<and> length i \<le> MAX_LEASE_ID_LEN \<and>
       le_client_id e \<noteq> [] \<and> length (le_client_id e) \<le> MAX_CLIENT_ID_LEN) by_id"

definition leases_wf :: "active_reporting_state \<Rightarrow> bool" where
  "leases_wf st \<longleftrightarrow> distinct (map fst (ar_leases st)) \<and> list_all (\<lambda>(_, by_id). lease_row_ok by_id) (ar_leases st)"

definition lease_at :: "active_reporting_state \<Rightarrow> string \<Rightarrow> string \<Rightarrow> lease_entry option" where
  "lease_at st joint = (case map_of (ar_leases st) joint of None \<Rightarrow> (\<lambda>_. None) | Some by_id \<Rightarrow> map_of by_id)"

lemma leases_wf_row: "leases_wf st \<Longrightarrow> map_of (ar_leases st) j = Some by_id \<Longrightarrow> lease_row_ok by_id"
  by (auto simp: leases_wf_def list_all_iff dest: map_of_SomeD)

lemma set_update: "set (AList.update k v xs) \<subseteq> insert (k, v) (set xs)"
  by (induction xs) auto

lemma length_update: "length (AList.update k v xs) = (if k \<in> fst ` set xs then length xs else length xs + 1)"
  by (induction xs) auto

lemma leases_wf_update:
  assumes "leases_wf st" and "lease_row_ok row"
  shows "leases_wf (st\<lparr>ar_leases := AList.update j row (ar_leases st)\<rparr>)"
  using assms set_update [of j row "ar_leases st"]
  by (fastforce simp: leases_wf_def list_all_iff distinct_update)

lemma lease_at_update:
  "lease_at (st\<lparr>ar_leases := AList.update j row (ar_leases st)\<rparr>) = (lease_at st)(j := map_of row)"
  by (auto simp: lease_at_def update_conv fun_eq_iff)

lemma lease_row_insert:
  assumes "by_id = [] \<or> lease_row_ok by_id" and "map_of by_id i = None \<longrightarrow> length by_id < MAX_LEASES_PER_JOINT"
    and "validate_ids c l = Ok u" and "i = trim l" "le_client_id e = trim c"
  shows "lease_row_ok (AList.update i e by_id)"
proof -
  have "length (AList.update i e by_id) \<le> MAX_LEASES_PER_JOINT"
    using assms(1,2) by (auto simp: length_update lease_row_ok_def map_of_eq_None_iff MAX_LEASES_PER_JOINT_def)
  moreover have "AList.update i e by_id \<noteq> []" by (cases by_id) auto
  moreover have "distinct (map fst (AList.update i e by_id))"
    using assms(1) by (auto simp: lease_row_ok_def intro: distinct_update)
  ultimately show ?thesis
    using assms set_update [of i e by_id]
    by (fastforce simp: lease_row_ok_def list_all_iff validate_ids_def Let_def split: if_splits)
qed

text \<open>Each call by outcome.\<close>

lemma lease_acquire_cases:
  assumes "lease_acquire j c l ttl now known st = (r, st')"
  obtains (refused) "\<not> is_ok r" "st' = st"
  | (over) row where "r = Err (TooManyLeases j)" "map_of (ar_leases st) j = Some row"
      "st' = st\<lparr>ar_leases := AList.update j row (ar_leases st)\<rparr>"
  | (granted) row e where "r = Ok ()" "row = (case map_of (ar_leases st) j of Some b \<Rightarrow> b | None \<Rightarrow> [])"
      "st' = st\<lparr>ar_leases := AList.update j (AList.update (trim l) e row) (ar_leases st)\<rparr>"
      "e = \<lparr>le_client_id = trim c, le_expires = now + int ttl\<rparr>" "validate_ids c l = Ok ()"
      "map_of row (trim l) = None \<longrightarrow> length row < MAX_LEASES_PER_JOINT"
proof (cases "is_ok (validate_ids c l) \<and> time_checked_add now ttl \<noteq> None \<and> is_ok (ensure_known_joint j known)")
  case False
  then show thesis
    using assms by (intro refused) (auto simp: lease_acquire_def split: sum.splits option.splits dest: sym)
next
  case True
  define row where "row = (case map_of (ar_leases st) j of Some b \<Rightarrow> b | None \<Rightarrow> [])"
  from True obtain k where v: "validate_ids c l = Ok ()" and t: "time_checked_add now ttl = Some (now + int ttl)"
    and k: "ensure_known_joint j known = Ok k"
    by (auto simp: is_ok_iff time_checked_add_def split: if_splits)
  show thesis
  proof (cases "map_of row (trim l) = None \<and> MAX_LEASES_PER_JOINT \<le> length row")
    case True
    then have "map_of (ar_leases st) j = Some row"
      by (auto simp: row_def MAX_LEASES_PER_JOINT_def split: option.splits)
    moreover from this True have "lease_acquire j c l ttl now known st =
        (Err (TooManyLeases j), st\<lparr>ar_leases := AList.update j row (ar_leases st)\<rparr>)"
      by (simp add: lease_acquire_def v t k Let_def)
    ultimately show thesis using over [of row] assms by simp
  next
    case False
    then have "lease_acquire j c l ttl now known st = (Ok (), st\<lparr>ar_leases := AList.update j
        (AList.update (trim l) \<lparr>le_client_id = trim c, le_expires = now + int ttl\<rparr> row) (ar_leases st)\<rparr>)"
      by (simp add: lease_acquire_def v t k Let_def row_def [symmetric])
    with False show thesis using granted [OF _ row_def _ refl v] assms by auto
  qed
qed

lemma lease_renew_cases:
  assumes "lease_renew j c l ttl now known st = (r, st')"
  obtains (refused) "\<not> is_ok r" "st' = st"
  | (renewed) row e0 e where "r = Ok ()" "map_of (ar_leases st) j = Some row" "map_of row (trim l) = Some e0"
      "st' = st\<lparr>ar_leases := AList.update j (AList.update (trim l) e row) (ar_leases st)\<rparr>"
      "e = \<lparr>le_client_id = trim c, le_expires = now + int ttl\<rparr>" "validate_ids c l = Ok ()"
proof (cases "is_ok (validate_ids c l) \<and> time_checked_add now ttl \<noteq> None \<and> is_ok (ensure_known_joint j known) \<and>
    lease_at st j (trim l) \<noteq> None")
  case False
  then show thesis
    using assms by (intro refused) (auto simp: lease_renew_def lease_at_def Let_def split: sum.splits option.splits dest: sym)
next
  case True
  from True obtain k where v: "validate_ids c l = Ok ()" and t: "time_checked_add now ttl = Some (now + int ttl)"
    and k: "ensure_known_joint j known = Ok k"
    by (auto simp: is_ok_iff time_checked_add_def split: if_splits)
  from True obtain row e0 where r: "map_of (ar_leases st) j = Some row" "map_of row (trim l) = Some e0"
    by (auto simp: lease_at_def split: option.splits)
  then have "lease_renew j c l ttl now known st = (Ok (), st\<lparr>ar_leases := AList.update j
      (AList.update (trim l) \<lparr>le_client_id = trim c, le_expires = now + int ttl\<rparr> row) (ar_leases st)\<rparr>)"
    by (simp add: lease_renew_def v t k Let_def)
  then show thesis using renewed [OF _ r _ refl v] assms by simp
qed

lemma lease_release_cases:
  assumes "lease_release j l known st = (r, st')"
  obtains (refused) "\<not> is_ok r" "st' = st"
  | (absent) "r = Ok ()" "st' = st" "map_of (ar_leases st) j = None"
  | (released) row where "r = Ok ()" "map_of (ar_leases st) j = Some row"
      "st' = st\<lparr>ar_leases := (if AList.delete (trim l) row = [] then AList.delete j (ar_leases st)
         else AList.update j (AList.delete (trim l) row) (ar_leases st))\<rparr>"
proof (cases "trim l = [] \<or> MAX_LEASE_ID_LEN < length (trim l) \<or> \<not> is_ok (ensure_known_joint j known)")
  case True
  then show thesis
    using assms by (intro refused) (auto simp: lease_release_def Let_def split: sum.splits if_splits dest: sym)
next
  case False
  then obtain k where k: "ensure_known_joint j known = Ok k" by (auto simp: is_ok_iff)
  show thesis
  proof (cases "map_of (ar_leases st) j")
    case None
    with False k have "lease_release j l known st = (Ok (), st)" by (simp add: lease_release_def Let_def)
    with absent None assms show thesis by simp
  next
    case (Some row)
    with False k have "lease_release j l known st = (Ok (), st\<lparr>ar_leases :=
        (if AList.delete (trim l) row = [] then AList.delete j (ar_leases st)
         else AList.update j (AList.delete (trim l) row) (ar_leases st))\<rparr>)"
      by (simp add: lease_release_def Let_def)
    with released [OF _ Some] assms show thesis by simp
  qed
qed

lemma lease_row_sub:
  "lease_row_ok row \<Longrightarrow> row' \<noteq> [] \<Longrightarrow> row' = filter P row \<Longrightarrow> lease_row_ok row'"
  using order_trans [OF length_filter_le, of row MAX_LEASES_PER_JOINT P]
  by (auto simp: lease_row_ok_def list_all_iff distinct_map_filter)

lemma delete_filter: "AList.delete k xs = filter (\<lambda>(i, _). i \<noteq> k) xs"
  by (induction xs) auto

lemma leases_wf_release:
  assumes "leases_wf st"
  shows "leases_wf (snd (lease_release j l known st))"
  using surjective_pairing [of "lease_release j l known st"]
proof (cases rule: lease_release_cases)
  case (released row)
  then have row: "lease_row_ok row" using assms leases_wf_row by blast
  show ?thesis
  proof (cases "AList.delete (trim l) row = []")
    case True
    then show ?thesis using assms released(3)
      by (auto simp: leases_wf_def list_all_iff delete_filter distinct_map_filter)
  next
    case False
    with lease_row_sub [OF row False delete_filter] leases_wf_update [OF assms] released(3)
    show ?thesis by simp
  qed
qed (use assms in simp_all)

lemma leases_wf_acquire:
  assumes "leases_wf st"
  shows "leases_wf (snd (lease_acquire j c l ttl now known st))"
  using surjective_pairing [of "lease_acquire j c l ttl now known st"]
proof (cases rule: lease_acquire_cases)
  case (over row)
  with leases_wf_update [OF assms leases_wf_row [OF assms over(2)]] show ?thesis by simp
next
  case (granted row e)
  have "row = [] \<or> lease_row_ok row"
    using granted(2) leases_wf_row [OF assms] by (auto split: option.splits)
  from lease_row_insert [OF this granted(6,5) refl] granted(3,4) leases_wf_update [OF assms]
  show ?thesis by simp
qed (use assms in simp)

lemma leases_wf_renew:
  assumes "leases_wf st"
  shows "leases_wf (snd (lease_renew j c l ttl now known st))"
  using surjective_pairing [of "lease_renew j c l ttl now known st"]
proof (cases rule: lease_renew_cases)
  case (renewed row e0 e)
  have "row = [] \<or> lease_row_ok row" using renewed(2) leases_wf_row [OF assms] by simp
  from lease_row_insert [OF this _ renewed(6) refl] renewed(3,4,5) leases_wf_update [OF assms]
  show ?thesis by simp
qed (use assms in simp)

lemma expire_rows:
  "ar_leases (snd (expire_stale now st)) =
     filter (\<lambda>(_, row). row \<noteq> []) (map (\<lambda>(j, row). (j, filter (\<lambda>(_, e). now < le_expires e) row)) (ar_leases st))"
  by (simp add: expire_stale_def Let_def)

lemma leases_wf_expire:
  assumes "leases_wf st"
  shows "leases_wf (snd (expire_stale now st))"
proof -
  have "distinct (map fst (map (\<lambda>(j, row). (j, filter (\<lambda>(_, e). now < le_expires e) row)) (ar_leases st)))"
    using assms by (simp add: leases_wf_def o_def split_beta)
  then have "distinct (map fst (ar_leases (snd (expire_stale now st))))"
    unfolding expire_rows by (rule distinct_map_filter)
  moreover have "lease_row_ok row" if "(j, row) \<in> set (ar_leases (snd (expire_stale now st)))" for j row
  proof -
    from that obtain row0 where "(j, row0) \<in> set (ar_leases st)" "row \<noteq> []"
      "row = filter (\<lambda>(_, e). now < le_expires e) row0" by (auto simp: expire_rows)
    with lease_row_sub [of row0 row] assms show ?thesis by (fastforce simp: leases_wf_def list_all_iff)
  qed
  ultimately show ?thesis by (auto simp: leases_wf_def list_all_iff)
qed

lemma leases_wf_cong: "ar_leases st' = ar_leases st \<Longrightarrow> leases_wf st' = leases_wf st"
  by (simp add: leases_wf_def)

lemma write_leases:
  "ar_leases (fst (snd (write_off ops m now force (st, b)))) = ar_leases st"
  "ar_leases (fst (snd (write_due ops motors held now d s))) = ar_leases (fst (snd s))"
  by (auto simp: write_off_def write_due_def record_off_def record_on_def Let_def split_beta)

lemma sync_leases:
  "ar_leases (fst (snd (sync_holding ops motors act diag now rx held (st, b)))) =
     ar_leases (snd (expire_stale now st))"
proof -
  have "ar_leases (fst (snd (fold (write_due ops motors held now) ds s))) = ar_leases (fst (snd s))" for ds s
    by (induction ds arbitrary: s) (simp_all add: write_leases)
  then show ?thesis by (simp add: sync_holding_def Let_def)
qed

lemma reporting_step_leases: "reporting_step ops s s' \<Longrightarrow> leases_wf (fst s) \<Longrightarrow> leases_wf (fst s')"
proof (induction rule: reporting_step.induct)
  case (step_sync now motors act diag rx held st b lg df s')
  with sync_leases [of "rec_ops now ops" motors act diag now rx held st "(b, lg)"]
  have "ar_leases (fst s') = ar_leases (snd (expire_stale now st))" by simp
  from leases_wf_cong [OF this] leases_wf_expire [of st now] step_sync(2) show ?case by simp
next
  case (step_off now m st b lg r s')
  with write_leases(1) [of "rec_ops now ops" m now False st "(b, lg)"]
  have "ar_leases (fst s') = ar_leases st" by simp
  with step_off(2) show ?case by (simp add: leases_wf_def)
next
  case (step_suspend unrecorded leave_on now motors st ph b at' st' ph' b' lg)
  from suspend_last_write [OF step_suspend(1)] step_suspend(2) show ?case by (simp add: leases_wf_def)
qed (simp_all add: leases_wf_acquire leases_wf_renew leases_wf_release)

text \<open>C28: in every reachable state the lease table has one row per joint and one entry per lease
  id, at most eight leases per joint, no empty row, and identifiers of 1 to 64 bytes.\<close>

theorem lease_table_wf:
  assumes "(reporting_step ops)\<^sup>*\<^sup>* (active_reporting_default, b, []) (st, b', lg)"
  shows "leases_wf st"
proof -
  have "leases_wf (fst s') " if "(reporting_step ops)\<^sup>*\<^sup>* s s'" "leases_wf (fst s)" for s s'
    using that by (induction rule: rtranclp_induct) (auto dest: reporting_step_leases)
  from this [OF assms] show ?thesis by (simp add: leases_wf_def active_reporting_default_def)
qed

lemma lease_at_row: "map_of (ar_leases st) j = Some row \<Longrightarrow> lease_at st j = map_of row"
  by (simp add: lease_at_def)

lemma lease_acquire_refines:
  "lease_at (snd (lease_acquire j c l ttl now known st)) =
      (if is_ok (fst (lease_acquire j c l ttl now known st))
       then (lease_at st)(j := (lease_at st j)(trim l \<mapsto> \<lparr>le_client_id = trim c, le_expires = now + int ttl\<rparr>))
       else lease_at st)"
  using surjective_pairing [of "lease_acquire j c l ttl now known st"]
proof (cases rule: lease_acquire_cases)
  case refused
  then show ?thesis by simp
next
  case (over row)
  have "(lease_at st)(j := map_of row) = lease_at st" using lease_at_row [OF over(2)] by auto
  with over show ?thesis by (simp add: lease_at_update)
next
  case (granted row e)
  have "map_of row = lease_at st j" using granted(2) by (auto simp: lease_at_def split: option.splits)
  with granted show ?thesis by (simp add: lease_at_update update_conv')
qed

lemma lease_renew_refines:
  "lease_at (snd (lease_renew j c l ttl now known st)) =
      (if is_ok (fst (lease_renew j c l ttl now known st))
       then (lease_at st)(j := (lease_at st j)(trim l \<mapsto> \<lparr>le_client_id = trim c, le_expires = now + int ttl\<rparr>))
       else lease_at st)"
  using surjective_pairing [of "lease_renew j c l ttl now known st"]
proof (cases rule: lease_renew_cases)
  case refused
  then show ?thesis by simp
next
  case (renewed row e0 e)
  with lease_at_row [OF renewed(2)] show ?thesis by (simp add: lease_at_update update_conv')
qed

lemma lease_release_refines:
  assumes "leases_wf st"
  shows "lease_at (snd (lease_release j l known st)) =
      (if is_ok (fst (lease_release j l known st))
       then (lease_at st)(j := (lease_at st j)(trim l := None)) else lease_at st)"
  using surjective_pairing [of "lease_release j l known st"]
proof (cases rule: lease_release_cases)
  case refused
  then show ?thesis by simp
next
  case absent
  then show ?thesis by (auto simp: lease_at_def fun_eq_iff)
next
  case (released row)
  have del: "map_of (AList.delete (trim l) row) = (map_of row)(trim l := None)"
    by (simp add: delete_conv')
  show ?thesis
  proof (cases "AList.delete (trim l) row = []")
    case True
    with del have none: "(map_of row)(trim l := None) = (\<lambda>_. None)" by simp
    have "lease_at (st\<lparr>ar_leases := AList.delete j (ar_leases st)\<rparr>) = (lease_at st)(j := (\<lambda>_. None))"
      by (auto simp: lease_at_def fun_eq_iff delete_conv')
    with True released lease_at_row [OF released(2)] none show ?thesis by simp
  next
    case False
    with released lease_at_row [OF released(2)] del show ?thesis by (simp add: lease_at_update)
  qed
qed

lemma map_of_filter_value:
  "distinct (map fst xs) \<Longrightarrow>
     map_of (filter (\<lambda>(_, e). P e) xs) k = (case map_of xs k of Some e \<Rightarrow> if P e then Some e else None | None \<Rightarrow> None)"
  by (induction xs) (auto simp: map_of_eq_None_iff split: option.splits)

lemma map_of_map_row: "map_of (map (\<lambda>(j, row). (j, f row)) xs) k = map_option f (map_of xs k)"
  by (induction xs) auto

lemma expire_refines:
  assumes "leases_wf st"
  shows "lease_at (snd (expire_stale now st)) =
      (\<lambda>j i. case lease_at st j i of Some e \<Rightarrow> if now < le_expires e then Some e else None | None \<Rightarrow> None)"
proof (intro ext)
  fix j i
  let ?keep = "filter (\<lambda>(_, e). now < le_expires e) :: (string \<times> lease_entry) list \<Rightarrow> _"
  let ?rows = "map (\<lambda>(j, row). (j, ?keep row)) (ar_leases st)"
  have d: "distinct (map fst ?rows)" using assms by (simp add: leases_wf_def o_def split_beta)
  note rows = map_of_filter_value [OF d, of "\<lambda>row. row \<noteq> []" j]
  show "lease_at (snd (expire_stale now st)) j i =
      (case lease_at st j i of Some e \<Rightarrow> if now < le_expires e then Some e else None | None \<Rightarrow> None)"
  proof (cases "map_of (ar_leases st) j")
    case None
    then have "map_of (ar_leases (snd (expire_stale now st))) j = None"
      using rows by (simp add: expire_rows map_of_map_row)
    with None show ?thesis by (simp add: lease_at_def)
  next
    case (Some row)
    with leases_wf_row [OF assms] have "distinct (map fst row)" by (simp add: lease_row_ok_def)
    note keep = map_of_filter_value [OF this, of "\<lambda>e. now < le_expires e" i]
    have "map_of (ar_leases (snd (expire_stale now st))) j = (if ?keep row = [] then None else Some (?keep row))"
      using rows Some by (simp add: expire_rows map_of_map_row)
    then have "lease_at (snd (expire_stale now st)) j i = map_of (?keep row) i"
      by (simp add: lease_at_def)
    with keep Some show ?thesis by (simp add: lease_at_def)
  qed
qed

text \<open>C29: the lease calls refine a partial map from joint and lease id to the lease. A granted
  or renewed lease sets exactly its own entry, with the expiry asked for; a release clears
  exactly that entry; an expiry pass keeps exactly the entries still live; a refused call
  changes nothing; and a joint counts as leased exactly while the map has a live entry for it.\<close>

theorem lease_calls_refine_map:
  assumes "leases_wf st"
  shows "lease_at (snd (lease_acquire j c l ttl now known st)) =
      (if is_ok (fst (lease_acquire j c l ttl now known st))
       then (lease_at st)(j := (lease_at st j)(trim l \<mapsto> \<lparr>le_client_id = trim c, le_expires = now + int ttl\<rparr>))
       else lease_at st) \<and>
    lease_at (snd (lease_renew j c l ttl now known st)) =
      (if is_ok (fst (lease_renew j c l ttl now known st))
       then (lease_at st)(j := (lease_at st j)(trim l \<mapsto> \<lparr>le_client_id = trim c, le_expires = now + int ttl\<rparr>))
       else lease_at st) \<and>
    lease_at (snd (lease_release j l known st)) =
      (if is_ok (fst (lease_release j l known st))
       then (lease_at st)(j := (lease_at st j)(trim l := None)) else lease_at st) \<and>
    lease_at (snd (expire_stale now st)) =
      (\<lambda>j i. case lease_at st j i of Some e \<Rightarrow> if now < le_expires e then Some e else None | None \<Rightarrow> None) \<and>
    has_live_lease j now st = (\<exists>i e. lease_at st j i = Some e \<and> now < le_expires e)"
proof (intro conjI)
  show "has_live_lease j now st = (\<exists>i e. lease_at st j i = Some e \<and> now < le_expires e)"
  proof (cases "map_of (ar_leases st) j")
    case (Some row)
    with leases_wf_row [OF assms] have "distinct (map fst row)" by (simp add: lease_row_ok_def)
    with Some show ?thesis
      by (auto simp: has_live_lease_def lease_at_def list_ex_iff dest: map_of_SomeD)
  qed (simp add: has_live_lease_def lease_at_def)
qed (rule lease_acquire_refines lease_renew_refines lease_release_refines expire_refines; fact assms)+

definition sample_leased :: active_reporting_state where
  "sample_leased = snd (lease_acquire ''elbow'' ''ui'' ''modal'' (secs 30) 0 [sample_motor] active_reporting_default)"

lemma sample_trim: "trim ''ui'' = ''ui''" "trim ''modal'' = ''modal''"
  by code_simp+

lemma sample_leased_row:
  "ar_leases sample_leased = [(''elbow'', [(''modal'', \<lparr>le_client_id = ''ui'', le_expires = 30000000000\<rparr>)])]"
  by (simp add: sample_leased_def lease_acquire_def validate_ids_def sample_trim MAX_CLIENT_ID_LEN_def
      MAX_LEASE_ID_LEN_def MAX_LEASES_PER_JOINT_def ensure_known_joint_def sample_motor_def
      time_checked_add_def time_max_def secs_def active_reporting_default_def)

lemma sample_leased_reach:
  "(reporting_step memory_bus_ops)\<^sup>*\<^sup>* (active_reporting_default, sample_tx, []) (sample_leased, sample_tx, [])"
  unfolding sample_leased_def by (intro r_into_rtranclp step_acquire)

theorem lease_table_wf_witness:
  "leases_wf sample_leased \<and> ar_leases sample_leased \<noteq> []"
  using lease_table_wf [OF sample_leased_reach] by (simp add: sample_leased_row)

theorem lease_calls_refine_map_witness:
  "lease_at (snd (lease_release ''elbow'' ''modal'' [sample_motor] sample_leased)) ''elbow'' ''modal'' = None \<and>
   lease_at sample_leased ''elbow'' ''modal'' \<noteq> None"
proof -
  have "leases_wf sample_leased"
    by (simp add: leases_wf_def lease_row_ok_def sample_leased_row MAX_CLIENT_ID_LEN_def
        MAX_LEASE_ID_LEN_def MAX_LEASES_PER_JOINT_def)
  note r = lease_calls_refine_map [OF this, of "''elbow''" "''ui''" "''modal''" "secs 30" 0 "[sample_motor]",
      THEN conjunct2, THEN conjunct2, THEN conjunct1]
  have "is_ok (fst (lease_release ''elbow'' ''modal'' [sample_motor] sample_leased))"
    by (simp add: lease_release_def sample_trim MAX_LEASE_ID_LEN_def ensure_known_joint_def sample_motor_def
        sample_leased_row Let_def)
  then show ?thesis unfolding r by (simp add: sample_trim) (simp add: lease_at_def sample_leased_row)
qed

section \<open>Bursts\<close>

datatype burst_call = BeginGroup string | RecordGroup string

text \<open>The starts of the groups, each marked when \<open>begin_group\<close> started it.\<close>

type_synonym burst_log = "(instant \<times> string \<times> bool) list"

definition burst_step :: "burst_call \<Rightarrow> burst_log \<times> burst_pacer \<times> host_clock \<Rightarrow> burst_log \<times> burst_pacer \<times> host_clock" where
  "burst_step c s =
     (let (lg, ph) = s in
      case c of
        BeginGroup i \<Rightarrow> (let (p, h) = begin_group i ph in (lg @ [(hc_now h, i, True)], p, h))
      | RecordGroup i \<Rightarrow> (let (p, h) = record_group i ph in (lg @ [(hc_now h, i, False)], p, h)))"

definition burst_spaced :: "burst_log \<Rightarrow> bool" where
  "burst_spaced lg =
     sorted_wrt (\<lambda>(t, i, _) (t', i', began). began \<and> i = i' \<longrightarrow> t + int BURST_GROUP_SPACING \<le> t') lg"

definition burst_inv :: "burst_log \<times> burst_pacer \<times> host_clock \<Rightarrow> bool" where
  "burst_inv s \<longleftrightarrow> (case s of (lg, p, h) \<Rightarrow> burst_spaced lg \<and>
     (\<forall>(t, i, _)\<in>set lg. \<exists>l. map_of (bp_last_group p) i = Some l \<and> t \<le> l) \<and>
     (\<forall>i l. map_of (bp_last_group p) i = Some l \<longrightarrow> l \<le> hc_now h))"

lemma run_on_now: "hc_now h + int d \<le> hc_now (run_on d h)"
  by (auto simp: run_on_def split: list.splits)

lemma record_group_result:
  assumes "record_group i (p, h) = (p', h')"
  shows "bp_last_group p' = AList.update i (hc_now h') (bp_last_group p)" and "hc_now h \<le> hc_now h'"
  using assms run_on_now [of h 0] by (auto simp: record_group_def instant_now_def Let_def)

lemma begin_group_result:
  assumes "begin_group i (p, h) = (p', h')"
  shows "bp_last_group p' = AList.update i (hc_now h') (bp_last_group p)" and "hc_now h \<le> hc_now h'"
    and "map_of (bp_last_group p) i = Some l \<Longrightarrow> l \<le> hc_now h \<Longrightarrow> l + int BURST_GROUP_SPACING \<le> hc_now h'"
proof -
  define h1 where "h1 = run_on 0 h"
  define wait where "wait l = BURST_GROUP_SPACING - saturating_since (hc_now h1) l" for l
  define h2 where "h2 = (case map_of (bp_last_group p) i of None \<Rightarrow> h
    | Some l \<Rightarrow> if wait l = 0 then h1 else run_on (wait l) h1)"
  have eq: "record_group i (p, h2) = (p', h')"
    using assms by (auto simp: begin_group_def h2_def h1_def wait_def instant_now_def thread_sleep_def Let_def split: option.splits)
  have h2: "hc_now h \<le> hc_now h2"
    using run_on_now [of h 0] run_on_now [of h1] unfolding h2_def
    by (auto simp: h1_def split: option.splits) (meson add_increasing2 of_nat_0_le_iff order_trans)
  show "bp_last_group p' = AList.update i (hc_now h') (bp_last_group p)" "hc_now h \<le> hc_now h'"
    using record_group_result [OF eq] h2 by auto
  assume l: "map_of (bp_last_group p) i = Some l" "l \<le> hc_now h"
  then have "l \<le> hc_now h1" using run_on_now [of h 0] by (simp add: h1_def)
  then have "l + int BURST_GROUP_SPACING \<le> hc_now h2"
    using l run_on_now [of h1 "wait l"]
    by (auto simp: h2_def wait_def saturating_since_def BURST_GROUP_SPACING_def millis_def)
  then show "l + int BURST_GROUP_SPACING \<le> hc_now h'" using record_group_result(2) [OF eq] by simp
qed

lemma burst_inv_start:
  assumes "burst_inv (lg, p, h)" and "hc_now h \<le> hc_now h'"
    and "bp_last_group p' = AList.update i (hc_now h') (bp_last_group p)"
    and "began \<Longrightarrow> \<forall>l. map_of (bp_last_group p) i = Some l \<longrightarrow> l + int BURST_GROUP_SPACING \<le> hc_now h'"
  shows "burst_inv (lg @ [(hc_now h', i, began)], p', h')"
proof -
  have old: "\<exists>l. map_of (bp_last_group p) j = Some l \<and> t \<le> l \<and> l \<le> hc_now h'" if "(t, j, k) \<in> set lg" for t j k
    using assms(1,2) that by (fastforce simp: burst_inv_def)
  have "t + int BURST_GROUP_SPACING \<le> hc_now h'" if "(t, i, k) \<in> set lg" and began for t k
    using old [OF that(1)] assms(4) [OF that(2)] by fastforce
  then have "burst_spaced (lg @ [(hc_now h', i, began)])"
    using assms(1) by (auto simp: burst_inv_def burst_spaced_def sorted_wrt_append)
  moreover have "\<exists>l. map_of (bp_last_group p') j = Some l \<and> t \<le> l"
    if "(t, j, k) \<in> set (lg @ [(hc_now h', i, began)])" for t j k
    using that old [of t j k] by (auto simp: assms(3) update_conv)
  moreover have "l \<le> hc_now h'" if "map_of (bp_last_group p') j = Some l" for j l
    using that assms(1,2) by (fastforce simp: assms(3) update_conv burst_inv_def split: if_splits)
  ultimately show ?thesis by (auto simp: burst_inv_def)
qed

lemma burst_inv_step: "burst_inv s \<Longrightarrow> burst_inv (burst_step c s)"
proof (cases s)
  case (fields lg p h)
  assume inv: "burst_inv s"
  show ?thesis
  proof (cases c)
    case (BeginGroup i)
    obtain p' h' where g: "begin_group i (p, h) = (p', h')" by fastforce
    have "\<forall>l. map_of (bp_last_group p) i = Some l \<longrightarrow> l \<le> hc_now h" using inv fields by (simp add: burst_inv_def)
    with begin_group_result [OF g] burst_inv_start [of lg p h h' p' i True] inv fields
    show ?thesis by (simp add: burst_step_def BeginGroup g)
  next
    case (RecordGroup i)
    obtain p' h' where g: "record_group i (p, h) = (p', h')" by fastforce
    with record_group_result [OF g] burst_inv_start [of lg p h h' p' i False] inv fields
    show ?thesis by (simp add: burst_step_def RecordGroup)
  qed
qed

text \<open>C30: whatever the scheduler does to the thread, in any sequence of group starts from a new
  pacer every group that begin_group starts is at least 2 ms after every earlier group on its
  interface, those recorded by other writers included.\<close>

theorem burst_groups_spaced:
  "burst_spaced (fst (fold burst_step calls ([], \<lparr>bp_last_group = []\<rparr>, h)))"
proof -
  have "burst_inv (fold burst_step calls s)" if "burst_inv s" for s
    using that by (induction calls arbitrary: s) (simp_all add: burst_inv_step)
  from this [of "([], \<lparr>bp_last_group = []\<rparr>, h)"] show ?thesis
    by (auto simp: burst_inv_def burst_spaced_def split: prod.splits)
qed

section \<open>Suspension\<close>

definition suspends :: "motor_address option \<Rightarrow> (motor_address \<Rightarrow> bool) \<Rightarrow> active_reporting_state \<Rightarrow> motor_entry \<Rightarrow> bool" where
  "suspends unrecorded leave_on st m \<longleftrightarrow>
     unrecorded = Some (motor_address_of m) \<or> (applied_on (me_joint m) st \<and> \<not> leave_on (motor_address_of m))"

definition accepted_off :: "reporting_suspend_attempt list \<Rightarrow> string \<Rightarrow> bool" where
  "accepted_off attempts j = list_ex (\<lambda>a. rs_joint a = j \<and> rs_error a = None) attempts"

lemma suspends_cong:
  assumes "\<And>k. k \<noteq> j \<Longrightarrow> applied_on k st' = applied_on k st" and "j \<notin> me_joint ` set motors"
  shows "filter (suspends u lv st') motors = filter (suspends u lv st) motors"
proof (intro filter_cong refl)
  fix m
  assume "m \<in> set motors"
  with assms(2) have "me_joint m \<noteq> j" by auto
  with assms(1) show "suspends u lv st' m = suspends u lv st m" by (simp add: suspends_def)
qed

text \<open>A suspension writes exactly one Off, in configured order, to each stream applied on and
  not named by leave_on, and to the unrecorded route in any case, going on after a failed
  write; afterwards a joint counts as on exactly when it did before and no Off to it was
  accepted, and leases and pacing slots are untouched.\<close>

theorem suspend_exact:
  assumes "distinct (map me_joint motors)"
    and "suspend (rec_ops now ops) u lv now motors (st, ph, b, lg) = (ats, st', ph', b', lg')"
  shows "map (\<lambda>a. (rs_joint a, rs_address a)) ats =
      map (\<lambda>m. (me_joint m, motor_address_of m)) (filter (suspends u lv st) motors) \<and>
    lg' = lg @ map (\<lambda>m. (now, me_can_interface m)) (filter (suspends u lv st) motors) \<and>
    (\<forall>j. applied_on j st' = (applied_on j st \<and> \<not> accepted_off ats j)) \<and>
    ar_leases st' = ar_leases st \<and> ar_last_write_by_interface st' = ar_last_write_by_interface st"
  using assms
proof (induction motors arbitrary: st ph b lg ats)
  case Nil
  then show ?case by (auto simp: accepted_off_def)
next
  case (Cons m motors)
  show ?case
  proof (cases "suspends u lv st m")
    case False
    with Cons.prems(2) have "suspend (rec_ops now ops) u lv now motors (st, ph, b, lg) = (ats, st', ph', b', lg')"
      by (auto simp: suspends_def Let_def split: if_splits)
    with Cons.IH [OF _ this] Cons.prems(1) False show ?thesis by simp
  next
    case True
    obtain r b1 where d: "disable_active_reporting_at ops (motor_address_of m) b = (r, b1)" by fastforce
    define st1 where "st1 = (if is_ok r then record_off (me_joint m) now st else st)"
    define e where "e = (case r of Inl e \<Rightarrow> Some e | Inr _ \<Rightarrow> None)"
    have e: "e = None \<longleftrightarrow> is_ok r" by (simp add: e_def is_ok_iff split: sum.splits)
    obtain ats1 where s: "suspend (rec_ops now ops) u lv now motors
        (st1, pace (me_can_interface m) ph, b1, lg @ [(now, me_can_interface m)]) = (ats1, st', ph', b', lg')"
      and ats: "ats = \<lparr>rs_joint = me_joint m, rs_address = motor_address_of m, rs_error = e\<rparr> # ats1"
      using Cons.prems(2) True d
      by (auto simp: suspends_def Let_def rec_reporting e [symmetric] e_def [symmetric] st1_def split: prod.splits)
    have ap: "applied_on k st1 = (applied_on k st \<and> (e = None \<longrightarrow> k \<noteq> me_joint m))" for k
      by (auto simp: st1_def e)
    have same: "filter (suspends u lv st1) motors = filter (suspends u lv st) motors"
      using Cons.prems(1) by (intro suspends_cong [of "me_joint m"]) (auto simp: ap)
    have keep: "ar_leases st1 = ar_leases st" "ar_last_write_by_interface st1 = ar_last_write_by_interface st"
      by (simp_all add: st1_def record_off_def)
    from Cons.IH [OF _ s] Cons.prems(1) show ?thesis
      unfolding ats same using True by (auto simp: ap keep accepted_off_def)
  qed
qed

theorem suspend_exact_witness:
  "\<exists>ats st ph b. suspend (rec_ops 0 memory_bus_ops) None (\<lambda>a. addr_device_id a = 5) 0 [sample_motor, sample_second]
     (active_reporting_default\<lparr>ar_applied := [(''elbow'', True), (''wrist'', True)]\<rparr>,
      (None, \<lparr>hc_now = 0, hc_lags = []\<rparr>), sample_tx, []) = (ats, st, ph, b, [(0, ''can0'')])"
proof -
  let ?st = "active_reporting_default\<lparr>ar_applied := [(''elbow'', True), (''wrist'', True)]\<rparr>"
  let ?lv = "\<lambda>a. addr_device_id a = 5"
  obtain ats st ph b lg where eq: "suspend (rec_ops 0 memory_bus_ops) None ?lv 0 [sample_motor, sample_second]
      (?st, (None, \<lparr>hc_now = 0, hc_lags = []\<rparr>), sample_tx, []) = (ats, st, ph, b, lg)"
    by (cases "suspend (rec_ops 0 memory_bus_ops) None ?lv 0 [sample_motor, sample_second]
      (?st, (None, \<lparr>hc_now = 0, hc_lags = []\<rparr>), sample_tx, [])")
  have "distinct (map me_joint [sample_motor, sample_second])" by (simp add: sample_motor_def sample_second_def)
  from suspend_exact [OF this eq, THEN conjunct2, THEN conjunct1]
  have "lg = [(0, ''can0'')]"
    by (simp add: suspends_def applied_on_def sample_motor_def sample_second_def motor_address_of_def motor_address_new_def)
  with eq show ?thesis by blast
qed

end
