(* ===== verification/Kinematics_Limits.thy ===== *)
theory Kinematics_Limits
  imports Config_Types
begin

text \<open>
  Position limits of a joint, \<open>crates/armee-kinematics\<close>: the bounds and margins of
  \<open>limits.rs\<close>, the reading of a URDF's limits (\<open>lib.rs\<close>) and the expand-only widening of
  \<open>expand.rs\<close>. Values are \<open>f64\<close> with IEEE arithmetic, so overflow and NaN are in the model.
  Of a URDF joint the record keeps what this code reads and writes.
\<close>

abbreviation f64_add :: "f64 \<Rightarrow> f64 \<Rightarrow> f64" where "f64_add \<equiv> fadd Binary64"
abbreviation f64_sub :: "f64 \<Rightarrow> f64 \<Rightarrow> f64" where "f64_sub \<equiv> fsub Binary64"
abbreviation f64_mul :: "f64 \<Rightarrow> f64 \<Rightarrow> f64" where "f64_mul \<equiv> fmul Binary64"
abbreviation f64_div :: "f64 \<Rightarrow> f64 \<Rightarrow> f64" where "f64_div \<equiv> fdiv Binary64"
abbreviation f64_max :: "f64 \<Rightarrow> f64 \<Rightarrow> f64" where "f64_max \<equiv> fmax Binary64"
abbreviation f64_min :: "f64 \<Rightarrow> f64 \<Rightarrow> f64" where "f64_min \<equiv> fmin Binary64"
abbreviation f64_clamp :: "f64 \<Rightarrow> f64 \<Rightarrow> f64 \<Rightarrow> f64" where "f64_clamp \<equiv> fclamp Binary64"
abbreviation f64_nan :: "f64 \<Rightarrow> bool" where "f64_nan \<equiv> is_nan Binary64"
abbreviation f64_eq :: "f64 \<Rightarrow> f64 \<Rightarrow> bool" where "f64_eq \<equiv> feq Binary64"

section \<open>Bounds\<close>

datatype limit_bounds_error =
    NonFiniteHard f64 f64
  | InvertedHard f64 f64
  | NonFiniteSoft f64 f64

record limit_bounds =
  lb_hard_lower :: f64
  lb_hard_upper :: f64
  lb_soft_lower :: f64
  lb_soft_upper :: f64

definition from_hard_and_soft ::
    "f64 \<Rightarrow> f64 \<Rightarrow> f64 option \<Rightarrow> f64 option \<Rightarrow> (limit_bounds, limit_bounds_error) result" where
  "from_hard_and_soft hard_lower hard_upper soft_lower soft_upper =
     (if \<not> f64_finite hard_lower \<or> \<not> f64_finite hard_upper then Err (NonFiniteHard hard_lower hard_upper)
      else if f64_le hard_upper hard_lower then Err (InvertedHard hard_lower hard_upper)
      else let lo = unwrap_or soft_lower hard_lower; hi = unwrap_or soft_upper hard_upper in
        if \<not> f64_finite lo \<or> \<not> f64_finite hi then Err (NonFiniteSoft lo hi)
        else Ok \<lparr>lb_hard_lower = hard_lower, lb_hard_upper = hard_upper,
          lb_soft_lower = f64_clamp lo hard_lower hard_upper,
          lb_soft_upper = f64_clamp hi hard_lower hard_upper\<rparr>)"

record limit_margin_config =
  lm_min_rad :: f64
  lm_k_v_s :: f64
  lm_k_stop :: f64
  lm_velocity_deadband_rad_s :: f64
  lm_measured_fault_slack_rad :: f64
  lm_decel_rad_s2 :: f64

record joint_limit_policy =
  jp_bounds :: limit_bounds
  jp_margin :: limit_margin_config
  jp_velocity :: f64
  jp_effort :: f64
  jp_tau_ff_max :: f64

definition hard_lower :: "joint_limit_policy \<Rightarrow> f64" where "hard_lower p = lb_hard_lower (jp_bounds p)"
definition hard_upper :: "joint_limit_policy \<Rightarrow> f64" where "hard_upper p = lb_hard_upper (jp_bounds p)"
definition soft_lower :: "joint_limit_policy \<Rightarrow> f64" where "soft_lower p = lb_soft_lower (jp_bounds p)"
definition soft_upper :: "joint_limit_policy \<Rightarrow> f64" where "soft_upper p = lb_soft_upper (jp_bounds p)"

section \<open>The velocity-scaled envelope\<close>

definition limit_margin_rad :: "f64 \<Rightarrow> limit_margin_config \<Rightarrow> f64" where
  "limit_margin_rad dq_cmd margin =
     (let v = (if f64_le (fabs dq_cmd) (lm_velocity_deadband_rad_s margin) then f64_zero else fabs dq_cmd);
          decel = f64_max (lm_decel_rad_s2 margin) (f64_lit (1 / 1000000))
      in f64_add (f64_add (lm_min_rad margin) (f64_mul (lm_k_v_s margin) v))
           (f64_div (f64_mul (f64_mul (lm_k_stop margin) v) v) (f64_mul (f64_lit 2) decel)))"

definition effective_command_bounds :: "joint_limit_policy \<Rightarrow> f64 \<Rightarrow> f64 \<Rightarrow> f64 \<times> f64" where
  "effective_command_bounds policy q dq_cmd =
     (let b = jp_bounds policy;
          m = limit_margin_rad dq_cmd (jp_margin policy);
          band = lm_velocity_deadband_rad_s (jp_margin policy);
          lo = (if f64_lt dq_cmd (fnegate band) then f64_min (f64_add (lb_hard_lower b) m) (lb_hard_upper b)
                else lb_hard_lower b);
          hi = (if f64_lt band dq_cmd then f64_max (f64_sub (lb_hard_upper b) m) (lb_hard_lower b)
                else lb_hard_upper b);
          lo = f64_max lo (lb_soft_lower b);
          hi = f64_min hi (lb_soft_upper b)
      in if f64_le lo hi then (lo, hi)
         else let soft_lo = f64_min (lb_soft_lower b) (lb_soft_upper b);
                  soft_hi = f64_max (lb_soft_lower b) (lb_soft_upper b);
                  point = (if f64_finite q then f64_min (f64_max q soft_lo) soft_hi
                           else f64_mul (f64_lit (1 / 2)) (f64_add soft_lo soft_hi))
              in (point, point))"

definition clamp_finite :: "f64 \<Rightarrow> f64 \<Rightarrow> f64 \<Rightarrow> f64 \<Rightarrow> f64" where
  "clamp_finite position_rad anchor lo hi =
     (let p = (if f64_finite position_rad then position_rad
               else if f64_finite anchor then anchor
               else f64_mul (f64_lit (1 / 2)) (f64_add lo hi))
      in f64_min (f64_max p lo) hi)"

definition clamp_position_in_envelope :: "joint_limit_policy \<Rightarrow> f64 \<Rightarrow> f64 \<Rightarrow> f64 \<Rightarrow> f64" where
  "clamp_position_in_envelope policy q dq_cmd position_rad =
     (let (lo, hi) = effective_command_bounds policy q dq_cmd in clamp_finite position_rad q lo hi)"

definition HOLD_TARGET_STOP_TOLERANCE_RAD :: f64 where
  "HOLD_TARGET_STOP_TOLERANCE_RAD = f64_lit (5 / 1000)"

definition clamp_hold_target :: "joint_limit_policy \<Rightarrow> f64 \<Rightarrow> f64 \<Rightarrow> f64 \<Rightarrow> f64" where
  "clamp_hold_target policy q dq_cmd requested_rad =
     (let soft_clamped = clamp_finite requested_rad q (soft_lower policy) (soft_upper policy);
          at_lower_stop = f64_le soft_clamped (f64_add (soft_lower policy) HOLD_TARGET_STOP_TOLERANCE_RAD);
          at_home = f64_le (fabs soft_clamped) HOLD_TARGET_STOP_TOLERANCE_RAD
      in if (at_lower_stop \<or> at_home) \<and> f64_lt soft_clamped q then f64_max soft_clamped (hard_lower policy)
         else if f64_le (f64_sub (hard_upper policy) HOLD_TARGET_STOP_TOLERANCE_RAD) soft_clamped \<and>
                 f64_lt q (hard_upper policy)
         then f64_min soft_clamped (hard_upper policy)
         else clamp_position_in_envelope policy q dq_cmd soft_clamped)"

definition measured_position_fault :: "f64 \<Rightarrow> joint_limit_policy \<Rightarrow> bool" where
  "measured_position_fault q policy =
     (let slack = lm_measured_fault_slack_rad (jp_margin policy);
          lo = f64_sub (hard_lower policy) slack; hi = f64_add (hard_upper policy) slack
      in \<not> f64_finite q \<or> f64_nan lo \<or> f64_nan hi \<or> f64_lt q lo \<or> f64_lt hi q)"

definition approach_velocity_cap :: "joint_limit_policy \<Rightarrow> f64 \<Rightarrow> f64 \<Rightarrow> f64 \<Rightarrow> f64" where
  "approach_velocity_cap policy q dq_cmd v_max =
     (if f64_le v_max f64_zero then f64_zero
      else let margin = limit_margin_rad dq_cmd (jp_margin policy);
               band = lm_velocity_deadband_rad_s (jp_margin policy)
           in if f64_le margin (f64_lit (1 / 1000000000)) then v_max
              else let scale = f64_lit 1;
                       dist = f64_sub q (f64_add (hard_lower policy) margin);
                       scale = (if f64_lt dq_cmd (fnegate band) \<and> f64_lt dist margin
                                then f64_min scale (f64_clamp (f64_div dist margin) f64_zero (f64_lit 1)) else scale);
                       dist = f64_sub (f64_sub (hard_upper policy) margin) q;
                       scale = (if f64_lt band dq_cmd \<and> f64_lt dist margin
                                then f64_min scale (f64_clamp (f64_div dist margin) f64_zero (f64_lit 1)) else scale)
                   in f64_mul v_max scale)"

section \<open>URDF limits\<close>

datatype urdf_joint_type = Revolute | Continuous | Prismatic | OtherJoint

record urdf_limit =
  ul_lower :: f64
  ul_upper :: f64
  ul_velocity :: f64
  ul_effort :: f64

record urdf_safety =
  us_soft_lower_limit :: f64
  us_soft_upper_limit :: f64

record urdf_joint =
  uj_name :: string
  uj_joint_type :: urdf_joint_type
  uj_limit :: urdf_limit
  uj_safety_controller :: "urdf_safety option"

type_synonym urdf_robot = "urdf_joint list"

datatype urdf_error =
    UrdfRead string message
  | InvalidLimits string limit_bounds_error

definition actuated :: "urdf_joint \<Rightarrow> bool" where
  "actuated j \<longleftrightarrow> uj_joint_type j \<in> {Revolute, Continuous, Prismatic}"

definition find_urdf_joint :: "urdf_robot \<Rightarrow> string \<Rightarrow> (urdf_joint, urdf_error) result" where
  "find_urdf_joint robot name =
     (case List.find (\<lambda>j. uj_name j = name) robot of
        None \<Rightarrow> Err (UrdfRead name [Txt ''joint not found''])
      | Some j \<Rightarrow> Ok j)"

definition joint_limits :: "urdf_robot \<Rightarrow> string \<Rightarrow> (urdf_limit, urdf_error) result" where
  "joint_limits robot name =
     rbind (find_urdf_joint robot name) (\<lambda>j.
       if \<not> actuated j then Err (UrdfRead name [Txt ''joint is not actuated'']) else Ok (uj_limit j))"

definition joint_limit_bounds :: "urdf_robot \<Rightarrow> string \<Rightarrow> (limit_bounds, urdf_error) result" where
  "joint_limit_bounds robot name =
     rbind (joint_limits robot name) (\<lambda>hard.
     rbind (find_urdf_joint robot name) (\<lambda>j.
       let (lo, hi) = (case uj_safety_controller j of
              Some s \<Rightarrow> (Some (us_soft_lower_limit s), Some (us_soft_upper_limit s)) | None \<Rightarrow> (None, None))
       in (case from_hard_and_soft (ul_lower hard) (ul_upper hard) lo hi of
             Inl e \<Rightarrow> Err (InvalidLimits name e)
           | Inr b \<Rightarrow> Ok b)))"

definition actuated_joint_names :: "urdf_robot \<Rightarrow> string list" where
  "actuated_joint_names robot = map uj_name (filter actuated robot)"

definition actuated_joint_count :: "urdf_robot \<Rightarrow> nat" where
  "actuated_joint_count robot = length (filter actuated robot)"

section \<open>Expand-only widening\<close>

text \<open>The joint after a widening to \<open>[lower, upper]\<close>, and whether it changed.\<close>

definition expand_joint :: "f64 \<Rightarrow> f64 \<Rightarrow> urdf_joint \<Rightarrow> (bool \<times> urdf_joint, urdf_error) result" where
  "expand_joint lower upper j =
     (if \<not> actuated j then Err (UrdfRead (uj_name j) [Txt ''joint is not actuated''])
      else let lim = uj_limit j;
               new_lower = f64_min lower (ul_lower lim);
               new_upper = f64_max upper (ul_upper lim);
               soft = map_option (\<lambda>s. (f64_max (us_soft_lower_limit s) new_lower,
                 f64_min (us_soft_upper_limit s) new_upper)) (uj_safety_controller j);
               bad = (case uj_safety_controller j of None \<Rightarrow> False
                      | Some s \<Rightarrow> \<not> f64_finite (us_soft_lower_limit s) \<or> \<not> f64_finite (us_soft_upper_limit s) \<or>
                          f64_lt (f64_min (us_soft_upper_limit s) new_upper) (f64_max (us_soft_lower_limit s) new_lower))
           in if bad then Err (UrdfRead (uj_name j) (case uj_safety_controller j of None \<Rightarrow> []
                  | Some s \<Rightarrow> [Txt ''safety_controller soft ['', Num (us_soft_lower_limit s), Txt '', '',
                     Num (us_soft_upper_limit s), Txt ''] is inconsistent with hard ['', Num new_lower, Txt '', '',
                     Num new_upper, Txt '']; fix the URDF soft bounds before expanding'']))
              else let low = f64_lt new_lower (ul_lower lim); up = f64_lt (ul_upper lim) new_upper;
                       lim' = lim\<lparr>ul_lower := (if low then new_lower else ul_lower lim),
                                  ul_upper := (if up then new_upper else ul_upper lim)\<rparr>
                   in (case (uj_safety_controller j, soft) of
                         (Some s, Some (lo, hi)) \<Rightarrow>
                           (let slow = \<not> f64_eq (us_soft_lower_limit s) lo; sup = \<not> f64_eq (us_soft_upper_limit s) hi
                            in Ok (low \<or> up \<or> slow \<or> sup,
                                j\<lparr>uj_limit := lim', uj_safety_controller := Some
                                  \<lparr>us_soft_lower_limit = (if slow then lo else us_soft_lower_limit s),
                                   us_soft_upper_limit = (if sup then hi else us_soft_upper_limit s)\<rparr>\<rparr>))
                       | _ \<Rightarrow> Ok (low \<or> up, j\<lparr>uj_limit := lim'\<rparr>)))"

definition expand_urdf_joint_hard ::
    "urdf_robot \<Rightarrow> string \<Rightarrow> f64 \<Rightarrow> f64 \<Rightarrow> (bool \<times> urdf_robot, urdf_error) result" where
  "expand_urdf_joint_hard robot name lower upper =
     (if \<not> f64_finite lower \<or> \<not> f64_finite upper \<or> f64_le upper lower
      then Err (UrdfRead name [Txt ''invalid hard envelope ['', Num lower, Txt '', '', Num upper,
        Txt ''] for expand''])
      else rbind (find_urdf_joint robot name) (\<lambda>j.
           rbind (expand_joint lower upper j) (\<lambda>(changed, j').
             Ok (changed, update_first (\<lambda>k. uj_name k = name) (\<lambda>_. j') robot))))"

section \<open>The envelope stays inside the soft range\<close>

definition bounds_ok :: "limit_bounds \<Rightarrow> bool" where
  "bounds_ok b \<longleftrightarrow>
     f64_finite (lb_hard_lower b) \<and> f64_finite (lb_hard_upper b) \<and>
     f64_finite (lb_soft_lower b) \<and> f64_finite (lb_soft_upper b) \<and>
     f64_val (lb_hard_lower b) \<le> f64_val (lb_soft_lower b) \<and> f64_val (lb_soft_lower b) \<le> f64_val (lb_hard_upper b) \<and>
     f64_val (lb_hard_lower b) \<le> f64_val (lb_soft_upper b) \<and> f64_val (lb_soft_upper b) \<le> f64_val (lb_hard_upper b)"

lemma from_hard_and_soft_ok:
  "from_hard_and_soft hl hu sl su = Ok b \<Longrightarrow> bounds_ok b \<and> f64_val (lb_hard_lower b) < f64_val (lb_hard_upper b)"
  by (auto simp: from_hard_and_soft_def bounds_ok_def Let_def fle_finite fclamp_finite not_le split: if_splits)

text \<open>A literal with an exact pattern.\<close>

lemma f64_lit_pattern:
  assumes "f64_finite (Flt False b)" and "f64_val (Flt False b) = q"
  shows "f64_lit q = Flt False b"
proof -
  have "fkey (f64_lit q) = fkey (Flt False b)"
    using fkey_fround_exact [OF assms(1), of False] unfolding assms(2) f64_lit_def .
  moreover have "0 \<le> q" using assms(2) fval_sign(2) [of "Flt False b" Binary64] by simp
  then have "\<not> fneg (f64_lit q)" by (simp add: f64_lit_def fround_def)
  ultimately show ?thesis by (simp add: fkey_def ieee.expand)
qed

lemma f64_half: "f64_lit (1 / 2) = Flt False 4602678819172646912" "f64_finite (f64_lit (1 / 2))"
    "f64_val (f64_lit (1 / 2)) = 1 / 2"
proof -
  have v: "f64_finite (Flt False 4602678819172646912)" "f64_val (Flt False 4602678819172646912) = 1 / 2"
    by (simp_all add: is_finite_def fval_def mag_def)
  from f64_lit_pattern [OF this] v show "f64_lit (1 / 2) = Flt False 4602678819172646912"
    "f64_finite (f64_lit (1 / 2))" "f64_val (f64_lit (1 / 2)) = 1 / 2" by simp_all
qed

lemma f64_unit: "f64_lit 1 = Flt False 4607182418800017408" "f64_finite (f64_lit 1)" "f64_val (f64_lit 1) = 1"
proof -
  have v: "f64_finite (Flt False 4607182418800017408)" "f64_val (Flt False 4607182418800017408) = 1"
    by (simp_all add: is_finite_def fval_def mag_def)
  from f64_lit_pattern [OF this] v show "f64_lit 1 = Flt False 4607182418800017408" "f64_finite (f64_lit 1)"
    "f64_val (f64_lit 1) = 1" by simp_all
qed

abbreviation soft_min :: "limit_bounds \<Rightarrow> f64" where
  "soft_min b \<equiv> f64_min (lb_soft_lower b) (lb_soft_upper b)"

abbreviation soft_max :: "limit_bounds \<Rightarrow> f64" where
  "soft_max b \<equiv> f64_max (lb_soft_lower b) (lb_soft_upper b)"

text \<open>The midpoint of the soft range does not overflow.\<close>

definition soft_halves :: "limit_bounds \<Rightarrow> bool" where
  "soft_halves b \<longleftrightarrow> 2 * \<bar>f64_val (lb_soft_lower b)\<bar> \<le> fmax_val Binary64 \<and> 2 * \<bar>f64_val (lb_soft_upper b)\<bar> \<le> fmax_val Binary64"

lemma soft_min_max:
  assumes "bounds_ok b"
  shows "f64_finite (soft_min b)" "f64_finite (soft_max b)" "fkey (soft_min b) \<le> fkey (soft_max b)"
    "fkey (soft_min b) \<le> fkey (lb_soft_lower b)" "fkey (soft_min b) \<le> fkey (lb_soft_upper b)"
    "fkey (lb_soft_lower b) \<le> fkey (soft_max b)" "fkey (lb_soft_upper b) \<le> fkey (soft_max b)"
    "\<not> f64_nan (soft_min b)" "\<not> f64_nan (soft_max b)"
  using assms by (auto simp: bounds_ok_def fmin_finite fmax_finite fmin_key fmax_key finite_cases)

lemma collapsed_point:
  assumes "bounds_ok b" and "f64_finite q \<or> soft_halves b"
  defines "p \<equiv> (if f64_finite q then f64_min (f64_max q (soft_min b)) (soft_max b)
    else f64_mul (f64_lit (1 / 2)) (f64_add (soft_min b) (soft_max b)))"
  shows "fkey (soft_min b) \<le> fkey p" and "fkey p \<le> fkey (soft_max b)"
proof -
  note s = soft_min_max [OF assms(1)]
  have "fkey (soft_min b) \<le> fkey p \<and> fkey p \<le> fkey (soft_max b)"
  proof (cases "f64_finite q")
    case True
    then show ?thesis using fmin_fmax_between [OF s(8,9,3), of q] by (simp add: p_def)
  next
    case False
    with assms(1,2) have "2 * \<bar>f64_val (soft_min b)\<bar> \<le> fmax_val Binary64" "2 * \<bar>f64_val (soft_max b)\<bar> \<le> fmax_val Binary64"
      by (auto simp: soft_halves_def bounds_ok_def fmin_finite fmax_finite min_def max_def)
    from fhalf_sum_between [OF s(1,2) _ this f64_half(2,3)] s(3) False show ?thesis
      by (simp add: p_def fval_le_key)
  qed
  then show "fkey (soft_min b) \<le> fkey p" and "fkey p \<le> fkey (soft_max b)" by auto
qed

lemma effective_bounds_inside:
  assumes "bounds_ok (jp_bounds p)" and "f64_finite q \<or> soft_halves (jp_bounds p)"
    and "effective_command_bounds p q dq = (lo, hi)"
  shows "fkey (soft_min (jp_bounds p)) \<le> fkey lo" "fkey lo \<le> fkey hi" "fkey hi \<le> fkey (soft_max (jp_bounds p))"
proof -
  let ?b = "jp_bounds p"
  let ?m = "limit_margin_rad dq (jp_margin p)" and ?band = "lm_velocity_deadband_rad_s (jp_margin p)"
  define lo1 where "lo1 = f64_max (if f64_lt dq (fnegate ?band) then f64_min (f64_add (lb_hard_lower ?b) ?m) (lb_hard_upper ?b)
    else lb_hard_lower ?b) (lb_soft_lower ?b)"
  define hi1 where "hi1 = f64_min (if f64_lt ?band dq then f64_max (f64_sub (lb_hard_upper ?b) ?m) (lb_hard_lower ?b)
    else lb_hard_upper ?b) (lb_soft_upper ?b)"
  note s = soft_min_max [OF assms(1)]
  have nn: "\<not> f64_nan (lb_soft_lower ?b)" "\<not> f64_nan (lb_soft_upper ?b)"
    using assms(1) by (auto simp: bounds_ok_def finite_cases)
  have lo1: "fkey (lb_soft_lower ?b) \<le> fkey lo1" using fmax_ge [OF nn(1)] by (simp add: lo1_def)
  have hi1: "fkey hi1 \<le> fkey (lb_soft_upper ?b)" using fmin_le [OF nn(2)] by (simp add: hi1_def)
  have "fkey (soft_min ?b) \<le> fkey lo \<and> fkey lo \<le> fkey hi \<and> fkey hi \<le> fkey (soft_max ?b)"
  proof (cases "f64_le lo1 hi1")
    case True
    then have "lo = lo1" "hi = hi1" using assms(3) by (auto simp: effective_command_bounds_def Let_def lo1_def hi1_def)
    then show ?thesis using True lo1 hi1 s by (auto simp: fle_def)
  next
    case False
    define pt where "pt = (if f64_finite q then f64_min (f64_max q (soft_min ?b)) (soft_max ?b)
      else f64_mul (f64_lit (1 / 2)) (f64_add (soft_min ?b) (soft_max ?b)))"
    have "lo = pt" "hi = pt"
      using assms(3) False by (auto simp: effective_command_bounds_def Let_def lo1_def hi1_def pt_def)
    with collapsed_point [OF assms(1,2)] show ?thesis by (simp add: pt_def)
  qed
  then show "fkey (soft_min ?b) \<le> fkey lo" "fkey lo \<le> fkey hi" "fkey hi \<le> fkey (soft_max ?b)" by auto
qed

lemma clamp_finite_between:
  assumes "f64_finite lo" "f64_finite hi" "fkey lo \<le> fkey hi"
  shows "fkey lo \<le> fkey (clamp_finite x a lo hi)" "fkey (clamp_finite x a lo hi) \<le> fkey hi"
  using fmin_fmax_between [of Binary64 lo hi] assms by (auto simp: clamp_finite_def Let_def finite_cases)

lemma envelope_inside:
  assumes "bounds_ok (jp_bounds p)" and "f64_finite q \<or> soft_halves (jp_bounds p)"
  shows "fkey (soft_min (jp_bounds p)) \<le> fkey (clamp_position_in_envelope p q dq x)"
    and "fkey (clamp_position_in_envelope p q dq x) \<le> fkey (soft_max (jp_bounds p))"
proof -
  obtain lo hi where e: "effective_command_bounds p q dq = (lo, hi)" by fastforce
  note b = effective_bounds_inside [OF assms e]
  note s = soft_min_max(1,2) [OF assms(1)]
  have lo: "f64_finite lo" by (rule finite_between [OF s b(1) order_trans [OF b(2,3)]])
  have hi: "f64_finite hi" by (rule finite_between [OF s order_trans [OF b(1,2)] b(3)])
  have c: "clamp_position_in_envelope p q dq x = clamp_finite x q lo hi"
    by (simp add: clamp_position_in_envelope_def e)
  show "fkey (soft_min (jp_bounds p)) \<le> fkey (clamp_position_in_envelope p q dq x)"
    unfolding c by (rule order_trans [OF b(1) clamp_finite_between(1) [OF lo hi b(2)]])
  show "fkey (clamp_position_in_envelope p q dq x) \<le> fkey (soft_max (jp_bounds p))"
    unfolding c by (rule order_trans [OF clamp_finite_between(2) [OF lo hi b(2)] b(3)])
qed

lemma soft_clamped_inside:
  assumes "bounds_ok b"
  shows "fkey (soft_min b) \<le> fkey (clamp_finite x a (lb_soft_lower b) (lb_soft_upper b))"
    and "fkey (clamp_finite x a (lb_soft_lower b) (lb_soft_upper b)) \<le> fkey (soft_max b)"
proof -
  let ?l = "lb_soft_lower b" and ?u = "lb_soft_upper b"
  have nn: "\<not> f64_nan ?l" "\<not> f64_nan ?u" using assms by (auto simp: bounds_ok_def finite_cases)
  note s = soft_min_max(4,5,7) [OF assms]
  have k: "fkey (soft_min b) \<le> fkey (f64_min (f64_max y ?l) ?u) \<and> fkey (f64_min (f64_max y ?l) ?u) \<le> fkey (soft_max b)" for y
    using fmin_key [of Binary64 "f64_max y ?l" ?u] fmax_ge [OF nn(1), of y] nn(2) s by linarith
  show "fkey (soft_min b) \<le> fkey (clamp_finite x a ?l ?u)" "fkey (clamp_finite x a ?l ?u) \<le> fkey (soft_max b)"
    unfolding clamp_finite_def Let_def using k by blast+
qed

lemma hold_target_inside:
  assumes "bounds_ok (jp_bounds p)" and "f64_finite q \<or> soft_halves (jp_bounds p)"
  shows "fkey (soft_min (jp_bounds p)) \<le> fkey (clamp_hold_target p q dq x)"
    and "fkey (clamp_hold_target p q dq x) \<le> fkey (soft_max (jp_bounds p))"
proof -
  let ?b = "jp_bounds p"
  define sc where "sc = clamp_finite x q (lb_soft_lower ?b) (lb_soft_upper ?b)"
  note sc = soft_clamped_inside [OF assms(1), of x q, folded sc_def]
  have fin: "f64_finite sc" using sc soft_min_max(1,2) [OF assms(1)] by (blast intro: finite_between)
  have hard: "fkey (lb_hard_lower ?b) \<le> fkey sc" "fkey sc \<le> fkey (lb_hard_upper ?b)"
    using sc soft_min_max [OF assms(1)] assms(1)
    by (auto simp: bounds_ok_def fval_le_key fmin_key fmax_key finite_cases min_def max_def split: if_splits)
  have "fkey (f64_max sc (hard_lower p)) = fkey sc" "fkey (f64_min sc (hard_upper p)) = fkey sc"
    using hard fin assms(1)
    by (simp_all add: fmax_key fmin_key finite_cases bounds_ok_def hard_lower_def hard_upper_def)
  with sc envelope_inside [OF assms, of dq sc]
  show "fkey (soft_min (jp_bounds p)) \<le> fkey (clamp_hold_target p q dq x)"
    "fkey (clamp_hold_target p q dq x) \<le> fkey (soft_max (jp_bounds p))"
    by (auto simp: clamp_hold_target_def Let_def soft_lower_def soft_upper_def sc_def [symmetric])
qed

definition in_soft_range :: "limit_bounds \<Rightarrow> f64 \<Rightarrow> bool" where
  "in_soft_range b x \<longleftrightarrow> f64_finite x \<and>
     min (f64_val (lb_soft_lower b)) (f64_val (lb_soft_upper b)) \<le> f64_val x \<and>
     f64_val x \<le> max (f64_val (lb_soft_lower b)) (f64_val (lb_soft_upper b))"

lemma in_soft_rangeI:
  assumes "bounds_ok b" "fkey (soft_min b) \<le> fkey x" "fkey x \<le> fkey (soft_max b)"
  shows "in_soft_range b x"
proof -
  note s = soft_min_max(1,2) [OF assms(1)]
  have "f64_val (soft_min b) = min (f64_val (lb_soft_lower b)) (f64_val (lb_soft_upper b))"
    "f64_val (soft_max b) = max (f64_val (lb_soft_lower b)) (f64_val (lb_soft_upper b))"
    using assms(1) by (simp_all add: bounds_ok_def fmin_finite fmax_finite)
  then show ?thesis
    using finite_between [OF s assms(2,3)] assms(2,3) unfolding in_soft_range_def fval_le_key [of Binary64, symmetric]
    by simp
qed

lemma in_soft_range_hard:
  "bounds_ok b \<Longrightarrow> in_soft_range b x \<Longrightarrow>
     f64_val (lb_hard_lower b) \<le> f64_val x \<and> f64_val x \<le> f64_val (lb_hard_upper b)"
  by (auto simp: bounds_ok_def in_soft_range_def min_def max_def split: if_splits)

text \<open>C31: whatever setpoint is requested (NaN and infinities included), at whatever commanded
  velocity and with whatever margin tuning, the effective command interval is ordered and
  inside the soft range, and the position that clamp_position_in_envelope or clamp_hold_target
  returns is finite and inside the soft range, which itself is inside the hard range. The
  measured position may be non-finite when the soft bounds can be doubled without overflow.\<close>

theorem envelope_within_soft_range:
  assumes "bounds_ok (jp_bounds p)" and "f64_finite q \<or> soft_halves (jp_bounds p)"
  shows "in_soft_range (jp_bounds p) (clamp_position_in_envelope p q dq x) \<and>
    in_soft_range (jp_bounds p) (clamp_hold_target p q dq x) \<and>
    in_soft_range (jp_bounds p) (fst (effective_command_bounds p q dq)) \<and>
    in_soft_range (jp_bounds p) (snd (effective_command_bounds p q dq)) \<and>
    f64_val (fst (effective_command_bounds p q dq)) \<le> f64_val (snd (effective_command_bounds p q dq))"
proof -
  obtain lo hi where e: "effective_command_bounds p q dq = (lo, hi)" by fastforce
  note b = effective_bounds_inside [OF assms e]
  show ?thesis
    using in_soft_rangeI [OF assms(1) envelope_inside [OF assms]] in_soft_rangeI [OF assms(1) hold_target_inside [OF assms]]
      in_soft_rangeI [OF assms(1) b(1) order_trans [OF b(2,3)]] in_soft_rangeI [OF assms(1) order_trans [OF b(1,2)] b(3)] b(2)
    by (simp add: e fval_le_key)
qed

definition sample_policy :: joint_limit_policy where
  "sample_policy =
     \<lparr>jp_bounds = \<lparr>lb_hard_lower = f64_zero, lb_hard_upper = Flt False 4607182418800017408,
        lb_soft_lower = f64_zero, lb_soft_upper = Flt False 4607182418800017408\<rparr>,
      jp_margin = \<lparr>lm_min_rad = f64_zero, lm_k_v_s = f64_zero, lm_k_stop = f64_zero,
        lm_velocity_deadband_rad_s = f64_zero, lm_measured_fault_slack_rad = f64_zero, lm_decel_rad_s2 = f64_zero\<rparr>,
      jp_velocity = Flt False 4607182418800017408, jp_effort = Flt False 4607182418800017408,
      jp_tau_ff_max = Flt False 4607182418800017408\<rparr>"

lemma one_pattern: "f64_finite (Flt False 4607182418800017408)" "f64_val (Flt False 4607182418800017408) = 1"
  using f64_unit(2,3) unfolding f64_unit(1) .

lemma sample_policy_ok: "bounds_ok (jp_bounds sample_policy)" "soft_halves (jp_bounds sample_policy)"
  using pow_100_le_fmax_val [of Binary64] by (simp_all add: sample_policy_def bounds_ok_def soft_halves_def one_pattern)

theorem envelope_within_soft_range_witness:
  "in_soft_range (jp_bounds sample_policy) (clamp_position_in_envelope sample_policy (nan Binary64) (f64_lit 5) (nan Binary64))"
  using envelope_within_soft_range [OF sample_policy_ok(1), of "nan Binary64" "f64_lit 5" "nan Binary64"] sample_policy_ok(2)
  by simp

section \<open>Approach velocity\<close>

lemma unit_clamp:
  assumes "\<not> f64_nan s" "0 \<le> f64_val s" "f64_val s \<le> 1" "f64_finite s"
  shows "f64_finite (f64_min s (f64_clamp x f64_zero (f64_lit 1)))"
    "0 \<le> f64_val (f64_min s (f64_clamp x f64_zero (f64_lit 1)))"
    "f64_val (f64_min s (f64_clamp x f64_zero (f64_lit 1))) \<le> 1"
proof -
  let ?c = "f64_clamp x f64_zero (f64_lit 1)"
  have z: "f64_finite f64_zero" "f64_val f64_zero = 0" by simp_all
  have u: "f64_finite (f64_lit 1)" "f64_val (f64_lit 1) = 1" by (rule f64_unit)+
  have r: "f64_finite (f64_min s ?c) \<and> 0 \<le> f64_val (f64_min s ?c) \<and> f64_val (f64_min s ?c) \<le> 1"
  proof (cases "f64_nan x")
    case True
    then have "?c = x" by (simp add: fclamp_def flt_def)
    with True assms show ?thesis by (simp add: fmin_def)
  next
    case False
    have le: "fkey f64_zero \<le> fkey (f64_lit 1)" using u z by (simp add: fval_le_key [of Binary64, symmetric])
    note c = fclamp_between [of Binary64 f64_zero "f64_lit 1", OF _ _ le False]
    have nn: "\<not> f64_nan f64_zero" "\<not> f64_nan (f64_lit 1)" using z u by (auto simp: finite_cases)
    have fin: "f64_finite ?c" using finite_between [OF z(1) u(1) c(1,2) [OF nn]] .
    have "0 \<le> f64_val ?c" using c(1) [OF nn] z by (simp add: fval_le_key [of Binary64, symmetric])
    with fin assms show ?thesis by (simp add: fmin_finite)
  qed
  then show "f64_finite (f64_min s ?c)" "0 \<le> f64_val (f64_min s ?c)" "f64_val (f64_min s ?c) \<le> 1" by auto
qed

lemma approach_velocity_cap_bounds:
  assumes "f64_finite v_max" "0 \<le> f64_val v_max"
  shows "f64_finite (approach_velocity_cap p q dq v_max)"
    and "0 \<le> f64_val (approach_velocity_cap p q dq v_max)"
    and "f64_val (approach_velocity_cap p q dq v_max) \<le> f64_val v_max"
proof -
  define unit where "unit s \<longleftrightarrow> f64_finite s \<and> 0 \<le> f64_val s \<and> f64_val s \<le> 1" for s
  have one: "unit (f64_lit 1)" by (simp add: unit_def f64_unit(2,3))
  have step: "unit (f64_min s (f64_clamp x f64_zero (f64_lit 1)))" if "unit s" for s x
    using unit_clamp [of s x] that by (simp add: unit_def finite_cases)
  have mul: "f64_finite (f64_mul v_max s) \<and> 0 \<le> f64_val (f64_mul v_max s) \<and> f64_val (f64_mul v_max s) \<le> f64_val v_max"
    if "unit s" for s
    using fmul_unit_between [OF assms] that by (simp add: unit_def)
  have "f64_finite (approach_velocity_cap p q dq v_max) \<and> 0 \<le> f64_val (approach_velocity_cap p q dq v_max) \<and>
      f64_val (approach_velocity_cap p q dq v_max) \<le> f64_val v_max"
    unfolding approach_velocity_cap_def Let_def using assms one step mul by simp
  then show "f64_finite (approach_velocity_cap p q dq v_max)"
    "0 \<le> f64_val (approach_velocity_cap p q dq v_max)"
    "f64_val (approach_velocity_cap p q dq v_max) \<le> f64_val v_max" by auto
qed

lemma measured_position_ok:
  "\<not> measured_position_fault q p \<longleftrightarrow>
     f64_finite q \<and> f64_le (f64_sub (hard_lower p) (lm_measured_fault_slack_rad (jp_margin p))) q \<and>
     f64_le q (f64_add (hard_upper p) (lm_measured_fault_slack_rad (jp_margin p)))"
  by (auto simp: measured_position_fault_def Let_def flt_def fle_def not_less finite_cases)

section \<open>Widening\<close>

lemma find_urdf_joint_Ok: "find_urdf_joint r n = Ok j \<longleftrightarrow> List.find (\<lambda>j. uj_name j = n) r = Some j"
  by (simp add: find_urdf_joint_def split: option.splits)

lemma if_Err_Ok: "(if b then Err e else x) = Ok y \<Longrightarrow> x = Ok y"
  by (simp split: if_splits)

lemma expand_joint_Ok:
  assumes "expand_joint lo hi j = Ok (ch, j')" "f64_finite lo" "f64_finite hi"
    and "f64_finite (ul_lower (uj_limit j))" "f64_finite (ul_upper (uj_limit j))"
  shows "uj_name j' = uj_name j" "uj_joint_type j' = uj_joint_type j"
    "f64_val (ul_lower (uj_limit j')) = min (f64_val lo) (f64_val (ul_lower (uj_limit j)))"
    "f64_val (ul_upper (uj_limit j')) = max (f64_val hi) (f64_val (ul_upper (uj_limit j)))"
    "\<not> ch \<Longrightarrow> j' = j"
proof -
  define l where "l = ul_lower (uj_limit j)"
  define u where "u = ul_upper (uj_limit j)"
  define low where "low = f64_lt (f64_min lo l) l"
  define up where "up = f64_lt u (f64_max hi u)"
  define lim where "lim = (uj_limit j)\<lparr>ul_lower := (if low then f64_min lo l else l), ul_upper := (if up then f64_max hi u else u)\<rparr>"
  have act: "actuated j" using assms(1) by (rule contrapos_pp) (simp add: expand_joint_def)
  have "\<exists>sc. j' = j\<lparr>uj_limit := lim, uj_safety_controller := sc\<rparr> \<and> (ch \<or> \<not> low \<and> \<not> up \<and> sc = uj_safety_controller j)"
  proof (cases "uj_safety_controller j")
    case None
    have "expand_joint lo hi j = Ok (low \<or> up, j\<lparr>uj_limit := lim\<rparr>)"
      unfolding expand_joint_def lim_def low_def up_def l_def u_def Let_def by (simp add: act None)
    then show ?thesis using assms(1) None by (intro exI [of _ None]) auto
  next
    case (Some s)
    define lo' where "lo' = f64_max (us_soft_lower_limit s) (f64_min lo l)"
    define hi' where "hi' = f64_min (us_soft_upper_limit s) (f64_max hi u)"
    define slow where "slow \<longleftrightarrow> \<not> f64_eq (us_soft_lower_limit s) lo'"
    define sup where "sup \<longleftrightarrow> \<not> f64_eq (us_soft_upper_limit s) hi'"
    define sc where "sc = \<lparr>us_soft_lower_limit = (if slow then lo' else us_soft_lower_limit s),
      us_soft_upper_limit = (if sup then hi' else us_soft_upper_limit s)\<rparr>"
    have "expand_joint lo hi j = Ok (ch, j') \<Longrightarrow>
       Ok (low \<or> up \<or> slow \<or> sup, j\<lparr>uj_limit := lim, uj_safety_controller := Some sc\<rparr>) = (Ok (ch, j') :: (_, urdf_error) result)"
      unfolding expand_joint_def sc_def slow_def sup_def lo'_def hi'_def lim_def low_def up_def l_def u_def Let_def Some
      by (simp only: act not_True_eq_False if_False option.map option.case prod.case) (erule if_Err_Ok)
    then have "ch = (low \<or> up \<or> slow \<or> sup)" "j' = j\<lparr>uj_limit := lim, uj_safety_controller := Some sc\<rparr>"
      using assms(1) by simp_all
    then show ?thesis by (intro exI [of _ "Some sc"]) (auto simp: sc_def Some)
  qed
  then obtain sc where j': "j' = j\<lparr>uj_limit := lim, uj_safety_controller := sc\<rparr>"
    and ch: "ch \<or> \<not> low \<and> \<not> up \<and> sc = uj_safety_controller j" by blast
  show "uj_name j' = uj_name j" "uj_joint_type j' = uj_joint_type j" by (simp_all add: j')
  show "f64_val (ul_lower (uj_limit j')) = min (f64_val lo) (f64_val (ul_lower (uj_limit j)))"
    "f64_val (ul_upper (uj_limit j')) = max (f64_val hi) (f64_val (ul_upper (uj_limit j)))"
    using assms(2-5) by (auto simp: j' lim_def low_def up_def l_def u_def fmin_finite fmax_finite flt_finite min_def max_def)
  show "\<not> ch \<Longrightarrow> j' = j" using ch by (simp add: j' lim_def l_def u_def)
qed

lemma find_update_first:
  "List.find P xs = Some x \<Longrightarrow> P (g x) \<Longrightarrow> List.find P (update_first P g xs) = Some (g x)"
  by (induction xs) auto

lemma find_update_first_other:
  "(\<And>y. P y \<Longrightarrow> \<not> Q y) \<Longrightarrow> (\<And>y. P y \<Longrightarrow> \<not> Q (g y)) \<Longrightarrow> List.find Q (update_first P g xs) = List.find Q xs"
  by (induction xs) auto

lemma update_first_same: "List.find P xs = Some x \<Longrightarrow> update_first P (\<lambda>_. x) xs = xs"
  by (induction xs) auto


definition sample_urdf :: urdf_robot where
  "sample_urdf = [\<lparr>uj_name = ''elbow'', uj_joint_type = Revolute,
     uj_limit = \<lparr>ul_lower = f64_zero, ul_upper = f64_lit (1 / 2), ul_velocity = f64_zero, ul_effort = f64_zero\<rparr>,
     uj_safety_controller = None\<rparr>]"


end
