(* ===== verification/Davout_Filter.thy ===== *)
theory Davout_Filter
  imports Kinematics_Limits Config_Validation Davout_Reporting Davout_Faults
begin

text \<open>
  \<open>davout/src/lib.rs\<close> (the command filter) and \<open>davout/src/total_torque.rs\<close>: the error type of the
  supervisor, the installed limit policy of every joint, the validation of a joint command, the limit
  envelope, the danger zones, the slew limit of the feed-forward torque, the bound on the total torque a
  drive computes, the wrong-sign watchdog, and the conversion between joint and motor space. What the
  filter reads of the supervisor is the record \<open>mit_filter\<close>; a measured pose is an argument, because
  the freshness gate that publishes it belongs to the supervisor. \<open>f64::clamp\<close> asserts
  \<open>min <= max\<close>; the assertion is the branch \<open>DavPanic\<close>.
\<close>

section \<open>Types\<close>

datatype operational_mode = ModeDisabled | ModeReady | ModeActive

datatype control_mode = CtlDisabled | CtlGravityComp | CtlImpedance | CtlPosition | CtlTorqueOnly

record mit_joint_command =
  mj_joint :: string
  mj_kp :: f64
  mj_kd :: f64
  mj_position_rad :: f64
  mj_velocity_rad_s :: f64
  mj_torque_ff_nm :: f64

record motor_state =
  ms_position_rad :: f32
  ms_velocity_rad_s :: f32
  ms_torque_nm :: f32
  ms_temperature_c :: f32
  ms_fault :: u16
  ms_updated :: "instant option"

datatype davout_error =
    DavConfig config_error
  | DavUrdf urdf_error
  | DavBus bus_error
  | DavLimit string message
  | DavNotActive operational_mode
  | DavEstop
  | DavUnknownJoint string
  | DavInactiveJoint string
  | DavCommWatchdog u64 string string u8 "nat option"
  | DavInvalidCommand string message
  | DavInvalidFeedback string message
  | DavDangerZone string string
  | DavInvalidMotorConfig string message
  | DavMotorFault string u16
  | DavFaultLatched u64 fault_class "string option" string
  | DavStopDelivery nat
  | DavHoming message
  | DavHomingVerify string message
  | DavReferenceUnsupported string
  | DavReferenceBusy string
  | DavInstalledGenerationExhausted
  | DavReferenceModel message
  | DavWrongSignWatchdog string u32
  | DavLimitPatchActive
  | DavActiveSetChangeRefused
  | DavProtocolInspection message
  | DavDegradedEpisode string string
  | DavDriveLossPlan string message
  | DavPanic

record wrong_sign_state =
  ws_opposition_ticks :: u32
  ws_ticks_since_enable :: u32

definition wrong_sign_default :: wrong_sign_state where
  "wrong_sign_default = \<lparr>ws_opposition_ticks = 0, ws_ticks_since_enable = 0\<rparr>"

record total_torque_clamp =
  tc_predicted_nm :: f64
  tc_bounded_nm :: f64
  tc_cap_nm :: f64
  tc_scale :: f64

record filtered_mit =
  fm_out :: mit_joint_command
  fm_q_meas :: f64
  fm_dq_meas :: f64
  fm_total_torque :: "total_torque_clamp option"
  fm_envelope_clamped :: bool

text \<open>What the filter reads of the supervisor.\<close>

record mit_filter =
  sv_control_mode :: control_mode
  sv_control :: control_section
  sv_limits :: "(string \<times> joint_limit_policy) list"
  sv_last_tau_ff :: "(string \<times> f64) list"
  sv_wrong_sign_state :: "(string \<times> wrong_sign_state) list"

section \<open>Standard operations\<close>

definition u32_saturating_add :: "u32 \<Rightarrow> u32 \<Rightarrow> u32" where
  "u32_saturating_add a b = (if unat a + unat b < 2 ^ 32 then a + b else - 1)"

definition f64_infinity :: f64 where "f64_infinity = Flt False (infb Binary64)"

definition f64_signum :: "f64 \<Rightarrow> f64" where
  "f64_signum x = (if f64_nan x then nan Binary64 else if fneg x then fnegate (f64_lit 1) else f64_lit 1)"

definition f64_of_i8 :: "8 word \<Rightarrow> f64" where
  "f64_of_i8 w = fround Binary64 False (of_int (sint w))"

definition f32_from_f64 :: "f64 \<Rightarrow> f32" where
  "f32_from_f64 x =
     (if f64_nan x then nan Binary32
      else if is_infinite Binary64 x then Flt (fneg x) (infb Binary32)
      else fround Binary32 (fneg x) (f64_val x))"

definition as_secs_f64 :: "duration \<Rightarrow> f64" where
  "as_secs_f64 d =
     f64_add (f_of_nat Binary64 (d div 1000000000))
       (f64_div (f_of_nat Binary64 (d mod 1000000000)) (f64_lit 1000000000))"

definition checked_clamp :: "f64 \<Rightarrow> f64 \<Rightarrow> f64 \<Rightarrow> (f64, davout_error) result" where
  "checked_clamp x lo hi = (if f64_le lo hi then Ok (f64_clamp x lo hi) else Err DavPanic)"

definition store_by_joint :: "(string \<times> 'v) list \<Rightarrow> string \<Rightarrow> 'v \<Rightarrow> (string \<times> 'v) list" where
  "store_by_joint m joint v = AList.update joint v m"

definition count_by_joint :: "(string \<times> u64) list \<Rightarrow> string \<Rightarrow> (string \<times> u64) list" where
  "count_by_joint m joint = store_by_joint m joint (u64_saturating_add (unwrap_or (map_of m joint) 0) 1)"

section \<open>Joint commands\<close>

definition validate_finite :: "string \<Rightarrow> string \<Rightarrow> f64 \<Rightarrow> (unit, davout_error) result" where
  "validate_finite joint field v =
     refuse_if (\<not> f64_finite v) (DavInvalidCommand joint [Txt (field @ '' must be finite'')])"

definition validate_mit_command :: "mit_joint_command \<Rightarrow> (unit, davout_error) result" where
  "validate_mit_command cmd =
     rbind (for_each (\<lambda>(field, v). validate_finite (mj_joint cmd) field v)
       [(''position'', mj_position_rad cmd), (''velocity'', mj_velocity_rad_s cmd), (''kp'', mj_kp cmd),
        (''kd'', mj_kd cmd), (''torque_ff'', mj_torque_ff_nm cmd)]) (\<lambda>_.
     refuse_if (f64_lt (mj_kp cmd) f64_zero \<or> f64_lt (mj_kd cmd) f64_zero)
       (DavInvalidCommand (mj_joint cmd) [Txt ''kp/kd must be nonnegative'']))"

definition motor_position_scale :: "motor_entry \<Rightarrow> (f64, davout_error) result" where
  "motor_position_scale motor =
     (if me_direction motor \<notin> {- 1, 1}
      then Err (DavInvalidMotorConfig (me_joint motor) [Txt ''direction must be -1 or 1''])
      else if \<not> f64_finite (me_gear_ratio motor) \<or> f64_le (me_gear_ratio motor) f64_zero
      then Err (DavInvalidMotorConfig (me_joint motor) [Txt ''gear_ratio must be finite and positive''])
      else Ok (f64_mul (if sint (me_direction motor) < 0 then fnegate (f64_lit 1) else f64_lit 1)
        (me_gear_ratio motor)))"

definition checked_wire_float :: "string \<Rightarrow> string \<Rightarrow> f64 \<Rightarrow> (f32, davout_error) result" where
  "checked_wire_float joint field v =
     rbind (validate_finite joint field v) (\<lambda>_.
       let wire = f32_from_f64 v
       in if \<not> is_finite Binary32 wire
          then Err (DavInvalidCommand joint [Txt (field @ '' overflows motor-space f32'')])
          else Ok wire)"

definition joint_to_motor_command ::
    "motor_entry \<Rightarrow> mit_joint_command \<Rightarrow> (mit_command, davout_error) result" where
  "joint_to_motor_command motor cmd =
     rbind (motor_position_scale motor) (\<lambda>scale.
       let gain_scale = f64_mul scale scale
       in if \<not> f64_finite gain_scale \<or> f64_le gain_scale f64_zero
          then Err (DavInvalidMotorConfig (me_joint motor) [Txt ''gear ratio squared must be finite and nonzero''])
          else
            rbind (checked_wire_float (mj_joint cmd) ''position'' (f64_mul (mj_position_rad cmd) scale)) (\<lambda>p.
            rbind (checked_wire_float (mj_joint cmd) ''velocity'' (f64_mul (mj_velocity_rad_s cmd) scale)) (\<lambda>v.
            rbind (checked_wire_float (mj_joint cmd) ''kp'' (f64_div (mj_kp cmd) gain_scale)) (\<lambda>kp.
            rbind (checked_wire_float (mj_joint cmd) ''kd'' (f64_div (mj_kd cmd) gain_scale)) (\<lambda>kd.
            rbind (checked_wire_float (mj_joint cmd) ''torque_ff'' (f64_div (mj_torque_ff_nm cmd) scale)) (\<lambda>t.
              Ok \<lparr>cmd_device_id = me_device_id motor, cmd_motor_type = me_motor_type motor,
                 cmd_position_rad = p, cmd_velocity_rad_s = v, cmd_kp = kp, cmd_kd = kd,
                 cmd_torque_ff_nm = t\<rparr>))))))"

section \<open>Feedback\<close>

definition validate_motor_feedback :: "string \<Rightarrow> motor_state \<Rightarrow> (unit, davout_error) result" where
  "validate_motor_feedback joint st =
     for_each (\<lambda>(field, v). refuse_if (\<not> is_finite Binary32 v)
         (DavInvalidFeedback joint [Txt (field @ '' must be finite'')]))
       [(''position'', ms_position_rad st), (''velocity'', ms_velocity_rad_s st),
        (''torque'', ms_torque_nm st), (''temperature'', ms_temperature_c st)]"

definition motor_to_joint_state :: "motor_entry \<Rightarrow> motor_state \<Rightarrow> (motor_state, davout_error) result" where
  "motor_to_joint_state motor raw =
     rbind (motor_position_scale motor) (\<lambda>scale.
       Ok \<lparr>ms_position_rad = f32_from_f64 (f64_div (f64_from_f32 (ms_position_rad raw)) scale),
          ms_velocity_rad_s = f32_from_f64 (f64_div (f64_from_f32 (ms_velocity_rad_s raw)) scale),
          ms_torque_nm = f32_from_f64 (f64_mul (f64_from_f32 (ms_torque_nm raw)) scale),
          ms_temperature_c = ms_temperature_c raw, ms_fault = ms_fault raw, ms_updated = ms_updated raw\<rparr>)"

section \<open>The slew limit\<close>

definition rate_limit_tau_ff ::
    "f64 option \<Rightarrow> f64 \<Rightarrow> f64 \<Rightarrow> duration option \<Rightarrow> f64 \<Rightarrow> (f64, davout_error) result" where
  "rate_limit_tau_ff previous target rate_nm_s elapsed cap =
     rbind (checked_clamp (unwrap_or previous f64_zero) (fnegate cap) cap) (\<lambda>prev.
     rbind (checked_clamp target (fnegate cap) cap) (\<lambda>target.
     rbind (checked_clamp (unwrap_or (map_option as_secs_f64 elapsed) (f64_lit (1 / 100)))
              (f64_lit (1 / 10000)) (f64_lit (1 / 100))) (\<lambda>dt.
       let max_step = f64_mul rate_nm_s dt
       in rbind (checked_clamp (f64_sub target prev) (fnegate max_step) max_step) (\<lambda>delta.
            checked_clamp (f64_add prev delta) (fnegate cap) cap))))"

section \<open>The total torque of a drive\<close>

definition TOTAL_TORQUE_VELOCITY_MARGIN_RAD_S :: f64 where
  "TOTAL_TORQUE_VELOCITY_MARGIN_RAD_S = f64_lit (1 / 10)"
definition TOTAL_TORQUE_HORIZON_TICKS :: f64 where "TOTAL_TORQUE_HORIZON_TICKS = f64_lit 2"
definition TOTAL_TORQUE_CLAMP_LOG_INTERVAL :: duration where "TOTAL_TORQUE_CLAMP_LOG_INTERVAL = secs 1"

record total_torque_clamp_log =
  tl_counts :: "(string \<times> u64) list"
  tl_last_warn :: "instant option"
  tl_unlogged :: u64

definition clamp_count :: "total_torque_clamp_log \<Rightarrow> string \<Rightarrow> u64" where
  "clamp_count l joint = unwrap_or (map_of (tl_counts l) joint) 0"

definition record_clamp :: "string \<Rightarrow> instant \<Rightarrow> total_torque_clamp_log \<Rightarrow> total_torque_clamp_log" where
  "record_clamp joint now l =
     (let l = l\<lparr>tl_counts := store_by_joint (tl_counts l) joint (u64_saturating_add (clamp_count l joint) 1),
                tl_unlogged := u64_saturating_add (tl_unlogged l) 1\<rparr>
      in if (case tl_last_warn l of Some warned \<Rightarrow> saturating_since now warned < TOTAL_TORQUE_CLAMP_LOG_INTERVAL
             | None \<Rightarrow> False)
         then l
         else l\<lparr>tl_last_warn := Some now, tl_unlogged := 0\<rparr>)"

definition margin_nm :: "mit_joint_command \<Rightarrow> f64 \<Rightarrow> f64 \<Rightarrow> f64" where
  "margin_nm cmd dq horizon_s =
     (let e_max = f64_mul (f64_max (fabs dq) (fabs (mj_velocity_rad_s cmd))) horizon_s
      in f64_add (f64_mul (mj_kp cmd) e_max) (f64_mul (mj_kd cmd) TOTAL_TORQUE_VELOCITY_MARGIN_RAD_S))"

definition pd_torque :: "mit_joint_command \<Rightarrow> f64 \<Rightarrow> f64 \<Rightarrow> f64" where
  "pd_torque cmd q dq =
     f64_add (f64_mul (mj_kp cmd) (f64_sub (mj_position_rad cmd) q))
       (f64_mul (mj_kd cmd) (f64_sub (mj_velocity_rad_s cmd) dq))"

definition predicted_total_torque_nm :: "mit_joint_command \<Rightarrow> f64 \<Rightarrow> f64 \<Rightarrow> f64 \<Rightarrow> f64" where
  "predicted_total_torque_nm cmd q dq horizon_s =
     f64_add (fabs (f64_add (pd_torque cmd q dq) (mj_torque_ff_nm cmd))) (margin_nm cmd dq horizon_s)"

text \<open>The proportional-derivative torque the clamp aims at: within what the cap leaves, and never past zero.\<close>

definition reachable_pd :: "f64 \<Rightarrow> f64 \<Rightarrow> f64 \<Rightarrow> f64 \<Rightarrow> (f64, davout_error) result" where
  "reachable_pd pd cap margin torque_ff =
     (let upper = f64_sub (f64_sub cap margin) torque_ff;
          lower = f64_sub (f64_add (fnegate cap) margin) torque_ff
      in rbind (if f64_le lower upper then checked_clamp pd lower upper else Ok (fnegate torque_ff)) (\<lambda>target.
           checked_clamp target (f64_min pd f64_zero) (f64_max pd f64_zero)))"

definition clamp_total_torque ::
    "mit_joint_command \<Rightarrow> f64 \<Rightarrow> f64 \<Rightarrow> f64 \<Rightarrow> f64 \<Rightarrow>
     (mit_joint_command \<times> total_torque_clamp option, davout_error) result" where
  "clamp_total_torque cmd q dq cap_nm horizon_s =
     (let invalid = (\<lambda>m. DavInvalidCommand (mj_joint cmd) [Txt m]) in
      rbind (for_each (\<lambda>(field, v). refuse_if (\<not> f64_finite v) (invalid (field @ '' must be finite'')))
        [(''position'', mj_position_rad cmd), (''velocity'', mj_velocity_rad_s cmd), (''kp'', mj_kp cmd),
         (''kd'', mj_kd cmd), (''torque_ff'', mj_torque_ff_nm cmd)]) (\<lambda>_.
      rbind (refuse_if (\<not> f64_finite q \<or> \<not> f64_finite dq)
        (DavInvalidFeedback (mj_joint cmd)
          [Txt ''total-torque bound needs finite position and velocity feedback''])) (\<lambda>_.
      rbind (refuse_if (\<not> f64_finite cap_nm \<or> f64_lt cap_nm f64_zero \<or> \<not> f64_finite horizon_s \<or>
          f64_le horizon_s f64_zero)
        (DavLimit (mj_joint cmd)
          [Txt ''total-torque bound needs a finite cap ('', Num cap_nm, Txt '') and horizon''])) (\<lambda>_.
      let e = f64_sub (mj_position_rad cmd) q;
          e_dot = f64_sub (mj_velocity_rad_s cmd) dq;
          pd = pd_torque cmd q dq;
          margin = margin_nm cmd dq horizon_s
      in rbind (refuse_if (\<not> f64_finite pd \<or> \<not> f64_finite margin)
           (invalid ''predicted total torque overflows'')) (\<lambda>_.
         rbind (reachable_pd pd cap_nm margin (mj_torque_ff_nm cmd)) (\<lambda>reachable.
         if f64_eq reachable pd then Ok (cmd, None)
         else let predicted = predicted_total_torque_nm cmd q dq horizon_s;
                  scale = f64_div reachable pd;
                  p = f64_add q (f64_mul scale e);
                  v = f64_add dq (f64_mul scale e_dot)
              in if \<not> f64_finite p \<or> \<not> f64_finite v \<or> \<not> (f64_le f64_zero scale \<and> f64_le scale (f64_lit 1))
                 then Err (invalid ''total-torque clamp produced a non-finite setpoint'')
                 else Ok (cmd\<lparr>mj_position_rad := p, mj_velocity_rad_s := v\<rparr>,
                   Some \<lparr>tc_predicted_nm = predicted,
                     tc_bounded_nm = f64_add (fabs (f64_add reachable (mj_torque_ff_nm cmd))) margin,
                     tc_cap_nm = cap_nm, tc_scale = scale\<rparr>)))))))"

section \<open>Danger zones\<close>

definition danger_zone_applies :: "danger_zone_rule \<Rightarrow> string \<Rightarrow> f64 \<Rightarrow> f64 \<Rightarrow> bool" where
  "danger_zone_applies rule joint q_meas dq_meas \<longleftrightarrow>
     dz_joint rule = joint \<and>
     \<not> (f64_le q_meas (dz_position_above_rad rule) \<or> f64_le (dz_velocity_below_rad_s rule) dq_meas)"

fun danger_zone_clamps ::
    "danger_zone_rule list \<Rightarrow> f64 \<Rightarrow> f64 \<Rightarrow> mit_joint_command \<Rightarrow> f64 \<Rightarrow>
     (mit_joint_command \<times> f64, davout_error) result" where
  "danger_zone_clamps [] q_meas dq_meas cmd torque_cap = Ok (cmd, torque_cap)"
| "danger_zone_clamps (rule # rules) q_meas dq_meas cmd torque_cap =
     (if \<not> danger_zone_applies rule (mj_joint cmd) q_meas dq_meas
      then danger_zone_clamps rules q_meas dq_meas cmd torque_cap
      else if dz_action rule = ''clamp_velocity''
      then danger_zone_clamps rules q_meas dq_meas
        (cmd\<lparr>mj_velocity_rad_s :=
          (if f64_lt (mj_velocity_rad_s cmd) f64_zero
           then f64_max (mj_velocity_rad_s cmd) (fnegate (dz_max_velocity_rad_s rule))
           else f64_min (mj_velocity_rad_s cmd) (dz_max_velocity_rad_s rule))\<rparr>) torque_cap
      else if dz_action rule = ''clamp_torque''
      then (case dz_max_torque_nm rule of
              None \<Rightarrow> Err (DavInvalidMotorConfig (mj_joint cmd)
                [Txt (''danger zone '' @ dz_name rule @ '' has no max_torque_nm'')])
            | Some c \<Rightarrow>
                (let cap = f64_max c f64_zero
                 in rbind (checked_clamp (mj_torque_ff_nm cmd) (fnegate cap) cap) (\<lambda>t.
                      danger_zone_clamps rules q_meas dq_meas (cmd\<lparr>mj_torque_ff_nm := t\<rparr>)
                        (f64_min torque_cap cap))))
      else Err (DavInvalidMotorConfig (mj_joint cmd)
        [Txt (''danger zone '' @ dz_name rule @ '' has unknown action '' @ dz_action rule)]))"

definition apply_danger_zone_clamps ::
    "'a mit_filter_scheme \<Rightarrow> mit_joint_command \<Rightarrow> f64 \<Rightarrow> f64 \<Rightarrow>
     (mit_joint_command \<times> f64, davout_error) result" where
  "apply_danger_zone_clamps s cmd q_meas dq_meas =
     danger_zone_clamps (cs_danger_zones (sv_control s)) q_meas dq_meas cmd f64_infinity"

section \<open>The filter\<close>

definition outside_hard :: "joint_limit_policy \<Rightarrow> f64 \<Rightarrow> bool" where
  "outside_hard pol p \<longleftrightarrow> f64_lt p (hard_lower pol) \<or> f64_lt (hard_upper pol) p"

definition outside_message :: "string \<Rightarrow> string \<Rightarrow> string \<Rightarrow> joint_limit_policy \<Rightarrow> f64 \<Rightarrow> message" where
  "outside_message pre mid post pol p =
     [Txt pre, Num p, Txt mid, Num (hard_lower pol), Txt '', '', Num (hard_upper pol), Txt ('']'' @ post)]"

text \<open>The gains are bounded in motor space.\<close>

definition gain_gate ::
    "motor_entry \<Rightarrow> motor_type_defaults \<Rightarrow> mit_joint_command \<Rightarrow> (unit, davout_error) result" where
  "gain_gate motor defaults cmd =
     rbind (motor_position_scale motor) (\<lambda>scale.
       let gain_scale = f64_mul scale scale
       in refuse_if (\<not> f64_finite gain_scale \<or> f64_le gain_scale f64_zero \<or>
            f64_lt (mtd_kp_max defaults) (f64_div (mj_kp cmd) gain_scale) \<or>
            f64_lt (mtd_kd_max defaults) (f64_div (mj_kd cmd) gain_scale))
            (DavLimit (mj_joint cmd) [Txt ''motor-space kp/kd exceed motor type max'']))"

text \<open>The envelope moves the position of every command but a keepalive, which is only checked.\<close>

definition position_gate ::
    "joint_limit_policy \<Rightarrow> f64 \<Rightarrow> f64 \<Rightarrow> mit_joint_command \<Rightarrow> (mit_joint_command \<times> bool, davout_error) result" where
  "position_gate pol q_meas dq_meas cmd =
     (let dq_envelope =
            (if f64_le (fabs dq_meas) (fabs (mj_velocity_rad_s cmd)) then mj_velocity_rad_s cmd
             else if f64_lt (f64_lit (1 / 1000000000)) (fabs dq_meas) then dq_meas
             else mj_velocity_rad_s cmd);
          keepalive = (f64_eq (mj_kp cmd) f64_zero \<and> f64_eq (mj_kd cmd) f64_zero \<and>
            f64_eq (mj_torque_ff_nm cmd) f64_zero)
      in if \<not> keepalive
         then let clamped = clamp_position_in_envelope pol q_meas dq_envelope (mj_position_rad cmd);
                  moved = f64_lt (f64_lit (1 / 1000000000)) (fabs (f64_sub clamped (mj_position_rad cmd)))
              in if outside_hard pol clamped
                 then Err (DavLimit (mj_joint cmd)
                   (outside_message ''position '' '' outside hard ['' '' after envelope clamp'' pol clamped))
                 else Ok (cmd\<lparr>mj_position_rad := clamped\<rparr>, moved)
         else if outside_hard pol (mj_position_rad cmd)
         then Err (DavLimit (mj_joint cmd)
           (outside_message ''position '' '' outside ['' [] pol (mj_position_rad cmd)))
         else Ok (cmd, False))"

definition velocity_gate :: "string \<Rightarrow> string \<Rightarrow> f64 \<Rightarrow> mit_joint_command \<Rightarrow> (unit, davout_error) result" where
  "velocity_gate before between vel_cap cmd =
     refuse_if (f64_lt vel_cap (fabs (mj_velocity_rad_s cmd)))
       (DavLimit (mj_joint cmd) [Txt before, Num (mj_velocity_rad_s cmd), Txt between, Num vel_cap])"

definition torque_cap :: "joint_limit_policy \<Rightarrow> motor_entry \<Rightarrow> motor_type_defaults \<Rightarrow> f64 \<Rightarrow> f64" where
  "torque_cap pol motor defaults zone_cap =
     f64_min (f64_min (f64_min (jp_tau_ff_max pol) (bl_torque_limit_nm (me_bench motor)))
       (mtd_tau_ff_max_nm defaults)) zone_cap"

definition filter_mit_core ::
    "'a mit_filter_scheme \<Rightarrow> mit_joint_command \<Rightarrow> motor_entry \<Rightarrow> motor_state option \<Rightarrow> motor_state option \<Rightarrow>
     duration option \<Rightarrow> (filtered_mit, davout_error) result" where
  "filter_mit_core s cmd motor q_feedback dq_feedback elapsed =
     rbind (validate_mit_command cmd) (\<lambda>_.
     rbind (case map_of (sv_limits s) (mj_joint cmd) of
              None \<Rightarrow> Err (DavUnknownJoint (mj_joint cmd)) | Some pol \<Rightarrow> Ok pol) (\<lambda>pol.
     rbind (case map_of (cs_motor_type_defaults (sv_control s)) (motor_type_key (me_motor_type motor)) of
              None \<Rightarrow> Err (DavLimit (mj_joint cmd)
                [Txt (''no defaults for motor type '' @ motor_type_key (me_motor_type motor))])
            | Some d \<Rightarrow> Ok d) (\<lambda>defaults.
     rbind (gain_gate motor defaults cmd) (\<lambda>_.
       let q_meas = (case q_feedback of Some st \<Rightarrow> f64_from_f32 (ms_position_rad st)
             | None \<Rightarrow> mj_position_rad cmd);
           dq_meas = (case dq_feedback of Some st \<Rightarrow> f64_from_f32 (ms_velocity_rad_s st) | None \<Rightarrow> f64_zero);
           vel_cap = jp_velocity pol
       in
     rbind (position_gate pol q_meas dq_meas cmd) (\<lambda>(out1, moved).
     rbind (apply_danger_zone_clamps s out1 q_meas dq_meas) (\<lambda>(out2, zone_cap).
       let slowed = f64_lt (f64_lit (1 / 1000000000))
             (fabs (f64_sub (mj_velocity_rad_s out2) (mj_velocity_rad_s cmd)));
           cap = torque_cap pol motor defaults zone_cap;
           horizon_s = f64_div TOTAL_TORQUE_HORIZON_TICKS (f_of_nat Binary64 (unat (cs_loop_hz (sv_control s))))
       in
     rbind (velocity_gate ''|velocity| '' '' > '' vel_cap out2) (\<lambda>_.
     rbind (rate_limit_tau_ff (map_of (sv_last_tau_ff s) (mj_joint cmd)) (mj_torque_ff_nm out2)
        (cs_tau_ff_rate_limit_nm_per_s (sv_control s)) elapsed cap) (\<lambda>tau.
     rbind (checked_clamp dq_meas (fnegate vel_cap) vel_cap) (\<lambda>dq_bounded.
     rbind (clamp_total_torque (out2\<lparr>mj_torque_ff_nm := tau\<rparr>) q_meas dq_bounded cap horizon_s) (\<lambda>(out, total).
     rbind (velocity_gate ''total-torque clamp moved |velocity| '' '' above '' vel_cap out) (\<lambda>_.
     rbind (refuse_if (total \<noteq> None \<and> outside_hard pol (mj_position_rad out))
        (DavLimit (mj_joint cmd) (outside_message ''total-torque clamp moved position '' '' outside hard ['' []
          pol (mj_position_rad out)))) (\<lambda>_.
       Ok \<lparr>fm_out = out, fm_q_meas = q_meas, fm_dq_meas = dq_meas, fm_total_torque = total,
          fm_envelope_clamped = (moved \<or> slowed)\<rparr>))))))))))))"

section \<open>The wrong-sign watchdog\<close>

definition wrong_sign_step ::
    "'a mit_filter_scheme \<Rightarrow> mit_joint_command \<Rightarrow> f64 \<Rightarrow> f64 \<Rightarrow>
     (wrong_sign_state \<times> (unit, davout_error) result) option" where
  "wrong_sign_step s out q_meas dq_meas =
     (let cfg = cs_wrong_sign_watchdog (sv_control s) in
      if sv_control_mode s \<noteq> CtlGravityComp \<or> \<not> wsw_enabled cfg then None
      else let st = unwrap_or (map_of (sv_wrong_sign_state s) (mj_joint out)) wrong_sign_default;
               st = st\<lparr>ws_ticks_since_enable := u32_saturating_add (ws_ticks_since_enable st) 1\<rparr>
           in if ws_ticks_since_enable st \<le> wsw_grace_period_ticks cfg \<or>
                 f64_le (fabs dq_meas) (wsw_min_velocity_rad_s cfg)
              then Some (st, Ok ())
              else let expected = (if f64_le f64_zero q_meas then f64_of_i8 (wsw_expected_sign_at_positive_q cfg)
                         else fnegate (f64_of_i8 (wsw_expected_sign_at_positive_q cfg)));
                       actual = f64_signum (mj_torque_ff_nm out)
                   in if f64_eq actual f64_zero \<or> f64_eq actual expected
                      then Some (st\<lparr>ws_opposition_ticks := 0\<rparr>, Ok ())
                      else let st = st\<lparr>ws_opposition_ticks := u32_saturating_add (ws_opposition_ticks st) 1\<rparr>
                           in Some (st, refuse_if (wsw_min_opposition_ticks cfg \<le> ws_opposition_ticks st)
                                (DavWrongSignWatchdog (mj_joint out) (ws_opposition_ticks st))))"

section \<open>The installed limits\<close>

definition limit_margin_from_config :: "joint_control_entry \<Rightarrow> limit_margin_config" where
  "limit_margin_from_config c =
     \<lparr>lm_min_rad = jc_position_limit_margin_min_rad c, lm_k_v_s = jc_position_limit_margin_k_v_s c,
      lm_k_stop = jc_position_limit_margin_k_stop c,
      lm_velocity_deadband_rad_s = jc_position_trajectory_velocity_deadband_rad c,
      lm_measured_fault_slack_rad = jc_position_limit_measured_fault_slack_rad c,
      lm_decel_rad_s2 = jc_position_trajectory_accel_rad_s2 c\<rparr>"

definition map_err :: "('e \<Rightarrow> 'f) \<Rightarrow> ('a, 'e) result \<Rightarrow> ('a, 'f) result" where
  "map_err f r = (case r of Inl e \<Rightarrow> Err (f e) | Inr x \<Rightarrow> Ok x)"

definition ok_or :: "'a option \<Rightarrow> 'e \<Rightarrow> ('a, 'e) result" where
  "ok_or x e = (case x of None \<Rightarrow> Err e | Some v \<Rightarrow> Ok v)"

text \<open>The soft bounds of a joint, clamped into its hard bounds.\<close>

definition clamp_soft_bounds ::
    "joint_control_entry \<Rightarrow> limit_bounds \<Rightarrow> (limit_bounds, davout_error) result" where
  "clamp_soft_bounds jc b =
     (let clamped = (\<lambda>x. checked_clamp x (lb_hard_lower b) (lb_hard_upper b)) in
      rbind (case jc_position_soft_lower_rad jc of Some lo \<Rightarrow> clamped lo | None \<Rightarrow> Ok (lb_soft_lower b)) (\<lambda>lo.
      rbind (case jc_position_soft_upper_rad jc of Some hi \<Rightarrow> clamped hi | None \<Rightarrow> Ok (lb_soft_upper b)) (\<lambda>hi.
      rbind (clamped lo) (\<lambda>lo. rbind (clamped hi) (\<lambda>hi.
        Ok (b\<lparr>lb_soft_lower := lo, lb_soft_upper := hi\<rparr>))))))"

definition build_joint_limits ::
    "robot_section \<Rightarrow> motor_entry list \<Rightarrow> control_section \<Rightarrow> urdf_robot \<Rightarrow> string \<Rightarrow>
     (joint_limit_policy, davout_error) result" where
  "build_joint_limits robot motors control urdf joint =
     rbind (map_err DavUrdf (joint_limits urdf joint)) (\<lambda>pol.
     rbind (map_err DavUrdf (joint_limit_bounds urdf joint)) (\<lambda>b0.
     rbind (ok_or (motor_for_joint motors joint) (DavUnknownJoint joint)) (\<lambda>motor.
       let b1 = b0\<lparr>lb_hard_lower := f64_max (ul_lower pol) (bl_position_lower_rad (me_bench motor)),
                  lb_hard_upper := f64_min (ul_upper pol) (bl_position_upper_rad (me_bench motor))\<rparr> in
     rbind (refuse_if (f64_le (lb_hard_upper b1) (lb_hard_lower b1))
        (DavLimit joint [Txt ''URDF ['', Num (ul_lower pol), Txt '', '', Num (ul_upper pol), Txt ''] and bench ['',
          Num (bl_position_lower_rad (me_bench motor)), Txt '', '', Num (bl_position_upper_rad (me_bench motor)),
          Txt ''] hard bounds do not overlap''])) (\<lambda>_.
     rbind (ok_or (map_of (cs_joints control) joint)
        (DavLimit joint [Txt (''missing control.joints.'' @ joint)])) (\<lambda>jc.
     rbind (clamp_soft_bounds jc b1) (\<lambda>b.
     rbind (refuse_if (f64_lt (lb_soft_lower b) (lb_hard_lower b) \<or> f64_lt (lb_hard_upper b) (lb_soft_upper b))
        (DavLimit joint [Txt ''soft ['', Num (lb_soft_lower b), Txt '', '', Num (lb_soft_upper b),
          Txt ''] not within hard ['', Num (lb_hard_lower b), Txt '', '', Num (lb_hard_upper b), Txt '']''])) (\<lambda>_.
     rbind (ok_or (map_of (cs_motor_type_defaults control) (motor_type_key (me_motor_type motor)))
        (DavLimit joint [Txt (''missing motor_type_defaults.'' @ motor_type_key (me_motor_type motor))])) (\<lambda>defaults.
     rbind (map_err DavConfig (resolve_joint_velocity_cap joint (me_motor_type motor) control)) (\<lambda>velocity.
       let effort = f64_min (f64_min (ul_effort pol) (bl_torque_limit_nm (me_bench motor)))
             (rb_max_joint_torque_nm robot)
       in Ok \<lparr>jp_bounds = b, jp_margin = limit_margin_from_config jc, jp_velocity = velocity,
            jp_effort = effort, jp_tau_ff_max = f64_min effort (mtd_tau_ff_max_nm defaults)\<rparr>)))))))))"

fun build_limits_from ::
    "robot_section \<Rightarrow> motor_entry list \<Rightarrow> control_section \<Rightarrow> urdf_robot \<Rightarrow> string list \<Rightarrow>
     (string \<times> joint_limit_policy) list \<Rightarrow> ((string \<times> joint_limit_policy) list, davout_error) result" where
  "build_limits_from robot motors control urdf [] m = Ok m"
| "build_limits_from robot motors control urdf (joint # joints) m =
     rbind (build_joint_limits robot motors control urdf joint) (\<lambda>p.
       build_limits_from robot motors control urdf joints (AList.update joint p m))"

definition build_limits ::
    "robot_section \<Rightarrow> motor_entry list \<Rightarrow> control_section \<Rightarrow> urdf_robot \<Rightarrow>
     ((string \<times> joint_limit_policy) list, davout_error) result" where
  "build_limits robot motors control urdf =
     build_limits_from robot motors control urdf (rb_joints robot) []"

section \<open>Clamps\<close>

lemma checked_clamp_Ok: "checked_clamp x lo hi = Ok y \<longleftrightarrow> f64_le lo hi \<and> y = f64_clamp x lo hi"
  by (auto simp: checked_clamp_def)

lemma checked_clamp_between:
  assumes "checked_clamp x lo hi = Ok y" and "\<not> f64_nan y"
  shows "f64_le lo y" and "f64_le y hi"
  using assms by (auto simp: checked_clamp_Ok fclamp_def fle_def flt_def split: if_splits)

lemma is_nan_fabs [simp]: "is_nan f (fabs x) = is_nan f x"
  by (simp add: fabs_def is_nan_def)

lemma is_nan_fnegate [simp]: "is_nan f (fnegate x) = is_nan f x"
  by (simp add: fnegate_def is_nan_def)

lemma fkey_fnegate [simp]: "fkey (fnegate x) = - fkey x"
  by (simp add: fkey_def fnegate_def)

lemma fkey_fabs [simp]: "fkey (fabs x) = \<bar>fkey x\<bar>"
  by (simp add: fkey_def fabs_def)

lemma fkey_zero [simp]: "fkey (Flt z 0) = 0"
  by (simp add: fkey_def)

lemma is_nan_zero [simp]: "\<not> is_nan f (Flt z 0)"
  by (simp add: is_nan_def)

lemma fle_symmetric [simp]: "fle f (fnegate c) c \<longleftrightarrow> \<not> is_nan f c \<and> 0 \<le> fkey c"
  by (auto simp: fle_def)

lemma symmetric_clamp:
  assumes "checked_clamp x (fnegate c) c = Ok y" and "\<not> f64_nan y"
  shows "f64_le (fabs y) c"
  using checked_clamp_between [OF assms] assms(2) by (auto simp: fle_def)

section \<open>Stages that succeed\<close>

lemma validate_mit_command_Ok:
  "validate_mit_command cmd = Ok u \<longleftrightarrow>
     f64_finite (mj_position_rad cmd) \<and> f64_finite (mj_velocity_rad_s cmd) \<and> f64_finite (mj_kp cmd) \<and>
     f64_finite (mj_kd cmd) \<and> f64_finite (mj_torque_ff_nm cmd) \<and>
     \<not> f64_lt (mj_kp cmd) f64_zero \<and> \<not> f64_lt (mj_kd cmd) f64_zero"
  by (auto simp: validate_mit_command_def validate_finite_def rbind_Ok_iff)

lemma position_gate_Ok:
  assumes "position_gate pol q dq cmd = Ok (out, moved)"
  shows "\<exists>p. out = cmd\<lparr>mj_position_rad := p\<rparr> \<and> \<not> outside_hard pol p"
proof -
  have "out = cmd\<lparr>mj_position_rad := mj_position_rad out\<rparr> \<and> \<not> outside_hard pol (mj_position_rad out)"
    using assms by (auto simp: position_gate_def Let_def split: if_splits)
  then show ?thesis by blast
qed

definition same_goal :: "mit_joint_command \<Rightarrow> mit_joint_command \<Rightarrow> bool" where
  "same_goal a b \<longleftrightarrow> mj_joint a = mj_joint b \<and> mj_kp a = mj_kp b \<and> mj_kd a = mj_kd b"

lemma danger_zone_clamps_Ok:
  assumes "danger_zone_clamps rules q dq cmd cap = Ok (out, cap')" and "\<not> f64_nan cap"
  shows "same_goal out cmd \<and> mj_position_rad out = mj_position_rad cmd \<and> \<not> f64_nan cap' \<and> fkey cap' \<le> fkey cap \<and>
    (\<forall>r \<in> set rules. danger_zone_applies r (mj_joint cmd) q dq \<and> dz_action r = ''clamp_torque'' \<longrightarrow>
      (\<exists>c. dz_max_torque_nm r = Some c \<and> f64_le cap' (f64_max c f64_zero)))"
  using assms
proof (induction rules q dq cmd cap rule: danger_zone_clamps.induct)
  case (1 q dq cmd cap)
  then show ?case by (simp add: same_goal_def)
next
  case (2 rule rules q dq cmd cap)
  show ?case
  proof (cases "danger_zone_applies rule (mj_joint cmd) q dq")
    case False
    with 2 show ?thesis by auto
  next
    case app: True
    consider "dz_action rule = ''clamp_velocity''" | "dz_action rule = ''clamp_torque''"
      using 2(4) app by (auto split: if_splits)
    then show ?thesis
    proof cases
      case 1
      with 2 app show ?thesis by (auto simp: same_goal_def)
    next
      case act: 2
      from 2(4) app act obtain c t where c: "dz_max_torque_nm rule = Some c"
        and t: "checked_clamp (mj_torque_ff_nm cmd) (fnegate (f64_max c f64_zero)) (f64_max c f64_zero) = Ok t"
        and rest: "danger_zone_clamps rules q dq (cmd\<lparr>mj_torque_ff_nm := t\<rparr>) (f64_min cap (f64_max c f64_zero)) = Ok (out, cap')"
        by (auto simp: Let_def rbind_Ok_iff split: option.splits)
      have m: "\<not> f64_nan (f64_max c f64_zero)" using fmax_ge [of Binary64 f64_zero c] by simp
      have n: "\<not> f64_nan (f64_min cap (f64_max c f64_zero))" using fmin_le [OF m, of cap] by simp
      have k: "fkey (f64_min cap (f64_max c f64_zero)) = min (fkey cap) (fkey (f64_max c f64_zero))"
        using fmin_key [OF 2(5) m] .
      have d: "dz_action rule \<noteq> ''clamp_velocity''" using act by simp
      have "same_goal out (cmd\<lparr>mj_torque_ff_nm := t\<rparr>) \<and> mj_position_rad out = mj_position_rad cmd \<and> \<not> f64_nan cap' \<and>
          fkey cap' \<le> fkey (f64_min cap (f64_max c f64_zero)) \<and>
          (\<forall>r \<in> set rules. danger_zone_applies r (mj_joint cmd) q dq \<and> dz_action r = ''clamp_torque'' \<longrightarrow>
            (\<exists>c. dz_max_torque_nm r = Some c \<and> f64_le cap' (f64_max c f64_zero)))"
        using 2(3) [OF _ d act c refl t rest n] app by simp
      then show ?thesis using c k m by (auto simp: same_goal_def fle_def)
    qed
  qed
qed

lemma rate_limit_tau_ff_Ok:
  assumes "rate_limit_tau_ff prev target rate el cap = Ok tau" and "\<not> f64_nan tau"
  shows "f64_le (fabs tau) cap"
  using assms by (auto simp: rate_limit_tau_ff_def rbind_Ok_iff Let_def intro: symmetric_clamp)

definition command_finite :: "mit_joint_command \<Rightarrow> bool" where
  "command_finite cmd \<longleftrightarrow>
     f64_finite (mj_position_rad cmd) \<and> f64_finite (mj_velocity_rad_s cmd) \<and> f64_finite (mj_kp cmd) \<and>
     f64_finite (mj_kd cmd) \<and> f64_finite (mj_torque_ff_nm cmd)"

lemma clamp_total_torque_Ok:
  assumes "clamp_total_torque cmd q dq cap h = Ok (out, tot)"
  shows "command_finite cmd" and "command_finite out" and "f64_finite q" and "f64_finite dq" and "f64_finite cap"
    and "same_goal out cmd" and "mj_torque_ff_nm out = mj_torque_ff_nm cmd" and "tot = None \<Longrightarrow> out = cmd"
    and "tot = Some c \<Longrightarrow> f64_le f64_zero (tc_scale c) \<and> f64_le (tc_scale c) (f64_lit 1) \<and>
      mj_position_rad out = f64_add q (f64_mul (tc_scale c) (f64_sub (mj_position_rad cmd) q)) \<and>
      mj_velocity_rad_s out = f64_add dq (f64_mul (tc_scale c) (f64_sub (mj_velocity_rad_s cmd) dq))"
  using assms by (auto simp: clamp_total_torque_def Let_def rbind_Ok_iff command_finite_def same_goal_def split: if_splits)

lemma filter_mit_core_cases:
  assumes "filter_mit_core s cmd motor fq fdq el = Ok f"
  obtains pol defaults out1 moved out2 zone_cap tau dqb q dq where
    "validate_mit_command cmd = Ok ()"
    "map_of (sv_limits s) (mj_joint cmd) = Some pol"
    "map_of (cs_motor_type_defaults (sv_control s)) (motor_type_key (me_motor_type motor)) = Some defaults"
    "gain_gate motor defaults cmd = Ok ()"
    "position_gate pol q dq cmd = Ok (out1, moved)"
    "apply_danger_zone_clamps s out1 q dq = Ok (out2, zone_cap)"
    "rate_limit_tau_ff (map_of (sv_last_tau_ff s) (mj_joint cmd)) (mj_torque_ff_nm out2)
       (cs_tau_ff_rate_limit_nm_per_s (sv_control s)) el (torque_cap pol motor defaults zone_cap) = Ok tau"
    "checked_clamp dq (fnegate (jp_velocity pol)) (jp_velocity pol) = Ok dqb"
    "clamp_total_torque (out2\<lparr>mj_torque_ff_nm := tau\<rparr>) q dqb (torque_cap pol motor defaults zone_cap)
       (f64_div TOTAL_TORQUE_HORIZON_TICKS (f_of_nat Binary64 (unat (cs_loop_hz (sv_control s))))) =
       Ok (fm_out f, fm_total_torque f)"
    "\<not> f64_lt (jp_velocity pol) (fabs (mj_velocity_rad_s (fm_out f)))"
    "fm_total_torque f = None \<or> \<not> outside_hard pol (mj_position_rad (fm_out f))"
    "q = fm_q_meas f" "dq = fm_dq_meas f"
  using assms
  by (auto simp: filter_mit_core_def Let_def rbind_Ok_iff velocity_gate_def split: option.splits prod.splits)

section \<open>An admitted command is safe\<close>

text \<open>A policy as \<open>build_limits\<close> installs it: ordered bounds, a finite velocity cap and a torque cap.\<close>

definition policy_ok :: "joint_limit_policy \<Rightarrow> bool" where
  "policy_ok pol \<longleftrightarrow>
     bounds_ok (jp_bounds pol) \<and> f64_finite (jp_velocity pol) \<and> \<not> f64_nan (jp_tau_ff_max pol)"

lemma fmin_le_left: "\<not> is_nan f x \<Longrightarrow> \<not> is_nan f (fmin f x y) \<and> fkey (fmin f x y) \<le> fkey x"
  by (auto simp: fmin_def flt_def)

lemma torque_cap_le:
  assumes "\<not> f64_nan (jp_tau_ff_max pol)" and "\<not> f64_nan zone"
  shows "\<not> f64_nan (torque_cap pol motor d zone)" "fkey (torque_cap pol motor d zone) \<le> fkey (jp_tau_ff_max pol)"
    "fkey (torque_cap pol motor d zone) \<le> fkey zone"
    "\<not> f64_nan (bl_torque_limit_nm (me_bench motor)) \<Longrightarrow>
       fkey (torque_cap pol motor d zone) \<le> fkey (bl_torque_limit_nm (me_bench motor))"
    "\<not> f64_nan (mtd_tau_ff_max_nm d) \<Longrightarrow> fkey (torque_cap pol motor d zone) \<le> fkey (mtd_tau_ff_max_nm d)"
proof -
  let ?a = "f64_min (jp_tau_ff_max pol) (bl_torque_limit_nm (me_bench motor))"
  let ?b = "f64_min ?a (mtd_tau_ff_max_nm d)"
  have a: "\<not> f64_nan ?a" "fkey ?a \<le> fkey (jp_tau_ff_max pol)" using fmin_le_left [OF assms(1)] by auto
  have b: "\<not> f64_nan ?b" "fkey ?b \<le> fkey ?a" using fmin_le_left [OF a(1)] by auto
  have c: "\<not> f64_nan (f64_min ?b zone)" "fkey (f64_min ?b zone) \<le> fkey ?b" using fmin_le_left [OF b(1)] by auto
  show "\<not> f64_nan (torque_cap pol motor d zone)" "fkey (torque_cap pol motor d zone) \<le> fkey (jp_tau_ff_max pol)"
    using a b c by (auto simp: torque_cap_def)
  show "fkey (torque_cap pol motor d zone) \<le> fkey zone" using fmin_le [OF assms(2)] by (simp add: torque_cap_def)
  show "fkey (torque_cap pol motor d zone) \<le> fkey (bl_torque_limit_nm (me_bench motor))"
    if "\<not> f64_nan (bl_torque_limit_nm (me_bench motor))"
    using fmin_le [OF that, of "jp_tau_ff_max pol"] b c by (auto simp: torque_cap_def)
  show "fkey (torque_cap pol motor d zone) \<le> fkey (mtd_tau_ff_max_nm d)" if "\<not> f64_nan (mtd_tau_ff_max_nm d)"
    using fmin_le [OF that, of ?a] c by (auto simp: torque_cap_def)
qed

lemma inside_hard:
  assumes "bounds_ok (jp_bounds pol)" and "f64_finite p" and "\<not> outside_hard pol p"
  shows "f64_val (hard_lower pol) \<le> f64_val p" and "f64_val p \<le> f64_val (hard_upper pol)"
  using assms by (auto simp: outside_hard_def hard_lower_def hard_upper_def bounds_ok_def flt_finite)

text \<open>The danger zones that clamp torque at the measured pose bound the feed-forward torque.\<close>

definition zones_respected :: "'a mit_filter_scheme \<Rightarrow> f64 \<Rightarrow> f64 \<Rightarrow> mit_joint_command \<Rightarrow> bool" where
  "zones_respected s q dq out \<longleftrightarrow>
     list_all (\<lambda>r. danger_zone_applies r (mj_joint out) q dq \<longrightarrow> dz_action r = ''clamp_torque'' \<longrightarrow>
       (case dz_max_torque_nm r of Some c \<Rightarrow> f64_le (fabs (mj_torque_ff_nm out)) (f64_max c f64_zero) | None \<Rightarrow> False))
       (cs_danger_zones (sv_control s))"

lemma filtered_command:
  assumes run: "filter_mit_core s cmd motor fq fdq el = Ok f"
    and pol: "map_of (sv_limits s) (mj_joint cmd) = Some pol" and ok: "policy_ok pol"
  shows "command_finite (fm_out f) \<and> same_goal (fm_out f) cmd \<and>
    f64_val (hard_lower pol) \<le> f64_val (mj_position_rad (fm_out f)) \<and>
    f64_val (mj_position_rad (fm_out f)) \<le> f64_val (hard_upper pol) \<and>
    \<bar>f64_val (mj_velocity_rad_s (fm_out f))\<bar> \<le> f64_val (jp_velocity pol) \<and>
    f64_le (fabs (mj_torque_ff_nm (fm_out f))) (jp_tau_ff_max pol) \<and>
    zones_respected s (fm_q_meas f) (fm_dq_meas f) (fm_out f) \<and>
    (f64_nan (bl_torque_limit_nm (me_bench motor)) \<or>
      f64_le (fabs (mj_torque_ff_nm (fm_out f))) (bl_torque_limit_nm (me_bench motor)))"
  using run
proof (cases rule: filter_mit_core_cases)
  case (1 pol' d out1 moved out2 zone tau dqb q dq)
  let ?out = "fm_out f"
  have p: "pol' = pol" using 1(2) pol by simp
  note tot = clamp_total_torque_Ok [OF 1(9)]
  from position_gate_Ok [OF 1(5)] obtain x where x: "out1 = cmd\<lparr>mj_position_rad := x\<rparr>" "\<not> outside_hard pol x"
    unfolding p by blast
  have inf: "\<not> f64_nan f64_infinity" by (simp add: f64_infinity_def is_nan_def)
  note z = danger_zone_clamps_Ok [OF 1(6) [unfolded apply_danger_zone_clamps_def] inf]
  have cap: "\<not> f64_nan (torque_cap pol motor d zone)" "fkey (torque_cap pol motor d zone) \<le> fkey (jp_tau_ff_max pol)"
    "fkey (torque_cap pol motor d zone) \<le> fkey zone" "\<not> f64_nan zone"
    using torque_cap_le ok z by (auto simp: policy_ok_def)
  have fin: "command_finite ?out" "f64_finite tau" "mj_torque_ff_nm ?out = tau"
    using tot by (auto simp: command_finite_def)
  have goal: "same_goal ?out cmd" using tot(6) z x(1) by (auto simp: same_goal_def)
  have "mj_position_rad out2 = x" using z x(1) by simp
  then have "\<not> outside_hard pol (mj_position_rad ?out)"
    using 1(11) tot(8) x(2) unfolding p by (cases "fm_total_torque f") auto
  then have pos: "f64_val (hard_lower pol) \<le> f64_val (mj_position_rad ?out)"
      "f64_val (mj_position_rad ?out) \<le> f64_val (hard_upper pol)"
    using inside_hard ok fin(1) by (auto simp: policy_ok_def command_finite_def)
  have vel: "\<bar>f64_val (mj_velocity_rad_s ?out)\<bar> \<le> f64_val (jp_velocity pol)"
    using 1(10) ok fin(1) unfolding p by (simp add: policy_ok_def command_finite_def flt_finite not_less)
  have tau: "f64_le (fabs tau) (torque_cap pol motor d zone)"
    using rate_limit_tau_ff_Ok [OF 1(7)] fin(2) unfolding p by (simp add: finite_cases)
  have t1: "f64_le (fabs tau) (jp_tau_ff_max pol)"
    using tau cap ok by (auto simp: fle_def policy_ok_def)
  have j: "mj_joint ?out = mj_joint cmd" "mj_joint out1 = mj_joint cmd" using goal x(1) by (simp_all add: same_goal_def)
  have "(case dz_max_torque_nm r of Some c \<Rightarrow> f64_le (fabs tau) (f64_max c f64_zero) | None \<Rightarrow> False)"
    if r: "r \<in> set (cs_danger_zones (sv_control s))" "danger_zone_applies r (mj_joint ?out) q dq"
      "dz_action r = ''clamp_torque''" for r
  proof -
    from z r j obtain c where c: "dz_max_torque_nm r = Some c" "f64_le zone (f64_max c f64_zero)" by auto
    then show ?thesis using tau cap by (auto simp: fle_def)
  qed
  then have zones: "zones_respected s q dq ?out"
    unfolding zones_respected_def list_all_iff fin(3) by blast
  have t2: "\<not> f64_nan (bl_torque_limit_nm (me_bench motor)) \<longrightarrow> f64_le (fabs tau) (bl_torque_limit_nm (me_bench motor))"
    using torque_cap_le(4) [of pol zone motor d] tau cap ok by (auto simp: fle_def policy_ok_def)
  show ?thesis using fin goal pos vel t1 t2 zones 1(12,13) by auto
qed

text \<open>C33: filter_mit_core admits a command only as one that is safe to put on the wire: for a joint with an installed policy, every field is finite, the gains and the joint are those requested, the position lies in the hard bounds, the speed in the velocity cap, the feed-forward torque in the policy's torque cap and in the cap of every danger zone the measured pose is in.\<close>

theorem filtered_command_admissible:
  assumes "filter_mit_core s cmd motor fq fdq el = Ok f"
    and "map_of (sv_limits s) (mj_joint cmd) = Some pol" and "policy_ok pol"
  shows "command_finite (fm_out f) \<and> same_goal (fm_out f) cmd \<and>
    f64_val (hard_lower pol) \<le> f64_val (mj_position_rad (fm_out f)) \<and>
    f64_val (mj_position_rad (fm_out f)) \<le> f64_val (hard_upper pol) \<and>
    \<bar>f64_val (mj_velocity_rad_s (fm_out f))\<bar> \<le> f64_val (jp_velocity pol) \<and>
    f64_le (fabs (mj_torque_ff_nm (fm_out f))) (jp_tau_ff_max pol) \<and>
    zones_respected s (fm_q_meas f) (fm_dq_meas f) (fm_out f)"
  using filtered_command [OF assms] by simp

section \<open>No clamp asserts\<close>

definition not_negative :: "f64 \<Rightarrow> bool" where
  "not_negative x \<longleftrightarrow> f64_le f64_zero x"

lemma not_negative_key: "not_negative x \<longleftrightarrow> \<not> f64_nan x \<and> 0 \<le> fkey x"
  by (auto simp: not_negative_def fle_def)

lemma checked_clamp_sym: "not_negative c \<Longrightarrow> checked_clamp x (fnegate c) c = Ok (f64_clamp x (fnegate c) c)"
  by (auto simp: checked_clamp_def not_negative_key)

lemma fmul_not_negative:
  assumes "not_negative x" and "f64_finite d" and "0 < f64_val d"
  shows "not_negative (f64_mul x d)"
proof (cases "f64_finite x")
  case True
  then have "0 \<le> f64_val x * f64_val d"
    using assms fval_le_key [of Binary64 f64_zero x] by (simp add: not_negative_key)
  then have "fkey f64_zero \<le> fkey (fround Binary64 (fneg x \<noteq> fneg d) (f64_val x * f64_val d))"
    by (intro fround_ge) simp_all
  then show ?thesis using True assms by (simp add: fmul_finite not_negative_key)
next
  case False
  with assms have i: "is_infinite Binary64 x" "\<not> fneg x"
    by (auto simp: not_negative_key is_finite_def is_nan_def is_infinite_def fkey_def split: if_splits)
  have d: "\<not> fneg d" "\<not> is_zero d" using assms(3) fval_sign(1) [of d Binary64] fval_eq_0 [of Binary64 d] by auto
  have "\<not> is_zero x" using i(1) by (auto simp: is_zero_def is_infinite_def)
  then show ?thesis using i d assms(1,2) finite_cases [OF assms(2)]
    by (auto simp: fmul_def not_negative_key fkey_def is_nan_def)
qed

text \<open>The step time lies between a tenth of a millisecond and ten milliseconds.\<close>

lemma small_literal:
  assumes "1 / 1000000000 \<le> q" and "q \<le> 1"
  shows "f64_finite (f64_lit q)" and "0 < f64_val (f64_lit q)"
proof -
  have b: "\<bar>q\<bar> \<le> fmax_val Binary64" using assms pow_100_le_fmax_val [of Binary64] by auto
  show f: "f64_finite (f64_lit q)" unfolding f64_lit_def by (rule fround_finite [OF b])
  have t: "f64_finite (Flt False 4472406533629990548)" "f64_val (Flt False 4472406533629990548) \<le> 1 / 1000000000"
    "0 < f64_val (Flt False 4472406533629990548)"
    by (simp_all add: is_finite_def fval_def mag_def)
  have "fkey (Flt False 4472406533629990548) \<le> fkey (f64_lit q)"
    unfolding f64_lit_def using t assms by (intro fround_ge) auto
  then show "0 < f64_val (f64_lit q)" using t(3) fval_le_key [of Binary64] by (metis less_le_trans)
qed

lemma literal_mono: "q \<le> r \<Longrightarrow> f64_le (f64_lit q) (f64_lit r)"
  by (simp add: f64_lit_def fle_def fround_mono)

lemma step_time:
  assumes "checked_clamp x (f64_lit (1 / 10000)) (f64_lit (1 / 100)) = Ok dt" and "\<not> f64_nan x"
  shows "f64_finite dt" and "0 < f64_val dt" and "f64_le dt (f64_lit (1 / 100))"
proof -
  note l = small_literal [of "1 / 10000"] and h = small_literal [of "1 / 100"]
  have dt: "dt = f64_clamp x (f64_lit (1 / 10000)) (f64_lit (1 / 100))" using assms(1) by (simp add: checked_clamp_Ok)
  have n: "\<not> f64_nan dt"
    unfolding dt using assms(2) l(1) h(1) by (auto simp: fclamp_def finite_cases)
  note b = checked_clamp_between [OF assms(1) n]
  show f: "f64_finite dt" using finite_between [of Binary64 "f64_lit (1 / 10000)" "f64_lit (1 / 100)" dt] b l h by (auto simp: fle_def)
  show "f64_le dt (f64_lit (1 / 100))" by (rule b)
  show "0 < f64_val dt" using b l f fle_finite [of Binary64 "f64_lit (1 / 10000)" dt] by auto
qed

lemma as_secs_not_nan: "\<not> f64_nan (as_secs_f64 d)"
proof -
  let ?n = "d mod 1000000000"
  have n: "fval Binary64 (f_of_nat Binary64 ?n) = of_nat ?n" "is_finite Binary64 (f_of_nat Binary64 ?n)"
  proof -
    have "?n < 1000000000" by (rule mod_less_divisor) simp
    also have "(1000000000 :: nat) < 2 ^ (mbits Binary64 + 1)" by simp
    finally show "fval Binary64 (f_of_nat Binary64 ?n) = of_nat ?n" "is_finite Binary64 (f_of_nat Binary64 ?n)"
      by (rule fval_f_of_nat)+
  qed
  have g: "f64_val (f64_lit 1000000000) = 1000000000" "f64_finite (f64_lit 1000000000)"
    using fround_of_int [of 1000000000 Binary64 False] by (simp_all add: f64_lit_def)
  have "(of_nat ?n :: rat) \<le> of_nat 1000000000" unfolding of_nat_le_iff using mod_less_divisor [of 1000000000 d] by linarith
  then have "\<bar>of_nat ?n / 1000000000 :: rat\<bar> \<le> fmax_val Binary64"
    using pow_100_le_fmax_val [of Binary64] by simp
  then have "f64_finite (f64_div (f_of_nat Binary64 ?n) (f64_lit 1000000000))"
    using n g by (simp add: fdiv_finite fround_finite)
  from finite_cases [OF this] have "\<not> f64_nan (f64_div (f_of_nat Binary64 ?n) (f64_lit 1000000000))"
    "\<not> is_infinite Binary64 (f64_div (f_of_nat Binary64 ?n) (f64_lit 1000000000))" by simp_all
  moreover have "\<not> f64_nan (f_of_nat Binary64 n)" for n by (simp add: f_of_nat_def)
  ultimately show ?thesis by (simp add: as_secs_f64_def fadd_def)
qed

lemma rate_limit_no_panic:
  assumes "not_negative cap" and "not_negative rate"
  shows "\<exists>tau. rate_limit_tau_ff prev target rate el cap = Ok tau"
proof -
  let ?x = "unwrap_or (map_option as_secs_f64 el) (f64_lit (1 / 100))"
  have x: "\<not> f64_nan ?x"
    using as_secs_not_nan finite_cases [OF small_literal(1) [of "1 / 100"]] by (cases el) (simp_all add: unwrap_or_def)
  have "f64_le (f64_lit (1 / 10000)) (f64_lit (1 / 100))" by (rule literal_mono) simp
  then obtain dt where dt: "checked_clamp ?x (f64_lit (1 / 10000)) (f64_lit (1 / 100)) = Ok dt"
    by (simp add: checked_clamp_def)
  have "not_negative (f64_mul rate dt)" using step_time [OF dt x] assms(2) by (simp add: fmul_not_negative)
  then show ?thesis
    using assms(1) dt by (simp add: rate_limit_tau_ff_def checked_clamp_sym Let_def)
qed

lemma reachable_pd_no_panic: "f64_finite pd \<Longrightarrow> \<exists>r. reachable_pd pd cap margin tau = Ok r"
proof -
  assume "f64_finite pd"
  then have "f64_le (f64_min pd f64_zero) (f64_max pd f64_zero)"
    by (simp add: fle_finite fmin_finite fmax_finite)
  then show ?thesis by (simp add: reachable_pd_def Let_def checked_clamp_def)
qed

lemma clamp_total_torque_no_panic: "clamp_total_torque cmd q dq cap h \<noteq> Err DavPanic"
proof
  assume e: "clamp_total_torque cmd q dq cap h = Err DavPanic"
  then have "reachable_pd (pd_torque cmd q dq) cap (margin_nm cmd dq h) (mj_torque_ff_nm cmd) = Err DavPanic \<and>
      f64_finite (pd_torque cmd q dq)"
    by (auto simp: clamp_total_torque_def Let_def rbind_Err_iff split: if_splits)
  then show False using reachable_pd_no_panic [of "pd_torque cmd q dq" cap "margin_nm cmd dq h" "mj_torque_ff_nm cmd"] by auto
qed

lemma danger_zone_clamps_no_panic: "danger_zone_clamps rules q dq cmd cap \<noteq> Err DavPanic"
proof (induction rules q dq cmd cap rule: danger_zone_clamps.induct)
  case (2 rule rules q dq cmd cap)
  have n: "not_negative (f64_max c f64_zero)" for c
    using fmax_ge [of Binary64 f64_zero c] by (simp add: not_negative_key)
  show ?case using 2 by (auto simp: checked_clamp_sym [OF n] Let_def split: option.splits)
qed simp

lemma danger_zone_cap_not_negative:
  assumes "danger_zone_clamps rules q dq cmd cap = Ok (out, cap')" and "not_negative cap"
  shows "not_negative cap'"
  using assms
proof (induction rules q dq cmd cap rule: danger_zone_clamps.induct)
  case (2 rule rules q dq cmd cap)
  have n: "not_negative (f64_max c f64_zero)" for c
    using fmax_ge [of Binary64 f64_zero c] by (simp add: not_negative_key)
  have m: "not_negative (f64_min cap (f64_max c f64_zero))" for c
    using n [of c] 2(5) fmin_key [of Binary64 cap "f64_max c f64_zero"] fmin_le [of Binary64 "f64_max c f64_zero" cap]
    by (simp add: not_negative_key)
  show ?case
    using 2(1-4) m 2(5) by (auto simp: checked_clamp_sym [OF n] Let_def rbind_Ok_iff split: if_splits option.splits)
qed simp

definition caps_not_negative :: "'a mit_filter_scheme \<Rightarrow> mit_joint_command \<Rightarrow> motor_entry \<Rightarrow> bool" where
  "caps_not_negative s cmd motor \<longleftrightarrow>
     not_negative (cs_tau_ff_rate_limit_nm_per_s (sv_control s)) \<and> not_negative (bl_torque_limit_nm (me_bench motor)) \<and>
     (case map_of (sv_limits s) (mj_joint cmd) of
        Some pol \<Rightarrow> not_negative (jp_velocity pol) \<and> not_negative (jp_tau_ff_max pol) | None \<Rightarrow> True) \<and>
     (case map_of (cs_motor_type_defaults (sv_control s)) (motor_type_key (me_motor_type motor)) of
        Some d \<Rightarrow> not_negative (mtd_tau_ff_max_nm d) | None \<Rightarrow> True)"

lemma torque_cap_not_negative:
  assumes "not_negative (jp_tau_ff_max pol)" "not_negative (bl_torque_limit_nm (me_bench motor))"
    "not_negative (mtd_tau_ff_max_nm d)" "not_negative zone"
  shows "not_negative (torque_cap pol motor d zone)"
proof -
  have m: "not_negative (f64_min x y)" if "not_negative x" "not_negative y" for x y
    using that fmin_key [of Binary64 x y] fmin_le [of Binary64 y x] by (simp add: not_negative_key)
  show ?thesis using assms by (simp add: torque_cap_def m)
qed

lemma filter_stages_no_panic:
  "motor_position_scale motor \<noteq> Err DavPanic" "validate_mit_command cmd \<noteq> Err DavPanic"
  "gain_gate motor d cmd \<noteq> Err DavPanic" "position_gate pol q dq cmd \<noteq> Err DavPanic"
  "velocity_gate a b v cmd \<noteq> Err DavPanic"
  by (auto simp: motor_position_scale_def validate_mit_command_def validate_finite_def gain_gate_def position_gate_def
      velocity_gate_def rbind_Err_iff Let_def split: if_splits)

text \<open>C34: no f64::clamp of the command filter asserts: with caps and a slew rate that are numbers and not negative, filter_mit_core answers a command or a refusal, whatever the command, the feedback, the danger zones and the time since the last tick are.\<close>

theorem filter_never_panics:
  assumes "caps_not_negative s cmd motor"
  shows "filter_mit_core s cmd motor fq fdq el \<noteq> Err DavPanic"
proof
  assume e: "filter_mit_core s cmd motor fq fdq el = Err DavPanic"
  note np = filter_stages_no_panic danger_zone_clamps_no_panic clamp_total_torque_no_panic
  have inf: "not_negative f64_infinity" by (simp add: f64_infinity_def not_negative_key is_nan_def fkey_def)
  from e np obtain pol d out1 q dq out2 zone where
    p: "map_of (sv_limits s) (mj_joint cmd) = Some pol"
      "map_of (cs_motor_type_defaults (sv_control s)) (motor_type_key (me_motor_type motor)) = Some d"
    and z: "danger_zone_clamps (cs_danger_zones (sv_control s)) q dq out1 f64_infinity = Ok (out2, zone)"
    and bad: "rate_limit_tau_ff (map_of (sv_last_tau_ff s) (mj_joint cmd)) (mj_torque_ff_nm out2)
        (cs_tau_ff_rate_limit_nm_per_s (sv_control s)) el (torque_cap pol motor d zone) = Err DavPanic \<or>
      checked_clamp dq (fnegate (jp_velocity pol)) (jp_velocity pol) = Err DavPanic"
    by (auto simp: filter_mit_core_def Let_def rbind_Err_iff apply_danger_zone_clamps_def split: option.splits)
  have c: "not_negative (torque_cap pol motor d zone)" "not_negative (cs_tau_ff_rate_limit_nm_per_s (sv_control s))"
      "not_negative (jp_velocity pol)"
    using assms p danger_zone_cap_not_negative [OF z inf] by (auto simp: caps_not_negative_def torque_cap_not_negative)
  show False
    using bad rate_limit_no_panic [OF c(1,2), of "map_of (sv_last_tau_ff s) (mj_joint cmd)" "mj_torque_ff_nm out2" el]
      checked_clamp_sym [OF c(3), of dq] by auto
qed

section \<open>The limits a supervisor installs\<close>

lemma joint_limit_bounds_Ok:
  assumes "joint_limit_bounds urdf joint = Ok b" and "joint_limits urdf joint = Ok ul"
  shows "lb_hard_lower b = ul_lower ul" "lb_hard_upper b = ul_upper ul" "bounds_ok b"
    "f64_finite (lb_hard_lower b)" "f64_finite (lb_hard_upper b)"
proof -
  from assms obtain j where j: "find_urdf_joint urdf joint = Ok j"
    by (auto simp: joint_limit_bounds_def rbind_Ok_iff)
  obtain lo hi where f: "from_hard_and_soft (ul_lower ul) (ul_upper ul) lo hi = Ok b"
    using assms j
    by (cases "uj_safety_controller j") (auto simp: joint_limit_bounds_def Let_def split: sum.splits)
  then show "lb_hard_lower b = ul_lower ul" "lb_hard_upper b = ul_upper ul"
    by (auto simp: from_hard_and_soft_def Let_def split: if_splits)
  show "bounds_ok b" using from_hard_and_soft_ok [OF f] by simp
  then show "f64_finite (lb_hard_lower b)" "f64_finite (lb_hard_upper b)" by (simp_all add: bounds_ok_def)
qed

lemma clamp_soft_bounds_Ok:
  assumes "clamp_soft_bounds jc b = Ok b'" and "soft_bounds_ok jc"
    and "f64_finite (lb_hard_lower b)" "f64_finite (lb_hard_upper b)"
    and "f64_finite (lb_soft_lower b)" "f64_finite (lb_soft_upper b)"
  shows "bounds_ok b'" "lb_hard_lower b' = lb_hard_lower b" "lb_hard_upper b' = lb_hard_upper b"
proof -
  have c: "f64_finite y \<and> f64_val (lb_hard_lower b) \<le> f64_val y \<and> f64_val y \<le> f64_val (lb_hard_upper b)"
    if "checked_clamp x (lb_hard_lower b) (lb_hard_upper b) = Ok y" "f64_finite x" for x y
    using that assms(3,4) by (auto simp: checked_clamp_Ok fle_finite fclamp_finite)
  show "bounds_ok b'" "lb_hard_lower b' = lb_hard_lower b" "lb_hard_upper b' = lb_hard_upper b"
    using assms c by (auto simp: clamp_soft_bounds_def Let_def rbind_Ok_iff bounds_ok_def soft_bounds_ok_def split: option.splits)
qed

lemma map_err_Ok [simp]: "map_err f r = Ok x \<longleftrightarrow> r = Ok x"
  by (auto simp: map_err_def split: sum.splits)

lemma ok_or_Ok [simp]: "ok_or x e = Ok v \<longleftrightarrow> x = Some v"
  by (auto simp: ok_or_def split: option.splits)

text \<open>A policy inside the motor's bench limits and every torque cap.\<close>

definition installed_ok ::
    "robot_section \<Rightarrow> motor_entry \<Rightarrow> motor_type_defaults \<Rightarrow> joint_limit_policy \<Rightarrow> bool" where
  "installed_ok robot m d pol \<longleftrightarrow>
     policy_ok pol \<and> 0 < f64_val (jp_velocity pol) \<and>
     f64_val (bl_position_lower_rad (me_bench m)) \<le> f64_val (hard_lower pol) \<and>
     f64_val (hard_lower pol) < f64_val (hard_upper pol) \<and>
     f64_val (hard_upper pol) \<le> f64_val (bl_position_upper_rad (me_bench m)) \<and>
     f64_le (jp_tau_ff_max pol) (bl_torque_limit_nm (me_bench m)) \<and>
     f64_le (jp_tau_ff_max pol) (rb_max_joint_torque_nm robot) \<and>
     f64_le (jp_tau_ff_max pol) (mtd_tau_ff_max_nm d)"

lemma build_joint_limits_Ok:
  assumes b: "build_joint_limits robot motors cs urdf joint = Ok pol"
    and m: "motor_for_joint motors joint = Some m" "motor_ok m"
    and e: "map_of (cs_joints cs) joint = Some e" "soft_bounds_ok e"
    and d: "map_of (cs_motor_type_defaults cs) (motor_type_key (me_motor_type m)) = Some d" "f64_finite (mtd_tau_ff_max_nm d)"
    and r: "f64_finite (rb_max_joint_torque_nm robot)"
  shows "installed_ok robot m d pol"
proof -
  from b m(1) e(1) d(1) obtain ul b0 b1 b2 v where
    u: "joint_limits urdf joint = Ok ul" "joint_limit_bounds urdf joint = Ok b0"
    and b1: "b1 = b0\<lparr>lb_hard_lower := f64_max (ul_lower ul) (bl_position_lower_rad (me_bench m)),
        lb_hard_upper := f64_min (ul_upper ul) (bl_position_upper_rad (me_bench m))\<rparr>"
      "\<not> f64_le (lb_hard_upper b1) (lb_hard_lower b1)"
    and b2: "clamp_soft_bounds e b1 = Ok b2"
    and v: "resolve_joint_velocity_cap joint (me_motor_type m) cs = Ok v"
    and pol: "jp_bounds pol = b2" "jp_velocity pol = v" "jp_tau_ff_max pol =
        f64_min (f64_min (f64_min (ul_effort ul) (bl_torque_limit_nm (me_bench m))) (rb_max_joint_torque_nm robot)) (mtd_tau_ff_max_nm d)"
    by (auto simp: build_joint_limits_def rbind_Ok_iff Let_def)
  note jb = joint_limit_bounds_Ok [OF u(2,1)]
  have mo: "f64_finite (bl_position_lower_rad (me_bench m))" "f64_finite (bl_position_upper_rad (me_bench m))"
      "f64_finite (bl_torque_limit_nm (me_bench m))"
    using m(2) by (simp_all add: motor_ok_def)
  have h: "f64_finite (lb_hard_lower b1)" "f64_finite (lb_hard_upper b1)"
    "f64_val (bl_position_lower_rad (me_bench m)) \<le> f64_val (lb_hard_lower b1)"
    "f64_val (lb_hard_upper b1) \<le> f64_val (bl_position_upper_rad (me_bench m))"
    using jb mo by (simp_all add: b1(1) fmax_finite fmin_finite)
  have soft: "f64_finite (lb_soft_lower b1)" "f64_finite (lb_soft_upper b1)"
    using jb(3) by (simp_all add: b1(1) bounds_ok_def)
  note c = clamp_soft_bounds_Ok [OF b2 e(2) h(1,2) soft]
  let ?x = "f64_min (f64_min (ul_effort ul) (bl_torque_limit_nm (me_bench m))) (rb_max_joint_torque_nm robot)"
  have x1: "\<not> f64_nan (f64_min (ul_effort ul) (bl_torque_limit_nm (me_bench m)))"
    "fkey (f64_min (ul_effort ul) (bl_torque_limit_nm (me_bench m))) \<le> fkey (bl_torque_limit_nm (me_bench m))"
    using fmin_le [of Binary64 "bl_torque_limit_nm (me_bench m)" "ul_effort ul"] mo(3) by (auto simp: finite_cases)
  have x2: "\<not> f64_nan ?x" "fkey ?x \<le> fkey (f64_min (ul_effort ul) (bl_torque_limit_nm (me_bench m)))"
    "fkey ?x \<le> fkey (rb_max_joint_torque_nm robot)"
    using fmin_le_left [OF x1(1), of "rb_max_joint_torque_nm robot"] fmin_le [of Binary64 "rb_max_joint_torque_nm robot"] r
    by (auto simp: finite_cases)
  have t: "\<not> f64_nan (jp_tau_ff_max pol)" "fkey (jp_tau_ff_max pol) \<le> fkey ?x" "fkey (jp_tau_ff_max pol) \<le> fkey (mtd_tau_ff_max_nm d)"
    using fmin_le_left [OF x2(1), of "mtd_tau_ff_max_nm d"] fmin_le [of Binary64 "mtd_tau_ff_max_nm d" ?x] d(2)
    by (auto simp: pol(3) finite_cases)
  have "f64_val (lb_hard_lower b1) < f64_val (lb_hard_upper b1)"
    using b1(2) h(1,2) by (simp add: fle_finite)
  then show ?thesis
    using c h t x1 x2 mo(3) r d(2) resolve_joint_velocity_cap_Ok [OF v]
    by (simp add: installed_ok_def policy_ok_def pol(1,2) hard_lower_def hard_upper_def fle_def finite_cases)
qed

lemma build_limits_from_Ok:
  assumes "build_limits_from robot motors cs urdf joints m0 = Ok m"
  shows "map_of m j = (if j \<in> set joints then
      (case build_joint_limits robot motors cs urdf j of Inr p \<Rightarrow> Some p | Inl _ \<Rightarrow> None) else map_of m0 j) \<and>
    (j \<in> set joints \<longrightarrow> is_ok (build_joint_limits robot motors cs urdf j))"
  using assms
proof (induction joints arbitrary: m0)
  case (Cons a joints)
  then obtain p where p: "build_joint_limits robot motors cs urdf a = Ok p"
    "build_limits_from robot motors cs urdf joints (AList.update a p m0) = Ok m" by (auto simp: rbind_Ok_iff)
  from Cons.IH [OF p(2)] p(1) show ?case by (auto simp: update_conv')
qed simp

lemma build_limits_installed:
  assumes "validate_safety_config robot motors cs hs = Ok ()" and "build_limits robot motors cs urdf = Ok limits"
    and "motor_for_joint motors joint = Some m"
  obtains pol d where "map_of limits joint = Some pol" "installed_ok robot m d pol"
    "build_joint_limits robot motors cs urdf joint = Ok pol"
    "map_of (cs_motor_type_defaults cs) (motor_type_key (me_motor_type m)) = Some d" "f64_finite (mtd_tau_ff_max_nm d)"
proof -
  have acc: "validate_motors_against_robot robot motors = Ok ()" "validate_control_config cs = Ok ()"
    using assms(1) by (auto simp: validate_safety_config_def validate_control_against_limits_def rbind_Ok_iff)
  have j: "joint \<in> set (rb_joints robot)"
    using motor_for_joint_ok [OF assms(3)] acc(1) by (auto simp: accepts)
  have jp: "joint_policy robot motors cs hs joint" by (rule validated_joint_policy [OF assms(1) j])
  then obtain e where e: "map_of (cs_joints cs) joint = Some e" "soft_bounds_ok e" "motor_ok m"
    using assms(3) by (auto simp: joint_policy_def split: option.splits)
  from build_limits_from_Ok [OF assms(2) [unfolded build_limits_def], of joint] j
  obtain pol where pol: "map_of limits joint = Some pol" "build_joint_limits robot motors cs urdf joint = Ok pol"
    by (auto simp: is_ok_iff)
  then obtain d where d: "map_of (cs_motor_type_defaults cs) (motor_type_key (me_motor_type m)) = Some d"
    using assms(3) by (auto simp: build_joint_limits_def rbind_Ok_iff Let_def)
  have cn: "validate_control_numbers cs = Ok ()" using acc(2) by (simp add: validate_control_config_def rbind_Ok_iff)
  have fd: "f64_finite (mtd_tau_ff_max_nm d)" by (rule defaults_finite [OF cn d])
  have r: "f64_finite (rb_max_joint_torque_nm robot)" using acc(1) by (auto simp: accepts)
  from build_joint_limits_Ok [OF pol(2) assms(3) e(3) e(1,2) d fd r] show thesis by (intro that [OF pol(1) _ pol(2) d fd])
qed

lemma accepted_torque_limits:
  assumes "validate_safety_config robot motors cs hs = Ok ()"
  shows "f64_finite (rb_max_joint_torque_nm robot)" and "motor_for_joint motors joint = Some m \<Longrightarrow> motor_ok m"
proof -
  have acc: "validate_motors_against_robot robot motors = Ok ()"
    using assms by (auto simp: validate_safety_config_def validate_control_against_limits_def rbind_Ok_iff)
  then show "f64_finite (rb_max_joint_torque_nm robot)" by (auto simp: accepts)
  show "motor_ok m" if "motor_for_joint motors joint = Some m"
    using motor_for_joint_ok [OF that] acc by (auto simp: accepts)
qed

text \<open>From the configuration files to the wire: with a configuration the loader accepts and the limits build_limits installs from it and any URDF, every command the filter admits for a motor is finite, stays inside the position range of the motor's bench limits, moves at most at the configured velocity cap of the joint, and carries a feed-forward torque within the bench limit of the motor, the robot's joint torque limit and the limit of the motor type.\<close>

theorem accepted_config_commands_safe:
  assumes "validate_safety_config robot motors cs hs = Ok ()" and "build_limits robot motors cs urdf = Ok (sv_limits s)"
    and "sv_control s = cs" and "motor_for_joint motors (mj_joint cmd) = Some m"
    and "filter_mit_core s cmd m fq fdq el = Ok f"
  shows "command_finite (fm_out f) \<and> same_goal (fm_out f) cmd \<and>
    f64_val (bl_position_lower_rad (me_bench m)) \<le> f64_val (mj_position_rad (fm_out f)) \<and>
    f64_val (mj_position_rad (fm_out f)) \<le> f64_val (bl_position_upper_rad (me_bench m)) \<and>
    (case resolve_joint_velocity_cap (mj_joint cmd) (me_motor_type m) cs of
       Inl _ \<Rightarrow> False | Inr cap \<Rightarrow> \<bar>f64_val (mj_velocity_rad_s (fm_out f))\<bar> \<le> f64_val cap) \<and>
    \<bar>f64_val (mj_torque_ff_nm (fm_out f))\<bar> \<le> f64_val (bl_torque_limit_nm (me_bench m)) \<and>
    \<bar>f64_val (mj_torque_ff_nm (fm_out f))\<bar> \<le> f64_val (rb_max_joint_torque_nm robot) \<and>
    (case map_of (cs_motor_type_defaults cs) (motor_type_key (me_motor_type m)) of
       None \<Rightarrow> False | Some d \<Rightarrow> \<bar>f64_val (mj_torque_ff_nm (fm_out f))\<bar> \<le> f64_val (mtd_tau_ff_max_nm d))"
proof -
  obtain pol d where p: "map_of (sv_limits s) (mj_joint cmd) = Some pol" "installed_ok robot m d pol"
    "build_joint_limits robot motors cs urdf (mj_joint cmd) = Ok pol"
    "map_of (cs_motor_type_defaults cs) (motor_type_key (me_motor_type m)) = Some d" "f64_finite (mtd_tau_ff_max_nm d)"
    using build_limits_installed [OF assms(1,2,4)] by blast
  have ok: "policy_ok pol" using p(2) by (simp add: installed_ok_def)
  note f = filtered_command [OF assms(5) p(1) ok]
  have fin: "f64_finite (mj_torque_ff_nm (fm_out f))" using f by (simp add: command_finite_def)
  have v: "resolve_joint_velocity_cap (mj_joint cmd) (me_motor_type m) cs = Ok (jp_velocity pol)"
    using p(3) assms(4) by (auto simp: build_joint_limits_def rbind_Ok_iff Let_def)
  have le: "\<bar>f64_val (mj_torque_ff_nm (fm_out f))\<bar> \<le> f64_val x" if "f64_le (jp_tau_ff_max pol) x" "f64_finite x" for x
  proof -
    have "f64_le (fabs (mj_torque_ff_nm (fm_out f))) x" using f that by (auto simp: fle_def)
    then show ?thesis using fin that(2) by (simp add: fle_finite)
  qed
  have mo: "f64_finite (bl_torque_limit_nm (me_bench m))"
    using accepted_torque_limits(2) [OF assms(1,4)] by (simp add: motor_ok_def)
  show ?thesis
    using f p(2,4) v le mo p(5) accepted_torque_limits(1) [OF assms(1)] by (auto simp: installed_ok_def)
qed

lemma fround_one [simp]: "fround Binary64 z 1 = f64_one"
proof -
  have "fkey (fround Binary64 z 1) = fkey f64_one"
    using fkey_fround_exact [of Binary64 f64_one z] by simp
  moreover have "\<not> fneg (fround Binary64 z 1)" by (simp add: fround_def)
  moreover have "\<not> fneg f64_one" by (simp add: f64_one_def)
  ultimately show ?thesis by (simp add: fkey_def ieee.expand)
qed

lemma fround_zero [simp]: "fround f z 0 = Flt z 0"
  by (simp add: fround_def)

definition sample_arm :: urdf_robot where
  "sample_arm =
     [\<lparr>uj_name = ''elbow'', uj_joint_type = Revolute,
       uj_limit = \<lparr>ul_lower = f64_zero, ul_upper = f64_one, ul_velocity = f64_one, ul_effort = f64_one\<rparr>,
       uj_safety_controller = None\<rparr>]"

definition sample_installed :: joint_limit_policy where
  "sample_installed =
     \<lparr>jp_bounds = \<lparr>lb_hard_lower = f64_zero, lb_hard_upper = f64_one, lb_soft_lower = f64_zero, lb_soft_upper = f64_one\<rparr>,
      jp_margin = limit_margin_from_config sample_entry, jp_velocity = f64_one, jp_effort = f64_one, jp_tau_ff_max = f64_one\<rparr>"

lemma sample_limits: "build_limits sample_robot [sample_motor] sample_control sample_arm = Ok [(''elbow'', sample_installed)]"
proof -
  have "build_joint_limits sample_robot [sample_motor] sample_control sample_arm ''elbow'' = Ok sample_installed"
    using sample_cap
    by (simp add: build_joint_limits_def joint_limits_def joint_limit_bounds_def find_urdf_joint_def from_hard_and_soft_def
        sample_arm_def actuated_def map_err_def ok_or_def motor_for_joint_def clamp_soft_bounds_def checked_clamp_def
        sample_robot_def sample_motor_def sample_control_def sample_entry_def sample_installed_def Let_def unwrap_or_def fle_finite flt_finite
        fmax_def fmin_def fclamp_def finite_cases refuse_if_def)
  then show ?thesis by (simp add: build_limits_def sample_robot_def)
qed

definition sample_filter :: mit_filter where
  "sample_filter =
     \<lparr>sv_control_mode = CtlGravityComp, sv_control = sample_control, sv_limits = [(''elbow'', sample_installed)],
      sv_last_tau_ff = [], sv_wrong_sign_state = []\<rparr>"

definition sample_command :: mit_joint_command where
  "sample_command =
     \<lparr>mj_joint = ''elbow'', mj_kp = f64_one, mj_kd = f64_zero, mj_position_rad = f64_one,
      mj_velocity_rad_s = f64_zero, mj_torque_ff_nm = f64_zero\<rparr>"

lemma sample_horizon:
  defines "h \<equiv> f64_div TOTAL_TORQUE_HORIZON_TICKS (f_of_nat Binary64 200)"
  shows "f64_finite h" and "\<not> f64_le h f64_zero"
proof -
  have t: "f64_finite TOTAL_TORQUE_HORIZON_TICKS" "f64_val TOTAL_TORQUE_HORIZON_TICKS = 2"
    using fround_of_int [of 2 Binary64 False] by (simp_all add: TOTAL_TORQUE_HORIZON_TICKS_def f64_lit_def)
  have n: "f64_finite (f_of_nat Binary64 200)" "f64_val (f_of_nat Binary64 200) = 200"
    using fval_f_of_nat [of 200 Binary64] by simp_all
  have h: "h = fround Binary64 (fneg TOTAL_TORQUE_HORIZON_TICKS \<noteq> fneg (f_of_nat Binary64 200)) (1 / 100)"
    using t n by (simp add: h_def fdiv_finite)
  show f: "f64_finite h"
    unfolding h by (rule fround_finite) (use pow_100_le_fmax_val [of Binary64] in simp)
  have "fkey (f64_lit (1 / 100)) \<le> fkey h" unfolding h f64_lit_def by (rule fround_mono) simp
  then have "f64_val (f64_lit (1 / 100)) \<le> f64_val h" by (simp add: fval_le_key)
  then show "\<not> f64_le h f64_zero" using small_literal [of "1 / 100"] f by (simp add: fle_finite)
qed

lemma zero_clamp: "f64_le f64_zero c \<Longrightarrow> f64_clamp (Flt z 0) (fnegate c) c = Flt z 0"
  by (rule fclamp_id) (auto simp: fle_def)

lemma sample_rate:
  "rate_limit_tau_ff None f64_zero f64_one None f64_one = Ok f64_zero"
proof -
  let ?d = "f64_clamp (f64_lit (1 / 100)) (f64_lit (1 / 10000)) (f64_lit (1 / 100))"
  have le: "f64_le (f64_lit (1 / 10000)) (f64_lit (1 / 100))" by (rule literal_mono) simp
  then have c: "checked_clamp (f64_lit (1 / 100)) (f64_lit (1 / 10000)) (f64_lit (1 / 100)) = Ok ?d"
    by (simp add: checked_clamp_def)
  have one: "not_negative f64_one" by (simp add: not_negative_def fle_finite)
  have "not_negative (f64_mul f64_one ?d)"
    using step_time [OF c] finite_cases [OF small_literal(1) [of "1 / 100"]] one by (simp add: fmul_not_negative)
  then show ?thesis
    using one c by (simp add: rate_limit_tau_ff_def checked_clamp_sym unwrap_or_def Let_def zero_clamp not_negative_def
        fsub_finite fadd_finite)
qed

lemma feq_finite: "is_finite f x \<Longrightarrow> is_finite f y \<Longrightarrow> feq f x y \<longleftrightarrow> fval f x = fval f y"
  using fval_le_key [of f x y] fval_le_key [of f y x] by (auto simp: feq_def finite_cases)

lemma sample_envelope: "clamp_position_in_envelope sample_installed f64_one f64_zero f64_one = f64_one"
  by (simp add: clamp_position_in_envelope_def effective_command_bounds_def sample_installed_def
      Let_def fle_finite flt_finite clamp_finite_def fmax_def fmin_def finite_cases limit_margin_from_config_def sample_entry_def)

lemma sample_command_fields:
  "mj_joint sample_command = ''elbow''" "mj_kp sample_command = f64_one" "mj_kd sample_command = f64_zero"
  "mj_position_rad sample_command = f64_one" "mj_velocity_rad_s sample_command = f64_zero"
  "mj_torque_ff_nm sample_command = f64_zero" "sample_command\<lparr>mj_torque_ff_nm := f64_zero\<rparr> = sample_command"
  by (simp_all add: sample_command_def)

lemma sample_total:
  assumes "f64_finite h" and "\<not> f64_le h f64_zero"
  shows "clamp_total_torque sample_command f64_one f64_zero f64_one h = Ok (sample_command, None)"
proof -
  have v: "f64_finite TOTAL_TORQUE_VELOCITY_MARGIN_RAD_S"
    unfolding TOTAL_TORQUE_VELOCITY_MARGIN_RAD_S_def by (rule small_literal) simp_all
  have "\<exists>z. pd_torque sample_command f64_one f64_zero = Flt z 0"
    by (auto simp: pd_torque_def sample_command_fields fsub_finite fmul_finite fadd_finite)
  then obtain z where pd: "pd_torque sample_command f64_one f64_zero = Flt z 0" ..
  have "\<exists>y. margin_nm sample_command f64_zero h = Flt y 0"
    using assms(1) v by (simp add: margin_nm_def sample_command_fields fmul_finite fadd_finite fmax_def Let_def flt_finite fabs_def)
  then obtain y where m: "margin_nm sample_command f64_zero h = Flt y 0" ..
  have r: "\<exists>x. reachable_pd (Flt z 0) f64_one (Flt y 0) f64_zero = Ok (Flt x 0)"
    by (auto simp: reachable_pd_def Let_def fsub_finite fadd_finite fle_finite checked_clamp_def fclamp_def flt_finite fmin_def fmax_def fnegate_def)
  have "\<not> f64_lt f64_one f64_zero" "f64_eq (Flt x 0) (Flt z 0)" for x by (simp_all add: flt_finite feq_finite)
  then show ?thesis
    using assms r by (auto simp: clamp_total_torque_def pd m Let_def sample_command_fields refuse_if_def)
qed

lemma sample_filtered: "is_ok (filter_mit_core sample_filter sample_command sample_motor None None None)"
proof -
  let ?h = "f64_div TOTAL_TORQUE_HORIZON_TICKS (f_of_nat Binary64 200)"
  have v: "validate_mit_command sample_command = Ok ()"
    by (simp add: validate_mit_command_Ok sample_command_def flt_finite)
  have lit1: "f64_lit 1 = f64_one" by (simp add: f64_lit_def)
  have sc: "motor_position_scale sample_motor = Ok f64_one"
    by (simp add: motor_position_scale_def sample_motor_def fle_finite lit1 fmul_finite)
  have g: "gain_gate sample_motor \<lparr>mtd_kp_max = f64_one, mtd_kd_max = f64_one, mtd_tau_ff_max_nm = f64_one,
        mtd_velocity_max_rad_s = f64_one\<rparr> sample_command = Ok ()"
    by (simp add: gain_gate_def sc fmul_finite fdiv_finite sample_command_def flt_finite fle_finite Let_def refuse_if_def)
  have q: "f64_eq f64_one f64_zero = False" by (simp add: feq_finite)
  have up: "sample_command\<lparr>mj_position_rad := f64_one\<rparr> = sample_command" by (simp add: sample_command_def)
  have b: "hard_lower sample_installed = f64_zero" "hard_upper sample_installed = f64_one" "jp_velocity sample_installed = f64_one"
    by (simp_all add: sample_installed_def hard_lower_def hard_upper_def)
  have "\<not> outside_hard sample_installed f64_one" by (simp add: outside_hard_def b flt_finite)
  then obtain moved where p: "position_gate sample_installed f64_one f64_zero sample_command = Ok (sample_command, moved)"
    using sample_envelope by (simp add: position_gate_def sample_command_fields up Let_def q)
  have cap: "torque_cap sample_installed sample_motor \<lparr>mtd_kp_max = f64_one, mtd_kd_max = f64_one, mtd_tau_ff_max_nm = f64_one,
        mtd_velocity_max_rad_s = f64_one\<rparr> f64_infinity = f64_one"
    by (simp add: torque_cap_def sample_installed_def sample_motor_def fmin_def finite_cases f64_infinity_def is_nan_def flt_def)
      (simp add: f64_one_def fkey_def is_nan_def)
  have dq: "checked_clamp f64_zero (fnegate f64_one) f64_one = Ok f64_zero"
    by (simp add: checked_clamp_sym not_negative_def fle_finite zero_clamp)
  have lit: "map_of (sv_limits sample_filter) ''elbow'' = Some sample_installed"
    "map_of (cs_motor_type_defaults (sv_control sample_filter)) (motor_type_key (me_motor_type sample_motor)) =
       Some \<lparr>mtd_kp_max = f64_one, mtd_kd_max = f64_one, mtd_tau_ff_max_nm = f64_one, mtd_velocity_max_rad_s = f64_one\<rparr>"
    "cs_danger_zones (sv_control sample_filter) = []" "cs_tau_ff_rate_limit_nm_per_s (sv_control sample_filter) = f64_one"
    "cs_loop_hz (sv_control sample_filter) = 200" "sv_last_tau_ff sample_filter = []"
    by (simp_all add: sample_filter_def sample_control_def sample_motor_def)
  have vg: "velocity_gate a b f64_one sample_command = Ok ()" for a b
    by (simp add: velocity_gate_def sample_command_fields flt_finite refuse_if_def)
  show ?thesis
    using v g p sample_rate dq sample_total [OF sample_horizon] vg cap
    by (simp add: filter_mit_core_def sample_command_fields lit apply_danger_zone_clamps_def Let_def b is_ok_iff refuse_if_def)
qed

text \<open>The sample command passes, and lies where the theorem puts it.\<close>

theorem accepted_config_commands_safe_witness:
  "\<exists>f. filter_mit_core sample_filter sample_command sample_motor None None None = Ok f \<and>
     f64_val (mj_position_rad (fm_out f)) \<le> 1 \<and> \<bar>f64_val (mj_torque_ff_nm (fm_out f))\<bar> \<le> 1"
proof -
  obtain f where f: "filter_mit_core sample_filter sample_command sample_motor None None None = Ok f"
    using sample_filtered by (auto simp: is_ok_iff)
  have "build_limits sample_robot [sample_motor] sample_control sample_arm = Ok (sv_limits sample_filter)"
    using sample_limits by (simp add: sample_filter_def)
  moreover have "motor_for_joint [sample_motor] (mj_joint sample_command) = Some sample_motor"
    by (simp add: motor_for_joint_def sample_command_fields sample_motor_def)
  ultimately show ?thesis
    using accepted_config_commands_safe [OF sample_config_ok _ _ _ f, of sample_arm] f
    by (simp add: sample_filter_def sample_motor_def)
qed

theorem filtered_command_admissible_witness:
  "\<exists>f. filter_mit_core sample_filter sample_command sample_motor None None None = Ok f \<and> command_finite (fm_out f) \<and>
     \<bar>f64_val (mj_velocity_rad_s (fm_out f))\<bar> \<le> 1"
proof -
  obtain f where f: "filter_mit_core sample_filter sample_command sample_motor None None None = Ok f"
    using sample_filtered by (auto simp: is_ok_iff)
  have "map_of (sv_limits sample_filter) (mj_joint sample_command) = Some sample_installed"
    by (simp add: sample_filter_def sample_command_fields)
  moreover have "policy_ok sample_installed"
    by (simp add: policy_ok_def sample_installed_def bounds_ok_def finite_cases)
  ultimately show ?thesis
    using filtered_command_admissible [OF f, of sample_installed] f by (simp add: sample_installed_def)
qed

theorem filter_never_panics_witness:
  "filter_mit_core sample_filter sample_command sample_motor None None None \<noteq> Err DavPanic"
proof -
  have "caps_not_negative sample_filter sample_command sample_motor"
    by (simp add: caps_not_negative_def not_negative_def fle_finite sample_filter_def sample_control_def sample_motor_def
        sample_command_def sample_installed_def)
  from filter_never_panics [OF this] show ?thesis .
qed

section \<open>The total-torque clamp\<close>

definition lies_between :: "f64 \<Rightarrow> f64 \<Rightarrow> f64 \<Rightarrow> bool" where
  "lies_between a b x \<longleftrightarrow> f64_le a x \<and> f64_le x b \<or> f64_le b x \<and> f64_le x a"

lemma fmul_unit_factor:
  assumes "f64_finite e" "f64_finite s" "0 \<le> f64_val s" "f64_val s \<le> 1"
  shows "f64_finite (f64_mul s e)"
    "0 \<le> f64_val e \<Longrightarrow> 0 \<le> f64_val (f64_mul s e) \<and> f64_val (f64_mul s e) \<le> f64_val e"
    "f64_val e \<le> 0 \<Longrightarrow> f64_val e \<le> f64_val (f64_mul s e) \<and> f64_val (f64_mul s e) \<le> 0"
proof -
  have m: "f64_mul s e = fround Binary64 (fneg s \<noteq> fneg e) (f64_val s * f64_val e)" using assms by (simp add: fmul_finite)
  have up: "f64_finite (f64_mul s e) \<and> 0 \<le> f64_val (f64_mul s e) \<and> f64_val (f64_mul s e) \<le> f64_val e" if "0 \<le> f64_val e"
  proof -
    have "f64_val f64_zero \<le> f64_val s * f64_val e" "f64_val s * f64_val e \<le> f64_val e"
      using that assms by (simp_all add: mult_left_le_one_le)
    from fround_between [OF finite_zero assms(1) this] show ?thesis by (simp add: m)
  qed
  have down: "f64_finite (f64_mul s e) \<and> f64_val e \<le> f64_val (f64_mul s e) \<and> f64_val (f64_mul s e) \<le> 0" if "f64_val e \<le> 0"
  proof -
    have "f64_val s * (- f64_val e) \<le> 1 * (- f64_val e)" using that assms by (intro mult_right_mono) auto
    then have "f64_val e \<le> f64_val s * f64_val e" "f64_val s * f64_val e \<le> f64_val f64_zero"
      using that assms by (simp_all add: mult_nonneg_nonpos)
    from fround_between [OF assms(1) finite_zero this] show ?thesis by (simp add: m)
  qed
  show "f64_finite (f64_mul s e)" using up down by (cases "0 \<le> f64_val e") auto
  show "0 \<le> f64_val e \<Longrightarrow> 0 \<le> f64_val (f64_mul s e) \<and> f64_val (f64_mul s e) \<le> f64_val e" using up by simp
  show "f64_val e \<le> 0 \<Longrightarrow> f64_val e \<le> f64_val (f64_mul s e) \<and> f64_val (f64_mul s e) \<le> 0" using down by simp
qed

text \<open>A setpoint scaled toward the feedback lies between the feedback and the feedback plus the whole error.\<close>

lemma scaled_setpoint:
  assumes q: "f64_finite q" and e: "\<not> f64_nan e" and s: "f64_le f64_zero s" "f64_le s (f64_lit 1)"
    and r: "f64_finite (f64_add q (f64_mul s e))"
  shows "lies_between q (f64_add q e) (f64_add q (f64_mul s e))"
proof -
  have one: "f64_finite (f64_lit 1)" "f64_val (f64_lit 1) = 1" by (rule f64_unit)+
  have fs: "f64_finite s" using finite_between [of Binary64 f64_zero "f64_lit 1" s] s one by (auto simp: fle_def)
  then have v: "0 \<le> f64_val s" "f64_val s \<le> 1" using s one by (auto simp: fle_finite simp del: f64_unit)
  have fe: "f64_finite e"
  proof (rule ccontr)
    assume "\<not> f64_finite e"
    with e have "is_infinite Binary64 e" by (auto simp: is_finite_def is_nan_def is_infinite_def)
    then have "f64_mul s e = nan Binary64 \<or> is_infinite Binary64 (f64_mul s e)"
      using e finite_cases [OF fs] by (auto simp: fmul_def is_infinite_def)
    then show False using r q finite_cases [OF q]
      by (auto simp: fadd_def is_finite_def nan_def is_nan_def is_infinite_def split: if_splits)
  qed
  note m = fmul_unit_factor [OF fe fs v]
  have sum: "f64_add q x = fround Binary64 (fneg q \<and> fneg x) (f64_val q + f64_val x)" if "f64_finite x" for x
    using q that by (simp add: fadd_finite)
  have nn: "\<not> f64_nan q" "\<not> f64_nan (f64_add q e)" "\<not> f64_nan (f64_add q (f64_mul s e))"
    using q fe m(1) by (simp_all add: finite_cases sum)
  show ?thesis
  proof (cases "0 \<le> f64_val e")
    case True
    have "fkey q \<le> fkey (f64_add q (f64_mul s e))"
      unfolding sum [OF m(1)] using m(2) [OF True] by (intro fround_ge [OF q]) simp
    moreover have "fkey (f64_add q (f64_mul s e)) \<le> fkey (f64_add q e)"
      unfolding sum [OF m(1)] sum [OF fe] using m(2) [OF True] by (intro fround_mono) simp
    ultimately show ?thesis using nn by (simp add: lies_between_def fle_def)
  next
    case False
    then have neg: "f64_val e \<le> 0" by simp
    have "fkey (f64_add q (f64_mul s e)) \<le> fkey q"
      unfolding sum [OF m(1)] using m(3) [OF neg] by (intro fround_le [OF q]) simp
    moreover have "fkey (f64_add q e) \<le> fkey (f64_add q (f64_mul s e))"
      unfolding sum [OF m(1)] sum [OF fe] using m(3) [OF neg] by (intro fround_mono) simp
    ultimately show ?thesis using nn by (simp add: lies_between_def fle_def)
  qed
qed


section \<open>The wrong-sign watchdog counts a zero torque\<close>

text \<open>
  \<open>f64::signum\<close> is never zero, so the comparison with zero never holds: past its grace period the watchdog
  counts a joint that moves with exactly no feed-forward torque as opposing gravity whenever the expected sign
  is negative.
\<close>

lemma u32_saturating_add_ge: "a \<le> u32_saturating_add a b"
proof (cases "unat a + unat b < 2 ^ 32")
  case True
  then have "unat (a + b) = unat a + unat b" by (simp add: unat_word_ariths)
  then show ?thesis using True by (simp add: u32_saturating_add_def word_le_nat_alt)
qed (simp add: u32_saturating_add_def)

lemma signum_never_zero: "\<not> f64_eq (f64_signum x) f64_zero"
proof -
  have one: "f64_finite (f64_lit 1)" "f64_val (f64_lit 1) = 1" by (rule f64_unit)+
  have "\<not> f64_eq (nan Binary64) f64_zero" by (simp add: nan_def is_nan_def feq_def)
  moreover have "\<not> f64_eq (f64_lit 1) f64_zero" "\<not> f64_eq (fnegate (f64_lit 1)) f64_zero"
    using one by (simp_all add: feq_finite del: f64_unit)
  ultimately show ?thesis by (simp only: f64_signum_def split: if_split) simp
qed

lemma wrong_sign_zero_torque_counts:
  assumes "sv_control_mode s = CtlGravityComp" and "wsw_enabled (cs_wrong_sign_watchdog (sv_control s))"
    and "map_of (sv_wrong_sign_state s) (mj_joint out) = Some st"
    and "wsw_grace_period_ticks (cs_wrong_sign_watchdog (sv_control s)) < ws_ticks_since_enable st"
    and "\<not> f64_le (fabs dq) (wsw_min_velocity_rad_s (cs_wrong_sign_watchdog (sv_control s)))"
    and "mj_torque_ff_nm out = f64_zero" and "f64_le f64_zero q"
    and "wsw_expected_sign_at_positive_q (cs_wrong_sign_watchdog (sv_control s)) = - 1"
  shows "\<exists>st' r. wrong_sign_step s out q dq = Some (st', r) \<and>
    ws_opposition_ticks st' = u32_saturating_add (ws_opposition_ticks st) 1"
proof -
  have one: "f64_finite (f64_lit 1)" "f64_val (f64_lit 1) = 1" by (rule f64_unit)+
  have w: "f64_of_i8 (- 1) = fround Binary64 False (- 1)" by (simp add: f64_of_i8_def)
  have m: "f64_finite (f64_of_i8 (- 1))" "f64_val (f64_of_i8 (- 1)) = - 1"
    using fround_of_int [of "- 1" Binary64 False] by (simp_all add: w)
  have "\<not> f64_nan f64_zero" by simp
  then have sg: "f64_signum (mj_torque_ff_nm out) = f64_lit 1" using assms(6) by (simp add: f64_signum_def)
  have ne: "\<not> f64_eq (f64_lit 1) (f64_of_i8 (- 1))" using one m by (simp add: feq_finite del: f64_unit)
  have nz: "\<not> f64_eq (f64_lit 1) f64_zero" using one by (simp add: feq_finite del: f64_unit)
  have t: "\<not> u32_saturating_add (ws_ticks_since_enable st) 1 \<le> wsw_grace_period_ticks (cs_wrong_sign_watchdog (sv_control s))"
    using assms(4) u32_saturating_add_ge [of "ws_ticks_since_enable st" 1] by simp
  show ?thesis
    using assms(1-3,5,7,8) sg ne nz t by (auto simp: wrong_sign_step_def Let_def unwrap_or_def)
qed

end
