(* ===== verification/Davout_Reference.thy ===== *)
theory Davout_Reference
  imports Davout_Filter
begin

text \<open>
  \<open>davout/src/reference.rs\<close> and the stamps of \<open>davout/src/reference_model.rs\<close>: the private permission
  of a joint to move, what grants and what revokes it, and the policy it is bound to. An \<open>Arc<()>\<close> is an
  identity token; a borrowed binding is its index in \<open>consumed\<close>. The serialisers that measure the
  installed model are foreign code: their output is the list of the buffer lengths they write.
\<close>

section \<open>The installed model\<close>

type_synonym arc = nat

definition MODEL_CAPACITY :: nat where "MODEL_CAPACITY = 512 * 1024"

record installed_model_stamp =
  im_generation :: u64
  im_descriptor :: arc
  im_robot :: robot_section
  im_urdf :: urdf_robot

definition stamp_eq :: "installed_model_stamp \<Rightarrow> installed_model_stamp \<Rightarrow> bool" where
  "stamp_eq a b \<longleftrightarrow> im_generation a = im_generation b \<and> im_descriptor a = im_descriptor b"

text \<open>Buffers written against one budget; a buffer that would pass the capacity is refused.\<close>

definition budget_write :: "nat \<Rightarrow> nat \<Rightarrow> (nat, string) result" where
  "budget_write written n =
     (if written + n \<le> MODEL_CAPACITY then Ok (written + n)
      else Err ''installed reference model exceeds 512 KiB'')"

fun budget_write_all :: "nat \<Rightarrow> nat list \<Rightarrow> (nat, string) result" where
  "budget_write_all written [] = Ok written"
| "budget_write_all written (n # ns) = rbind (budget_write written n) (\<lambda>w. budget_write_all w ns)"

definition at_generation ::
    "u64 \<Rightarrow> arc \<Rightarrow> robot_section \<Rightarrow> urdf_robot \<Rightarrow> nat list \<Rightarrow> nat list \<Rightarrow>
     (installed_model_stamp, davout_error) result" where
  "at_generation generation descriptor robot urdf robot_bytes urdf_bytes =
     (let refuse = (\<lambda>m. DavReferenceModel [Txt (bounded_message m)]) in
      rbind (map_err refuse (budget_write_all 0 robot_bytes)) (\<lambda>written.
      rbind (map_err refuse (budget_write_all written urdf_bytes)) (\<lambda>_.
        Ok \<lparr>im_generation = generation, im_descriptor = descriptor, im_robot = robot, im_urdf = urdf\<rparr>)))"

definition model_replacement ::
    "installed_model_stamp \<Rightarrow> arc \<Rightarrow> robot_section \<Rightarrow> urdf_robot \<Rightarrow> nat list \<Rightarrow> nat list \<Rightarrow>
     (installed_model_stamp, davout_error) result" where
  "model_replacement stamp descriptor robot urdf robot_bytes urdf_bytes =
     rbind (ok_or (u64_checked_add (im_generation stamp) 1) DavInstalledGenerationExhausted) (\<lambda>generation.
       at_generation generation descriptor robot urdf robot_bytes urdf_bytes)"

section \<open>Bindings and bound policy\<close>

record consumed_binding =
  cb_job :: arc
  cb_model :: installed_model_stamp
  cb_joint :: string
  cb_address :: motor_address
  cb_device_epoch :: u64
  cb_uid :: "device_uid option"
  cb_revoked :: bool
  cb_revoked_silent :: bool

definition new_binding ::
    "arc \<Rightarrow> installed_model_stamp \<Rightarrow> string \<Rightarrow> motor_address \<Rightarrow> u64 \<Rightarrow> device_uid option \<Rightarrow> consumed_binding" where
  "new_binding job model joint address device_epoch uid =
     \<lparr>cb_job = job, cb_model = model, cb_joint = joint, cb_address = address, cb_device_epoch = device_epoch,
      cb_uid = uid, cb_revoked = False, cb_revoked_silent = False\<rparr>"

datatype selection_scope = Replace | Accumulate

record bound_motor =
  bm_control :: "joint_control_entry option"
  bm_velocity_cap :: "f64 option"
  bm_homing :: "effective_homing_joint option"

definition result_ok :: "('a, 'e) result \<Rightarrow> 'a option" where
  "result_ok r = (case r of Inr x \<Rightarrow> Some x | Inl _ \<Rightarrow> None)"

definition bind_motors ::
    "motor_entry list \<Rightarrow> homing_section \<Rightarrow> control_section \<Rightarrow> bound_motor list" where
  "bind_motors motors homing control =
     map (\<lambda>m. \<lparr>bm_control = map_of (cs_joints control) (me_joint m),
        bm_velocity_cap = result_ok (resolve_joint_velocity_cap (me_joint m) (me_motor_type m) control),
        bm_homing = effective_joint_ref homing (me_joint m)\<rparr>) motors"

text \<open>\<open>==\<close> of optional floats.\<close>

definition f64_opt_eq :: "f64 option \<Rightarrow> f64 option \<Rightarrow> bool" where
  "f64_opt_eq a b = (case (a, b) of (None, None) \<Rightarrow> True | (Some x, Some y) \<Rightarrow> f64_eq x y | _ \<Rightarrow> False)"

definition motor_reference_matches :: "motor_entry \<Rightarrow> motor_entry \<Rightarrow> bool" where
  "motor_reference_matches old new \<longleftrightarrow>
     me_joint old = me_joint new \<and> me_driver old = me_driver new \<and> me_motor_type old = me_motor_type new \<and>
     me_can_interface old = me_can_interface new \<and> me_device_id old = me_device_id new \<and>
     me_direction old = me_direction new \<and> f64_eq (me_gear_ratio old) (me_gear_ratio new) \<and>
     me_recv_can_id old = me_recv_can_id new \<and> me_firmware_version old = me_firmware_version new \<and>
     f64_eq (bl_position_lower_rad (me_bench old)) (bl_position_lower_rad (me_bench new)) \<and>
     f64_eq (bl_position_upper_rad (me_bench old)) (bl_position_upper_rad (me_bench new)) \<and>
     f64_eq (bl_velocity_limit_rad_s (me_bench old)) (bl_velocity_limit_rad_s (me_bench new))"

definition control_reference_matches ::
    "motor_entry \<Rightarrow> bound_motor \<Rightarrow> control_section \<Rightarrow> control_section \<Rightarrow> bool" where
  "control_reference_matches motor bound old new =
     (case (bm_control bound, map_of (cs_joints new) (me_joint motor)) of
        (Some a, Some b) \<Rightarrow>
          jc_motor_type a = jc_motor_type b \<and>
          f64_eq (jc_position_hold_trim_rad a) (jc_position_hold_trim_rad b) \<and>
          f64_opt_eq (jc_position_soft_lower_rad a) (jc_position_soft_lower_rad b) \<and>
          f64_opt_eq (jc_position_soft_upper_rad a) (jc_position_soft_upper_rad b) \<and>
          f64_eq (jc_position_limit_margin_min_rad a) (jc_position_limit_margin_min_rad b) \<and>
          f64_eq (jc_position_limit_margin_k_v_s a) (jc_position_limit_margin_k_v_s b) \<and>
          f64_eq (jc_position_limit_margin_k_stop a) (jc_position_limit_margin_k_stop b) \<and>
          f64_eq (jc_position_limit_measured_fault_slack_rad a) (jc_position_limit_measured_fault_slack_rad b) \<and>
          f64_eq (jc_position_trajectory_velocity_deadband_rad a) (jc_position_trajectory_velocity_deadband_rad b) \<and>
          f64_eq (jc_position_trajectory_accel_rad_s2 a) (jc_position_trajectory_accel_rad_s2 b) \<and>
          wsw_expected_sign_at_positive_q (cs_wrong_sign_watchdog old) =
            wsw_expected_sign_at_positive_q (cs_wrong_sign_watchdog new) \<and>
          f64_opt_eq (bm_velocity_cap bound)
            (result_ok (resolve_joint_velocity_cap (me_joint motor) (me_motor_type motor) new))
      | _ \<Rightarrow> False)"

definition homing_reference_matches :: "effective_homing_joint \<Rightarrow> effective_homing_joint \<Rightarrow> bool" where
  "homing_reference_matches old new =
     (let sensors = (\<lambda>e. map_option (\<lambda>s. [(si_gpio (hn_home s), si_active_high (hn_home s)),
            (si_gpio (hn_min_limit s), si_active_high (hn_min_limit s)),
            (si_gpio (hn_max_limit s), si_active_high (hn_max_limit s))]) (eh_sensors e))
      in eh_joint old = eh_joint new \<and> eh_method old = eh_method new \<and>
         f64_eq (eh_home_offset_rad old) (eh_home_offset_rad new) \<and>
         eh_search_direction old = eh_search_direction new \<and>
         f64_eq (eh_search_velocity_rad_s old) (eh_search_velocity_rad_s new) \<and>
         f64_eq (eh_search_torque_nm old) (eh_search_torque_nm new) \<and>
         f64_eq (eh_search_timeout_s old) (eh_search_timeout_s new) \<and>
         f64_eq (eh_backoff_rad old) (eh_backoff_rad new) \<and>
         eh_sign_test_required old = eh_sign_test_required new \<and>
         eh_allow_sensor_overlap old = eh_allow_sensor_overlap new \<and> sensors old = sensors new)"

section \<open>The authority\<close>

record reference_authority =
  ra_joints :: "string list"
  ra_motors :: "motor_entry list"
  ra_bound :: "bound_motor list"
  ra_homing :: "homing_section option"
  ra_control :: "control_section option"
  ra_realm :: "arc option"
  ra_consumed :: "consumed_binding list"
  ra_accumulates :: bool
  ra_revoked :: bool
  ra_generation :: u64

definition authority_default :: reference_authority where
  "authority_default =
     \<lparr>ra_joints = [], ra_motors = [], ra_bound = [], ra_homing = None, ra_control = None, ra_realm = None,
      ra_consumed = [], ra_accumulates = False, ra_revoked = False, ra_generation = 0\<rparr>"

definition initial_virtual ::
    "arc \<Rightarrow> string list \<Rightarrow> motor_entry list \<Rightarrow> homing_section \<Rightarrow> control_section \<Rightarrow> reference_authority" where
  "initial_virtual realm joints motors homing control =
     \<lparr>ra_joints = joints, ra_motors = motors, ra_bound = bind_motors motors homing control,
      ra_homing = Some homing, ra_control = Some control, ra_realm = Some realm, ra_consumed = [],
      ra_accumulates = False, ra_revoked = False, ra_generation = 1\<rparr>"

definition bump_generation :: "reference_authority \<Rightarrow> reference_authority" where
  "bump_generation ra = ra\<lparr>ra_generation := u64_saturating_add (ra_generation ra) 1\<rparr>"

definition revoke :: "reference_authority \<Rightarrow> reference_authority" where
  "revoke ra = (if ra_revoked ra then ra else bump_generation (ra\<lparr>ra_revoked := True\<rparr>))"

definition revoke_binding :: "nat \<Rightarrow> reference_authority \<Rightarrow> reference_authority" where
  "revoke_binding i ra =
     (let b = ra_consumed ra ! i in
      if cb_revoked b then ra
      else bump_generation (ra\<lparr>ra_consumed := (ra_consumed ra)[i := b\<lparr>cb_revoked := True\<rparr>]\<rparr>))"

definition revoke_binding_silent :: "nat \<Rightarrow> reference_authority \<Rightarrow> reference_authority" where
  "revoke_binding_silent i ra =
     (let b = ra_consumed ra ! i;
          ra = (if cb_revoked b then ra
                else ra\<lparr>ra_consumed := (ra_consumed ra)[i := b\<lparr>cb_revoked_silent := True\<rparr>]\<rparr>)
      in revoke_binding i ra)"

definition revoked_silent :: "reference_authority \<Rightarrow> string \<Rightarrow> bool" where
  "revoked_silent ra joint = list_ex (\<lambda>b. cb_joint b = joint \<and> cb_revoked_silent b) (ra_consumed ra)"

definition find_index :: "('a \<Rightarrow> bool) \<Rightarrow> 'a list \<Rightarrow> nat option" where
  "find_index P xs = List.find (\<lambda>i. P (xs ! i)) [0..<length xs]"

definition revoke_joint :: "string \<Rightarrow> reference_authority \<Rightarrow> reference_authority" where
  "revoke_joint joint ra =
     (case find_index (\<lambda>b. cb_joint b = joint) (ra_consumed ra) of
        Some i \<Rightarrow> revoke_binding i ra | None \<Rightarrow> ra)"

definition revoke_selected :: "arc \<Rightarrow> reference_authority \<Rightarrow> reference_authority" where
  "revoke_selected job ra =
     (case find_index (\<lambda>b. cb_job b = job) (ra_consumed ra) of
        Some i \<Rightarrow> if ra_accumulates ra then revoke_binding i ra else revoke ra
      | None \<Rightarrow> ra)"

definition invalidate_for_acquisition :: "reference_authority \<Rightarrow> reference_authority \<times> u64 option" where
  "invalidate_for_acquisition ra =
     (case u64_checked_add (ra_generation ra) 1 of
        None \<Rightarrow> (ra, None)
      | Some n \<Rightarrow> (ra\<lparr>ra_revoked := True, ra_generation := n\<rparr>, Some n))"

definition invalidate_joint_for_acquisition ::
    "string \<Rightarrow> reference_authority \<Rightarrow> reference_authority \<times> u64 option" where
  "invalidate_joint_for_acquisition joint ra =
     (case u64_checked_add (ra_generation ra) 1 of
        None \<Rightarrow> (ra, None)
      | Some n \<Rightarrow>
          (let ra1 = (case find_index (\<lambda>b. cb_joint b = joint) (ra_consumed ra) of
                 Some i \<Rightarrow> ra\<lparr>ra_consumed := (ra_consumed ra)[i := (ra_consumed ra ! i)\<lparr>cb_revoked := True\<rparr>]\<rparr>
               | None \<Rightarrow> ra);
               ra2 = (if ra_accumulates ra then ra1 else ra1\<lparr>ra_revoked := True\<rparr>)
           in (ra2\<lparr>ra_generation := n\<rparr>, Some n)))"

definition contains :: "reference_authority \<Rightarrow> string \<Rightarrow> bool" where
  "contains ra joint \<longleftrightarrow>
     \<not> ra_revoked ra \<and> joint \<in> set (ra_joints ra) \<and>
     (ra_consumed ra = [] \<or> list_ex (\<lambda>b. cb_joint b = joint \<and> \<not> cb_revoked b) (ra_consumed ra))"

definition policy_matches ::
    "reference_authority \<Rightarrow> motor_entry list \<Rightarrow> homing_section \<Rightarrow> control_section \<Rightarrow> bool" where
  "policy_matches ra motors homing control =
     (case (ra_homing ra, ra_control ra) of
        (Some bound_homing, Some bound_control) \<Rightarrow>
          length (ra_motors ra) = length motors \<and> length (ra_bound ra) = length (ra_motors ra) \<and>
          list_all (\<lambda>((old, bound), new).
             motor_reference_matches old new \<and> control_reference_matches old bound bound_control control \<and>
             (case (bm_homing bound, effective_joint_ref homing (me_joint new)) of
                (Some a, Some b) \<Rightarrow> homing_reference_matches a b | _ \<Rightarrow> False))
            (zip (zip (ra_motors ra) (ra_bound ra)) motors) \<and>
          f64_eq (hs_zero_verify_tolerance_rad bound_homing) (hs_zero_verify_tolerance_rad homing) \<and>
          hs_calibration_record_path bound_homing = hs_calibration_record_path homing
      | _ \<Rightarrow> False)"

definition select_consumed ::
    "arc \<Rightarrow> consumed_binding \<Rightarrow> motor_entry list \<Rightarrow> homing_section \<Rightarrow> control_section \<Rightarrow> selection_scope \<Rightarrow>
     reference_authority \<Rightarrow> reference_authority \<times> unit option" where
  "select_consumed realm binding motors homing control scope ra =
     (case u64_checked_add (ra_generation ra) 1 of
        None \<Rightarrow> (ra, None)
      | Some n \<Rightarrow>
          (let joint = cb_joint binding;
               merge = (scope = Accumulate \<and> ra_accumulates ra \<and> \<not> ra_revoked ra \<and>
                 ra_realm ra = Some realm \<and> policy_matches ra motors homing control)
           in if merge
              then (ra\<lparr>ra_consumed := filter (\<lambda>b. cb_joint b \<noteq> joint) (ra_consumed ra) @ [binding],
                      ra_joints := List.insert joint (ra_joints ra), ra_generation := n\<rparr>, Some ())
              else (\<lparr>ra_joints = [joint], ra_motors = motors, ra_bound = bind_motors motors homing control,
                     ra_homing = Some homing, ra_control = Some control, ra_realm = Some realm,
                     ra_consumed = [binding], ra_accumulates = (scope = Accumulate), ra_revoked = False,
                     ra_generation = n\<rparr>, Some ())))"

definition selected_by :: "reference_authority \<Rightarrow> arc \<Rightarrow> bool" where
  "selected_by ra job \<longleftrightarrow>
     \<not> ra_revoked ra \<and> list_ex (\<lambda>b. \<not> cb_revoked b \<and> cb_job b = job) (ra_consumed ra)"

definition binding_for :: "reference_authority \<Rightarrow> string \<Rightarrow> consumed_binding option" where
  "binding_for ra joint = List.find (\<lambda>b. cb_joint b = joint \<and> \<not> cb_revoked b) (ra_consumed ra)"

definition validate_consumed_model :: "reference_authority \<Rightarrow> installed_model_stamp \<Rightarrow> bool" where
  "validate_consumed_model ra model = list_all (\<lambda>b. stamp_eq model (cb_model b)) (ra_consumed ra)"

definition validate_binding ::
    "motor_entry list \<Rightarrow> homing_section \<Rightarrow> control_section \<Rightarrow> reference_authority \<Rightarrow> reference_authority \<times> bool" where
  "validate_binding motors homing control ra =
     (if ra_revoked ra \<or> ra_realm ra = None then (ra, False)
      else if policy_matches ra motors homing control then (ra, True)
      else (revoke ra, False))"

section \<open>Steps of the authority\<close>

datatype authority_call =
    CallRevoke
  | CallRevokeBinding nat
  | CallRevokeSilent nat
  | CallRevokeJoint string
  | CallRevokeSelected arc
  | CallInvalidate
  | CallInvalidateJoint string
  | CallSelect arc consumed_binding "motor_entry list" homing_section control_section selection_scope
  | CallValidate "motor_entry list" homing_section control_section

fun authority_step :: "authority_call \<Rightarrow> reference_authority \<Rightarrow> reference_authority" where
  "authority_step CallRevoke ra = revoke ra"
| "authority_step (CallRevokeBinding i) ra = (if i < length (ra_consumed ra) then revoke_binding i ra else ra)"
| "authority_step (CallRevokeSilent i) ra = (if i < length (ra_consumed ra) then revoke_binding_silent i ra else ra)"
| "authority_step (CallRevokeJoint j) ra = revoke_joint j ra"
| "authority_step (CallRevokeSelected job) ra = revoke_selected job ra"
| "authority_step CallInvalidate ra = fst (invalidate_for_acquisition ra)"
| "authority_step (CallInvalidateJoint j) ra = fst (invalidate_joint_for_acquisition j ra)"
| "authority_step (CallSelect realm b ms hs cs scope) ra = fst (select_consumed realm b ms hs cs scope ra)"
| "authority_step (CallValidate ms hs cs) ra = fst (validate_binding ms hs cs ra)"

fun authority_run :: "authority_call list \<Rightarrow> reference_authority \<Rightarrow> reference_authority" where
  "authority_run [] ra = ra"
| "authority_run (c # cs) ra = authority_run cs (authority_step c ra)"

section \<open>Revocation and selection\<close>

lemma find_index_Some: "find_index P xs = Some i \<Longrightarrow> i < length xs \<and> P (xs ! i)"
  by (auto simp: find_index_def find_Some_iff)

abbreviation live_for :: "string \<Rightarrow> consumed_binding list \<Rightarrow> bool" where
  "live_for j \<equiv> list_ex (\<lambda>b. cb_joint b = j \<and> \<not> cb_revoked b)"

lemma live_update:
  assumes "i < length bs" and "cb_joint b = cb_joint (bs ! i)" and "cb_revoked b"
  shows "live_for j (bs[i := b]) \<Longrightarrow> live_for j bs" and "cb_joint b \<noteq> j \<Longrightarrow> live_for j bs \<Longrightarrow> live_for j (bs[i := b])"
proof -
  show "live_for j bs" if "live_for j (bs[i := b])"
  proof -
    from that obtain x where x: "x \<in> set (bs[i := b])" "cb_joint x = j" "\<not> cb_revoked x" by (auto simp: list_ex_iff)
    then have "x \<noteq> b" using assms(3) by auto
    then have "x \<in> set bs" using x(1) set_update_subset_insert [of bs i b] by auto
    then show ?thesis using x by (auto simp: list_ex_iff)
  qed
  show "live_for j (bs[i := b])" if "cb_joint b \<noteq> j" "live_for j bs"
  proof -
    from that(2) obtain k where k: "k < length bs" "cb_joint (bs ! k) = j" "\<not> cb_revoked (bs ! k)"
      by (auto simp: list_ex_iff in_set_conv_nth)
    then have "k \<noteq> i" using that(1) assms(2) by auto
    then have "bs[i := b] ! k = bs ! k" "k < length (bs[i := b])" using k by simp_all
    then show ?thesis using k unfolding list_ex_iff by (metis nth_mem)
  qed
qed

lemma bump_simps [simp]:
  "ra_joints (bump_generation ra) = ra_joints ra" "ra_consumed (bump_generation ra) = ra_consumed ra"
  "ra_revoked (bump_generation ra) = ra_revoked ra" "ra_accumulates (bump_generation ra) = ra_accumulates ra"
  "contains (bump_generation ra) j = contains ra j"
  by (simp_all add: bump_generation_def contains_def)

lemma bump_grows: "ra_generation ra \<le> ra_generation (bump_generation ra)"
  by (simp add: bump_generation_def u64_saturating_add_ge)

lemma bump_strict: "ra_generation ra \<noteq> - 1 \<Longrightarrow> ra_generation (bump_generation ra) \<noteq> ra_generation ra"
  by (simp add: bump_generation_def u64_increment)

text \<open>
  One call never lowers the generation, never grants a joint it does not select, and leaves every
  permission alone when it leaves the generation alone.
\<close>

definition selects :: "string \<Rightarrow> authority_call \<Rightarrow> bool" where
  "selects j c = (case c of CallSelect _ b _ _ _ _ \<Rightarrow> cb_joint b = j | _ \<Rightarrow> False)"

definition sound_call :: "authority_call \<Rightarrow> reference_authority \<Rightarrow> reference_authority \<Rightarrow> bool" where
  "sound_call c ra ra' \<longleftrightarrow>
     ra_generation ra \<le> ra_generation ra' \<and>
     (\<forall>j. contains ra' j \<longrightarrow> contains ra j \<or> selects j c) \<and>
     (ra_generation ra' = ra_generation ra \<and> ra_generation ra \<noteq> - 1 \<longrightarrow> (\<forall>j. contains ra' j = contains ra j))"

lemma sound_same: "sound_call c ra ra"
  by (simp add: sound_call_def)

lemma sound_bump:
  assumes "ra_generation ra1 = ra_generation ra" and "\<And>j. contains ra1 j \<Longrightarrow> contains ra j"
  shows "sound_call c ra (bump_generation ra1)"
  using bump_grows [of ra1] bump_strict [of ra1] assms by (auto simp: sound_call_def)

lemma revoke_sound: "sound_call c ra (revoke ra)"
  unfolding revoke_def by (auto intro: sound_same sound_bump simp: contains_def)

lemma revoke_binding_sound:
  assumes "i < length (ra_consumed ra)"
  shows "sound_call c ra (revoke_binding i ra)"
proof -
  have "contains (ra\<lparr>ra_consumed := (ra_consumed ra)[i := (ra_consumed ra ! i)\<lparr>cb_revoked := True\<rparr>]\<rparr>) j \<Longrightarrow> contains ra j" for j
    using live_update(1) [OF assms, of "(ra_consumed ra ! i)\<lparr>cb_revoked := True\<rparr>" j] by (auto simp: contains_def)
  then show ?thesis unfolding revoke_binding_def Let_def by (auto intro: sound_same sound_bump)
qed

lemma silent_mark:
  fixes ra i
  defines "ra1 \<equiv> ra\<lparr>ra_consumed := (ra_consumed ra)[i := (ra_consumed ra ! i)\<lparr>cb_revoked_silent := True\<rparr>]\<rparr>"
  assumes "i < length (ra_consumed ra)"
  shows "contains ra1 j = contains ra j" and "ra_generation ra1 = ra_generation ra"
proof -
  let ?b = "(ra_consumed ra ! i)\<lparr>cb_revoked_silent := True\<rparr>"
  have m: "map (\<lambda>b. (cb_joint b, cb_revoked b)) ((ra_consumed ra)[i := ?b]) = map (\<lambda>b. (cb_joint b, cb_revoked b)) (ra_consumed ra)"
    using assms(2) by (simp add: map_update list_update_same_conv)
  have l: "live_for j bs = list_ex (\<lambda>(a, r). a = j \<and> \<not> r) (map (\<lambda>b. (cb_joint b, cb_revoked b)) bs)" for bs
    by (induction bs) auto
  show "contains ra1 j = contains ra j" unfolding contains_def ra1_def by (simp add: l m)
  show "ra_generation ra1 = ra_generation ra" by (simp add: ra1_def)
qed

lemma revoke_binding_silent_sound:
  assumes "i < length (ra_consumed ra)"
  shows "sound_call c ra (revoke_binding_silent i ra)"
proof -
  let ?ra = "ra\<lparr>ra_consumed := (ra_consumed ra)[i := (ra_consumed ra ! i)\<lparr>cb_revoked_silent := True\<rparr>]\<rparr>"
  have "sound_call c ?ra (revoke_binding i ?ra)" using assms by (intro revoke_binding_sound) simp
  then have "sound_call c ra (revoke_binding i ?ra)"
    using silent_mark [OF assms] by (simp add: sound_call_def)
  then show ?thesis using revoke_binding_sound [OF assms] by (simp add: revoke_binding_silent_def Let_def)
qed

lemma next_generation: "u64_checked_add g 1 = Some n \<Longrightarrow> g \<le> n \<and> n \<noteq> g"
  using u64_checked_add_Some [of g 1 n] by (auto simp: word_le_nat_alt)

lemma sound_next:
  assumes "u64_checked_add (ra_generation ra) 1 = Some (ra_generation ra')"
    and "\<And>j. contains ra' j \<Longrightarrow> contains ra j \<or> selects j c"
  shows "sound_call c ra ra'"
  using next_generation [OF assms(1)] assms(2) by (auto simp: sound_call_def)

lemma invalidate_joint_sound: "sound_call c ra (fst (invalidate_joint_for_acquisition j ra))"
proof (cases "u64_checked_add (ra_generation ra) 1")
  case (Some n)
  let ?bs = "\<lambda>i. (ra_consumed ra)[i := (ra_consumed ra ! i)\<lparr>cb_revoked := True\<rparr>]"
  have "contains ra k" if "contains (fst (invalidate_joint_for_acquisition j ra)) k" for k
  proof (cases "find_index (\<lambda>b. cb_joint b = j) (ra_consumed ra)")
    case None
    then show ?thesis using that Some by (auto simp: invalidate_joint_for_acquisition_def contains_def Let_def split: if_splits)
  next
    case (Some i)
    from find_index_Some [OF this] have "i < length (ra_consumed ra)" by simp
    from live_update(1) [OF this, of "(ra_consumed ra ! i)\<lparr>cb_revoked := True\<rparr>" k]
    show ?thesis using that Some \<open>u64_checked_add (ra_generation ra) 1 = Some n\<close>
      by (auto simp: invalidate_joint_for_acquisition_def contains_def Let_def split: if_splits)
  qed
  moreover have "u64_checked_add (ra_generation ra) 1 = Some (ra_generation (fst (invalidate_joint_for_acquisition j ra)))"
    using Some by (simp add: invalidate_joint_for_acquisition_def Let_def)
  ultimately show ?thesis by (intro sound_next) auto
qed (simp add: invalidate_joint_for_acquisition_def sound_same)

lemma select_sound: "sound_call (CallSelect realm b ms hs cs scope) ra (fst (select_consumed realm b ms hs cs scope ra))"
proof (cases "u64_checked_add (ra_generation ra) 1")
  case (Some n)
  let ?ra = "fst (select_consumed realm b ms hs cs scope ra)"
  have g: "u64_checked_add (ra_generation ra) 1 = Some (ra_generation ?ra)"
    using Some by (simp add: select_consumed_def Let_def)
  have "contains ra j \<or> cb_joint b = j" if c: "contains ?ra j" for j
  proof (cases "scope = Accumulate \<and> ra_accumulates ra \<and> \<not> ra_revoked ra \<and> ra_realm ra = Some realm \<and> policy_matches ra ms hs cs")
    case True
    then have "?ra = ra\<lparr>ra_consumed := filter (\<lambda>x. cb_joint x \<noteq> cb_joint b) (ra_consumed ra) @ [b],
        ra_joints := List.insert (cb_joint b) (ra_joints ra), ra_generation := n\<rparr>"
      using Some by (simp add: select_consumed_def Let_def)
    then have "j \<in> set (List.insert (cb_joint b) (ra_joints ra))" "\<not> ra_revoked ra"
        "live_for j (filter (\<lambda>x. cb_joint x \<noteq> cb_joint b) (ra_consumed ra) @ [b])"
      using c by (simp_all add: contains_def)
    then show ?thesis by (auto simp: contains_def list_ex_iff)
  next
    case False
    then have "ra_joints ?ra = [cb_joint b]" using Some by (auto simp: select_consumed_def Let_def)
    then show ?thesis using c by (simp add: contains_def)
  qed
  then show ?thesis by (intro sound_next [OF g]) (simp add: selects_def)
qed (simp add: select_consumed_def sound_same)

lemma authority_step_sound: "sound_call c ra (authority_step c ra)"
proof (cases c)
  case (CallRevokeJoint j)
  then show ?thesis
    by (auto simp: revoke_joint_def sound_same revoke_binding_sound split: option.splits dest!: find_index_Some)
next
  case (CallRevokeSelected job)
  then show ?thesis
    by (auto simp: revoke_selected_def sound_same revoke_binding_sound revoke_sound split: option.splits dest!: find_index_Some)
next
  case CallInvalidate
  show ?thesis
  proof (cases "u64_checked_add (ra_generation ra) 1")
    case (Some n)
    then show ?thesis unfolding CallInvalidate
      by (intro sound_next) (simp_all add: invalidate_for_acquisition_def contains_def)
  qed (simp add: CallInvalidate invalidate_for_acquisition_def sound_same)
qed (auto simp: revoke_sound revoke_binding_sound revoke_binding_silent_sound invalidate_joint_sound select_sound
    validate_binding_def sound_same)

lemma authority_run_generation: "ra_generation ra \<le> ra_generation (authority_run cs ra)"
proof (induction cs arbitrary: ra)
  case (Cons c cs)
  have "ra_generation ra \<le> ra_generation (authority_step c ra)" using authority_step_sound [of c ra] by (simp add: sound_call_def)
  also have "\<dots> \<le> ra_generation (authority_run cs (authority_step c ra))" by (rule Cons)
  finally show ?case by simp
qed simp

lemma authority_run_permission:
  "contains (authority_run cs ra) j \<Longrightarrow> contains ra j \<or> list_ex (selects j) cs"
proof (induction cs arbitrary: ra)
  case (Cons c cs)
  then have "contains (authority_step c ra) j \<or> list_ex (selects j) cs" by simp
  then show ?case using authority_step_sound [of c ra] by (auto simp: sound_call_def)
qed simp



text \<open>Revoking one binding leaves the permission of every other joint.\<close>

lemma revoke_binding_other_joint:
  assumes "i < length (ra_consumed ra)" and "cb_joint (ra_consumed ra ! i) \<noteq> j"
  shows "contains (revoke_binding i ra) j = contains ra j"
proof -
  let ?b = "(ra_consumed ra ! i)\<lparr>cb_revoked := True\<rparr>"
  have "live_for j ((ra_consumed ra)[i := ?b]) = live_for j (ra_consumed ra)"
    using live_update [OF assms(1), of ?b j] assms(2) by auto
  then show ?thesis by (simp add: revoke_binding_def Let_def contains_def)
qed

text \<open>A replaced model has a later generation, so no binding to the model before it validates.\<close>

lemma model_replacement_changes:
  assumes "model_replacement stamp d robot urdf rb ub = Ok stamp'" and "b \<in> set (ra_consumed ra)" and "cb_model b = stamp"
  shows "\<not> validate_consumed_model ra stamp'"
proof -
  from assms(1) have "u64_checked_add (im_generation stamp) 1 = Some (im_generation stamp')"
    by (auto simp: model_replacement_def at_generation_def rbind_Ok_iff Let_def)
  then have "\<not> stamp_eq stamp' stamp" using next_generation by (auto simp: stamp_eq_def)
  then show ?thesis using assms(2,3) by (auto simp: validate_consumed_model_def list_all_iff)
qed

section \<open>Witnesses\<close>

definition sample_stamp :: installed_model_stamp where
  "sample_stamp = \<lparr>im_generation = 1, im_descriptor = 0, im_robot = sample_robot, im_urdf = sample_arm\<rparr>"

definition sample_binding :: consumed_binding where
  "sample_binding = new_binding 7 sample_stamp ''elbow'' \<lparr>addr_interface = ''can0'', addr_device_id = 4\<rparr> 1 None"

definition sample_calls :: "authority_call list" where
  "sample_calls = [CallSelect 3 sample_binding [sample_motor] sample_homing sample_control Accumulate]"

lemma sample_selected: "contains (authority_run sample_calls authority_default) ''elbow''"
  by (simp add: sample_calls_def select_consumed_def authority_default_def u64_checked_add_def contains_def
      sample_binding_def new_binding_def Let_def)



end
