(* ===== verification/Davout_Physical.thy ===== *)
theory Davout_Physical
  imports Davout_Filter
begin

text \<open>
  \<open>davout/src/reference_physical.rs\<close>: what the owner knows of every installed drive, its identity,
  its coordinate epoch and when it last spoke, and the rule that ends the grant of a drive that fell
  silent. The device map is an association list; the fate of an owed reporting write is the function
  the reporting synchronisation passes.
\<close>

section \<open>State\<close>

definition IDENTITY_ADMISSION_TIMEOUT :: duration where "IDENTITY_ADMISSION_TIMEOUT = millis 100"
definition IDENTITY_ADMISSION_RETRY :: duration where "IDENTITY_ADMISSION_RETRY = millis 10"
definition IDENTITY_ADMISSION_SPACING :: duration where "IDENTITY_ADMISSION_SPACING = BURST_GROUP_SPACING"
definition IDENTITY_ADMISSION_POLL :: duration where "IDENTITY_ADMISSION_POLL = millis 5"
definition OWED_ON_WRITE_BOUND :: duration where "OWED_ON_WRITE_BOUND = millis 200"
definition INBOX_CAPACITY :: nat where "INBOX_CAPACITY = 32"

record continuity_bounds =
  kb_max_rate_rad_s :: f64
  kb_quantization_rad :: f64

record device =
  pd_bounds :: continuity_bounds
  pd_epoch :: u64
  pd_uid :: "device_uid option"
  pd_last_seen :: "instant option"
  pd_last_position_rad :: "f64 option"
  pd_silence_counts_from :: "instant option"
  pd_owed_on_from :: "instant option"

datatype lapse = Silent | OwedOnUnwritten

datatype silence_from = LastFrame | Withheld instant | Solicited "instant option"

datatype owed_on = Owed | Written instant | Released

datatype continuity_break = IdentityChanged | Discontinuity | CalibrationMode

record inbox_identity =
  ii_serial :: u64
  ii_address :: motor_address
  ii_uid :: device_uid

record inbox_read =
  ir_serial :: u64
  ir_observation :: parameter_read_observation

record physical_devices =
  ph_devices :: "(motor_address \<times> device) list"
  ph_serial :: u64
  ph_identities :: "inbox_identity list"
  ph_reads :: "inbox_read list"
  ph_last_owner_work :: "instant option"

definition devices_default :: physical_devices where
  "devices_default =
     \<lparr>ph_devices = [], ph_serial = 0, ph_identities = [], ph_reads = [], ph_last_owner_work = None\<rparr>"

definition fresh_device :: "continuity_bounds \<Rightarrow> device" where
  "fresh_device bounds =
     \<lparr>pd_bounds = bounds, pd_epoch = 1, pd_uid = None, pd_last_seen = None, pd_last_position_rad = None,
      pd_silence_counts_from = None, pd_owed_on_from = None\<rparr>"

definition new_devices :: "(motor_address \<times> continuity_bounds) list \<Rightarrow> physical_devices" where
  "new_devices installed =
     devices_default\<lparr>ph_devices := fold (\<lambda>(a, b). AList.update a (fresh_device b)) installed []\<rparr>"

section \<open>Operations\<close>

definition latest :: "instant option \<Rightarrow> instant \<Rightarrow> instant option" where
  "latest kept t = Some (case kept of None \<Rightarrow> t | Some s \<Rightarrow> max s t)"

definition with_device :: "motor_address \<Rightarrow> (device \<Rightarrow> device) \<Rightarrow> physical_devices \<Rightarrow> physical_devices" where
  "with_device address f pd = pd\<lparr>ph_devices := AList.map_entry address f (ph_devices pd)\<rparr>"

definition device_at :: "physical_devices \<Rightarrow> motor_address \<Rightarrow> device option" where
  "device_at pd address = map_of (ph_devices pd) address"

definition watermark :: "physical_devices \<Rightarrow> u64" where "watermark pd = ph_serial pd"

definition mark_owner_work :: "instant \<Rightarrow> physical_devices \<Rightarrow> physical_devices" where
  "mark_owner_work now pd = pd\<lparr>ph_last_owner_work := latest (ph_last_owner_work pd) now\<rparr>"

definition count_silence_from :: "motor_address \<Rightarrow> instant \<Rightarrow> physical_devices \<Rightarrow> physical_devices" where
  "count_silence_from address t pd =
     with_device address (\<lambda>d. d\<lparr>pd_silence_counts_from := latest (pd_silence_counts_from d) t\<rparr>) pd"

definition owe_reporting_on :: "motor_address \<Rightarrow> instant \<Rightarrow> physical_devices \<Rightarrow> physical_devices" where
  "owe_reporting_on address quiet_end pd =
     with_device address (\<lambda>d. d\<lparr>pd_owed_on_from := latest (pd_owed_on_from d) quiet_end\<rparr>) pd"

definition settle_device :: "owed_on \<Rightarrow> device \<Rightarrow> device" where
  "settle_device fate d =
     (case pd_owed_on_from d of
        None \<Rightarrow> d
      | Some owed_from \<Rightarrow>
          (case fate of
             Owed \<Rightarrow> d
           | Written t \<Rightarrow>
               d\<lparr>pd_owed_on_from := None, pd_silence_counts_from := latest (pd_silence_counts_from d) t\<rparr>
           | Released \<Rightarrow>
               d\<lparr>pd_owed_on_from := None, pd_silence_counts_from := latest (pd_silence_counts_from d) owed_from\<rparr>))"

definition settle_owed_reporting_ons ::
    "(motor_address \<Rightarrow> owed_on) \<Rightarrow> physical_devices \<Rightarrow> physical_devices" where
  "settle_owed_reporting_ons fate pd =
     pd\<lparr>ph_devices := map (\<lambda>(a, d). (a, settle_device (fate a) d)) (ph_devices pd)\<rparr>"

text \<open>A bounded inbox drops its oldest reply when it is full.\<close>

definition inbox_push :: "'a list \<Rightarrow> 'a \<Rightarrow> 'a list" where
  "inbox_push q x = (if length q = INBOX_CAPACITY then tl q else q) @ [x]"

definition record_identity ::
    "identity_observation \<Rightarrow> physical_devices \<Rightarrow> physical_devices \<times> continuity_break option" where
  "record_identity obs pd =
     (let pd = pd\<lparr>ph_serial := u64_saturating_add (ph_serial pd) 1\<rparr>;
          changed = (case device_at pd (io_address obs) of
             Some d \<Rightarrow> pd_uid d \<noteq> None \<and> pd_uid d \<noteq> Some (io_uid obs) | None \<Rightarrow> False);
          pd = with_device (io_address obs) (\<lambda>d.
             (if changed then d\<lparr>pd_epoch := u64_saturating_add (pd_epoch d) 1\<rparr> else d)\<lparr>pd_uid := Some (io_uid obs)\<rparr>) pd;
          pd = pd\<lparr>ph_identities := inbox_push (ph_identities pd)
             \<lparr>ii_serial = ph_serial pd, ii_address = io_address obs, ii_uid = io_uid obs\<rparr>\<rparr>
      in (pd, if changed then Some IdentityChanged else None))"

definition record_read :: "parameter_read_observation \<Rightarrow> physical_devices \<Rightarrow> physical_devices" where
  "record_read obs pd =
     (let pd = pd\<lparr>ph_serial := u64_saturating_add (ph_serial pd) 1\<rparr>
      in pd\<lparr>ph_reads := inbox_push (ph_reads pd) \<lparr>ir_serial = ph_serial pd, ir_observation = obs\<rparr>\<rparr>)"

definition identity_after :: "physical_devices \<Rightarrow> motor_address \<Rightarrow> u64 \<Rightarrow> device_uid option" where
  "identity_after pd address mark =
     map_option ii_uid (List.find (\<lambda>r. mark < ii_serial r \<and> ii_address r = address) (ph_identities pd))"

definition read_after ::
    "physical_devices \<Rightarrow> motor_address \<Rightarrow> parameter_id \<Rightarrow> u64 \<Rightarrow> parameter_read_observation option" where
  "read_after pd address parameter mark =
     map_option ir_observation (List.find (\<lambda>r. mark < ir_serial r \<and> po_address (ir_observation r) = address \<and>
       prr_index (po_reply (ir_observation r)) = param_as_u16 parameter) (ph_reads pd))"

definition uid_claimed_elsewhere :: "physical_devices \<Rightarrow> motor_address \<Rightarrow> device_uid \<Rightarrow> bool" where
  "uid_claimed_elsewhere pd address uid =
     list_ex (\<lambda>(other, d). other \<noteq> address \<and> pd_uid d = Some uid) (ph_devices pd)"

definition begin_new_coordinate :: "motor_address \<Rightarrow> physical_devices \<Rightarrow> physical_devices \<times> u64 option" where
  "begin_new_coordinate address pd =
     (case device_at pd address of
        None \<Rightarrow> (pd, None)
      | Some d \<Rightarrow>
          (case u64_checked_add (pd_epoch d) 1 of
             None \<Rightarrow> (pd, None)
           | Some e \<Rightarrow>
               (with_device address (\<lambda>d. d\<lparr>pd_epoch := e, pd_last_seen := None, pd_last_position_rad := None\<rparr>) pd,
                Some e)))"

text \<open>A jump beyond what the drive can travel between two observations.\<close>

definition jumped :: "instant option \<Rightarrow> device \<Rightarrow> f64 \<Rightarrow> instant \<Rightarrow> f64 \<Rightarrow> bool" where
  "jumped owner_work d position_rad received_at at_rest_tolerance_rad =
     (case (pd_last_position_rad d, pd_last_seen d) of
        (Some previous, Some seen) \<Rightarrow>
          (let spans = (case owner_work of Some work \<Rightarrow> seen < work | None \<Rightarrow> False);
               bound = (if spans then at_rest_tolerance_rad
                        else f64_add (f64_mul (kb_max_rate_rad_s (pd_bounds d))
                               (as_secs_f64 (saturating_since received_at seen))) (kb_quantization_rad (pd_bounds d)))
           in \<not> f64_finite position_rad \<or> f64_lt bound (fabs (f64_sub position_rad previous)))
      | _ \<Rightarrow> False)"

definition observe_position ::
    "motor_address \<Rightarrow> f64 \<Rightarrow> instant \<Rightarrow> f64 \<Rightarrow> physical_devices \<Rightarrow> physical_devices \<times> continuity_break option" where
  "observe_position address position_rad received_at at_rest_tolerance_rad pd =
     (case device_at pd address of
        None \<Rightarrow> (pd, None)
      | Some dev \<Rightarrow>
          (let broken = jumped (ph_last_owner_work pd) dev position_rad received_at at_rest_tolerance_rad
           in (with_device address (\<lambda>d.
                 (if broken then d\<lparr>pd_epoch := u64_saturating_add (pd_epoch d) 1\<rparr> else d)
                   \<lparr>pd_last_position_rad := Some position_rad, pd_last_seen := latest (pd_last_seen d) received_at\<rparr>) pd,
               if broken then Some Discontinuity else None)))"

definition record_calibration_mode ::
    "motor_address \<Rightarrow> physical_devices \<Rightarrow> physical_devices \<times> continuity_break option" where
  "record_calibration_mode address pd =
     (case device_at pd address of
        None \<Rightarrow> (pd, None)
      | Some _ \<Rightarrow>
          (with_device address (\<lambda>d. d\<lparr>pd_epoch := u64_saturating_add (pd_epoch d) 1\<rparr>) pd, Some CalibrationMode))"

definition epoch :: "physical_devices \<Rightarrow> motor_address \<Rightarrow> u64 option" where
  "epoch pd address = map_option pd_epoch (device_at pd address)"

definition max_instant :: "instant option list \<Rightarrow> instant option" where
  "max_instant ts = (case List.map_filter id ts of [] \<Rightarrow> None | t # rest \<Rightarrow> Some (fold max rest t))"

definition counted_silence :: "physical_devices \<Rightarrow> motor_address \<Rightarrow> instant \<Rightarrow> silence_from \<Rightarrow> duration option" where
  "counted_silence pd address now from =
     (case device_at pd address of
        None \<Rightarrow> None
      | Some d \<Rightarrow>
          (let since = (\<lambda>counted. map_option (saturating_since now)
                 (max_instant (counted @ [ph_last_owner_work pd, pd_silence_counts_from d])))
           in case from of
                Solicited None \<Rightarrow> Some 0
              | Solicited (Some solicited) \<Rightarrow> since [Some solicited, None]
              | Withheld t \<Rightarrow> since [pd_last_seen d, Some t]
              | LastFrame \<Rightarrow> since [pd_last_seen d, None]))"

definition live_epoch ::
    "physical_devices \<Rightarrow> motor_address \<Rightarrow> instant \<Rightarrow> duration \<Rightarrow> bool \<Rightarrow> silence_from \<Rightarrow> (u64, lapse) result" where
  "live_epoch pd address now window owner_busy from =
     (case device_at pd address of
        None \<Rightarrow> Err Silent
      | Some d \<Rightarrow>
          if owner_busy then Ok (pd_epoch d)
          else (case (from, pd_owed_on_from d) of
             (LastFrame, Some owed_from) \<Rightarrow>
               (let writable = (case ph_last_owner_work pd of None \<Rightarrow> owed_from | Some work \<Rightarrow> max work owed_from)
                in if saturating_since now writable \<le> OWED_ON_WRITE_BOUND then Ok (pd_epoch d) else Err OwedOnUnwritten)
           | _ \<Rightarrow>
               (case counted_silence pd address now from of
                  Some silence \<Rightarrow> if silence \<le> window then Ok (pd_epoch d) else Err Silent
                | None \<Rightarrow> Err Silent)))"

definition uid_at :: "physical_devices \<Rightarrow> motor_address \<Rightarrow> device_uid option" where
  "uid_at pd address = Option.bind (device_at pd address) pd_uid"

definition last_seen_at :: "physical_devices \<Rightarrow> motor_address \<Rightarrow> instant option" where
  "last_seen_at pd address = Option.bind (device_at pd address) pd_last_seen"

section \<open>Runs\<close>

datatype device_event =
    EvIdentity identity_observation
  | EvRead parameter_read_observation
  | EvPosition motor_address f64 instant f64
  | EvCalibration motor_address
  | EvSetZero motor_address
  | EvOwnerWork instant
  | EvSilence motor_address instant
  | EvOwe motor_address instant
  | EvSettle "motor_address \<Rightarrow> owed_on"

fun device_step :: "device_event \<Rightarrow> physical_devices \<Rightarrow> physical_devices" where
  "device_step (EvIdentity obs) pd = fst (record_identity obs pd)"
| "device_step (EvRead obs) pd = record_read obs pd"
| "device_step (EvPosition a p t tol) pd = fst (observe_position a p t tol pd)"
| "device_step (EvCalibration a) pd = fst (record_calibration_mode a pd)"
| "device_step (EvSetZero a) pd = fst (begin_new_coordinate a pd)"
| "device_step (EvOwnerWork t) pd = mark_owner_work t pd"
| "device_step (EvSilence a t) pd = count_silence_from a t pd"
| "device_step (EvOwe a t) pd = owe_reporting_on a t pd"
| "device_step (EvSettle fate) pd = settle_owed_reporting_ons fate pd"

fun device_run :: "device_event list \<Rightarrow> physical_devices \<Rightarrow> physical_devices" where
  "device_run [] pd = pd"
| "device_run (e # es) pd = device_run es (device_step e pd)"

section \<open>One device\<close>

lemma device_at_with:
  "device_at (with_device a f pd) b = (if a = b then map_option f (device_at pd b) else device_at pd b)"
  by (auto simp: device_at_def with_device_def map_of_map_entry split: option.splits)

lemma with_device_simps [simp]:
  "ph_serial (with_device a f pd) = ph_serial pd" "ph_identities (with_device a f pd) = ph_identities pd"
  "ph_last_owner_work (with_device a f pd) = ph_last_owner_work pd" "ph_reads (with_device a f pd) = ph_reads pd"
  by (simp_all add: with_device_def)

lemma device_at_update [simp]:
  "device_at (pd\<lparr>ph_serial := x\<rparr>) a = device_at pd a" "device_at (pd\<lparr>ph_identities := y\<rparr>) a = device_at pd a"
  "device_at (pd\<lparr>ph_reads := z\<rparr>) a = device_at pd a" "device_at (pd\<lparr>ph_last_owner_work := w\<rparr>) a = device_at pd a"
  by (simp_all add: device_at_def)

lemma device_at_settle:
  "device_at (settle_owed_reporting_ons fate pd) a = map_option (settle_device (fate a)) (device_at pd a)"
proof -
  have "map_of (map (\<lambda>(a, d). (a, settle_device (fate a) d)) ds) a = map_option (settle_device (fate a)) (map_of ds a)" for ds
    by (induction ds) auto
  then show ?thesis by (simp add: device_at_def settle_owed_reporting_ons_def)
qed

section \<open>A silent drive loses its grant\<close>

text \<open>Everything the owner recorded happened by an instant.\<close>

definition by_then :: "instant \<Rightarrow> instant option \<Rightarrow> bool" where
  "by_then T x = (case x of None \<Rightarrow> True | Some t \<Rightarrow> t \<le> T)"

definition device_by :: "instant \<Rightarrow> device \<Rightarrow> bool" where
  "device_by T d \<longleftrightarrow>
     by_then T (pd_last_seen d) \<and> by_then T (pd_silence_counts_from d) \<and> by_then T (pd_owed_on_from d)"

definition recorded_by :: "instant \<Rightarrow> physical_devices \<Rightarrow> bool" where
  "recorded_by T pd \<longleftrightarrow>
     by_then T (ph_last_owner_work pd) \<and> (\<forall>a d. device_at pd a = Some d \<longrightarrow> device_by T d)"

definition event_by :: "instant \<Rightarrow> device_event \<Rightarrow> bool" where
  "event_by T e =
     (case e of
        EvPosition _ _ t _ \<Rightarrow> t \<le> T | EvOwnerWork t \<Rightarrow> t \<le> T | EvSilence _ t \<Rightarrow> t \<le> T | EvOwe _ t \<Rightarrow> t \<le> T
      | EvSettle fate \<Rightarrow> (\<forall>a t. fate a = Written t \<longrightarrow> t \<le> T)
      | _ \<Rightarrow> True)"

definition counts_by :: "instant \<Rightarrow> silence_from \<Rightarrow> bool" where
  "counts_by T from = (case from of LastFrame \<Rightarrow> True | Withheld t \<Rightarrow> t \<le> T | Solicited (Some t) \<Rightarrow> t \<le> T
     | Solicited None \<Rightarrow> False)"

lemma by_then_latest [simp]: "by_then T (latest x t) \<longleftrightarrow> by_then T x \<and> t \<le> T"
  by (auto simp: by_then_def latest_def split: option.splits)

lemma by_then_simps [simp]: "by_then T None" "by_then T (Some t) \<longleftrightarrow> t \<le> T"
  by (simp_all add: by_then_def)

lemma recorded_by_with:
  assumes "recorded_by T pd" and "\<And>d. device_at pd a = Some d \<Longrightarrow> device_by T d \<Longrightarrow> device_by T (f d)"
  shows "recorded_by T (with_device a f pd)"
  using assms by (auto simp: recorded_by_def device_at_with split: if_splits)

lemma recorded_by_update [simp]:
  "recorded_by T (pd\<lparr>ph_serial := x\<rparr>) = recorded_by T pd" "recorded_by T (pd\<lparr>ph_identities := y\<rparr>) = recorded_by T pd"
  "recorded_by T (pd\<lparr>ph_reads := z\<rparr>) = recorded_by T pd"
  by (simp_all add: recorded_by_def)

lemma settle_device_by:
  "device_by T d \<Longrightarrow> (\<And>t. fate = Written t \<Longrightarrow> t \<le> T) \<Longrightarrow> device_by T (settle_device fate d)"
  by (auto simp: settle_device_def device_by_def split: option.splits owed_on.splits)

lemma device_step_by:
  assumes "recorded_by T pd" and "event_by T e"
  shows "recorded_by T (device_step e pd)"
proof (cases e)
  case (EvIdentity obs)
  have "recorded_by T (with_device (io_address obs) (\<lambda>d. (if c then d\<lparr>pd_epoch := u64_saturating_add (pd_epoch d) 1\<rparr> else d)
      \<lparr>pd_uid := Some (io_uid obs)\<rparr>) (pd\<lparr>ph_serial := x\<rparr>))" for c x
    using assms(1) by (intro recorded_by_with) (auto simp: device_by_def)
  then show ?thesis by (simp add: EvIdentity record_identity_def Let_def)
next
  case (EvPosition a p t tol)
  then have t: "t \<le> T" using assms(2) by (simp add: event_by_def)
  show ?thesis unfolding EvPosition device_step.simps observe_position_def
    using assms(1) t by (auto simp: Let_def device_by_def split: option.splits intro!: recorded_by_with)
next
  case (EvSettle fate)
  then have "fate a = Written t \<Longrightarrow> t \<le> T" for a t using assms(2) by (auto simp: event_by_def)
  then have "device_by T (settle_device (fate a) d)" if "device_at pd a = Some d" for a d
    using assms(1) that by (intro settle_device_by) (auto simp: recorded_by_def)
  moreover have "ph_last_owner_work (settle_owed_reporting_ons fate pd) = ph_last_owner_work pd"
    by (simp add: settle_owed_reporting_ons_def)
  ultimately show ?thesis using assms(1) by (auto simp: EvSettle recorded_by_def device_at_settle)
next
  case (EvOwnerWork t)
  then show ?thesis using assms by (simp add: recorded_by_def mark_owner_work_def event_by_def)
qed (use assms in \<open>auto simp: record_read_def record_calibration_mode_def begin_new_coordinate_def count_silence_from_def
    owe_reporting_on_def Let_def event_by_def device_by_def split: option.splits intro!: recorded_by_with\<close>)

lemma device_run_by: "recorded_by T pd \<Longrightarrow> list_all (event_by T) es \<Longrightarrow> recorded_by T (device_run es pd)"
proof (induction es arbitrary: pd)
  case (Cons e es)
  then show ?case by (simp add: device_step_by)
qed simp

lemma new_devices_at: "device_at (new_devices installed) a = Some d \<Longrightarrow> \<exists>b. d = fresh_device b"
proof -
  have "map_of (fold (\<lambda>(a, b). AList.update a (fresh_device b)) installed ds) a = Some d \<Longrightarrow>
      (\<exists>b. d = fresh_device b) \<or> map_of ds a = Some d" for ds
  proof (induction installed arbitrary: ds)
    case (Cons x xs)
    obtain k v where x: "x = (k, v)" by (cases x)
    from Cons.IH [of "AList.update k (fresh_device v) ds"] Cons.prems show ?case
      by (auto simp: x update_conv' split: if_splits)
  qed simp
  then show "device_at (new_devices installed) a = Some d \<Longrightarrow> \<exists>b. d = fresh_device b"
    by (fastforce simp: device_at_def new_devices_def)
qed

lemma new_devices_by: "recorded_by T (new_devices installed)"
proof -
  have "device_by T (fresh_device b)" for b by (simp add: device_by_def fresh_device_def)
  moreover have "ph_last_owner_work (new_devices installed) = None" by (simp add: new_devices_def devices_default_def)
  ultimately show ?thesis using new_devices_at [of installed] by (auto simp: recorded_by_def)
qed

lemma max_instant_by:
  assumes "max_instant ts = Some m" and "\<forall>t \<in> set ts. by_then T t"
  shows "m \<le> T"
proof -
  from assms(1) obtain t rest where f: "List.map_filter id ts = t # rest" "m = fold max rest t"
    by (auto simp: max_instant_def split: list.splits)
  have "\<forall>x \<in> set (List.map_filter id ts). x \<le> T"
    using assms(2) by (auto simp: map_filter_def by_then_def split: option.splits)
  then have "t \<le> T" "\<forall>x \<in> set rest. x \<le> T" by (simp_all add: f(1))
  then have "fold max rest t \<le> T"
  proof (induction rest arbitrary: t)
    case (Cons y ys)
    then show ?case by simp
  qed simp
  then show ?thesis by (simp add: f(2))
qed

lemma counted_silence_by:
  assumes "recorded_by T pd" and "counts_by T from" and "counted_silence pd a now from = Some s"
  shows "now - T \<le> int s"
proof -
  obtain d where d: "device_at pd a = Some d" using assms(3) by (auto simp: counted_silence_def split: option.splits)
  have db: "device_by T d" "by_then T (ph_last_owner_work pd)" using assms(1) d by (auto simp: recorded_by_def)
  have since: "now - T \<le> int s" if "map_option (saturating_since now)
      (max_instant (xs @ [ph_last_owner_work pd, pd_silence_counts_from d])) = Some s" "\<forall>x \<in> set xs. by_then T x" for xs
  proof -
    from that(1) obtain m where m: "max_instant (xs @ [ph_last_owner_work pd, pd_silence_counts_from d]) = Some m"
        "s = saturating_since now m" by auto
    have "m \<le> T" using m(1) by (rule max_instant_by) (use that(2) db in \<open>auto simp: device_by_def\<close>)
    then show ?thesis using m(2) by (simp add: saturating_since_def)
  qed
  have ls: "by_then T (pd_last_seen d)" using db by (simp add: device_by_def)
  show ?thesis
  proof (cases "from")
    case LastFrame
    then show ?thesis using assms(3) d ls since [of "[pd_last_seen d, None]"] by (simp add: counted_silence_def Let_def)
  next
    case (Withheld t)
    then show ?thesis using assms(2,3) d ls since [of "[pd_last_seen d, Some t]"]
      by (simp add: counted_silence_def Let_def counts_by_def)
  next
    case (Solicited x)
    then obtain t where "x = Some t" "t \<le> T" using assms(2) by (auto simp: counts_by_def split: option.splits)
    then show ?thesis using assms(3) d since [of "[Some t, None]"] Solicited
      by (simp add: counted_silence_def Let_def)
  qed
qed

lemma silent_grant_lapses:
  assumes "recorded_by T pd" and "counts_by T from" and "T + int (max window OWED_ON_WRITE_BOUND) < now"
  shows "\<not> is_ok (live_epoch pd a now window False from)"
proof (cases "device_at pd a")
  case None
  then show ?thesis by (simp add: live_epoch_def)
next
  case (Some d)
  have db: "device_by T d" "by_then T (ph_last_owner_work pd)" using assms(1) Some by (auto simp: recorded_by_def)
  have far: "int window < now - T" "int OWED_ON_WRITE_BOUND < now - T" using assms(3) by auto
  have c: "\<not> is_ok (case counted_silence pd a now from of
      Some silence \<Rightarrow> if silence \<le> window then Ok (pd_epoch d) else Err Silent | None \<Rightarrow> Err Silent)"
    using counted_silence_by [OF assms(1,2), of a now] far(1) by (fastforce split: option.splits)
  show ?thesis
  proof (cases "from = LastFrame \<and> pd_owed_on_from d \<noteq> None")
    case True
    then obtain x where x: "pd_owed_on_from d = Some x" "x \<le> T" "from = LastFrame" using db by (auto simp: device_by_def)
    define w where "w = (case ph_last_owner_work pd of None \<Rightarrow> x | Some work \<Rightarrow> max work x)"
    have "w \<le> T" using x db(2) by (auto simp: w_def by_then_def split: option.splits)
    then have "\<not> saturating_since now w \<le> OWED_ON_WRITE_BOUND"
      using far(2) unfolding saturating_since_le_iff by linarith
    then show ?thesis using Some x by (simp add: live_epoch_def Let_def w_def)
  next
    case False
    then show ?thesis using Some c by (cases "from"; cases "pd_owed_on_from d") (auto simp: live_epoch_def)
  qed
qed


section \<open>The epoch betrays every break of continuity\<close>

text \<open>An event that may have changed the coordinate of an address.\<close>

definition breaks :: "motor_address \<Rightarrow> device_event \<Rightarrow> physical_devices \<Rightarrow> bool" where
  "breaks a e pd =
     (case e of
        EvIdentity obs \<Rightarrow> io_address obs = a \<and> snd (record_identity obs pd) \<noteq> None
      | EvPosition b p t tol \<Rightarrow> b = a \<and> snd (observe_position b p t tol pd) \<noteq> None
      | EvCalibration b \<Rightarrow> b = a
      | EvSetZero b \<Rightarrow> b = a
      | _ \<Rightarrow> False)"

fun ever_breaks :: "motor_address \<Rightarrow> device_event list \<Rightarrow> physical_devices \<Rightarrow> bool" where
  "ever_breaks a [] pd = False"
| "ever_breaks a (e # es) pd = (breaks a e pd \<or> ever_breaks a es (device_step e pd))"

text \<open>How one event changes one device.\<close>

definition follows :: "bool \<Rightarrow> device \<Rightarrow> device \<Rightarrow> bool" where
  "follows broken d d' \<longleftrightarrow>
     (if broken then pd_epoch d' = u64_saturating_add (pd_epoch d) 1
      else pd_epoch d' = pd_epoch d \<and> (pd_uid d \<noteq> None \<longrightarrow> pd_uid d' = pd_uid d))"

lemma device_step_follows:
  assumes "device_at pd a = Some d"
  shows "\<exists>d'. device_at (device_step e pd) a = Some d' \<and> follows (breaks a e pd) d d'"
proof (cases e)
  case (EvIdentity obs)
  show ?thesis using assms
    by (cases "io_address obs = a")
      (auto simp: EvIdentity record_identity_def breaks_def follows_def Let_def device_at_with)
next
  case (EvPosition b p t tol)
  show ?thesis using assms
    by (cases "b = a") (auto simp: EvPosition observe_position_def breaks_def follows_def Let_def device_at_with split: option.splits)
next
  case (EvCalibration b)
  show ?thesis using assms
    by (cases "b = a") (auto simp: EvCalibration record_calibration_mode_def breaks_def follows_def device_at_with split: option.splits)
next
  case (EvSetZero b)
  show ?thesis using assms
    by (cases "b = a") (auto simp: EvSetZero begin_new_coordinate_def breaks_def follows_def device_at_with u64_increment
        split: option.splits)
next
  case (EvSettle fate)
  have "pd_epoch (settle_device f d) = pd_epoch d" "pd_uid (settle_device f d) = pd_uid d" for f
    by (auto simp: settle_device_def split: option.splits owed_on.splits)
  then show ?thesis using assms by (simp add: EvSettle device_at_settle breaks_def follows_def)
qed (use assms in \<open>auto simp: record_read_def mark_owner_work_def count_silence_from_def owe_reporting_on_def breaks_def
    follows_def Let_def device_at_with\<close>)

lemma follows_epoch:
  assumes "follows b d d'"
  shows "pd_epoch d \<le> pd_epoch d'" and "pd_epoch d' = pd_epoch d \<Longrightarrow> pd_epoch d \<noteq> - 1 \<Longrightarrow> \<not> b"
proof -
  show "pd_epoch d \<le> pd_epoch d'" using assms u64_saturating_add_ge [of "pd_epoch d" 1] by (auto simp: follows_def split: if_splits)
  show "\<not> b" if "pd_epoch d' = pd_epoch d" "pd_epoch d \<noteq> - 1"
    using assms that by (auto simp: follows_def u64_increment split: if_splits)
qed

lemma device_run_epoch:
  assumes "device_at pd a = Some d"
  shows "\<exists>d'. device_at (device_run es pd) a = Some d' \<and> pd_epoch d \<le> pd_epoch d'"
  using assms
proof (induction es arbitrary: pd d)
  case (Cons e es)
  from device_step_follows [OF Cons.prems, of e] obtain d1
    where d1: "device_at (device_step e pd) a = Some d1" "follows (breaks a e pd) d d1" by blast
  from Cons.IH [OF d1(1)] follows_epoch(1) [OF d1(2)] show ?case by (auto intro: order_trans)
qed simp

lemma device_run_same_epoch:
  assumes "device_at pd a = Some d" and "pd_epoch d \<noteq> - 1" and "pd_uid d = Some u"
    and "device_at (device_run es pd) a = Some d'" and "pd_epoch d' = pd_epoch d"
  shows "\<not> ever_breaks a es pd \<and> pd_uid d' = Some u"
  using assms
proof (induction es arbitrary: pd d)
  case (Cons e es)
  from device_step_follows [OF Cons.prems(1), of e] obtain d1
    where d1: "device_at (device_step e pd) a = Some d1" "follows (breaks a e pd) d d1" by blast
  from device_run_epoch [OF d1(1), of es] Cons.prems(4) have "pd_epoch d1 \<le> pd_epoch d'" by simp
  then have e: "pd_epoch d1 = pd_epoch d" using follows_epoch(1) [OF d1(2)] Cons.prems(5) by (simp add: antisym)
  then have nb: "\<not> breaks a e pd" using follows_epoch(2) [OF d1(2)] Cons.prems(2) by simp
  then have u: "pd_uid d1 = Some u" using d1(2) Cons.prems(3) by (auto simp: follows_def)
  have "\<not> ever_breaks a es (device_step e pd) \<and> pd_uid d' = Some u"
    by (rule Cons.IH [OF d1(1)]) (use e u Cons.prems in simp_all)
  then show ?case using nb by simp
qed simp


section \<open>Only a later reply answers a request\<close>

definition serials_wf :: "physical_devices \<Rightarrow> bool" where
  "serials_wf pd \<longleftrightarrow> list_all (\<lambda>r. ii_serial r \<le> ph_serial pd) (ph_identities pd)"

lemma set_inbox_push: "set (inbox_push q x) \<subseteq> insert x (set q)"
  by (cases q) (auto simp: inbox_push_def)

lemma other_events_keep_inbox:
  assumes "\<And>obs. e \<noteq> EvIdentity obs"
  shows "ph_identities (device_step e pd) = ph_identities pd" and "ph_serial pd \<le> ph_serial (device_step e pd)"
proof -
  have "ph_identities (device_step e pd) = ph_identities pd \<and> ph_serial pd \<le> ph_serial (device_step e pd)"
  proof (cases e)
    case (EvIdentity obs)
    then show ?thesis using assms by blast
  qed (simp_all add: record_read_def observe_position_def record_calibration_mode_def begin_new_coordinate_def mark_owner_work_def
      count_silence_from_def owe_reporting_on_def settle_owed_reporting_ons_def Let_def u64_saturating_add_ge split: option.split)
  then show "ph_identities (device_step e pd) = ph_identities pd" "ph_serial pd \<le> ph_serial (device_step e pd)" by auto
qed

lemma identity_event_inbox:
  "ph_identities (device_step (EvIdentity obs) pd) = inbox_push (ph_identities pd)
     \<lparr>ii_serial = u64_saturating_add (ph_serial pd) 1, ii_address = io_address obs, ii_uid = io_uid obs\<rparr>"
  "ph_serial (device_step (EvIdentity obs) pd) = u64_saturating_add (ph_serial pd) 1"
  by (simp_all add: record_identity_def Let_def)

definition answered :: "motor_address \<Rightarrow> device_uid \<Rightarrow> device_event \<Rightarrow> bool" where
  "answered a uid e = (case e of EvIdentity obs \<Rightarrow> io_address obs = a \<and> io_uid obs = uid | _ \<Rightarrow> False)"

lemma inbox_later:
  assumes "r \<in> set (ph_identities (device_run es pd))"
  shows "r \<in> set (ph_identities pd) \<or> list_ex (answered (ii_address r) (ii_uid r)) es"
  using assms
proof (induction es arbitrary: pd)
  case (Cons e es)
  then have "r \<in> set (ph_identities (device_step e pd)) \<or> list_ex (answered (ii_address r) (ii_uid r)) es" by simp
  then show ?case
  proof
    assume r: "r \<in> set (ph_identities (device_step e pd))"
    show ?thesis
    proof (cases "\<exists>obs. e = EvIdentity obs")
      case True
      then obtain obs where e: "e = EvIdentity obs" by blast
      from subsetD [OF set_inbox_push r [unfolded e identity_event_inbox]]
      have "r \<in> set (ph_identities pd) \<or> r = \<lparr>ii_serial = u64_saturating_add (ph_serial pd) 1,
          ii_address = io_address obs, ii_uid = io_uid obs\<rparr>" by auto
      then show ?thesis by (auto simp: e answered_def)
    next
      case False
      then have "ph_identities (device_step e pd) = ph_identities pd" by (intro other_events_keep_inbox(1)) blast
      then show ?thesis using r by simp
    qed
  qed simp
qed simp

text \<open>An identity request is answered only by a reply received after it. With the watermark read when the request was sent, identity_after finds an identifier only if one of the events since then was a reply of that address with that identifier; a reply that was already in the inbox never answers.\<close>

theorem identity_reply_after_request:
  assumes "serials_wf pd" and "identity_after (device_run events pd) address (watermark pd) = Some uid"
  shows "list_ex (answered address uid) events"
proof -
  from assms(2) obtain r where r: "List.find (\<lambda>r. watermark pd < ii_serial r \<and> ii_address r = address)
      (ph_identities (device_run events pd)) = Some r" "ii_uid r = uid" by (auto simp: identity_after_def)
  then have m: "r \<in> set (ph_identities (device_run events pd))" "watermark pd < ii_serial r" "ii_address r = address"
    by (auto simp: find_Some_iff)
  have "r \<notin> set (ph_identities pd)"
    using assms(1) m(2) by (auto simp: serials_wf_def list_all_iff watermark_def)
  then show ?thesis using inbox_later [OF m(1)] m(3) r(2) by auto
qed

lemma serials_wf_new: "serials_wf (new_devices installed)"
  by (simp add: serials_wf_def new_devices_def devices_default_def)

lemma serials_wf_step: "serials_wf pd \<Longrightarrow> serials_wf (device_step e pd)"
proof (cases "\<exists>obs. e = EvIdentity obs")
  case True
  assume wf: "serials_wf pd"
  from True obtain obs where e: "e = EvIdentity obs" by blast
  have "ii_serial r \<le> u64_saturating_add (ph_serial pd) 1" if "r \<in> set (ph_identities pd)" for r
    using wf that order_trans [OF _ u64_saturating_add_ge [of "ph_serial pd" 1]] by (auto simp: serials_wf_def list_all_iff)
  moreover have "r \<in> set (ph_identities pd) \<or> r = \<lparr>ii_serial = u64_saturating_add (ph_serial pd) 1,
      ii_address = io_address obs, ii_uid = io_uid obs\<rparr>" if "r \<in> set (ph_identities (device_step e pd))" for r
    using subsetD [OF set_inbox_push that [unfolded e identity_event_inbox]] by auto
  ultimately have "ii_serial r \<le> u64_saturating_add (ph_serial pd) 1" if "r \<in> set (ph_identities (device_step e pd))" for r
    using that by fastforce
  then show ?thesis unfolding serials_wf_def list_all_iff e identity_event_inbox(2) by blast
next
  case False
  assume wf: "serials_wf pd"
  have "ph_identities (device_step e pd) = ph_identities pd" "ph_serial pd \<le> ph_serial (device_step e pd)"
    using False by (intro other_events_keep_inbox; blast)+
  then show ?thesis using wf by (auto simp: serials_wf_def list_all_iff intro: order_trans)
qed

lemma serials_wf_run: "serials_wf pd \<Longrightarrow> serials_wf (device_run es pd)"
  by (induction es arbitrary: pd) (simp_all add: serials_wf_step)

section \<open>Witnesses\<close>

definition sample_address :: motor_address where
  "sample_address = \<lparr>addr_interface = ''can0'', addr_device_id = 4\<rparr>"

definition sample_devices :: physical_devices where
  "sample_devices = new_devices [(sample_address, \<lparr>kb_max_rate_rad_s = f64_one, kb_quantization_rad = f64_one\<rparr>)]"

definition sample_identity :: identity_observation where
  "sample_identity = \<lparr>io_order = 0, io_address = sample_address, io_received_at = 5, io_can_id = 0,
     io_uid = DeviceUid [1, 2, 3, 4, 5, 6, 7, 8]\<rparr>"



theorem identity_reply_after_request_witness:
  "list_ex (answered sample_address (io_uid sample_identity)) [EvIdentity sample_identity]"
proof (rule identity_reply_after_request)
  show "serials_wf sample_devices" unfolding sample_devices_def by (rule serials_wf_new)
  show "identity_after (device_run [EvIdentity sample_identity] sample_devices) sample_address (watermark sample_devices) =
      Some (io_uid sample_identity)"
    by (simp add: sample_devices_def new_devices_def devices_default_def fresh_device_def sample_identity_def record_identity_def
        Let_def identity_after_def watermark_def inbox_push_def INBOX_CAPACITY_def u64_saturating_add_def)
qed

end
