(* ===== verification/Davout_Supervisor.thy ===== *)
theory Davout_Supervisor
  imports Davout_Filter Davout_Reference Davout_Physical Davout_Facets
begin

text \<open>
  The state of the \<open>Supervisor\<close> (\<open>davout/src/lib.rs\<close>) and everything that stops drives: the
  all-address stop, reporting after it, the hardware stop, latched faults and the end of a degraded
  episode (\<open>drive_loss.rs\<close>). The record extends what the command filter reads. Hash maps and sets are
  association lists and lists. An \<open>Instant::now()\<close> is a reading of the host clock in the state. A
  reference transaction in progress is seen as the code outside it sees it: whether an acquisition is
  reserved, a commit is pending, a commit is unfinished, or a request waits for its commit. The text
  of an error is made by a derive macro; it is an argument, with the bus, in the record \<open>platform\<close>.
\<close>

section \<open>State\<close>

definition POST_SET_ZERO_QUIET :: duration where "POST_SET_ZERO_QUIET = millis 800"
definition POST_SET_ZERO_BLACKOUT_FROM :: duration where "POST_SET_ZERO_BLACKOUT_FROM = millis 450"
definition SHED_REPLY_GRACE :: duration where "SHED_REPLY_GRACE = millis 20"

text \<open>The reference backend: the functions of a virtual device that code outside an acquisition
  calls, or the physical owner. Both have a realm.\<close>

record 'b virtual_backend =
  vb_realm :: arc
  vb_matches :: "'b \<Rightarrow> arc \<Rightarrow> bool"
  vb_end :: "'b \<Rightarrow> 'b"
  vb_current_device_epoch :: "'b \<Rightarrow> motor_address \<Rightarrow> u64 option"

datatype 'b reference_backend = VirtualBackend "'b virtual_backend" | PhysicalBackend arc

definition backend_realm :: "'b reference_backend \<Rightarrow> arc" where
  "backend_realm backend = (case backend of VirtualBackend v \<Rightarrow> vb_realm v | PhysicalBackend realm \<Rightarrow> realm)"

definition backend_matches :: "'b reference_backend \<Rightarrow> 'b \<Rightarrow> bool" where
  "backend_matches backend bus =
     (case backend of VirtualBackend v \<Rightarrow> vb_matches v bus (vb_realm v) | PhysicalBackend _ \<Rightarrow> True)"

definition backend_is_physical :: "'b reference_backend option \<Rightarrow> bool" where
  "backend_is_physical backend = (case backend of Some (PhysicalBackend _) \<Rightarrow> True | _ \<Rightarrow> False)"

record feedback_sample =
  fs_position_rad :: f64
  fs_received_at :: instant

record drive_frame_track =
  dt_mode :: drive_mode
  dt_at :: instant

record drive_reboot_observation =
  rb_joint :: string
  rb_address :: motor_address
  rb_previous_mode :: drive_mode
  rb_new_mode :: drive_mode
  rb_silence :: duration

record solicited_state =
  so_earliest :: "instant option"
  so_unanswered_writes :: u64

definition solicited_default :: solicited_state where
  "solicited_default = \<lparr>so_earliest = None, so_unanswered_writes = 0\<rparr>"

definition note_asked :: "instant \<Rightarrow> solicited_state \<Rightarrow> solicited_state" where
  "note_asked written_at slot =
     slot\<lparr>so_earliest := (case so_earliest slot of None \<Rightarrow> Some written_at | Some t \<Rightarrow> Some t),
          so_unanswered_writes := u64_saturating_add (so_unanswered_writes slot) 1\<rparr>"

record drive_loss_plan =
  dp_joint :: string
  dp_shed :: "string list"

record degraded_episode =
  ep_lost_joint :: string
  ep_shed_joints :: "string list"
  ep_holding_joints :: "string list"
  ep_frozen_positions :: "(string \<times> f64) list"
  ep_since :: instant
  ep_deadline :: instant

datatype degraded_end = LowerComplete | DeadlinePassed | Stopped

fun degraded_end_str :: "degraded_end \<Rightarrow> string" where
  "degraded_end_str LowerComplete = ''lower complete''"
| "degraded_end_str DeadlinePassed = ''deadline''"
| "degraded_end_str Stopped = ''stop''"

record degraded_outcome =
  do_lost_joint :: string
  do_end :: degraded_end
  do_at :: instant

record drive_loss_state =
  ds_plans :: "drive_loss_plan list"
  ds_episode :: "degraded_episode option"
  ds_outcome :: "degraded_outcome option"
  ds_pending_end :: "degraded_end option"
  ds_shed :: "motor_address list"
  ds_lost_address :: "motor_address option"
  ds_shed_at :: "instant option"

definition is_shed :: "drive_loss_state \<Rightarrow> motor_address \<Rightarrow> bool" where
  "is_shed dl address \<longleftrightarrow> address \<in> set (ds_shed dl)"

record 'b supervisor = mit_filter +
  sv_mode :: operational_mode
  sv_hardware_estop :: bool
  sv_fault_authority :: fault_authority
  sv_robot :: robot_section
  sv_installed_model :: installed_model_stamp
  sv_motors :: "motor_entry list"
  sv_homing_config :: homing_section
  sv_out_of_limits :: out_of_limits_flags
  sv_reference_authority :: reference_authority
  sv_backend :: "'b reference_backend option"
  sv_physical :: physical_devices
  sv_acquisition_busy :: bool
  sv_commit_pending :: bool
  sv_commits_busy :: bool
  sv_commits_unfinished :: bool
  sv_stop_motors :: "motor_entry list"
  sv_motor_addresses :: "motor_address list"
  sv_motor_types :: motor_types
  sv_bus :: 'b
  sv_clock :: host_clock
  sv_motor_states :: "(motor_address \<times> motor_state) list"
  sv_active_since :: "instant option"
  sv_enable_echo_pending :: "motor_address list"
  sv_enable_writes_pending :: "motor_address list"
  sv_enable_write_due :: "instant option"
  sv_reporting_off_since :: "instant option"
  sv_reporting_off_echoed :: "(motor_address \<times> instant) list"
  sv_session_pacer :: burst_pacer
  sv_set_zero_on_wire :: "(motor_address \<times> instant) list"
  sv_invalid_feedback :: "motor_address list"
  sv_total_torque_clamps :: total_torque_clamp_log
  sv_envelope_clamps :: "(string \<times> u64) list"
  sv_feedback_velocity_trips :: "(string \<times> u8) list"
  sv_last_feedback_samples :: "(string \<times> feedback_sample) list"
  sv_last_tick :: "instant option"
  sv_active_reporting :: active_reporting_state
  sv_last_feedback_rx :: "(string \<times> instant) list"
  sv_drive_frames :: "(motor_address \<times> drive_frame_track) list"
  sv_last_drive_reboot :: "drive_reboot_observation option"
  sv_last_refresh_frames :: nat
  sv_active_joints :: "string list"
  sv_unanswered_solicits :: "(motor_address \<times> solicited_state) list"
  sv_drive_loss :: drive_loss_state
  sv_exit_reporting_released :: bool

text \<open>What the supervisor is run on: the bus, the text of its errors, the clock during a drain (what the
  drain reads, and the clock after it), and whether the evidence of a pending commit still stands.\<close>

record 'b platform =
  pf_bus :: "'b can_bus"
  pf_bus_text :: "bus_error \<Rightarrow> string"
  pf_error_text :: "davout_error \<Rightarrow> string"
  pf_drain_clock :: "host_clock \<Rightarrow> (nat \<Rightarrow> instant) \<times> host_clock"
  pf_stage_current :: "'b supervisor \<Rightarrow> bool"

section \<open>Observers\<close>

definition read_clock :: "'b supervisor \<Rightarrow> instant \<times> 'b supervisor" where
  "read_clock s = (let (now, h) = instant_now (sv_clock s) in (now, s\<lparr>sv_clock := h\<rparr>))"

definition has_latched_fault :: "'b supervisor \<Rightarrow> bool" where
  "has_latched_fault s = fa_is_latched (sv_fault_authority s)"

definition stop_generation :: "'b supervisor \<Rightarrow> u64" where
  "stop_generation s = fa_stop_generation (sv_fault_authority s)"

definition require_fault_clear :: "'b supervisor \<Rightarrow> (unit, davout_error) result" where
  "require_fault_clear s =
     (case fa_first_fault (sv_fault_authority s) of
        Some f \<Rightarrow> Err (DavFaultLatched (flt_id f) (flt_class f) (flt_joint f) (flt_message f))
      | None \<Rightarrow> Ok ())"

definition acquisition_busy :: "'b supervisor \<Rightarrow> bool" where
  "acquisition_busy s = sv_acquisition_busy s"

text \<open>A pending commit whose evidence no longer stands stops being pending when it is observed.\<close>

definition observe_reference_commits :: "'b platform \<Rightarrow> 'b supervisor \<Rightarrow> 'b supervisor" where
  "observe_reference_commits pf s = s\<lparr>sv_commits_busy := (sv_commits_busy s \<and> pf_stage_current pf s)\<rparr>"

definition reference_busy :: "'b supervisor \<Rightarrow> bool" where
  "reference_busy s \<longleftrightarrow> acquisition_busy s \<or> sv_commits_busy s"

definition reference_work_pending :: "'b supervisor \<Rightarrow> bool" where
  "reference_work_pending s \<longleftrightarrow> acquisition_busy s \<or> sv_commits_unfinished s \<or> sv_commit_pending s"

definition refuse_reference_interference ::
    "'b platform \<Rightarrow> string \<Rightarrow> 'b supervisor \<Rightarrow> (unit, davout_error) result \<times> 'b supervisor" where
  "refuse_reference_interference pf operation s =
     (let s = observe_reference_commits pf s in (refuse_if (reference_busy s) (DavReferenceBusy operation), s))"

definition refuse_during_episode :: "string \<Rightarrow> 'b supervisor \<Rightarrow> (unit, davout_error) result" where
  "refuse_during_episode message s =
     (case ds_episode (sv_drive_loss s) of
        Some e \<Rightarrow> Err (DavDegradedEpisode (ep_lost_joint e) message) | None \<Rightarrow> Ok ())"

definition set_zero_quiet_until :: "'b supervisor \<Rightarrow> motor_address \<Rightarrow> instant option" where
  "set_zero_quiet_until s address =
     map_option (\<lambda>t. t + int POST_SET_ZERO_QUIET) (map_of (sv_set_zero_on_wire s) address)"

definition set_zero_quiet_elapsed :: "'b supervisor \<Rightarrow> motor_address \<Rightarrow> instant \<Rightarrow> bool" where
  "set_zero_quiet_elapsed s address now =
     (case set_zero_quiet_until s address of None \<Rightarrow> True | Some until \<Rightarrow> until \<le> now)"

definition set_zero_blackout_possible :: "'b supervisor \<Rightarrow> motor_address \<Rightarrow> instant \<Rightarrow> bool" where
  "set_zero_blackout_possible s address now =
     (case map_of (sv_set_zero_on_wire s) address of
        None \<Rightarrow> False
      | Some t \<Rightarrow>
          (let since = saturating_since now t
           in POST_SET_ZERO_BLACKOUT_FROM \<le> since \<and> since < POST_SET_ZERO_QUIET))"

definition note_set_zero :: "motor_address \<Rightarrow> instant \<Rightarrow> 'b supervisor \<Rightarrow> 'b supervisor" where
  "note_set_zero address t s =
     s\<lparr>sv_set_zero_on_wire := AList.update address
         (case map_of (sv_set_zero_on_wire s) address of Some seen \<Rightarrow> max seen t | None \<Rightarrow> t) (sv_set_zero_on_wire s)\<rparr>"

definition enable_bounds_start :: "'b supervisor \<Rightarrow> motor_address \<Rightarrow> instant option" where
  "enable_bounds_start s address =
     (case sv_active_since s of
        None \<Rightarrow> None
      | Some since \<Rightarrow>
          Some (case set_zero_quiet_until s address of None \<Rightarrow> since | Some until \<Rightarrow> max since until))"

definition unanswered_solicit :: "'b supervisor \<Rightarrow> motor_address \<Rightarrow> instant option" where
  "unanswered_solicit s address = Option.bind (map_of (sv_unanswered_solicits s) address) so_earliest"

definition note_solicit :: "motor_address \<Rightarrow> instant \<Rightarrow> 'b supervisor \<Rightarrow> 'b supervisor" where
  "note_solicit address written_at s =
     (if sv_mode s \<noteq> ModeActive then s
      else s\<lparr>sv_unanswered_solicits := AList.update address
               (note_asked written_at (unwrap_or (map_of (sv_unanswered_solicits s) address) solicited_default))
               (sv_unanswered_solicits s)\<rparr>)"

definition silence_counts :: "'b supervisor \<Rightarrow> string \<Rightarrow> motor_address \<Rightarrow> silence_from" where
  "silence_counts s joint address =
     (if sv_mode s \<noteq> ModeActive \<or> joint \<notin> set (sv_active_joints s) then LastFrame
      else (case (if address \<in> set (sv_enable_echo_pending s) then enable_bounds_start s address else None) of
          Some since \<Rightarrow> Withheld since
        | None \<Rightarrow> Solicited (unanswered_solicit s address)))"

section \<open>Reporting\<close>

definition sync_active_reporting :: "'b platform \<Rightarrow> 'b supervisor \<Rightarrow> 'b supervisor" where
  "sync_active_reporting pf s =
     (let s = observe_reference_commits pf s in
      if reference_busy s \<or> sv_exit_reporting_released s then s
      else let mode_active = (sv_mode s = ModeActive);
               diag = cs_active_reporting_diagnostics (sv_control s);
               (now, s) = read_clock s;
               held = (if sv_set_zero_on_wire s = [] then []
                 else map me_joint (filter (\<lambda>m. set_zero_blackout_possible s (motor_address_of m) now) (sv_motors s)));
               held = (if ds_shed (sv_drive_loss s) = [] then held
                 else held @ map me_joint (filter (\<lambda>m. is_shed (sv_drive_loss s) (motor_address_of m)) (sv_motors s)));
               (deferred, ar, b) = sync_holding (pf_bus pf) (sv_motors s) mode_active diag now (sv_last_feedback_rx s)
                 held (sv_active_reporting s, sv_bus s);
               s = s\<lparr>sv_active_reporting := ar, sv_bus := b\<rparr>;
               owe = (\<lambda>joint pd.
                 case List.find (\<lambda>m. me_joint m = joint) (sv_motors s) of
                   None \<Rightarrow> pd
                 | Some m \<Rightarrow>
                     if is_shed (sv_drive_loss s) (motor_address_of m) then pd
                     else (case set_zero_quiet_until s (motor_address_of m) of
                         Some until \<Rightarrow> owe_reporting_on (motor_address_of m) until pd | None \<Rightarrow> pd));
               fate = (\<lambda>address.
                 case List.find (\<lambda>m. motor_address_of m = address) (sv_motors s) of
                   None \<Rightarrow> Released
                 | Some m \<Rightarrow>
                     if applied_on (me_joint m) ar then Written (unwrap_or (last_on_written (me_joint m) ar) now)
                     else if desired (me_joint m) mode_active diag now ar then Owed
                     else Released)
           in s\<lparr>sv_physical := settle_owed_reporting_ons fate (fold owe deferred (sv_physical s))\<rparr>)"

section \<open>The all-address stop\<close>

definition neutral_mit :: "motor_entry \<Rightarrow> addressed_mit_command" where
  "neutral_mit m =
     \<lparr>amc_address = motor_address_of m,
      amc_command = \<lparr>cmd_device_id = me_device_id m, cmd_motor_type = me_motor_type m,
        cmd_position_rad = Flt False 0, cmd_velocity_rad_s = Flt False 0, cmd_kp = Flt False 0,
        cmd_kd = Flt False 0, cmd_torque_ff_nm = Flt False 0\<rparr>\<rparr>"

definition stop_attempt_of ::
    "'b platform \<Rightarrow> motor_address \<Rightarrow> stop_action \<Rightarrow> (unit, bus_error) result \<Rightarrow> stop_attempt" where
  "stop_attempt_of pf address action r =
     \<lparr>sa_address = address, sa_action = action,
      sa_error = (case r of Inl e \<Rightarrow> Some (bounded_message (pf_bus_text pf e)) | Inr _ \<Rightarrow> None)\<rparr>"

definition stop_one ::
    "'b platform \<Rightarrow> drive_loss_state \<Rightarrow> motor_entry \<Rightarrow> 'b \<Rightarrow> stop_attempt list \<times> 'b" where
  "stop_one pf dl motor b =
     (let address = motor_address_of motor; attempt = stop_attempt_of pf address in
      if is_shed dl address
      then let (r, b1) = disable_drive_at (pf_bus pf) address b in ([attempt StopDisable r], b1)
      else let (r1, b1) = speed_control_at (pf_bus pf) address (Flt False 0) b;
               (r2, b2) = mit_control_all_at (pf_bus pf) [neutral_mit motor] b1;
               (r3, b3) = disable_drive_at (pf_bus pf) address b2
           in ([attempt StopZeroSpeed r1, attempt StopNeutralMit r2, attempt StopDisable r3], b3))"

fun stop_burst ::
    "'b platform \<Rightarrow> drive_loss_state \<Rightarrow> motor_entry list \<Rightarrow> (burst_pacer option \<times> host_clock) \<times> 'b \<Rightarrow>
     stop_attempt list \<times> (burst_pacer option \<times> host_clock) \<times> 'b" where
  "stop_burst pf dl [] s = ([], s)"
| "stop_burst pf dl (motor # motors) (ph, b) =
     (let ph1 = pace (me_can_interface motor) ph;
          (attempts, b1) = stop_one pf dl motor b;
          (rest, s') = stop_burst pf dl motors (ph1, b1)
      in (attempts @ rest, s'))"

definition carry_session_silence :: "instant \<Rightarrow> 'b supervisor \<Rightarrow> 'b supervisor" where
  "carry_session_silence stop_at s =
     s\<lparr>sv_physical := fold (\<lambda>m pd.
         if me_joint m \<notin> set (sv_active_joints s) then pd
         else (case silence_counts s (me_joint m) (motor_address_of m) of
             LastFrame \<Rightarrow> pd
           | Withheld since \<Rightarrow> count_silence_from (motor_address_of m) since pd
           | Solicited solicited \<Rightarrow> count_silence_from (motor_address_of m) (unwrap_or solicited stop_at) pd))
         (sv_stop_motors s) (sv_physical s)\<rparr>"

definition record_fault ::
    "fault_class \<Rightarrow> string option \<Rightarrow> motor_address option \<Rightarrow> string \<Rightarrow> device_fault_evidence \<Rightarrow> 'b supervisor \<Rightarrow>
     bool \<times> 'b supervisor" where
  "record_fault cls joint address message device s =
     (let (now, s) = read_clock s;
          (first, fa) = fa_record now cls joint address message device (sv_fault_authority s)
      in (first, s\<lparr>sv_fault_authority := fa\<rparr>))"

definition revoke_references :: "'b supervisor \<Rightarrow> 'b supervisor" where
  "revoke_references s = s\<lparr>sv_reference_authority := revoke (sv_reference_authority s)\<rparr>"

definition end_degraded_episode_on_stop :: "'b supervisor \<Rightarrow> 'b supervisor" where
  "end_degraded_episode_on_stop s =
     (let dl = sv_drive_loss s; ending = unwrap_or (ds_pending_end dl) Stopped;
          s = s\<lparr>sv_drive_loss := dl\<lparr>ds_pending_end := None\<rparr>\<rparr>
      in case ds_episode dl of
           None \<Rightarrow> s
         | Some episode \<Rightarrow>
             (let s = s\<lparr>sv_drive_loss := (sv_drive_loss s)\<lparr>ds_episode := None\<rparr>\<rparr>;
                  message = ''drive lost; degraded episode ended ('' @ degraded_end_str ending @ ''); restart required'';
                  (_, s) = record_fault FcCommunication (Some (ep_lost_joint episode)) (ds_lost_address dl) message
                    device_fault_default s;
                  (now, s) = read_clock s
              in s\<lparr>sv_drive_loss := (sv_drive_loss s)\<lparr>ds_outcome :=
                   Some \<lparr>do_lost_joint = ep_lost_joint episode, do_end = ending, do_at = now\<rparr>\<rparr>\<rparr>))"

definition clear_session :: "'b supervisor \<Rightarrow> 'b supervisor" where
  "clear_session s =
     s\<lparr>sv_mode := ModeDisabled, sv_control_mode := CtlDisabled, sv_active_since := None,
       sv_enable_echo_pending := [], sv_enable_writes_pending := [], sv_enable_write_due := None,
       sv_reporting_off_since := None, sv_reporting_off_echoed := [], sv_active_joints := [],
       sv_feedback_velocity_trips := [], sv_last_feedback_samples := [], sv_last_feedback_rx := [],
       sv_drive_frames := [], sv_wrong_sign_state := [], sv_last_tau_ff := [], sv_last_tick := None\<rparr>"

definition perform_stop_paced ::
    "'b platform \<Rightarrow> bool \<Rightarrow> burst_pacer option \<Rightarrow> 'b supervisor \<Rightarrow> stop_report \<times> 'b supervisor" where
  "perform_stop_paced pf synchronize_reporting pacer s =
     (let s = (if has_latched_fault s then revoke_references s else s);
          s = (if sv_mode s = ModeActive then (let (now, s) = read_clock s in carry_session_silence now s) else s);
          (generation, fa) = begin_stop (sv_fault_authority s);
          (attempts, (_, clock), b) =
            stop_burst pf (sv_drive_loss s) (sv_stop_motors s) ((pacer, sv_clock s), sv_bus s);
          report = \<lparr>sr_generation = generation, sr_attempts = attempts\<rparr>;
          s = clear_session (s\<lparr>sv_fault_authority := fa, sv_clock := clock, sv_bus := b\<rparr>);
          s = (if synchronize_reporting then sync_active_reporting pf s else s);
          s = (if 0 < failed_writes report
               then snd (record_fault FcStopDelivery None None
                 ''one or more stop writes failed; physical stop unconfirmed'' device_fault_default (revoke_references s))
               else s);
          s = end_degraded_episode_on_stop s
      in (report, s\<lparr>sv_fault_authority := set_stop_report report (sv_fault_authority s)\<rparr>))"

definition perform_stop :: "'b platform \<Rightarrow> bool \<Rightarrow> 'b supervisor \<Rightarrow> stop_report \<times> 'b supervisor" where
  "perform_stop pf synchronize_reporting s = perform_stop_paced pf synchronize_reporting None s"

text \<open>Ending an acquisition without evidence: the reservation is taken, every drive is stopped at once,
  and owner work ends now.\<close>

definition finish_reference :: "'b platform \<Rightarrow> 'b supervisor \<Rightarrow> stop_report \<times> 'b supervisor" where
  "finish_reference pf s =
     (let (stop, s) = perform_stop_paced pf False None (s\<lparr>sv_acquisition_busy := False\<rparr>)
      in case sv_backend s of
           None \<Rightarrow> (stop, s)
         | Some (VirtualBackend v) \<Rightarrow> (stop, s\<lparr>sv_bus := vb_end v (sv_bus s)\<rparr>)
         | Some (PhysicalBackend _) \<Rightarrow>
             (let (now, s) = read_clock s in (stop, s\<lparr>sv_physical := mark_owner_work now (sv_physical s)\<rparr>)))"

definition stop_result :: "stop_report \<Rightarrow> (unit, davout_error) result" where
  "stop_result report = refuse_if (0 < failed_writes report) (DavStopDelivery (failed_writes report))"

definition disable_all :: "'b platform \<Rightarrow> 'b supervisor \<Rightarrow> (unit, davout_error) result \<times> 'b supervisor" where
  "disable_all pf s =
     (let s = s\<lparr>sv_commits_busy := False\<rparr>;
          (report, s) = (if acquisition_busy s then finish_reference pf s else perform_stop pf True s)
      in (stop_result report, s))"

definition abort_reference_for_hazard :: "'b platform \<Rightarrow> 'b supervisor \<Rightarrow> 'b supervisor" where
  "abort_reference_for_hazard pf s =
     (let s = s\<lparr>sv_commits_busy := False\<rparr>
      in if acquisition_busy s then snd (finish_reference pf s) else snd (perform_stop pf False s))"

definition set_hardware_estop :: "'b platform \<Rightarrow> bool \<Rightarrow> 'b supervisor \<Rightarrow> 'b supervisor" where
  "set_hardware_estop pf asserted s =
     (let was_asserted = sv_hardware_estop s; s = s\<lparr>sv_hardware_estop := asserted\<rparr>
      in if \<not> asserted then s
         else let (_, s) = record_fault FcHardwareEstop None None
                    ''hardware E-stop input asserted; releasing input is not qualified recovery'' device_fault_default s
              in if was_asserted then s
                 else let s = observe_reference_commits pf s in if reference_busy s then abort_reference_for_hazard pf s
                 else snd (disable_all pf s))"

definition latch_control_fault :: "'b platform \<Rightarrow> string \<Rightarrow> string option \<Rightarrow> 'b supervisor \<Rightarrow> 'b supervisor" where
  "latch_control_fault pf message joint s =
     (let address = map_option motor_address_of (Option.bind joint (motor_for_joint (sv_motors s)));
          (first, s) = record_fault FcController (if address = None then None else joint) address message
            device_fault_default s
      in if \<not> first then s
         else let s = observe_reference_commits pf s in if reference_busy s then abort_reference_for_hazard pf s
         else snd (disable_all pf s))"

definition stop_ending_episode ::
    "'b platform \<Rightarrow> degraded_end \<Rightarrow> 'b supervisor \<Rightarrow> (unit, davout_error) result \<times> 'b supervisor" where
  "stop_ending_episode pf ending s =
     (let s = (if ds_episode (sv_drive_loss s) \<noteq> None
               then s\<lparr>sv_drive_loss := (sv_drive_loss s)\<lparr>ds_pending_end := Some ending\<rparr>\<rparr> else s)
      in disable_all pf s)"

definition complete_degraded_lower :: "'b platform \<Rightarrow> 'b supervisor \<Rightarrow> (unit, davout_error) result \<times> 'b supervisor" where
  "complete_degraded_lower pf s = stop_ending_episode pf LowerComplete s"

definition enforce_degraded_deadline ::
    "'b platform \<Rightarrow> 'b supervisor \<Rightarrow> (unit, davout_error) result \<times> 'b supervisor" where
  "enforce_degraded_deadline pf s =
     (case ds_episode (sv_drive_loss s) of
        None \<Rightarrow> (Ok (), s)
      | Some episode \<Rightarrow>
          (let (now, s) = read_clock s
           in if ep_deadline episode \<le> now
              then (let s = snd (stop_ending_episode pf DeadlinePassed s) in (require_fault_clear s, s))
              else (Ok (), s)))"

section \<open>Runtime errors\<close>

text \<open>The fault class of an error and the joint it names, or nothing when the error is no fault.\<close>

definition bus_fault_class :: "motor_entry list \<Rightarrow> bus_error \<Rightarrow> (fault_class \<times> string option) option" where
  "bus_fault_class motors e =
     (case e of
        SendError _ _ \<Rightarrow> Some (FcTransport, None)
      | DriverError _ \<Rightarrow> Some (FcTransport, None)
      | InterfaceOwned _ \<Rightarrow> Some (FcTransport, None)
      | ReceiveIncomplete _ \<Rightarrow> Some (FcTransport, None)
      | InvalidCommand _ \<Rightarrow> Some (FcController, None)
      | CommandAddressMismatch _ _ \<Rightarrow> Some (FcController, None)
      | DuplicateMotorAddress _ _ \<Rightarrow> Some (FcController, None)
      | DuplicateCommand _ \<Rightarrow> Some (FcController, None)
      | UnknownMotorAddress _ _ \<Rightarrow> Some (FcController, None)
      | bus_error.UnknownJoint _ \<Rightarrow> Some (FcController, None)
      | MalformedFeedbackError address _ \<Rightarrow>
          Some (FcFeedback, map_option me_joint (List.find (\<lambda>m. motor_address_of m = address) motors))
      | RecvTimeout \<Rightarrow> None)"

definition runtime_fault_class ::
    "'b supervisor \<Rightarrow> davout_error \<Rightarrow> (fault_class \<times> string option) option \<times> 'b supervisor" where
  "runtime_fault_class s e =
     (case e of
        DavInvalidFeedback joint _ \<Rightarrow> (Some (FcFeedback, Some joint), s)
      | DavLimit joint _ \<Rightarrow> (Some (FcFeedback, Some joint), s)
      | DavCommWatchdog _ joint _ _ _ \<Rightarrow>
          (case Option.bind (motor_for_joint (sv_motors s) joint) (\<lambda>m. enable_bounds_start s (motor_address_of m)) of
             None \<Rightarrow> (Some (FcCommunication, Some joint), s)
           | Some start \<Rightarrow>
               (let (now, s) = read_clock s
                in if saturating_since now start \<le> millis (unat (cs_comm_watchdog_ms (sv_control s)))
                   then (None, s) else (Some (FcCommunication, Some joint), s)))
      | DavMotorFault joint _ \<Rightarrow> (Some (FcDevice, Some joint), s)
      | DavWrongSignWatchdog joint _ \<Rightarrow> (Some (FcWrongSign, Some joint), s)
      | DavDangerZone _ joint \<Rightarrow> (Some (FcDangerZone, Some joint), s)
      | DavBus b \<Rightarrow> (bus_fault_class (sv_motors s) b, s)
      | _ \<Rightarrow> (None, s))"

definition record_runtime_error :: "'b platform \<Rightarrow> davout_error \<Rightarrow> 'b supervisor \<Rightarrow> bool \<times> 'b supervisor" where
  "record_runtime_error pf e s =
     (let (c, s) = runtime_fault_class s e
      in case c of
           None \<Rightarrow> (False, s)
         | Some (cls, joint) \<Rightarrow>
             record_fault cls joint (map_option motor_address_of (Option.bind joint (motor_for_joint (sv_motors s))))
               (pf_error_text pf e) device_fault_default s)"

definition stop_after_runtime_error :: "'b platform \<Rightarrow> davout_error \<Rightarrow> 'b supervisor \<Rightarrow> 'b supervisor" where
  "stop_after_runtime_error pf e s =
     (let (first, s) = record_runtime_error pf e s in if first then snd (disable_all pf s) else s)"

section \<open>Sensing without a session\<close>

definition set_control_mode :: "'b platform \<Rightarrow> control_mode \<Rightarrow> 'b supervisor \<Rightarrow> 'b supervisor" where
  "set_control_mode pf mode s =
     (let s = observe_reference_commits pf s in if reference_busy s then s else s\<lparr>sv_control_mode := mode\<rparr>)"

fun solicit_disables ::
    "'b platform \<Rightarrow> motor_address list \<Rightarrow> (burst_pacer option \<times> host_clock) \<times> 'b \<Rightarrow> (burst_pacer option \<times> host_clock) \<times> 'b" where
  "solicit_disables pf [] s = s"
| "solicit_disables pf (a # as) (ph, b) =
     solicit_disables pf as (pace (addr_interface a) ph, snd (disable_drive_at (pf_bus pf) a b))"

definition solicit_status_feedback :: "'b platform \<Rightarrow> 'b supervisor \<Rightarrow> 'b supervisor" where
  "solicit_status_feedback pf s =
     (let s = observe_reference_commits pf s in
      if reference_busy s \<or> sv_mode s = ModeActive then s
      else let diag = cs_active_reporting_diagnostics (sv_control s);
               (now, s) = read_clock s;
               targets = map motor_address_of
                 (filter (\<lambda>m. \<not> desired (me_joint m) False diag now (sv_active_reporting s)) (sv_motors s));
               pacer = (if bus_echoes (pf_bus pf) (sv_bus s) then Some \<lparr>bp_last_group = []\<rparr> else None);
               ((_, clock), b) = solicit_disables pf targets ((pacer, sv_clock s), sv_bus s)
           in s\<lparr>sv_clock := clock, sv_bus := b\<rparr>)"

definition map_lease_error :: "(active_reporting_lease_error \<Rightarrow> string) \<Rightarrow> active_reporting_lease_error \<Rightarrow> davout_error" where
  "map_lease_error debug e =
     (case e of
        active_reporting_lease_error.UnknownJoint joint \<Rightarrow> DavUnknownJoint joint
      | _ \<Rightarrow> DavHoming [Txt (''active reporting lease: '' @ debug e)])"

definition with_lease ::
    "'b platform \<Rightarrow> (active_reporting_lease_error \<Rightarrow> string) \<Rightarrow>
     (active_reporting_state \<Rightarrow> (unit, active_reporting_lease_error) result \<times> active_reporting_state) \<Rightarrow>
     'b supervisor \<Rightarrow> (unit, davout_error) result \<times> 'b supervisor" where
  "with_lease pf debug call s =
     (let (r, ar) = call (sv_active_reporting s); s = s\<lparr>sv_active_reporting := ar\<rparr>
      in case r of
           Inl e \<Rightarrow> (Err (map_lease_error debug e), s)
         | Inr _ \<Rightarrow> (Ok (), sync_active_reporting pf s))"

definition acquire_active_reporting_lease ::
    "'b platform \<Rightarrow> (active_reporting_lease_error \<Rightarrow> string) \<Rightarrow> string \<Rightarrow> string \<Rightarrow> string \<Rightarrow> duration \<Rightarrow>
     'b supervisor \<Rightarrow> (unit, davout_error) result \<times> 'b supervisor" where
  "acquire_active_reporting_lease pf debug joint client_id lease_id ttl s =
     (let (now, s) = read_clock s
      in with_lease pf debug (lease_acquire joint client_id lease_id ttl now (sv_motors s)) s)"

definition renew_active_reporting_lease ::
    "'b platform \<Rightarrow> (active_reporting_lease_error \<Rightarrow> string) \<Rightarrow> string \<Rightarrow> string \<Rightarrow> string \<Rightarrow> duration \<Rightarrow>
     'b supervisor \<Rightarrow> (unit, davout_error) result \<times> 'b supervisor" where
  "renew_active_reporting_lease pf debug joint client_id lease_id ttl s =
     (let (now, s) = read_clock s
      in with_lease pf debug (lease_renew joint client_id lease_id ttl now (sv_motors s)) s)"

definition release_active_reporting_lease ::
    "'b platform \<Rightarrow> (active_reporting_lease_error \<Rightarrow> string) \<Rightarrow> string \<Rightarrow> string \<Rightarrow>
     'b supervisor \<Rightarrow> (unit, davout_error) result \<times> 'b supervisor" where
  "release_active_reporting_lease pf debug joint lease_id s =
     with_lease pf debug (lease_release joint lease_id (sv_motors s)) s"

section \<open>Reporting at exit\<close>

text \<open>One pass over the installed drives at the instant \<open>now\<close>: an outcome once set is kept, a drive that
  may be in its blackout is left to a later pass, and the earliest end of a quiet is returned.\<close>

fun exit_pass ::
    "'b platform \<Rightarrow> instant \<Rightarrow> (motor_entry \<times> exit_reporting_off option) list \<Rightarrow> instant option \<Rightarrow> 'b supervisor \<Rightarrow>
     (motor_entry \<times> exit_reporting_off option) list \<times> instant option \<times> 'b supervisor" where
  "exit_pass pf now [] next_end s = ([], next_end, s)"
| "exit_pass pf now ((motor, outcome) # drives) next_end s =
     (let address = motor_address_of motor;
          (outcome, next_end, s) =
            (if outcome \<noteq> None then (outcome, next_end, s)
             else if is_shed (sv_drive_loss s) address then (Some ExitShed, next_end, s)
             else if set_zero_blackout_possible s address now
             then let quiet_end = unwrap_or (set_zero_quiet_until s address) now
                  in (None, Some (case next_end of None \<Rightarrow> quiet_end | Some t \<Rightarrow> min t quiet_end), s)
             else (case disable_active_reporting_at (pf_bus pf) address (sv_bus s) of
                 (Inr _, b) \<Rightarrow> (Some ExitSent, next_end,
                   s\<lparr>sv_bus := b, sv_active_reporting := record_off (me_joint motor) now (sv_active_reporting s)\<rparr>)
               | (Inl e, b) \<Rightarrow> (Some (ExitFailed (bounded_message (pf_bus_text pf e))), next_end, s\<lparr>sv_bus := b\<rparr>)));
          (rest, r) = exit_pass pf now drives next_end s
      in ((motor, outcome) # rest, r))"

text \<open>The loop, with a bound on its passes; \<open>None\<close> when the bound is reached.\<close>

fun exit_loop ::
    "'b platform \<Rightarrow> instant \<Rightarrow> nat \<Rightarrow> (motor_entry \<times> exit_reporting_off option) list \<Rightarrow> 'b supervisor \<Rightarrow>
     ((motor_entry \<times> exit_reporting_off option) list \<times> 'b supervisor) option" where
  "exit_loop pf deadline 0 drives s = None"
| "exit_loop pf deadline (Suc passes) drives s =
     (let (now, s) = read_clock s;
          (drives, next_end, s) = exit_pass pf now drives None s
      in case next_end of
           None \<Rightarrow> Some (drives, s)
         | Some quiet_end \<Rightarrow>
             if quiet_end \<le> deadline
             then (let (t, s) = read_clock s
                   in exit_loop pf deadline passes drives
                        (s\<lparr>sv_clock := thread_sleep (saturating_since quiet_end t) (sv_clock s)\<rparr>))
             else Some (drives, s))"

definition release_reporting_for_exit ::
    "'b platform \<Rightarrow> instant \<Rightarrow> 'b supervisor \<Rightarrow> ((motor_address \<times> exit_reporting_off) list \<times> 'b supervisor) option" where
  "release_reporting_for_exit pf deadline s =
     map_option (\<lambda>(drives, s). (map (\<lambda>(m, outcome). (motor_address_of m, unwrap_or outcome ExitBlackout)) drives, s))
       (exit_loop pf deadline (Suc (length (sv_stop_motors s))) (map (\<lambda>m. (m, None)) (sv_stop_motors s))
         (s\<lparr>sv_exit_reporting_released := True\<rparr>))"

end
