(* ===== verification/Davout_Consumer.thy ===== *)
theory Davout_Consumer
  imports Davout_Supervisor "HOL-Library.Product_Lexorder"
begin

text \<open>
  \<open>davout/src/feedback_consumer.rs\<close> and the inspection of a shed drive's frame in \<open>drive_loss.rs\<close>: one
  received report, in receive order, becomes fault evidence, wire-order markers and at most one pose
  for each drive. The consumer neither writes nor stops; its caller does.
\<close>

section \<open>Contexts and results\<close>

definition FEEDBACK_VELOCITY_LIMIT_TRIPS :: u8 where "FEEDBACK_VELOCITY_LIMIT_TRIPS = 3"
definition FEEDBACK_VELOCITY_FAULT_MARGIN_RAD_S :: f64 where
  "FEEDBACK_VELOCITY_FAULT_MARGIN_RAD_S = f64_lit (1 / 2)"

datatype reference_receive_phase = BeforeEnable | EnabledBeforeZero | EnabledAfterZero

record reference_receive_context =
  rc_target :: motor_address
  rc_phase :: reference_receive_phase

datatype receive_context = Operational | InReference reference_receive_context | DisabledInspection

definition from_installed_target :: "motor_entry \<Rightarrow> reference_receive_phase \<Rightarrow> reference_receive_context" where
  "from_installed_target motor phase = \<lparr>rc_target = motor_address_of motor, rc_phase = phase\<rparr>"

definition rc_is_enabled :: "reference_receive_context \<Rightarrow> bool" where
  "rc_is_enabled c \<longleftrightarrow> rc_phase c \<in> {EnabledBeforeZero, EnabledAfterZero}"

definition coordinate_trusted :: "reference_receive_context \<Rightarrow> motor_address \<Rightarrow> bool \<Rightarrow> bool" where
  "coordinate_trusted c address peer_referenced =
     (if address = rc_target c then rc_phase c = EnabledAfterZero else peer_referenced)"

definition reference_target :: "receive_context \<Rightarrow> motor_address option" where
  "reference_target ctx = (case ctx of InReference c \<Rightarrow> Some (rc_target c) | _ \<Rightarrow> None)"

record reference_pose_observation =
  rp_order :: nat
  rp_address :: motor_address
  rp_can_id :: u32
  rp_received_at :: instant
  rp_state :: motor_state

record pose_candidate =
  pc_order :: nat
  pc_motor :: nat
  pc_address :: motor_address
  pc_state :: motor_state

record feedback_consumption =
  fc_first_error :: "davout_error option"
  fc_first_transition :: bool
  fc_reference_poses :: "reference_pose_observation list"
  fc_completion :: receive_completion
  fc_raw_frames :: nat
  fc_read_attempts :: nat

datatype ordered_receive =
    OrMotor feedback_observation
  | OrHostEcho host_echo_observation
  | OrTransport timed_can_frame
  | OrTerminal bus_error

text \<open>The local variables of the consumption.\<close>

record 'b consuming =
  cn_sup :: "'b supervisor"
  cn_first_error :: "davout_error option"
  cn_first_transition :: bool
  cn_poses :: "reference_pose_observation list"
  cn_candidates :: "pose_candidate list"
  cn_clock_floor :: "instant option"

definition note_error :: "davout_error \<Rightarrow> 'b consuming \<Rightarrow> 'b consuming" where
  "note_error e c = (if cn_first_error c = None then c\<lparr>cn_first_error := Some e\<rparr> else c)"

definition note_latched :: "'b consuming \<Rightarrow> 'b consuming" where
  "note_latched c =
     (if cn_first_error c = None
      then c\<lparr>cn_first_error := (case require_fault_clear (cn_sup c) of Inl e \<Rightarrow> Some e | Inr _ \<Rightarrow> None)\<rparr> else c)"

text \<open>A call of the supervisor that tells whether it latched the first fault.\<close>

definition latching :: "('b supervisor \<Rightarrow> bool \<times> 'b supervisor) \<Rightarrow> 'b consuming \<Rightarrow> 'b consuming" where
  "latching f c =
     (let (first, s) = f (cn_sup c)
      in c\<lparr>cn_sup := s, cn_first_transition := (cn_first_transition c \<or> first)\<rparr>)"

definition updating :: "('b supervisor \<Rightarrow> 'b supervisor) \<Rightarrow> 'b consuming \<Rightarrow> 'b consuming" where
  "updating f c = c\<lparr>cn_sup := f (cn_sup c)\<rparr>"

definition record_receive_fault ::
    "fault_class \<Rightarrow> string option \<Rightarrow> motor_address option \<Rightarrow> string \<Rightarrow> device_fault_evidence \<Rightarrow>
     receive_fault_evidence \<Rightarrow> 'b supervisor \<Rightarrow> bool \<times> 'b supervisor" where
  "record_receive_fault cls joint address message device receive s =
     (let (now, s) = read_clock s;
          (first, fa) = fa_record_receive now cls joint address message device receive (sv_fault_authority s)
      in (first, s\<lparr>sv_fault_authority := fa\<rparr>))"

section \<open>Guards\<close>

definition feedback_run_expected ::
    "'b supervisor \<Rightarrow> motor_entry \<Rightarrow> motor_address \<Rightarrow> instant \<Rightarrow> receive_context \<Rightarrow> bool" where
  "feedback_run_expected s motor address received_at ctx =
     (let on_wire = (address \<notin> set (sv_enable_echo_pending s))
      in case ctx of
           Operational \<Rightarrow>
             sv_mode s = ModeActive \<and> me_joint motor \<in> set (sv_active_joints s) \<and>
             (case sv_active_since s of Some enabled \<Rightarrow> enabled < received_at | None \<Rightarrow> False) \<and> on_wire
         | InReference c \<Rightarrow> rc_is_enabled c \<and> address = rc_target c \<and> on_wire
         | DisabledInspection \<Rightarrow> False)"

definition feedback_motion_guards_enabled :: "'b supervisor \<Rightarrow> receive_context \<Rightarrow> bool" where
  "feedback_motion_guards_enabled s ctx =
     (case ctx of
        Operational \<Rightarrow> sv_mode s = ModeActive
      | InReference c \<Rightarrow> rc_is_enabled c
      | DisabledInspection \<Rightarrow> False)"

definition track_drive_frame ::
    "motor_entry \<Rightarrow> motor_address \<Rightarrow> drive_mode \<Rightarrow> instant \<Rightarrow> bool \<Rightarrow> 'b supervisor \<Rightarrow> 'b supervisor" where
  "track_drive_frame motor address mode received_at run_expected s =
     (let previous = map_of (sv_drive_frames s) address;
          s = s\<lparr>sv_drive_frames := AList.update address \<lparr>dt_mode = mode, dt_at = received_at\<rparr> (sv_drive_frames s)\<rparr>
      in case previous of
           None \<Rightarrow> s
         | Some p \<Rightarrow>
             if mode \<noteq> Reset \<or> \<not> run_expected then s
             else let silence = saturating_since received_at (dt_at p);
                      window = millis (unat (cs_comm_watchdog_ms (sv_control s)))
                  in if \<not> is_reboot_transition (Some (dt_mode p)) mode \<and> silence \<le> window then s
                     else s\<lparr>sv_last_drive_reboot := Some \<lparr>rb_joint = me_joint motor, rb_address = address,
                       rb_previous_mode = dt_mode p, rb_new_mode = mode, rb_silence = silence\<rparr>\<rparr>)"

definition invalidate_reference_target_pose_for_zero_attempt :: "motor_entry \<Rightarrow> 'b supervisor \<Rightarrow> 'b supervisor" where
  "invalidate_reference_target_pose_for_zero_attempt target s =
     s\<lparr>sv_feedback_velocity_trips := AList.delete (me_joint target) (sv_feedback_velocity_trips s),
       sv_last_feedback_samples := AList.delete (me_joint target) (sv_last_feedback_samples s),
       sv_last_feedback_rx := AList.delete (me_joint target) (sv_last_feedback_rx s),
       sv_drive_frames := AList.delete (motor_address_of target) (sv_drive_frames s),
       sv_motor_states := AList.delete (motor_address_of target) (sv_motor_states s)\<rparr>"

fun show_drive_mode :: "drive_mode \<Rightarrow> string" where
  "show_drive_mode Reset = ''Reset''"
| "show_drive_mode Calibration = ''Calibration''"
| "show_drive_mode Run = ''Run''"
| "show_drive_mode Reserved = ''Reserved''"

fun show_operational_mode :: "operational_mode \<Rightarrow> string" where
  "show_operational_mode ModeDisabled = ''Disabled''"
| "show_operational_mode ModeReady = ''Ready''"
| "show_operational_mode ModeActive = ''Active''"

fun drive_mode_code :: "drive_mode \<Rightarrow> u8" where
  "drive_mode_code Reset = 0"
| "drive_mode_code Calibration = 1"
| "drive_mode_code Run = 2"
| "drive_mode_code Reserved = 3"

section \<open>Measured limits\<close>

definition u8_saturating_add :: "u8 \<Rightarrow> u8 \<Rightarrow> u8" where
  "u8_saturating_add a b = (if unat a + unat b < 2 ^ 8 then a + b else - 1)"

definition check_feedback_position_in_context ::
    "motor_entry \<Rightarrow> motor_state \<Rightarrow> receive_context \<Rightarrow> 'b supervisor \<Rightarrow> (unit, davout_error) result \<times> 'b supervisor" where
  "check_feedback_position_in_context motor st ctx s =
     (if \<not> feedback_motion_guards_enabled s ctx then (Ok (), s)
      else if (case ctx of
             InReference c \<Rightarrow>
               \<not> coordinate_trusted c (motor_address_of motor) (contains (sv_reference_authority s) (me_joint motor))
           | _ \<Rightarrow> False)
      then (Ok (), s)
      else (case map_of (sv_limits s) (me_joint motor) of
          None \<Rightarrow> (Err (DavUnknownJoint (me_joint motor)), s)
        | Some pol \<Rightarrow>
            (let pos = f64_from_f32 (ms_position_rad st)
             in if measured_position_fault pos pol
                then (Err (DavLimit (me_joint motor) [Txt ''measured position '', Num pos, Txt '' outside ['',
                        Num (hard_lower pol), Txt '', '', Num (hard_upper pol), Txt ''] (+ slack '',
                        Num (lm_measured_fault_slack_rad (jp_margin pol)), Txt '')'']),
                      s\<lparr>sv_out_of_limits := ool_mark (me_joint motor) True (sv_out_of_limits s)\<rparr>)
                else (Ok (), s))))"

definition position_velocity :: "feedback_sample option \<Rightarrow> f64 \<Rightarrow> instant \<Rightarrow> f64 option" where
  "position_velocity previous pos received_at =
     (case previous of
        None \<Rightarrow> None
      | Some prev \<Rightarrow>
          (let dt = as_secs_f64 (saturating_since received_at (fs_received_at prev))
           in if f64_lt f64_zero dt then Some (f64_div (f64_sub pos (fs_position_rad prev)) dt) else None))"

definition check_feedback_velocity_in_context ::
    "motor_entry \<Rightarrow> motor_state \<Rightarrow> instant \<Rightarrow> receive_context \<Rightarrow> 'b supervisor \<Rightarrow>
     (unit, davout_error) result \<times> motor_state \<times> 'b supervisor" where
  "check_feedback_velocity_in_context motor st received_at ctx s =
     (let joint = me_joint motor in
      if \<not> feedback_motion_guards_enabled s ctx
      then (Ok (), st, s\<lparr>sv_feedback_velocity_trips := AList.delete joint (sv_feedback_velocity_trips s),
                         sv_last_feedback_samples := AList.delete joint (sv_last_feedback_samples s)\<rparr>)
      else (case map_of (sv_limits s) joint of
          None \<Rightarrow> (Err (DavUnknownJoint joint), st, s)
        | Some pol \<Rightarrow>
            (let raw_velocity = f64_from_f32 (ms_velocity_rad_s st);
                 pos = f64_from_f32 (ms_position_rad st);
                 measured = unwrap_or (position_velocity (map_of (sv_last_feedback_samples s) joint) pos received_at)
                   raw_velocity;
                 st = st\<lparr>ms_velocity_rad_s := f32_from_f64 measured\<rparr>;
                 fault_threshold = f64_add (jp_velocity pol) FEEDBACK_VELOCITY_FAULT_MARGIN_RAD_S;
                 sampled = s\<lparr>sv_last_feedback_samples := store_by_joint (sv_last_feedback_samples s) joint
                   \<lparr>fs_position_rad = pos, fs_received_at = received_at\<rparr>\<rparr>;
                 trips = (case map_of (sv_feedback_velocity_trips s) joint of
                     Some n \<Rightarrow> u8_saturating_add n 1 | None \<Rightarrow> 1);
                 settled = sampled\<lparr>sv_feedback_velocity_trips := AList.delete joint (sv_feedback_velocity_trips s)\<rparr>
             in if f64_lt (jp_velocity pol) (fabs raw_velocity) \<and> f64_le (fabs measured) fault_threshold
                then (Ok (), st, settled)
                else if \<not> f64_lt fault_threshold (fabs measured) then (Ok (), st, settled)
                else (if FEEDBACK_VELOCITY_LIMIT_TRIPS \<le> trips
                      then Err (DavLimit joint [Txt ''feedback |velocity| '', Num measured, Txt '' > '', Num fault_threshold,
                        Txt '' (limit '', Num (jp_velocity pol), Txt '' + margin '', Num FEEDBACK_VELOCITY_FAULT_MARGIN_RAD_S,
                        Txt '')''])
                      else Ok (),
                      st, sampled\<lparr>sv_feedback_velocity_trips := AList.update joint trips (sv_feedback_velocity_trips s)\<rparr>))))"

section \<open>Events\<close>

definition begin_reporting_off_gate :: "instant \<Rightarrow> 'b supervisor \<Rightarrow> 'b supervisor" where
  "begin_reporting_off_gate now s = s\<lparr>sv_reporting_off_since := Some now, sv_reporting_off_echoed := []\<rparr>"

definition reporting_off_written :: "'b supervisor \<Rightarrow> string \<Rightarrow> instant option" where
  "reporting_off_written s joint =
     (case sv_reporting_off_since s of
        None \<Rightarrow> None
      | Some since \<Rightarrow>
          (case off_written_at joint (sv_active_reporting s) of
             Some written \<Rightarrow> if since \<le> written then Some written else None
           | None \<Rightarrow> None))"

definition motor_at :: "motor_entry list \<Rightarrow> motor_address \<Rightarrow> motor_entry option" where
  "motor_at motors address = List.find (\<lambda>m. motor_address_of m = address) motors"

definition observe_reporting_off_echo :: "motor_address \<Rightarrow> instant \<Rightarrow> 'b supervisor \<Rightarrow> 'b supervisor" where
  "observe_reporting_off_echo address received_at s =
     (case Option.bind (motor_at (sv_motors s) address) (\<lambda>m. reporting_off_written s (me_joint m)) of
        Some _ \<Rightarrow> s\<lparr>sv_reporting_off_echoed := AList.update address received_at (sv_reporting_off_echoed s)\<rparr>
      | None \<Rightarrow> s)"

definition consume_echo :: "host_echo_observation \<Rightarrow> 'b supervisor \<Rightarrow> 'b supervisor" where
  "consume_echo echo s =
     (let address = ho_address echo
      in case ho_command echo of
           EchoEnable \<Rightarrow>
             if address \<in> set (sv_enable_writes_pending s) then s
             else s\<lparr>sv_enable_echo_pending := filter (\<lambda>a. a \<noteq> address) (sv_enable_echo_pending s),
                    sv_physical := count_silence_from address (ho_received_at echo) (sv_physical s)\<rparr>
         | EchoReportingOff \<Rightarrow> observe_reporting_off_echo address (ho_received_at echo) s
         | EchoSetZero \<Rightarrow> note_set_zero address (ho_received_at echo) s)"

definition consume_terminal :: "'b platform \<Rightarrow> bus_error \<Rightarrow> 'b consuming \<Rightarrow> 'b consuming" where
  "consume_terminal pf e c =
     (if e = RecvTimeout then c
      else note_error (DavBus e) (latching (record_runtime_error pf (DavBus e)) c))"

definition consume_transport :: "timed_can_frame \<Rightarrow> 'b consuming \<Rightarrow> 'b consuming" where
  "consume_transport timed c =
     (let received = tf_received timed; fr = rx_frame received;
          evidence = \<lparr>rfe_interface = rx_interface received, rfe_can_id = cf_id fr, rfe_extended = cf_extended fr,
            rfe_received_at = tf_received_at timed, rfe_raw = cf_data fr, rfe_payload_len = rx_payload_len received,
            rfe_kind = rx_kind received, rfe_reason = None\<rparr>
      in note_latched (latching (record_receive_fault FcTransport None None
           ''received CAN error frame; physical bus state and error subscriptions unqualified''
           device_fault_default (receive_frame_fault evidence)) c))"

text \<open>The prefix of a detailed fault that was received, with a bit for each byte.\<close>

definition partial_bytes :: "u8 list \<Rightarrow> u8 list" where
  "partial_bytes bytes = bytes @ replicate (4 - length bytes) 0"

definition malformed_device :: "instant \<Rightarrow> u32 \<Rightarrow> malformed_feedback \<Rightarrow> device_fault_evidence" where
  "malformed_device received_at can_id m =
     (let device = device_fault_default\<lparr>dfe_received_at := Some received_at\<rparr>
      in if mf_kind m \<noteq> RxData then device
         else let device = device\<lparr>dfe_status_flags := unwrap_or (mf_status_flags m) 0,
                    dfe_drive_mode := map_option drive_mode_code (mf_drive_mode m)\<rparr>;
                  bytes = take (min (unat (mf_payload_len m)) 8) (mf_raw m);
                  faults = take 4 bytes; warnings = drop 4 bytes
              in if drop_bit 24 can_id \<noteq> 21 then device
                 else device\<lparr>dfe_partial_fault_bytes := partial_bytes faults,
                             dfe_partial_fault_available := mask (length faults),
                             dfe_partial_warning_bytes := partial_bytes warnings,
                             dfe_partial_warning_available := mask (length warnings)\<rparr>)"

definition record_malformed_feedback ::
    "'b platform \<Rightarrow> motor_entry \<Rightarrow> motor_address \<Rightarrow> instant \<Rightarrow> u32 \<Rightarrow> malformed_feedback \<Rightarrow> receive_context \<Rightarrow>
     'b supervisor \<Rightarrow> bool \<times> 'b supervisor" where
  "record_malformed_feedback pf motor address received_at can_id m ctx s =
     (let device = malformed_device received_at can_id m;
          (first1, s) =
            (if dfe_status_flags device \<noteq> 0 \<or> dfe_partial_fault_bytes device \<noteq> [0, 0, 0, 0]
             then record_fault FcDevice (Some (me_joint motor)) (Some address)
               ''vendor fault evidence from malformed data; partial words remain unqualified'' device s
             else (False, s));
          current_enable = feedback_run_expected s motor address received_at ctx;
          (first2, s) =
            (if dfe_drive_mode device = Some 3 \<or>
                current_enable \<and> (case dfe_drive_mode device of Some mode \<Rightarrow> mode \<noteq> 2 | None \<Rightarrow> False)
             then record_fault FcDriveState (Some (me_joint motor)) (Some address)
               ''unexpected drive mode in malformed Data status'' device s
             else (False, s));
          s = s\<lparr>sv_invalid_feedback := List.insert address (sv_invalid_feedback s)\<rparr>;
          (first3, s) = record_receive_fault FcFeedback (Some (me_joint motor)) (Some address)
            (pf_error_text pf (DavBus (MalformedFeedbackError address (mf_reason m)))) device
            (receive_frame_fault \<lparr>rfe_interface = Some (addr_interface address), rfe_can_id = can_id, rfe_extended = True,
               rfe_received_at = received_at, rfe_raw = mf_raw m, rfe_payload_len = mf_payload_len m,
               rfe_kind = mf_kind m, rfe_reason = Some (mf_reason m)\<rparr>) s
      in (first1 \<or> first2 \<or> first3, s))"

definition inspect_shed_frame ::
    "'b platform \<Rightarrow> string \<Rightarrow> motor_address \<Rightarrow> drive_mode \<Rightarrow> instant \<Rightarrow> device_fault_evidence \<Rightarrow> 'b supervisor \<Rightarrow>
     (davout_error \<times> bool) option \<times> 'b supervisor" where
  "inspect_shed_frame pf joint address mode received_at device s =
     (let grace = (case ds_shed_at (sv_drive_loss s) of
            Some shed_at \<Rightarrow> received_at \<le> shed_at + int SHED_REPLY_GRACE | None \<Rightarrow> False)
      in if mode = Reset \<or> grace then (None, s)
         else let e = DavInvalidFeedback joint [Txt (''shed drive reported '' @ show_drive_mode mode @
                    '' after its Disable; it is never commanded again'')];
                  (transition, s) = record_fault FcDriveState (Some joint) (Some address) (pf_error_text pf e) device s
              in (Some (e, transition), s))"

definition is_future :: "instant \<Rightarrow> instant option \<Rightarrow> 'b supervisor \<Rightarrow> bool \<times> instant option \<times> 'b supervisor" where
  "is_future received_at clock_floor s =
     (if (case clock_floor of Some t \<Rightarrow> received_at \<le> t | None \<Rightarrow> False) then (False, clock_floor, s)
      else let (now, s) = read_clock s in (now < received_at, Some now, s))"

text \<open>The checks of a status before it may become a pose.\<close>

definition prepare_pose ::
    "motor_entry \<Rightarrow> motor_state \<Rightarrow> instant \<Rightarrow> receive_context \<Rightarrow> 'b consuming \<Rightarrow>
     (motor_state, davout_error) result \<times> 'b consuming" where
  "prepare_pose motor raw received_at ctx c =
     (case rbind (validate_motor_feedback (me_joint motor) raw) (\<lambda>_.
           rbind (motor_to_joint_state motor raw) (\<lambda>st.
           rbind (validate_motor_feedback (me_joint motor) st) (\<lambda>_. Ok st))) of
        Inl e \<Rightarrow> (Err e, c)
      | Inr st \<Rightarrow>
          (let (future, clock_floor, s) = is_future received_at (cn_clock_floor c) (cn_sup c);
               c = c\<lparr>cn_clock_floor := clock_floor, cn_sup := s\<rparr>
           in if future
              then (Err (DavInvalidFeedback (me_joint motor) [Txt ''receive timestamp is in the future'']), c)
              else let (r, s) = check_feedback_position_in_context motor st ctx (cn_sup c)
                   in (rbind r (\<lambda>_. Ok st), c\<lparr>cn_sup := s\<rparr>)))"

definition refuse_feedback ::
    "'b platform \<Rightarrow> motor_address \<Rightarrow> davout_error \<Rightarrow> 'b consuming \<Rightarrow> 'b consuming" where
  "refuse_feedback pf address e c =
     note_error e (latching (record_runtime_error pf e)
       (updating (\<lambda>s. s\<lparr>sv_invalid_feedback := List.insert address (sv_invalid_feedback s)\<rparr>) c))"

text \<open>A later pose of one drive replaces the earlier one of the drain.\<close>

definition admit_candidate ::
    "nat \<Rightarrow> nat \<Rightarrow> feedback_observation \<Rightarrow> mit_feedback \<Rightarrow> motor_state \<Rightarrow> receive_context \<Rightarrow> 'b consuming \<Rightarrow> 'b consuming" where
  "admit_candidate order motor_index obs status st ctx c =
     (let address = fo_address obs; s = cn_sup c;
          known = (case map_of (sv_motor_states s) address of Some m \<Rightarrow> ms_updated m | None \<Rightarrow> None);
          existing = find_index (\<lambda>p. pc_address p = address) (cn_candidates c);
          queued = (case existing of Some i \<Rightarrow> ms_updated (pc_state (cn_candidates c ! i)) | None \<Rightarrow> None)
      in if ctx = Operational \<and> sv_mode s = ModeActive \<and> address \<in> set (sv_enable_echo_pending s) then c
         else if (case known of Some previous \<Rightarrow> fo_received_at obs \<le> previous | None \<Rightarrow> False) then c
         else if (case queued of Some previous \<Rightarrow> fo_received_at obs < previous | None \<Rightarrow> False) then c
         else let c = (if reference_target ctx = Some address \<and> fb_status_flags status = 0
                    then c\<lparr>cn_poses := cn_poses c @ [\<lparr>rp_order = order, rp_address = address, rp_can_id = fo_can_id obs,
                      rp_received_at = fo_received_at obs, rp_state = st\<rparr>]\<rparr> else c);
                  candidate = \<lparr>pc_order = order, pc_motor = motor_index, pc_address = address, pc_state = st\<rparr>
              in c\<lparr>cn_candidates := (case existing of
                   Some i \<Rightarrow> (cn_candidates c)[i := candidate] | None \<Rightarrow> cn_candidates c @ [candidate])\<rparr>)"

definition status_state :: "mit_feedback \<Rightarrow> instant \<Rightarrow> motor_state" where
  "status_state status received_at =
     \<lparr>ms_position_rad = fb_position_rad status, ms_velocity_rad_s = fb_velocity_rad_s status,
      ms_torque_nm = fb_torque_nm status, ms_temperature_c = fb_temperature_c status,
      ms_fault = ucast (fb_status_flags status), ms_updated = Some received_at\<rparr>"

text \<open>A frame with a status header: from a status or a firmware version reply.\<close>

definition consume_header ::
    "'b platform \<Rightarrow> nat \<Rightarrow> nat \<Rightarrow> motor_entry \<Rightarrow> feedback_observation \<Rightarrow> drive_mode \<Rightarrow> u8 \<Rightarrow> mit_feedback option \<Rightarrow>
     receive_context \<Rightarrow> 'b consuming \<Rightarrow> 'b consuming" where
  "consume_header pf order motor_index motor obs mode flags status ctx c =
     (let address = fo_address obs; joint = me_joint motor;
          device = device_fault_default\<lparr>dfe_received_at := Some (fo_received_at obs), dfe_status_flags := flags,
            dfe_drive_mode := Some (drive_mode_code mode)\<rparr>;
          c = (if mode = Calibration
               then updating (\<lambda>s. s\<lparr>sv_physical := fst (record_calibration_mode address (sv_physical s))\<rparr>) c else c);
          c = (if flags \<noteq> 0
               then note_latched (latching (record_fault FcDevice (Some joint) (Some address)
                 ''vendor status fault flags'' device) c) else c)
      in if is_shed (sv_drive_loss (cn_sup c)) address
         then let lost = (ds_lost_address (sv_drive_loss (cn_sup c)) = Some address);
                  c = updating (track_drive_frame motor address mode (fo_received_at obs) lost) c;
                  (r, s) = inspect_shed_frame pf joint address mode (fo_received_at obs) device (cn_sup c);
                  c = c\<lparr>cn_sup := s\<rparr>
              in (case r of
                    None \<Rightarrow> c
                  | Some (e, transition) \<Rightarrow>
                      note_error e (c\<lparr>cn_first_transition := (cn_first_transition c \<or> transition)\<rparr>))
         else let current_enable = feedback_run_expected (cn_sup c) motor address (fo_received_at obs) ctx;
                  c = updating (track_drive_frame motor address mode (fo_received_at obs) current_enable) c;
                  inspecting = (ctx = DisabledInspection)
              in if mode = Reserved \<or> current_enable \<and> mode \<noteq> Run \<or> inspecting \<and> mode \<noteq> Reset
                 then let e = DavInvalidFeedback joint [Txt (''unexpected drive mode '' @ show_drive_mode mode @ '' for '' @
                            show_operational_mode (sv_mode (cn_sup c)) @ ''; no qualified factory-calibration context'')]
                      in note_error e (latching (record_fault FcDriveState (Some joint) (Some address)
                           (pf_error_text pf e) device)
                           (updating (\<lambda>s. s\<lparr>sv_invalid_feedback := List.insert address (sv_invalid_feedback s)\<rparr>) c))
                 else (case status of
                     None \<Rightarrow>
                       if inspecting then c
                       else refuse_feedback pf address
                         (DavInvalidFeedback joint [Txt ''unsolicited firmware version reply'']) c
                   | Some st \<Rightarrow>
                       (let (r, c) = prepare_pose motor (status_state st (fo_received_at obs)) (fo_received_at obs) ctx c
                        in case r of
                             Inl e \<Rightarrow> refuse_feedback pf address e c
                           | Inr pose \<Rightarrow> admit_candidate order motor_index obs st pose ctx c)))"

definition consume_motor ::
    "'b platform \<Rightarrow> receive_context \<Rightarrow> nat \<Rightarrow> feedback_observation \<Rightarrow> 'b consuming \<Rightarrow> 'b consuming" where
  "consume_motor pf ctx order obs c =
     (let address = fo_address obs; stop_motors = sv_stop_motors (cn_sup c)
      in case find_index (\<lambda>m. motor_address_of m = address) stop_motors of
           None \<Rightarrow> c
         | Some i \<Rightarrow>
             (let motor = stop_motors ! i
              in case fo_event obs of
                   EventMalformed m \<Rightarrow>
                     note_latched (latching (record_malformed_feedback pf motor address (fo_received_at obs)
                       (fo_can_id obs) m ctx) c)
                 | EventDetailedFault report \<Rightarrow>
                     (let device = device_fault_default\<lparr>dfe_received_at := Some (fo_received_at obs),
                            dfe_detailed_fault_bytes := fault_bytes report, dfe_warning_bytes := warning_bytes report\<rparr>;
                          c = updating (\<lambda>s. let (now, s) = read_clock s
                                in s\<lparr>sv_fault_authority := record_warning now (me_joint motor) address
                                     (warning_bytes report) (sv_fault_authority s)\<rparr>) c
                      in if has_fault report
                         then note_latched (latching (record_fault FcDevice (Some (me_joint motor)) (Some address)
                           ''vendor detailed fault; word byte order and physical recovery unqualified'' device) c)
                         else c)
                 | EventStatus status \<Rightarrow>
                     consume_header pf order i motor obs (fb_drive_mode status) (fb_status_flags status) (Some status) ctx c
                 | EventFirmwareVersion reply \<Rightarrow>
                     consume_header pf order i motor obs (fv_drive_mode reply) (fv_status_flags reply) None ctx c))"

definition consume_event ::
    "'b platform \<Rightarrow> receive_context \<Rightarrow> nat \<times> nat \<times> ordered_receive \<Rightarrow> 'b consuming \<Rightarrow> 'b consuming" where
  "consume_event pf ctx ev c =
     (case ev of (order, _, event) \<Rightarrow>
       (case event of
          OrMotor obs \<Rightarrow> consume_motor pf ctx order obs c
        | OrHostEcho echo \<Rightarrow> updating (consume_echo echo) c
        | OrTransport timed \<Rightarrow> consume_transport timed c
        | OrTerminal e \<Rightarrow> consume_terminal pf e c))"

section \<open>The report\<close>

definition ordered_events :: "feedback_report \<Rightarrow> (nat \<times> nat \<times> ordered_receive) list" where
  "ordered_events report =
     (let delivered = map (\<lambda>x. (fo_order x, 1, OrMotor x)) (fr_observations report) @
            map (\<lambda>x. (to_order x, 1, OrTransport (to_frame x))) (fr_transport_frames report) @
            map (\<lambda>x. (ho_order x, 1, OrHostEcho x)) (fr_host_echoes report);
          all_events = (case fr_terminal_error report of
             None \<Rightarrow> delivered
           | Some e \<Rightarrow>
               (let order = unwrap_or (fr_terminal_error_order report)
                      (max (fold max (map (\<lambda>(n, _, _). n + 1) delivered) 0) (fr_raw_frames report))
                in delivered @ [(order, 0, OrTerminal e)]))
      in sort_key (\<lambda>(order, rank, _). (order, rank)) all_events)"

definition admit_pose :: "'b platform \<Rightarrow> receive_context \<Rightarrow> f64 \<Rightarrow> pose_candidate \<Rightarrow> 'b consuming \<Rightarrow> 'b consuming" where
  "admit_pose pf ctx at_rest_tolerance p c =
     (let s = cn_sup c; motor = sv_stop_motors s ! pc_motor p; address = pc_address p
      in case ms_updated (pc_state p) of
           None \<Rightarrow> c
         | Some received_at \<Rightarrow>
             (let (r, st, s) = check_feedback_velocity_in_context motor (pc_state p) received_at ctx s;
                  c = c\<lparr>cn_sup := s\<rparr>
              in case rbind r (\<lambda>_. validate_motor_feedback (me_joint motor) st) of
                   Inl e \<Rightarrow>
                     refuse_feedback pf address e (c\<lparr>cn_poses := filter (\<lambda>x. rp_address x \<noteq> address) (cn_poses c)\<rparr>)
                 | Inr _ \<Rightarrow>
                     updating (\<lambda>s.
                       s\<lparr>sv_invalid_feedback := filter (\<lambda>a. a \<noteq> address) (sv_invalid_feedback s),
                         sv_physical := (if backend_is_physical (sv_backend s)
                           then fst (observe_position address (f64_from_f32 (ms_position_rad st)) received_at
                             at_rest_tolerance (sv_physical s)) else sv_physical s),
                         sv_unanswered_solicits :=
                           AList.map_entry address (\<lambda>_. solicited_default) (sv_unanswered_solicits s),
                         sv_motor_states := AList.update address st (sv_motor_states s),
                         sv_last_feedback_rx := store_by_joint (sv_last_feedback_rx s) (me_joint motor) received_at\<rparr>) c))"

definition consume_replies :: "feedback_report \<Rightarrow> 'b supervisor \<Rightarrow> 'b supervisor" where
  "consume_replies report s =
     (if \<not> backend_is_physical (sv_backend s) then s
      else s\<lparr>sv_physical := fold record_read (fr_parameter_reads report)
             (fold (\<lambda>obs pd. fst (record_identity obs pd)) (fr_identities report) (sv_physical s))\<rparr>)"

definition consume_incomplete :: "'b platform \<Rightarrow> feedback_report \<Rightarrow> 'b consuming \<Rightarrow> 'b consuming" where
  "consume_incomplete pf report c =
     (if is_complete (fr_completion report) then c
      else let e = DavBus (ReceiveIncomplete (fr_completion report));
               message = pf_error_text pf e @ ''; raw frames='' @ show_nat (fr_raw_frames report) @ '', read attempts='' @
                 show_nat (fr_read_attempts report)
           in note_error e (latching (record_receive_fault FcTransport None None message device_fault_default
                (receive_incomplete_fault \<lparr>rde_completion = fr_completion report, rde_raw_frames = fr_raw_frames report,
                   rde_read_attempts = fr_read_attempts report\<rparr>)) c))"

definition consume_report_in_context ::
    "'b platform \<Rightarrow> feedback_report \<Rightarrow> receive_context \<Rightarrow> 'b supervisor \<Rightarrow> feedback_consumption \<times> 'b supervisor" where
  "consume_report_in_context pf report ctx s =
     (let s = consume_replies report s;
          at_rest_tolerance = hs_zero_verify_tolerance_rad (sv_homing_config s);
          c = \<lparr>cn_sup = s, cn_first_error = None, cn_first_transition = False, cn_poses = [], cn_candidates = [],
               cn_clock_floor = None\<rparr>;
          c = fold (consume_event pf ctx) (ordered_events report) c;
          c = fold (admit_pose pf ctx at_rest_tolerance) (sort_key pc_order (cn_candidates c)) c;
          c = consume_incomplete pf report c
      in (\<lparr>fc_first_error = cn_first_error c, fc_first_transition = cn_first_transition c,
           fc_reference_poses = cn_poses c, fc_completion = fr_completion report,
           fc_raw_frames = fr_raw_frames report, fc_read_attempts = fr_read_attempts report\<rparr>,
          cn_sup c))"

end
