(* ===== verification/Davout_Session.thy ===== *)
theory Davout_Session
  imports Davout_Consumer
begin

text \<open>
  The session of the \<open>Supervisor\<close> (\<open>davout/src/lib.rs\<close>, \<open>drive_loss.rs\<close>): whether a reference is still
  valid, the loss of one drive, the feedback poll, the enable gate and its staggered writes, and the
  admission of a batch of commands. The operator \<open>?\<close> of the code is \<open>try_in\<close>: an error ends the
  call with the state it was raised in.
\<close>

section \<open>Steps that may fail\<close>

type_synonym ('a, 'b) step = "(('a, davout_error) result) \<times> 'b supervisor"

definition try_in :: "('a, 'b) step \<Rightarrow> ('a \<Rightarrow> 'b supervisor \<Rightarrow> ('c, 'b) step) \<Rightarrow> ('c, 'b) step" where
  "try_in r f = (case r of (Inl e, s) \<Rightarrow> (Err e, s) | (Inr x, s) \<Rightarrow> f x s)"

section \<open>Poses\<close>

definition FREE_DRIVE_FEEDBACK_TTL :: duration where "FREE_DRIVE_FEEDBACK_TTL = secs 5"

definition comm_window :: "'b supervisor \<Rightarrow> duration" where
  "comm_window s = millis (unat (cs_comm_watchdog_ms (sv_control s)))"

definition pose_is_current :: "'b supervisor \<Rightarrow> motor_address \<Rightarrow> motor_state \<Rightarrow> instant \<Rightarrow> bool" where
  "pose_is_current s address st now =
     (case (ms_updated st, sv_active_since s) of
        (Some received_at, Some active_since) \<Rightarrow>
          active_since < received_at \<and> received_at \<le> now \<and>
          (case unanswered_solicit s address of
             None \<Rightarrow> True | Some solicited \<Rightarrow> saturating_since now solicited \<le> comm_window s)
      | _ \<Rightarrow> False)"

definition is_stale :: "instant \<Rightarrow> duration \<Rightarrow> motor_state \<Rightarrow> bool" where
  "is_stale now max_age st =
     (case ms_updated st of None \<Rightarrow> True | Some t \<Rightarrow> max_age < saturating_since now t)"

definition motor_index :: "'b supervisor \<Rightarrow> string \<Rightarrow> nat option" where
  "motor_index s joint = find_index (\<lambda>m. me_joint m = joint) (sv_motors s)"

definition address_for :: "'b supervisor \<Rightarrow> nat \<Rightarrow> motor_entry \<Rightarrow> motor_address" where
  "address_for s index motor =
     (if index < length (sv_motor_addresses s) \<and> sv_motor_addresses s ! index = motor_address_of motor
      then sv_motor_addresses s ! index else motor_address_of motor)"

definition sync_motor_addresses :: "'b supervisor \<Rightarrow> 'b supervisor" where
  "sync_motor_addresses s =
     s\<lparr>sv_motor_addresses := map (\<lambda>i. address_for s i (sv_motors s ! i)) [0..<length (sv_motors s)]\<rparr>"

definition published_state :: "nat \<Rightarrow> 'b supervisor \<Rightarrow> motor_state option \<times> 'b supervisor" where
  "published_state index s =
     (if \<not> index < length (sv_motors s) then (None, s)
      else let address = address_for s index (sv_motors s ! index)
           in case map_of (sv_motor_states s) address of
                None \<Rightarrow> (None, s)
              | Some st \<Rightarrow>
                  if ms_updated st = None \<or> address \<in> set (sv_invalid_feedback s) \<or> is_shed (sv_drive_loss s) address
                  then (None, s)
                  else let (now, s) = read_clock s
                       in if sv_mode s = ModeActive
                          then (if pose_is_current s address st now then Some st else None, s)
                          else (if is_stale now FREE_DRIVE_FEEDBACK_TTL st then None else Some st, s))"

section \<open>The validity of a reference\<close>

datatype liveness = Judge | Defer

definition realm_matches :: "'b supervisor \<Rightarrow> arc \<Rightarrow> bool" where
  "realm_matches s realm =
     (case sv_backend s of
        None \<Rightarrow> False
      | Some backend \<Rightarrow> backend_realm backend = realm \<and> backend_matches backend (sv_bus s))"

definition current_device_epoch :: "'b supervisor \<Rightarrow> motor_address \<Rightarrow> u64 option" where
  "current_device_epoch s address =
     (case sv_backend s of
        None \<Rightarrow> None
      | Some (VirtualBackend v) \<Rightarrow> vb_current_device_epoch v (sv_bus s) address
      | Some (PhysicalBackend _) \<Rightarrow> epoch (sv_physical s) address)"

definition live_device_epoch ::
    "motor_address \<Rightarrow> duration \<Rightarrow> bool \<Rightarrow> silence_from \<Rightarrow> 'b supervisor \<Rightarrow> (u64, lapse) result \<times> 'b supervisor" where
  "live_device_epoch address window owner_busy from s =
     (case sv_backend s of
        None \<Rightarrow> (Err Silent, s)
      | Some (VirtualBackend v) \<Rightarrow> (ok_or (vb_current_device_epoch v (sv_bus s) address) Silent, s)
      | Some (PhysicalBackend _) \<Rightarrow>
          (let (now, s) = read_clock s in (live_epoch (sv_physical s) address now window owner_busy from, s)))"

definition owner_busy :: "'b supervisor \<Rightarrow> bool" where
  "owner_busy s \<longleftrightarrow> acquisition_busy s \<or> sv_commits_busy s \<or> sv_commit_pending s"

definition judge_binding :: "liveness \<Rightarrow> nat \<Rightarrow> 'b supervisor \<Rightarrow> bool \<times> 'b supervisor" where
  "judge_binding liveness i s =
     (let b = ra_consumed (sv_reference_authority s) ! i in
      if cb_revoked b then (True, s)
      else let physical = backend_is_physical (sv_backend s);
               from = silence_counts s (cb_joint b) (cb_address b);
               judge = (liveness = Judge \<or> (case from of Withheld _ \<Rightarrow> True | _ \<Rightarrow> False));
               (current, s) =
                 (if judge then live_device_epoch (cb_address b) (comm_window s) (owner_busy s) from s
                  else (ok_or (current_device_epoch s (cb_address b)) Silent, s));
               identity_holds = (\<not> physical \<or> cb_uid b \<noteq> None \<and> uid_at (sv_physical s) (cb_address b) = cb_uid b);
               ra = sv_reference_authority s
           in if current = Ok (cb_device_epoch b) \<and> identity_holds then (True, s)
              else if physical
              then (True, s\<lparr>sv_reference_authority :=
                     (if identity_holds \<and> current = Err Silent then revoke_binding_silent i ra else revoke_binding i ra)\<rparr>)
              else (False, revoke_references s))"

fun judge_bindings :: "liveness \<Rightarrow> nat list \<Rightarrow> 'b supervisor \<Rightarrow> bool \<times> 'b supervisor" where
  "judge_bindings liveness [] s = (True, s)"
| "judge_bindings liveness (i # is) s =
     (let (go, s) = judge_binding liveness i s in if go then judge_bindings liveness is s else (False, s))"

definition reference_binding_valid_with :: "'b platform \<Rightarrow> liveness \<Rightarrow> 'b supervisor \<Rightarrow> bool \<times> 'b supervisor" where
  "reference_binding_valid_with pf liveness s =
     (let s = observe_reference_commits pf s in
      if has_latched_fault s \<or> sv_hardware_estop s then (False, revoke_references s)
      else if \<not> is_ok (validate_safety_config (sv_robot s) (sv_motors s) (sv_control s) (sv_homing_config s))
      then (False, revoke_references s)
      else (case ra_realm (sv_reference_authority s) of
          None \<Rightarrow> (False, s)
        | Some realm \<Rightarrow>
            if \<not> realm_matches s realm then (False, revoke_references s)
            else if \<not> validate_consumed_model (sv_reference_authority s) (sv_installed_model s)
            then (False, revoke_references s)
            else let (go, s) = judge_bindings liveness [0..<length (ra_consumed (sv_reference_authority s))] s
                 in if \<not> go then (False, s)
                    else let (ra, valid) = validate_binding (sv_motors s) (sv_homing_config s) (sv_control s)
                           (sv_reference_authority s)
                         in (valid, s\<lparr>sv_reference_authority := ra\<rparr>)))"

definition reference_binding_valid :: "'b platform \<Rightarrow> 'b supervisor \<Rightarrow> bool \<times> 'b supervisor" where
  "reference_binding_valid pf s = reference_binding_valid_with pf Judge s"

definition require_reference_permission :: "string list \<Rightarrow> 'b supervisor \<Rightarrow> (unit, davout_error) result" where
  "require_reference_permission joints s =
     for_each (\<lambda>joint. refuse_if (\<not> contains (sv_reference_authority s) joint)
       (DavHoming [Txt (''joint '' @ joint @ '': no private current-reference permission'')])) joints"

definition active_references_held :: "'b supervisor \<Rightarrow> bool" where
  "active_references_held s = list_all (contains (sv_reference_authority s)) (sv_active_joints s)"

definition ensure_reference_binding :: "'b platform \<Rightarrow> 'b supervisor \<Rightarrow> (unit, 'b) step" where
  "ensure_reference_binding pf s =
     try_in (refuse_reference_interference pf ''ordinary reference admission'' s) (\<lambda>_ s.
     try_in (require_fault_clear s, s) (\<lambda>_ s.
       let (valid, s) = reference_binding_valid pf s
       in if valid then (Ok (), s)
          else let s = (if sv_mode s = ModeActive then snd (disable_all pf s) else s)
               in (Err (DavHoming [Txt (''current reference is unavailable or permanently revoked; '' @
                     (if sv_backend s \<noteq> None then ''acquire a qualified reference for each joint first''
                      else ''this owner has no qualified acquisition capability''))]), s)))"

definition ensure_reference_for :: "'b platform \<Rightarrow> string list \<Rightarrow> 'b supervisor \<Rightarrow> (unit, 'b) step" where
  "ensure_reference_for pf joints s =
     try_in (ensure_reference_binding pf s) (\<lambda>_ s. (require_reference_permission joints s, s))"

section \<open>The loss of one drive\<close>

definition install_drive_loss_plans ::
    "drive_loss_plan list \<Rightarrow> 'b supervisor \<Rightarrow> (unit, 'b) step" where
  "install_drive_loss_plans plans s =
     (case for_each (\<lambda>plan.
        let refuse = (\<lambda>m. DavDriveLossPlan (dp_joint plan) [Txt m]) in
        rbind (refuse_if (\<not> (case map_of (cs_joints (sv_control s)) (dp_joint plan) of
            Some entry \<Rightarrow> jc_on_drive_loss entry = ShedSubtree | None \<Rightarrow> False))
          (refuse ''on_drive_loss is not shed_subtree'')) (\<lambda>_.
        rbind (refuse_if (dp_shed plan = [] \<or> hd (dp_shed plan) \<noteq> dp_joint plan)
          (refuse ''shed list must start with the lost joint'')) (\<lambda>_.
        case List.find (\<lambda>j. motor_for_joint (sv_motors s) j = None) (dp_shed plan) of
          Some unknown \<Rightarrow> Err (refuse (''shed joint '' @ unknown @ '' has no configured motor''))
        | None \<Rightarrow> Ok ()))) plans of
        Inl e \<Rightarrow> (Err e, s)
      | Inr _ \<Rightarrow> (Ok (), s\<lparr>sv_drive_loss := (sv_drive_loss s)\<lparr>ds_plans := plans\<rparr>\<rparr>))"

record shed_decision_record =
  sd_lost :: string
  sd_shed :: "(string \<times> motor_address \<times> f64) list"
  sd_holding :: "string list"
  sd_since :: instant
  sd_deadline :: instant

text \<open>\<open>Duration::try_from_secs_f64\<close> rounds to the nearest nanosecond, ties to even.\<close>

definition round_half_even :: "rat \<Rightarrow> int" where
  "round_half_even x =
     (let n = \<lfloor>x\<rfloor>; d = x - of_int n
      in if d < 1 / 2 \<or> d = 1 / 2 \<and> even n then n else n + 1)"

definition try_from_secs_f64 :: "f64 \<Rightarrow> duration option" where
  "try_from_secs_f64 v =
     (if fits_duration v then Some (nat (round_half_even (f64_val v * 1000000000))) else None)"

text \<open>The address and the last position of every joint of a plan.\<close>

fun shed_targets :: "'b supervisor \<Rightarrow> string list \<Rightarrow> (string \<times> motor_address \<times> f64) list option" where
  "shed_targets s [] = Some []"
| "shed_targets s (joint # joints) =
     (case motor_for_joint (sv_motors s) joint of
        None \<Rightarrow> None
      | Some m \<Rightarrow>
          (case map_of (sv_motor_states s) (motor_address_of m) of
             None \<Rightarrow> None
           | Some st \<Rightarrow> map_option (\<lambda>rest. (joint, motor_address_of m, f64_from_f32 (ms_position_rad st)) # rest)
               (shed_targets s joints)))"

text \<open>The active joints outside the plan, each with a current pose, and the largest distance to rest.\<close>

fun holding_joints ::
    "'b supervisor \<Rightarrow> drive_loss_plan \<Rightarrow> instant \<Rightarrow> motor_entry list \<Rightarrow> string list \<times> f64 \<Rightarrow> (string list \<times> f64) option" where
  "holding_joints s plan now [] acc = Some acc"
| "holding_joints s plan now (m # ms) (holding, distance) =
     (if me_joint m \<notin> set (sv_active_joints s) \<or> me_joint m \<in> set (dp_shed plan)
      then holding_joints s plan now ms (holding, distance)
      else let address = motor_address_of m
           in case map_of (sv_motor_states s) address of
                None \<Rightarrow> None
              | Some st \<Rightarrow>
                  if \<not> contains (sv_reference_authority s) (me_joint m) \<or> address \<in> set (sv_invalid_feedback s) \<or>
                     \<not> pose_is_current s address st now
                  then None
                  else let rest = (case map_of (cs_joints (sv_control s)) (me_joint m) of
                             None \<Rightarrow> f64_zero | Some entry \<Rightarrow> jc_position_hold_trim_rad entry);
                           d = fabs (f64_sub (f64_from_f32 (ms_position_rad st)) rest)
                       in holding_joints s plan now ms (holding @ [me_joint m], f64_max distance d))"

definition episode_deadline :: "drive_loss_config \<Rightarrow> f64 \<Rightarrow> instant \<Rightarrow> instant option" where
  "episode_deadline cfg distance now =
     (case (try_from_secs_f64 (dl_hold_window_s cfg),
            try_from_secs_f64 (f64_add (f64_div distance (dl_lower_velocity_rad_s cfg)) (dl_lower_settle_s cfg)),
            try_from_secs_f64 (dl_lower_max_s cfg)) of
        (Some hold, Some lower, Some lower_max) \<Rightarrow> time_checked_add now (hold + min lower lower_max)
      | _ \<Rightarrow> None)"

definition shed_decision :: "'b platform \<Rightarrow> 'b supervisor \<Rightarrow> shed_decision_record option \<times> 'b supervisor" where
  "shed_decision pf s =
     (let dl = sv_drive_loss s in
      if sv_mode s \<noteq> ModeActive \<or> has_latched_fault s \<or> sv_hardware_estop s \<or> ds_episode dl \<noteq> None \<or> ds_shed dl \<noteq> []
      then (None, s)
      else let s = observe_reference_commits pf s in
      if reference_busy s \<or> sv_enable_writes_pending s \<noteq> [] \<or> sv_enable_echo_pending s \<noteq> [] \<or>
         sv_control_mode s \<notin> {CtlGravityComp, CtlPosition}
      then (None, s)
      else case filter (\<lambda>j. \<not> contains (sv_reference_authority s) j) (sv_active_joints s) of
          [lost] \<Rightarrow>
            if \<not> revoked_silent (sv_reference_authority s) lost then (None, s)
            else (case (cs_drive_loss (sv_control s), List.find (\<lambda>p. dp_joint p = lost) (ds_plans dl)) of
                (Some cfg, Some plan) \<Rightarrow>
                  if \<not> (case map_of (cs_joints (sv_control s)) lost of
                       Some entry \<Rightarrow> jc_on_drive_loss entry = ShedSubtree | None \<Rightarrow> False) then (None, s)
                  else let (now, s) = read_clock s
                       in (case (shed_targets s (dp_shed plan), holding_joints s plan now (sv_motors s) ([], f64_zero)) of
                             (Some shed, Some (holding, distance)) \<Rightarrow>
                               if holding = [] then None
                               else map_option (\<lambda>deadline. \<lparr>sd_lost = lost, sd_shed = shed, sd_holding = holding,
                                      sd_since = now, sd_deadline = deadline\<rparr>) (episode_deadline cfg distance now)
                           | _ \<Rightarrow> None, s)
              | _ \<Rightarrow> (None, s))
        | _ \<Rightarrow> (None, s))"

fun shed_disables :: "'b platform \<Rightarrow> (string \<times> motor_address \<times> f64) list \<Rightarrow> 'b supervisor \<Rightarrow> (unit, 'b) step" where
  "shed_disables pf [] s = (Ok (), s)"
| "shed_disables pf ((_, address, _) # rest) s =
     (case disable_drive_at (pf_bus pf) address (sv_bus s) of
        (Inr _, b) \<Rightarrow> shed_disables pf rest (s\<lparr>sv_bus := b\<rparr>)
      | (Inl e, b) \<Rightarrow>
          (let s = snd (record_runtime_error pf (DavBus e) (s\<lparr>sv_bus := b\<rparr>))
           in (Err (DavBus e), snd (disable_all pf s))))"

definition shed_forget :: "string \<times> motor_address \<times> f64 \<Rightarrow> 'b supervisor \<Rightarrow> 'b supervisor" where
  "shed_forget target s =
     (case target of (joint, address, _) \<Rightarrow>
       s\<lparr>sv_reference_authority := revoke_joint joint (sv_reference_authority s),
         sv_active_joints := filter (\<lambda>j. j \<noteq> joint) (sv_active_joints s),
         sv_unanswered_solicits := AList.delete address (sv_unanswered_solicits s),
         sv_last_tau_ff := AList.delete joint (sv_last_tau_ff s),
         sv_wrong_sign_state := AList.delete joint (sv_wrong_sign_state s),
         sv_feedback_velocity_trips := AList.delete joint (sv_feedback_velocity_trips s),
         sv_last_feedback_samples := AList.delete joint (sv_last_feedback_samples s)\<rparr>)"

definition shed_for_drive_loss :: "'b platform \<Rightarrow> 'b supervisor \<Rightarrow> (bool, 'b) step" where
  "shed_for_drive_loss pf s =
     (let (decision, s) = shed_decision pf s
      in case decision of
           None \<Rightarrow> (Ok False, s)
         | Some d \<Rightarrow>
             (let s = s\<lparr>sv_drive_loss := (sv_drive_loss s)\<lparr>ds_shed := ds_shed (sv_drive_loss s) @
                    map (\<lambda>(_, address, _). address) (sd_shed d), ds_shed_at := Some (sd_since d)\<rparr>\<rparr>
              in try_in (shed_disables pf (sd_shed d) s) (\<lambda>_ s.
                   let s = fold shed_forget (sd_shed d) s;
                       lost_address = map_option (\<lambda>(_, address, _). address)
                         (List.find (\<lambda>(joint, _, _). joint = sd_lost d) (sd_shed d))
                   in (Ok True, s\<lparr>sv_drive_loss := (sv_drive_loss s)\<lparr>ds_lost_address := lost_address,
                        ds_episode := Some \<lparr>ep_lost_joint = sd_lost d, ep_shed_joints = map fst (sd_shed d),
                          ep_holding_joints = sd_holding d,
                          ep_frozen_positions = map (\<lambda>(joint, _, p). (joint, p)) (sd_shed d),
                          ep_since = sd_since d, ep_deadline = sd_deadline d\<rparr>\<rparr>\<rparr>))))"

definition ensure_reference_for_active :: "'b platform \<Rightarrow> 'b supervisor \<Rightarrow> (bool, 'b) step" where
  "ensure_reference_for_active pf s =
     try_in (ensure_reference_binding pf s) (\<lambda>_ s.
     try_in (if sv_mode s = ModeActive \<and> \<not> active_references_held s then shed_for_drive_loss pf s else (Ok False, s))
       (\<lambda>shed s.
         let r = require_reference_permission (sv_active_joints s) s;
             s = (if \<not> is_ok r \<and> sv_mode s = ModeActive then snd (disable_all pf s) else s)
         in (rbind r (\<lambda>_. Ok shed), s)))"

definition check_active_references :: "'b platform \<Rightarrow> 'b supervisor \<Rightarrow> (unit, 'b) step" where
  "check_active_references pf s =
     (if sv_mode s \<noteq> ModeActive then (Ok (), s)
      else try_in (ensure_reference_for_active pf s) (\<lambda>_ s. (Ok (), s)))"

section \<open>The enable gate\<close>

definition loop_period :: "'b supervisor \<Rightarrow> duration" where
  "loop_period s = micros (1000000 div max (unat (cs_loop_hz (sv_control s))) 1)"

definition reporting_off_settled :: "'b supervisor \<Rightarrow> motor_address \<Rightarrow> instant \<Rightarrow> bool" where
  "reporting_off_settled s address now =
     (case Option.bind (motor_at (sv_motors s) address) (\<lambda>m. reporting_off_written s (me_joint m)) of
        None \<Rightarrow> False
      | Some written \<Rightarrow>
          (case map_of (sv_reporting_off_echoed s) address of
             None \<Rightarrow> False
           | Some echoed \<Rightarrow> written \<le> echoed \<and> loop_period s \<le> saturating_since now echoed))"

definition enable_catch_up :: "'b supervisor \<Rightarrow> motor_address \<Rightarrow> instant \<Rightarrow> bool" where
  "enable_catch_up s address now =
     (case enable_bounds_start s address of
        None \<Rightarrow> False | Some start \<Rightarrow> comm_window s div 2 \<le> saturating_since now start)"

text \<open>\<open>retain\<close>: what stays pending, and the wave in the order it is taken.\<close>

fun enable_wave ::
    "'b supervisor \<Rightarrow> instant \<Rightarrow> bool \<Rightarrow> motor_address list \<Rightarrow> motor_address list \<Rightarrow>
     motor_address list \<times> motor_address list" where
  "enable_wave s now stagger_due wave [] = ([], wave)"
| "enable_wave s now stagger_due wave (address # pending) =
     (if \<not> set_zero_quiet_elapsed s address now \<or> \<not> reporting_off_settled s address now \<or>
         \<not> enable_catch_up s address now \<and>
         (\<not> stagger_due \<or> list_ex (\<lambda>taken. addr_interface taken = addr_interface address) wave)
      then let (kept, wave) = enable_wave s now stagger_due wave pending in (address # kept, wave)
      else enable_wave s now stagger_due (wave @ [address]) pending)"

definition take_enable_wave :: "instant \<Rightarrow> 'b supervisor \<Rightarrow> motor_address list \<times> 'b supervisor" where
  "take_enable_wave now s =
     (let stagger_due = (case sv_enable_write_due s of None \<Rightarrow> True | Some due \<Rightarrow> due \<le> now);
          (pending, wave) = enable_wave s now stagger_due [] (sv_enable_writes_pending s)
      in (wave, s\<lparr>sv_enable_writes_pending := pending\<rparr>))"

definition session_group :: "(string \<Rightarrow> burst_pacer \<times> host_clock \<Rightarrow> burst_pacer \<times> host_clock) \<Rightarrow> string \<Rightarrow>
    'b supervisor \<Rightarrow> 'b supervisor" where
  "session_group f interface s =
     (let (p, h) = f interface (sv_session_pacer s, sv_clock s) in s\<lparr>sv_session_pacer := p, sv_clock := h\<rparr>)"

fun issue_reporting_offs :: "'b platform \<Rightarrow> instant \<Rightarrow> motor_address list \<Rightarrow> 'b supervisor \<Rightarrow> (unit, 'b) step" where
  "issue_reporting_offs pf now [] s = (Ok (), s)"
| "issue_reporting_offs pf now (address # rest) s =
     (case motor_at (sv_motors s) address of
        None \<Rightarrow> issue_reporting_offs pf now rest s
      | Some motor \<Rightarrow>
          if reporting_off_written s (me_joint motor) \<noteq> None \<or> \<not> set_zero_quiet_elapsed s address now
          then issue_reporting_offs pf now rest s
          else let (r, ar, b) = write_off (pf_bus pf) motor now (enable_catch_up s address now)
                     (sv_active_reporting s, sv_bus s);
                   s = s\<lparr>sv_active_reporting := ar, sv_bus := b\<rparr>
               in case r of
                    None \<Rightarrow> issue_reporting_offs pf now rest s
                  | Some (Inl e) \<Rightarrow> (Err (DavBus e), session_group record_group (me_can_interface motor) s)
                  | Some (Inr _) \<Rightarrow>
                      issue_reporting_offs pf now rest (session_group record_group (me_can_interface motor) s))"

definition issue_target_reporting_offs :: "'b platform \<Rightarrow> instant \<Rightarrow> 'b supervisor \<Rightarrow> (unit, 'b) step" where
  "issue_target_reporting_offs pf now s = issue_reporting_offs pf now (sv_enable_writes_pending s) s"

text \<open>A bus operation of the supervisor.\<close>

definition on_bus :: "('b \<Rightarrow> (unit, bus_error) result \<times> 'b) \<Rightarrow> 'b supervisor \<Rightarrow> (unit, 'b) step" where
  "on_bus f s = (let (r, b) = f (sv_bus s) in (map_err DavBus r, s\<lparr>sv_bus := b\<rparr>))"

definition write_enable :: "'b platform \<Rightarrow> motor_address \<Rightarrow> 'b supervisor \<Rightarrow> (unit, 'b) step" where
  "write_enable pf address s =
     (let (written_at, s) = read_clock s
      in try_in (on_bus (enable_drive_at (pf_bus pf) address) s) (\<lambda>_ s.
         try_in (on_bus (set_run_mode_at (pf_bus pf) address ModeMit) s) (\<lambda>_ s.
           (Ok (), note_solicit address written_at s))))"

fun write_enables :: "'b platform \<Rightarrow> motor_address list \<Rightarrow> 'b supervisor \<Rightarrow> (unit, 'b) step" where
  "write_enables pf [] s = (Ok (), s)"
| "write_enables pf (address # rest) s =
     try_in (write_enable pf address s) (\<lambda>_ s. write_enables pf rest s)"

fun write_enable_wave :: "'b platform \<Rightarrow> motor_address list \<Rightarrow> 'b supervisor \<Rightarrow> (unit, 'b) step" where
  "write_enable_wave pf [] s = (Ok (), s)"
| "write_enable_wave pf (address # rest) s =
     try_in (write_enable pf address s) (\<lambda>_ s.
       write_enable_wave pf rest (session_group record_group (addr_interface address) s))"

definition issue_due_enable_writes :: "'b platform \<Rightarrow> instant \<Rightarrow> 'b supervisor \<Rightarrow> (unit, 'b) step" where
  "issue_due_enable_writes pf now s =
     (if sv_mode s \<noteq> ModeActive \<or> sv_enable_writes_pending s = [] \<or> sv_active_since s = None then (Ok (), s)
      else try_in (issue_target_reporting_offs pf now s) (\<lambda>_ s.
        let (wave, s) = take_enable_wave now s
        in if wave = [] then (Ok (), s)
           else try_in (write_enable_wave pf wave s) (\<lambda>_ s.
             (Ok (), s\<lparr>sv_enable_write_due := Some (now + int (loop_period s))\<rparr>))))"

section \<open>The feedback poll\<close>

definition enable_echo_overdue ::
    "'b platform \<Rightarrow> instant \<Rightarrow> 'b supervisor \<Rightarrow> (davout_error \<times> bool) option \<times> 'b supervisor" where
  "enable_echo_overdue pf now s =
     (if sv_mode s \<noteq> ModeActive \<or> sv_enable_echo_pending s = [] then (None, s)
      else let overdue = (\<lambda>m. let address = motor_address_of m in
                 address \<in> set (sv_enable_echo_pending s) \<and>
                 (case enable_bounds_start s address of
                    None \<Rightarrow> False | Some start \<Rightarrow> start \<le> now \<and> comm_window s < saturating_since now start))
           in case List.find overdue (sv_stop_motors s) of
                None \<Rightarrow> (None, s)
              | Some motor \<Rightarrow>
                  (let address = motor_address_of motor;
                       bound_ms = show_nat (unat (cs_comm_watchdog_ms (sv_control s)));
                       message =
                         (if address \<in> set (sv_enable_writes_pending s) \<and> map_of (sv_reporting_off_echoed s) address = None
                          then ''type-24 Off not observed on the bus within '' @ bound_ms @
                            '' ms; Enable withheld, drive state unconfirmed''
                          else ''Enable not observed on the bus within '' @ bound_ms @ '' ms; drive state unconfirmed'');
                       e = DavInvalidFeedback (me_joint motor) [Txt message];
                       (transition, s) = record_fault FcDriveState (Some (me_joint motor)) (Some address)
                         (pf_error_text pf e) device_fault_default s
                   in (Some (e, transition), s)))"

definition feedback_drain_quiet :: "'b supervisor \<Rightarrow> duration" where
  "feedback_drain_quiet s = micros (unat (cs_feedback_drain_quiet_us (sv_control s)))"

definition receive_report :: "'b platform \<Rightarrow> duration \<Rightarrow> 'b supervisor \<Rightarrow> feedback_report \<times> 'b supervisor" where
  "receive_report pf budget s =
     (let (clk, h) = pf_drain_clock pf (sv_clock s);
          (report, b) = recv_feedback_report (pf_bus pf) clk (sv_motor_types s) budget (feedback_drain_quiet s) (sv_bus s)
      in (report, s\<lparr>sv_clock := h, sv_bus := b\<rparr>))"

text \<open>The poll before the queue is read: the reference as it stands, and the staggered writes.\<close>

definition stop_on_enable_error :: "'b platform \<Rightarrow> davout_error \<Rightarrow> 'b supervisor \<Rightarrow> 'b supervisor" where
  "stop_on_enable_error pf e s =
     (let already_stopped = has_latched_fault s; s = snd (record_runtime_error pf e s)
      in if already_stopped then s else snd (disable_all pf s))"

definition poll_before_read :: "'b platform \<Rightarrow> 'b supervisor \<Rightarrow> (bool, 'b) step" where
  "poll_before_read pf s =
     try_in (enforce_degraded_deadline pf s) (\<lambda>_ s.
       let (valid, s) = reference_binding_valid_with pf Defer s;
           lost = (sv_mode s = ModeActive \<and> \<not> (valid \<and> active_references_held s))
       in try_in (if lost \<and> valid then shed_for_drive_loss pf s else (Ok False, s)) (\<lambda>shed s.
            let lost = (lost \<and> \<not> shed)
            in if lost then (Ok lost, s)
               else let (now, s) = read_clock s
                    in case issue_due_enable_writes pf now s of
                         (Inl e, s) \<Rightarrow> (Err e, stop_on_enable_error pf e s)
                       | (Inr _, s) \<Rightarrow> (Ok lost, s)))"

text \<open>The poll after the queue is read: what was consumed, the grants judged now, and the echoes.\<close>

definition poll_after_read ::
    "'b platform \<Rightarrow> bool \<Rightarrow> feedback_consumption \<Rightarrow> 'b supervisor \<Rightarrow> davout_error option \<times> 'b supervisor" where
  "poll_after_read pf lost consumption s =
     (let (valid, s) = reference_binding_valid pf s;
          lapsed = (\<not> lost \<and> sv_mode s = ModeActive \<and> \<not> (valid \<and> active_references_held s));
          first_error = fc_first_error consumption; first_transition = fc_first_transition consumption;
          (now, s) = read_clock s;
          (overdue, s) = enable_echo_overdue pf now s;
          first_transition = (first_transition \<or> (case overdue of Some (_, t) \<Rightarrow> t | None \<Rightarrow> False));
          first_error = (case first_error of Some e \<Rightarrow> Some e | None \<Rightarrow> map_option fst overdue);
          (lapsed, first_error, s) =
            (if lapsed \<and> valid \<and> \<not> first_transition \<and> first_error = None
             then (case shed_for_drive_loss pf s of
                 (Inr shed, s) \<Rightarrow> (\<not> shed, first_error, s) | (Inl e, s) \<Rightarrow> (lapsed, Some e, s))
             else (lapsed, first_error, s));
          s = (if first_transition then snd (disable_all pf s) else s)
      in if lost \<or> lapsed
         then (case first_error of
                 Some e \<Rightarrow> Some e
               | None \<Rightarrow> Some (DavHoming [Txt (if lost then ''current reference was revoked before feedback projection''
                   else ''current reference was revoked after feedback projection'')]),
               if sv_mode s = ModeActive then snd (disable_all pf s) else s)
         else (first_error, s))"

definition poll_feedback :: "'b platform \<Rightarrow> duration \<Rightarrow> 'b supervisor \<Rightarrow> (nat, 'b) step" where
  "poll_feedback pf budget s =
     try_in (poll_before_read pf s) (\<lambda>lost s.
       let (report, s) = receive_report pf budget s;
           count = length (fr_observations report);
           s = s\<lparr>sv_last_refresh_frames := sv_last_refresh_frames s + count\<rparr>;
           (consumption, s) = consume_report_in_context pf report Operational s;
           (first_error, s) = poll_after_read pf lost consumption s
       in (case first_error of Some e \<Rightarrow> Err e | None \<Rightarrow> Ok count, s))"

definition drain_feedback :: "'b platform \<Rightarrow> 'b supervisor \<Rightarrow> (nat, 'b) step" where
  "drain_feedback pf s =
     try_in (refuse_reference_interference pf ''ordinary feedback drain'' s) (\<lambda>_ s. poll_feedback pf 0 s)"

definition begin_tick_feedback :: "'b supervisor \<Rightarrow> 'b supervisor" where
  "begin_tick_feedback s = s\<lparr>sv_last_refresh_frames := 0\<rparr>"

section \<open>Identities at admission\<close>

type_synonym identity_target = "string \<times> motor_address \<times> device_uid"

fun identity_targets :: "'b supervisor \<Rightarrow> string list \<Rightarrow> (identity_target list, davout_error) result" where
  "identity_targets s [] = Ok []"
| "identity_targets s (joint # joints) =
     rbind (ok_or (binding_for (sv_reference_authority s) joint)
       (DavHoming [Txt (''joint '' @ joint @ '': no private current-reference permission'')])) (\<lambda>b.
     rbind (ok_or (cb_uid b) (DavHomingVerify joint [Txt ''physical grant has no bound device identity''])) (\<lambda>uid.
     rbind (identity_targets s joints) (\<lambda>rest. Ok ((joint, cb_address b, uid) # rest))))"

text \<open>The targets still unanswered, or the first one whose identity changed.\<close>

fun identity_scan ::
    "physical_devices \<Rightarrow> u64 \<Rightarrow> nat \<Rightarrow> identity_target list \<Rightarrow> (nat list, string \<times> device_uid \<times> device_uid) result" where
  "identity_scan pd mark i [] = Ok []"
| "identity_scan pd mark i ((joint, address, bound) # rest) =
     (case identity_after pd address mark of
        Some observed \<Rightarrow>
          if observed = bound then identity_scan pd mark (Suc i) rest else Err (joint, bound, observed)
      | None \<Rightarrow> rbind (identity_scan pd mark (Suc i) rest) (\<lambda>missing. Ok (i # missing)))"

definition show_uid :: "device_uid \<Rightarrow> string" where
  "show_uid uid =
     concat (map (\<lambda>b. let s = show_nat_acc 16 (unat b) [] in replicate (2 - length s) (CHR ''0'') @ s) (uid_bytes uid))"

definition due_at :: "instant option list \<Rightarrow> instant \<Rightarrow> nat \<Rightarrow> instant" where
  "due_at asked next_request i =
     (case asked ! i of
        None \<Rightarrow> next_request | Some t \<Rightarrow> max (t + int IDENTITY_ADMISSION_RETRY) next_request)"

text \<open>\<open>min_by_key\<close> over \<open>Option<Instant>\<close>: the first of the least, a target never asked first.\<close>

fun least_asked :: "instant option list \<Rightarrow> nat list \<Rightarrow> nat option" where
  "least_asked asked [] = None"
| "least_asked asked (i # is) =
     (case least_asked asked is of
        None \<Rightarrow> Some i
      | Some j \<Rightarrow> if later_option (asked ! i) (asked ! j) then Some j else Some i)"

partial_function (option) identity_loop ::
    "'b platform \<Rightarrow> identity_target list \<Rightarrow> u64 \<Rightarrow> instant \<Rightarrow> instant option list \<Rightarrow> instant \<Rightarrow> 'b supervisor \<Rightarrow>
     (unit, 'b) step option" where
  "identity_loop pf targets mark deadline asked next_request s =
     (case identity_scan (sv_physical s) mark 0 targets of
        Inl (joint, bound, observed) \<Rightarrow>
          Some (Err (DavHomingVerify joint [Txt (''device identity changed: bound '' @ show_uid bound @
                  '', observed '' @ show_uid observed)]),
                s\<lparr>sv_reference_authority := revoke_joint joint (sv_reference_authority s)\<rparr>)
      | Inr missing \<Rightarrow>
          if missing = [] then Some (Ok (), s)
          else (case read_clock s of (now, s1) \<Rightarrow>
            if deadline \<le> now
            then Some (Err (DavHomingVerify (join_strings '','' (map (\<lambda>i. fst (targets ! i)) missing))
                         [Txt ''device identity reply missing at admission'']),
                       s1\<lparr>sv_reference_authority := fold (\<lambda>i. revoke_joint (fst (targets ! i))) missing
                         (sv_reference_authority s1)\<rparr>)
            else (case least_asked asked (filter (\<lambda>i. due_at asked next_request i \<le> now) missing) of
                Some i \<Rightarrow>
                  (case get_device_id_at (pf_bus pf) (fst (snd (targets ! i))) (sv_bus s1) of
                     (Inl e, b) \<Rightarrow> Some (Err (DavBus e), s1\<lparr>sv_bus := b\<rparr>)
                   | (Inr _, b) \<Rightarrow>
                       identity_loop pf targets mark deadline (asked[i := Some now])
                         (now + int IDENTITY_ADMISSION_SPACING) (s1\<lparr>sv_bus := b\<rparr>))
              | None \<Rightarrow>
                  (case read_clock s1 of (t, s2) \<Rightarrow>
                     (case poll_feedback pf
                         (min (saturating_since (fold min (map (due_at asked next_request) missing) deadline) t)
                            IDENTITY_ADMISSION_POLL)
                         (sync_active_reporting pf s2) of
                        (Inl e, s3) \<Rightarrow> Some (Err e, s3)
                      | (Inr _, s3) \<Rightarrow> identity_loop pf targets mark deadline asked next_request s3)))))"

definition verify_physical_identities :: "'b platform \<Rightarrow> string list \<Rightarrow> 'b supervisor \<Rightarrow> (unit, 'b) step option" where
  "verify_physical_identities pf joints s =
     (if \<not> backend_is_physical (sv_backend s) then Some (Ok (), s)
      else case identity_targets s joints of
          Inl e \<Rightarrow> Some (Err e, s)
        | Inr targets \<Rightarrow>
            (let mark = watermark (sv_physical s); (start, s) = read_clock s;
                 deadline = start + int (IDENTITY_ADMISSION_TIMEOUT +
                   IDENTITY_ADMISSION_SPACING * min (2 * (length targets - 1)) (2 ^ 32 - 1))
             in identity_loop pf targets mark deadline (replicate (length targets) None) start s))"

section \<open>Enable\<close>

fun check_disabled_poses_at_enable :: "string list \<Rightarrow> 'b supervisor \<Rightarrow> (unit, 'b) step" where
  "check_disabled_poses_at_enable [] s = (Ok (), s)"
| "check_disabled_poses_at_enable (joint # joints) s =
     (case motor_index s joint of
        None \<Rightarrow> check_disabled_poses_at_enable joints s
      | Some index \<Rightarrow>
          (let (published, s) = published_state index s
           in case published of
                None \<Rightarrow> check_disabled_poses_at_enable joints s
              | Some st \<Rightarrow>
                  (let (now, s) = read_clock s
                   in if is_stale now (comm_window s) st then check_disabled_poses_at_enable joints s
                      else case map_of (sv_limits s) joint of
                          None \<Rightarrow> check_disabled_poses_at_enable joints s
                        | Some pol \<Rightarrow>
                            (let pos = f64_from_f32 (ms_position_rad st)
                             in if measured_position_fault pos pol
                                then (Err (DavLimit joint [Txt ''measured position '', Num pos, Txt '' outside ['',
                                        Num (hard_lower pol), Txt '', '', Num (hard_upper pol), Txt ''] (+ slack '',
                                        Num (lm_measured_fault_slack_rad (jp_margin pol)), Txt '') at Enable'']),
                                      s\<lparr>sv_out_of_limits := ool_mark joint True (sv_out_of_limits s)\<rparr>)
                                else check_disabled_poses_at_enable joints s))))"

definition activate :: "'b platform \<Rightarrow> string list \<Rightarrow> 'b supervisor \<Rightarrow> 'b supervisor" where
  "activate pf joints s =
     (let s = s\<lparr>sv_active_joints := remdups joints,
               sv_unanswered_solicits := map (\<lambda>m. (motor_address_of m, solicited_default))
                 (filter (\<lambda>m. me_joint m \<in> set joints) (sv_motors s)),
               sv_mode := ModeActive\<rparr>;
          (activated_at, s) = read_clock s
      in sync_active_reporting pf (s\<lparr>sv_active_since := Some activated_at, sv_enable_write_due := None,
           sv_wrong_sign_state := [], sv_last_tau_ff := [], sv_last_tick := None\<rparr>))"

definition enable_session :: "'b platform \<Rightarrow> string list \<Rightarrow> 'b supervisor \<Rightarrow> (unit, 'b) step" where
  "enable_session pf joints s =
     try_in (for_each (\<lambda>joint. refuse_if (motor_for_joint (sv_motors s) joint = None) (DavUnknownJoint joint)) joints, s)
       (\<lambda>_ s.
         let addresses = map (\<lambda>joint. motor_address_of (the (motor_for_joint (sv_motors s) joint))) joints
         in try_in
              (if bus_echoes (pf_bus pf) (sv_bus s)
               then let (now, s) = read_clock s; s = begin_reporting_off_gate now s;
                        s = s\<lparr>sv_enable_echo_pending := fold List.insert addresses (sv_enable_echo_pending s),
                              sv_enable_writes_pending := addresses\<rparr>
                    in issue_target_reporting_offs pf now s
               else write_enables pf addresses s) (\<lambda>_ s.
            try_in (poll_feedback pf 0 s) (\<lambda>_ s.
            try_in (ensure_reference_for pf joints s) (\<lambda>_ s.
              (Ok (), activate pf joints s)))))"

definition enable_targets_inner :: "'b platform \<Rightarrow> string list \<Rightarrow> 'b supervisor \<Rightarrow> (unit, 'b) step option" where
  "enable_targets_inner pf joints s =
     (case try_in (require_fault_clear s, s) (\<lambda>_ s. ensure_reference_for pf joints s) of
        (Inl e, s) \<Rightarrow> Some (Err e, s)
      | (Inr _, s) \<Rightarrow>
          (case verify_physical_identities pf joints s of
             None \<Rightarrow> None
           | Some (Inl e, s) \<Rightarrow> Some (Err e, stop_after_runtime_error pf e s)
           | Some (Inr _, s) \<Rightarrow>
               Some (try_in (poll_feedback pf 0 s) (\<lambda>_ s.
                 try_in (ensure_reference_for pf joints s) (\<lambda>_ s.
                   case check_disabled_poses_at_enable joints s of
                     (Inl e, s) \<Rightarrow> (Err e, stop_after_runtime_error pf e s)
                   | (Inr _, s) \<Rightarrow>
                       (case enable_session pf joints s of
                          (Inl e, s) \<Rightarrow> (Err e, stop_on_enable_error pf e s)
                        | (Inr _, s) \<Rightarrow> (Ok (), s)))))))"

definition enable_admission :: "'b platform \<Rightarrow> string list \<Rightarrow> 'b supervisor \<Rightarrow> (unit, 'b) step" where
  "enable_admission pf joints s =
     try_in (require_fault_clear s, s) (\<lambda>_ s.
     try_in (refuse_during_episode ''enable refused'' s, s) (\<lambda>_ s.
     try_in (refuse_if (reference_work_pending s) (DavReferenceBusy ''enable''), s) (\<lambda>_ s.
     try_in (refuse_if (sv_hardware_estop s) DavEstop, s) (\<lambda>_ s.
     try_in (if sv_mode s = ModeActive
             then try_in (ensure_reference_for_active pf s) (\<lambda>_ s. (refuse_during_episode ''enable refused'' s, s))
             else (Ok (), s)) (\<lambda>_ s.
     try_in (refuse_if (joints = []) (DavHoming [Txt ''enable targets empty'']), s) (\<lambda>_ s.
     try_in (for_each (\<lambda>joint. refuse_if (motor_for_joint (sv_motors s) joint = None) (DavUnknownJoint joint)) joints, s)
       (\<lambda>_ s. ensure_reference_for pf joints s)))))))"

definition enable_targets :: "'b platform \<Rightarrow> string list \<Rightarrow> 'b supervisor \<Rightarrow> (unit, 'b) step option" where
  "enable_targets pf joints s =
     (case enable_admission pf joints s of
        (Inl e, s) \<Rightarrow> Some (Err e, s)
      | (Inr _, s) \<Rightarrow>
          if sv_mode s = ModeActive
          then Some (if set joints = set (sv_active_joints s) then Ok () else Err DavActiveSetChangeRefused, s)
          else enable_targets_inner pf joints s)"

definition set_homing_complete :: "'b platform \<Rightarrow> 'b supervisor \<Rightarrow> (unit, 'b) step" where
  "set_homing_complete pf s =
     try_in (refuse_reference_interference pf ''set_homing_complete'' s) (\<lambda>_ s.
     try_in (require_fault_clear s, s) (\<lambda>_ s.
     try_in (refuse_if (sv_mode s = ModeActive)
       (DavHoming [Txt ''Ready transition refused while ACTIVE; disable first'']), s) (\<lambda>_ s.
     try_in (refuse_if (sv_hardware_estop s) DavEstop, s) (\<lambda>_ s.
     try_in (ensure_reference_for pf (rb_joints (sv_robot s)) s) (\<lambda>_ s.
       (Ok (), sync_active_reporting pf (s\<lparr>sv_mode := ModeReady\<rparr>)))))))"

end
