(* ===== verification/Davout_Motion.thy ===== *)
theory Davout_Motion
  imports Davout_Session
begin

text \<open>
  The motion path of the \<open>Supervisor\<close> (\<open>davout/src/lib.rs\<close>): the communication watchdog, the admission
  of a batch of joint commands, its delivery, the seed of the feed-forward limiter and the homing state of
  a joint. A batch is one list of wire commands with what each commits; the reused buffers of the code
  never outlive one call.
\<close>

section \<open>The communication watchdog\<close>

definition require_active_joint :: "string \<Rightarrow> 'b supervisor \<Rightarrow> (unit, davout_error) result" where
  "require_active_joint joint s =
     rbind (require_fault_clear s) (\<lambda>_.
     rbind (refuse_if (sv_mode s \<noteq> ModeActive) (DavNotActive (sv_mode s))) (\<lambda>_.
     refuse_if (joint \<notin> set (sv_active_joints s)) (DavInactiveJoint joint)))"

definition watched_motors :: "'b supervisor \<Rightarrow> (nat \<times> motor_entry) list" where
  "watched_motors s = filter (\<lambda>(_, m). me_joint m \<in> set (sv_active_joints s)) (enumerate 0 (sv_motors s))"

definition fault_check :: "'b supervisor \<Rightarrow> nat \<times> motor_entry \<Rightarrow> (unit, davout_error) result" where
  "fault_check s im =
     (case map_of (sv_motor_states s) (address_for s (fst im) (snd im)) of
        None \<Rightarrow> Ok ()
      | Some st \<Rightarrow> refuse_if (ms_fault st \<noteq> 0) (DavMotorFault (me_joint (snd im)) (ms_fault st)))"

text \<open>A pose is current, or the batch is inert and the address is within its enable bounds.\<close>

definition pose_admitted :: "'b supervisor \<Rightarrow> bool \<Rightarrow> instant \<Rightarrow> motor_address \<Rightarrow> bool" where
  "pose_admitted s neutral_bootstrap now address \<longleftrightarrow>
     address \<notin> set (sv_invalid_feedback s) \<and>
     ((case map_of (sv_motor_states s) address of Some st \<Rightarrow> pose_is_current s address st now | None \<Rightarrow> False) \<or>
      neutral_bootstrap \<and>
      (case enable_bounds_start s address of Some start \<Rightarrow> saturating_since now start \<le> comm_window s | None \<Rightarrow> False))"

definition pose_age_ms :: "'b supervisor \<Rightarrow> instant \<Rightarrow> motor_address \<Rightarrow> nat option" where
  "pose_age_ms s now address =
     (case Option.bind (map_of (sv_motor_states s) address) ms_updated of
        None \<Rightarrow> None
      | Some received \<Rightarrow>
          if received \<le> now then Some (min (saturating_since now received div 1000000) (2 ^ 64 - 1)) else None)"

definition pose_check :: "'b supervisor \<Rightarrow> bool \<Rightarrow> instant \<Rightarrow> nat \<times> motor_entry \<Rightarrow> (unit, davout_error) result" where
  "pose_check s neutral_bootstrap now im =
     (let address = address_for s (fst im) (snd im)
      in refuse_if (\<not> pose_admitted s neutral_bootstrap now address)
           (DavCommWatchdog (cs_comm_watchdog_ms (sv_control s)) (me_joint (snd im)) (addr_interface address)
              (addr_device_id address) (pose_age_ms s now address)))"

definition check_comm_watchdog :: "bool \<Rightarrow> 'b supervisor \<Rightarrow> (unit, 'b) step" where
  "check_comm_watchdog neutral_bootstrap s =
     try_in (require_fault_clear s, s) (\<lambda>_ s.
       if sv_mode s \<noteq> ModeActive then (Ok (), s)
       else if cs_comm_watchdog_ms (sv_control s) = 0
       then (Err (DavInvalidCommand ''*'' [Txt ''communication watchdog must be positive'']), s)
       else try_in (for_each (fault_check s) (watched_motors s), s) (\<lambda>_ s.
         let (now, s) = read_clock s in (for_each (pose_check s neutral_bootstrap now) (watched_motors s), s)))"

section \<open>Admission of a batch\<close>

record staged_mit_state =
  sm_motor :: nat
  sm_tau_ff_nm :: f64
  sm_wrong_sign :: "wrong_sign_state option"
  sm_total_torque :: "total_torque_clamp option"
  sm_envelope_clamped :: bool

text \<open>The configured motor of every command, in order.\<close>

fun admit_commands ::
    "'b supervisor \<Rightarrow> motor_entry option \<Rightarrow> nat list \<Rightarrow> mit_joint_command list \<Rightarrow> (nat list, davout_error) result" where
  "admit_commands s supplied configured [] = Ok configured"
| "admit_commands s supplied configured (cmd # cmds) =
     rbind (require_active_joint (mj_joint cmd) s) (\<lambda>_.
     rbind (ok_or (motor_index s (mj_joint cmd)) (DavUnknownJoint (mj_joint cmd))) (\<lambda>index.
       let own = sv_motors s ! index; motor = unwrap_or supplied own in
     rbind (refuse_if (me_can_interface motor \<noteq> me_can_interface own \<or> me_device_id motor \<noteq> me_device_id own \<or>
         me_motor_type motor \<noteq> me_motor_type own \<or> me_direction motor \<noteq> me_direction own \<or>
         \<not> f64_eq (me_gear_ratio motor) (me_gear_ratio own))
       (DavInvalidMotorConfig (mj_joint cmd) [Txt ''command motor differs from configured joint mapping''])) (\<lambda>_.
     rbind (refuse_if (mj_joint cmd \<noteq> me_joint motor \<or> index \<in> set configured)
       (DavInvalidCommand (mj_joint cmd) [Txt ''joint/address mismatch or repeated joint in batch''])) (\<lambda>_.
       admit_commands s supplied (configured @ [index]) cmds))))"

definition tick_elapsed :: "'b supervisor \<Rightarrow> duration option \<times> 'b supervisor" where
  "tick_elapsed s =
     (case sv_last_tick s of
        None \<Rightarrow> (None, s)
      | Some t \<Rightarrow> (let (now, s) = read_clock s in (Some (saturating_since now t), s)))"

definition filter_one ::
    "mit_joint_command \<Rightarrow> motor_entry \<Rightarrow> nat \<Rightarrow> 'b supervisor \<Rightarrow>
     (addressed_mit_command \<times> staged_mit_state \<times> bool, 'b) step" where
  "filter_one cmd motor index s =
     (let (q, s) = published_state index s; (dq, s) = published_state index s; (elapsed, s) = tick_elapsed s
      in (rbind (filter_mit_core s cmd motor q dq elapsed) (\<lambda>f.
          rbind (case wrong_sign_step s (fm_out f) (fm_q_meas f) (fm_dq_meas f) of
                   None \<Rightarrow> Ok None | Some (st, admitted) \<Rightarrow> rbind admitted (\<lambda>_. Ok (Some st))) (\<lambda>wrong_sign.
          rbind (validate_mit_command (fm_out f)) (\<lambda>_.
          rbind (joint_to_motor_command motor (fm_out f)) (\<lambda>command.
            Ok (\<lparr>amc_address = motor_address_of motor, amc_command = command\<rparr>,
                \<lparr>sm_motor = index, sm_tau_ff_nm = mj_torque_ff_nm (fm_out f), sm_wrong_sign = wrong_sign,
                 sm_total_torque = fm_total_torque f, sm_envelope_clamped = fm_envelope_clamped f\<rparr>,
                f64_eq (mj_kp (fm_out f)) f64_zero \<and> f64_eq (mj_kd (fm_out f)) f64_zero \<and>
                f64_eq (mj_torque_ff_nm (fm_out f)) f64_zero \<and> f64_eq (mj_velocity_rad_s (fm_out f)) f64_zero))))), s))"

fun filter_batch ::
    "motor_entry option \<Rightarrow> (mit_joint_command \<times> nat) list \<Rightarrow> 'b supervisor \<Rightarrow>
     ((addressed_mit_command \<times> staged_mit_state \<times> bool) list, 'b) step" where
  "filter_batch supplied [] s = (Ok [], s)"
| "filter_batch supplied ((cmd, index) # rest) s =
     try_in (filter_one cmd (unwrap_or supplied (sv_motors s ! index)) index s) (\<lambda>x s.
     try_in (filter_batch supplied rest s) (\<lambda>xs s. (Ok (x # xs), s)))"

type_synonym mit_batch = "(addressed_mit_command \<times> staged_mit_state) list"

definition shed_after_stale_pose :: "'b platform \<Rightarrow> mit_batch \<Rightarrow> 'b supervisor \<Rightarrow> (mit_batch option, 'b) step" where
  "shed_after_stale_pose pf batch s =
     (if sv_mode s \<noteq> ModeActive then (Ok None, s)
      else let (_, s) = reference_binding_valid pf s
           in if active_references_held s then (Ok None, s)
              else try_in (shed_for_drive_loss pf s) (\<lambda>shed s.
                if \<not> shed then (Ok None, s)
                else let kept = filter (\<lambda>(w, _). \<not> is_shed (sv_drive_loss s) (amc_address w)) batch
                     in case check_comm_watchdog False s of
                          (Inl e, s) \<Rightarrow> (Err e, stop_after_runtime_error pf e s)
                        | (Inr _, s) \<Rightarrow> (Ok (Some kept), s)))"

definition stops_batch :: "davout_error \<Rightarrow> bool" where
  "stops_batch e =
     (case e of
        DavCommWatchdog _ _ _ _ _ \<Rightarrow> True | DavMotorFault _ _ \<Rightarrow> True
      | DavWrongSignWatchdog _ _ \<Rightarrow> True | DavDangerZone _ _ \<Rightarrow> True | _ \<Rightarrow> False)"

definition is_comm_watchdog :: "davout_error \<Rightarrow> bool" where
  "is_comm_watchdog e = (case e of DavCommWatchdog _ _ _ _ _ \<Rightarrow> True | _ \<Rightarrow> False)"

definition reject_batch :: "'b platform \<Rightarrow> davout_error \<Rightarrow> 'b supervisor \<Rightarrow> ('a, 'b) step" where
  "reject_batch pf e s = (Err e, if stops_batch e then stop_after_runtime_error pf e s else s)"

definition prepare_mit_batch ::
    "'b platform \<Rightarrow> motor_entry option \<Rightarrow> (mit_joint_command \<times> nat) list \<Rightarrow> 'b supervisor \<Rightarrow> (mit_batch, 'b) step" where
  "prepare_mit_batch pf supplied cmds s =
     (case filter_batch supplied cmds s of
        (Inl e, s) \<Rightarrow> reject_batch pf e s
      | (Inr xs, s) \<Rightarrow>
          (let batch = map (\<lambda>(w, st, _). (w, st)) xs; neutral = list_all (\<lambda>(_, _, n). n) xs
           in case check_comm_watchdog neutral s of
                (Inr _, s) \<Rightarrow> (Ok batch, s)
              | (Inl e, s) \<Rightarrow>
                  if \<not> is_comm_watchdog e then reject_batch pf e s
                  else try_in (shed_after_stale_pose pf batch s) (\<lambda>kept s.
                    case kept of Some batch \<Rightarrow> (Ok batch, s) | None \<Rightarrow> reject_batch pf e s)))"

section \<open>Delivery\<close>

definition reporting_may_stream :: "'b supervisor \<Rightarrow> string \<Rightarrow> instant \<Rightarrow> bool" where
  "reporting_may_stream s interface now \<longleftrightarrow>
     list_ex (\<lambda>a. addr_interface a = interface \<and> \<not> reporting_off_settled s a now) (sv_enable_writes_pending s) \<or>
     list_ex (\<lambda>m. me_can_interface m = interface \<and> applied_on (me_joint m) (sv_active_reporting s)) (sv_motors s)"

fun write_bootstrap_wires :: "'b platform \<Rightarrow> instant \<Rightarrow> addressed_mit_command list \<Rightarrow> 'b supervisor \<Rightarrow> (unit, 'b) step" where
  "write_bootstrap_wires pf now [] s = (Ok (), s)"
| "write_bootstrap_wires pf now (wire # wires) s =
     (if amc_address wire \<in> set (sv_enable_writes_pending s) then write_bootstrap_wires pf now wires s
      else let interface = addr_interface (amc_address wire);
               s = (if reporting_may_stream s interface now then session_group begin_group interface s else s)
           in try_in (on_bus (mit_control_all_at (pf_bus pf) [wire]) s) (\<lambda>_ s. write_bootstrap_wires pf now wires s))"

definition write_mit_wires :: "'b platform \<Rightarrow> addressed_mit_command list \<Rightarrow> 'b supervisor \<Rightarrow> (unit, 'b) step" where
  "write_mit_wires pf wires s =
     (if sv_mode s \<noteq> ModeActive \<or> sv_enable_writes_pending s = []
      then on_bus (mit_control_all_at (pf_bus pf) wires) s
      else let (now, s) = read_clock s in write_bootstrap_wires pf now wires s)"

definition commit_staged :: "instant \<Rightarrow> staged_mit_state \<Rightarrow> 'b supervisor \<Rightarrow> 'b supervisor" where
  "commit_staged batch_tick stage s =
     (let joint = me_joint (sv_motors s ! sm_motor stage)
      in s\<lparr>sv_last_tau_ff := store_by_joint (sv_last_tau_ff s) joint (sm_tau_ff_nm stage),
           sv_wrong_sign_state := (case sm_wrong_sign stage of
             Some st \<Rightarrow> store_by_joint (sv_wrong_sign_state s) joint st | None \<Rightarrow> sv_wrong_sign_state s),
           sv_total_torque_clamps := (if sm_total_torque stage \<noteq> None
             then record_clamp joint batch_tick (sv_total_torque_clamps s) else sv_total_torque_clamps s),
           sv_envelope_clamps := (if sm_envelope_clamped stage
             then count_by_joint (sv_envelope_clamps s) joint else sv_envelope_clamps s)\<rparr>)"

definition deliver_batch :: "'b platform \<Rightarrow> instant \<Rightarrow> mit_batch \<Rightarrow> 'b supervisor \<Rightarrow> (unit, 'b) step" where
  "deliver_batch pf batch_tick batch s =
     (let (written_at, s) = read_clock s
      in case write_mit_wires pf (map fst batch) s of
           (Inl e, s) \<Rightarrow> (Err e, stop_after_runtime_error pf e s)
         | (Inr _, s) \<Rightarrow>
             (let s = fold (commit_staged batch_tick) (map snd batch) s
              in (Ok (), s\<lparr>sv_unanswered_solicits :=
                    map (\<lambda>(a, slot). (a, note_asked written_at slot)) (sv_unanswered_solicits s),
                  sv_last_tick := Some batch_tick\<rparr>)))"

definition mit_admission ::
    "'b platform \<Rightarrow> mit_joint_command list \<Rightarrow> 'b supervisor \<Rightarrow> (mit_joint_command list, 'b) step" where
  "mit_admission pf cmds s =
     try_in (enforce_degraded_deadline pf s) (\<lambda>_ s.
     try_in (require_fault_clear s, s) (\<lambda>_ s.
     try_in (refuse_if (sv_hardware_estop s) DavEstop, s) (\<lambda>_ s.
     try_in (for_each validate_mit_command cmds, s) (\<lambda>_ s.
     try_in (ensure_reference_for_active pf s) (\<lambda>shed s.
       (Ok (case (shed, ds_episode (sv_drive_loss s)) of
              (True, Some episode) \<Rightarrow> filter (\<lambda>c. mj_joint c \<notin> set (ep_shed_joints episode)) cmds
            | _ \<Rightarrow> cmds), sync_motor_addresses s))))))"

definition admit_and_send_mit ::
    "'b platform \<Rightarrow> mit_joint_command list \<Rightarrow> motor_entry option \<Rightarrow> 'b supervisor \<Rightarrow> (unit, 'b) step" where
  "admit_and_send_mit pf cmds supplied s =
     try_in (mit_admission pf cmds s) (\<lambda>cmds s.
     try_in (admit_commands s supplied [] cmds, s) (\<lambda>configured s.
       let (batch_tick, s) = read_clock s
       in try_in (prepare_mit_batch pf supplied (zip cmds configured) s) (\<lambda>batch s.
            deliver_batch pf batch_tick batch s)))"

definition send_mit_joint :: "'b platform \<Rightarrow> mit_joint_command \<Rightarrow> motor_entry \<Rightarrow> 'b supervisor \<Rightarrow> (unit, 'b) step" where
  "send_mit_joint pf cmd motor s = admit_and_send_mit pf [cmd] (Some motor) s"

definition send_mit_batch :: "'b platform \<Rightarrow> mit_joint_command list \<Rightarrow> 'b supervisor \<Rightarrow> (unit, 'b) step" where
  "send_mit_batch pf cmds s =
     (case List.find (\<lambda>c. motor_index s (mj_joint c) = None) cmds of
        Some c \<Rightarrow> (Err (DavUnknownJoint (mj_joint c)), s)
      | None \<Rightarrow> admit_and_send_mit pf cmds None s)"

section \<open>The feed-forward seed\<close>

fun seed_motors :: "bool \<Rightarrow> nat list \<Rightarrow> 'b supervisor \<Rightarrow> (unit, 'b) step" where
  "seed_motors only_unsent [] s = (Ok (), s)"
| "seed_motors only_unsent (i # is) s =
     (let motor = sv_motors s ! i; joint = me_joint motor in
      if only_unsent \<and> map_of (sv_last_tau_ff s) joint \<noteq> None then seed_motors only_unsent is s
      else let (published, s) = (case motor_index s joint of Some k \<Rightarrow> published_state k s | None \<Rightarrow> (None, s));
               measured = (case published of Some st \<Rightarrow> f64_from_f32 (ms_torque_nm st) | None \<Rightarrow> f64_zero);
               cap = (case map_of (sv_limits s) joint of Some pol \<Rightarrow> jp_tau_ff_max pol | None \<Rightarrow> f64_zero);
               type_cap = (case map_of (cs_motor_type_defaults (sv_control s)) (motor_type_key (me_motor_type motor)) of
                 Some d \<Rightarrow> mtd_tau_ff_max_nm d | None \<Rightarrow> f64_zero);
               bound = f64_min cap type_cap
           in try_in (checked_clamp measured (fnegate bound) bound, s) (\<lambda>tau s.
                seed_motors only_unsent is (s\<lparr>sv_last_tau_ff := AList.update joint tau (sv_last_tau_ff s)\<rparr>)))"

definition seed_tau_ff_from_measured :: "bool \<Rightarrow> 'b supervisor \<Rightarrow> (unit, 'b) step" where
  "seed_tau_ff_from_measured only_unsent s = seed_motors only_unsent [0..<length (sv_motors s)] s"

section \<open>Facets\<close>

definition joint_homing :: "'b platform \<Rightarrow> string \<Rightarrow> 'b supervisor \<Rightarrow> joint_homing_state \<times> 'b supervisor" where
  "joint_homing pf joint s =
     (if has_latched_fault s then (JhFaulted, revoke_references s)
      else let (valid, s) = reference_binding_valid pf s
           in (if valid \<and> contains (sv_reference_authority s) joint then JhVerified else JhUnhomed, s))"

definition joint_drive_active :: "'b platform \<Rightarrow> string \<Rightarrow> 'b supervisor \<Rightarrow> bool \<times> 'b supervisor" where
  "joint_drive_active pf joint s =
     (if sv_mode s = ModeActive \<and> joint \<in> set (sv_active_joints s)
      then let (h, s) = joint_homing pf joint s in (h = JhVerified, s) else (False, s))"

end
