(* ===== verification/Davout_Relations.thy ===== *)
theory Davout_Relations
  imports Davout_Motion
begin

text \<open>
  What every call of the supervisor keeps. The interface \<open>supervised_bus\<close> says what the calls may do to the
  bus; \<open>evolves\<close> is what no call takes back, \<open>consistent\<close> the invariant of the supervisor, \<open>proceeds\<close> and
  \<open>secure\<close> the steps that keep it. This theory proves them for the stop, the faults, the sensing calls,
  the leases and the release at exit (\<open>davout/src/lib.rs\<close>, \<open>drive_loss.rs\<close>).
\<close>

section \<open>The clock and the fault authority\<close>

lemma read_clock_eq: "read_clock s = (fst (instant_now (sv_clock s)), s\<lparr>sv_clock := snd (instant_now (sv_clock s))\<rparr>)"
  by (simp add: read_clock_def split_beta Let_def)

lemma record_fault_eq:
  "record_fault cls joint address message device s =
     (let r = fa_record (fst (instant_now (sv_clock s))) cls joint address message device (sv_fault_authority s)
      in (fst r, s\<lparr>sv_clock := snd (instant_now (sv_clock s)), sv_fault_authority := snd r\<rparr>))"
  by (simp add: record_fault_def read_clock_eq split_beta Let_def)

lemma record_receive_fault_eq:
  "record_receive_fault cls joint address message device receive s =
     (let r = fa_record_receive (fst (instant_now (sv_clock s))) cls joint address message device receive (sv_fault_authority s)
      in (fst r, s\<lparr>sv_clock := snd (instant_now (sv_clock s)), sv_fault_authority := snd r\<rparr>))"
  by (simp add: record_receive_fault_def read_clock_eq split_beta Let_def)

lemma fa_record_latches [simp]: "fa_is_latched (snd (fa_record now cls joint a msg dev fa))"
  by (auto simp: fa_record_def fa_is_latched_def list_ex_iff dest: arg_cong [of _ _ length])

lemma fa_record_first [simp]: "fst (fa_record now cls joint a msg dev fa) \<longleftrightarrow> \<not> fa_is_latched fa"
  by (cases "fa_faults fa") (auto simp: fa_record_def fa_is_latched_def)

lemma fa_record_receive_first [simp]:
  "fst (fa_record_receive now cls joint a msg dev rcv fa) \<longleftrightarrow> \<not> fa_is_latched fa"
  by (simp add: fa_record_receive_def split_beta Let_def)

lemma fault_clear_iff: "require_fault_clear s = Ok () \<longleftrightarrow> \<not> has_latched_fault s"
  by (cases "fa_faults (sv_fault_authority s)")
    (simp_all add: require_fault_clear_def has_latched_fault_def fa_is_latched_def fa_first_fault_def)

lemma authority_grows_latched: "authority_grows fa fb \<Longrightarrow> fa_is_latched fa \<Longrightarrow> fa_is_latched fb"
  by (auto simp: authority_grows_def fa_is_latched_def)

lemma begin_stop_grows: "authority_grows fa (snd (begin_stop fa))"
  by (rule fault_step_grows [OF step_begin_stop])

lemma stop_report_grows: "authority_grows fa (set_stop_report rep fa)"
  by (rule fault_step_grows [OF step_stop_report])

lemma record_receive_grows: "authority_grows fa (snd (fa_record_receive now cls joint a msg dev rcv fa))"
  unfolding fa_record_receive_def split_beta Let_def snd_conv
  by (rule authority_grows_trans [OF record_grows_authority authority_grows_update [OF record_grows_receive]])

lemma record_warning_grows: "authority_grows fa (record_warning now joint a bytes fa)"
  by (rule authority_grows_same) (simp_all add: record_warning_def)

lemma latched_unchanged [simp]:
  "fa_is_latched (snd (begin_stop fa)) = fa_is_latched fa"
  "fa_is_latched (set_stop_report rep fa) = fa_is_latched fa"
  "fa_is_latched (record_warning now joint a bytes fa) = fa_is_latched fa"
  by (simp_all add: fa_is_latched_def begin_stop_def set_stop_report_def record_warning_def Let_def)

section \<open>The frames of a stop\<close>

definition stop_plan :: "drive_loss_state \<Rightarrow> motor_entry \<Rightarrow> (motor_address \<times> stop_action) list" where
  "stop_plan dl m =
     map (Pair (motor_address_of m))
       (if is_shed dl (motor_address_of m) then [StopDisable] else [StopZeroSpeed, StopNeutralMit, StopDisable])"

lemma stop_one_plan:
  "map (\<lambda>a. (sa_address a, sa_action a)) (fst (stop_one pf dl m b)) = stop_plan dl m"
  by (simp add: stop_one_def stop_plan_def stop_attempt_of_def split_beta Let_def)

lemma stop_burst_plan:
  "map (\<lambda>a. (sa_address a, sa_action a)) (fst (stop_burst pf dl ms sb)) = concat (map (stop_plan dl) ms)"
proof (induction ms arbitrary: sb)
  case (Cons m ms)
  then show ?case by (cases sb) (simp add: split_beta Let_def stop_one_plan)
qed simp

section \<open>A supervised bus\<close>

text \<open>What the supervisor's calls do to the bus, whatever it is told to do: \<open>wire A b b'\<close> says how the
  bus may go from \<open>b\<close> to \<open>b'\<close> while the drives at \<open>A\<close> get a Disable and nothing else.\<close>

locale supervised_bus =
  fixes pf :: "'b platform" and wire :: "motor_address set \<Rightarrow> 'b \<Rightarrow> 'b \<Rightarrow> bool"
  assumes wire_refl: "wire A b b"
    and wire_trans: "wire A b b' \<Longrightarrow> wire A b' b'' \<Longrightarrow> wire A b b''"
    and wire_mono: "B \<subseteq> A \<Longrightarrow> wire A b b' \<Longrightarrow> wire B b b'"
    and wire_disable: "wire A b (snd (disable_drive_at (pf_bus pf) a b))"
    and wire_speed: "a \<notin> A \<Longrightarrow> wire A b (snd (speed_control_at (pf_bus pf) a x b))"
    and wire_mit: "\<forall>c\<in>set cmds. amc_address c \<notin> A \<Longrightarrow> wire A b (snd (mit_control_all_at (pf_bus pf) cmds b))"
    and wire_enable: "a \<notin> A \<Longrightarrow> wire A b (snd (enable_drive_at (pf_bus pf) a b))"
    and wire_run_mode: "a \<notin> A \<Longrightarrow> wire A b (snd (set_run_mode_at (pf_bus pf) a mode b))"
    and wire_identity: "a \<notin> A \<Longrightarrow> wire A b (snd (get_device_id_at (pf_bus pf) a b))"
    and wire_reporting_on: "a \<notin> A \<Longrightarrow> wire A b (snd (enable_active_reporting_at (pf_bus pf) a b))"
    and wire_reporting_off: "a \<notin> A \<Longrightarrow> wire A b (snd (disable_active_reporting_at (pf_bus pf) a b))"
    and wire_receive: "wire A b (snd (recv_feedback_report (pf_bus pf) clk mt budget quiet b))"

text \<open>What no call takes back: the installed drives and the configuration, a latched fault, a shed drive,
  the release of the reporting at exit, and the frames on the wire.\<close>

definition shed_set :: "'b supervisor \<Rightarrow> motor_address set" where
  "shed_set s = set (ds_shed (sv_drive_loss s))"

definition evolves :: "(motor_address set \<Rightarrow> 'b \<Rightarrow> 'b \<Rightarrow> bool) \<Rightarrow> 'b supervisor \<Rightarrow> 'b supervisor \<Rightarrow> bool" where
  "evolves wire s s' \<longleftrightarrow>
     sv_stop_motors s' = sv_stop_motors s \<and> sv_motors s' = sv_motors s \<and> sv_backend s' = sv_backend s \<and>
     sv_control s' = sv_control s \<and> sv_limits s' = sv_limits s \<and>
     authority_grows (sv_fault_authority s) (sv_fault_authority s') \<and>
     shed_set s \<subseteq> shed_set s' \<and>
     (sv_exit_reporting_released s \<longrightarrow> sv_exit_reporting_released s') \<and>
     wire (shed_set s) (sv_bus s) (sv_bus s')"

lemma evolves_latched: "evolves wire s s' \<Longrightarrow> has_latched_fault s \<Longrightarrow> has_latched_fault s'"
  by (auto simp: evolves_def has_latched_fault_def intro: authority_grows_latched)

definition no_simulator :: "'b supervisor \<Rightarrow> bool" where
  "no_simulator s = (case sv_backend s of Some (VirtualBackend _) \<Rightarrow> False | _ \<Rightarrow> True)"

lemma try_in_Ok [simp]: "try_in (Inr x, s) f = f x s"
  by (simp add: try_in_def)

lemma try_in_Err [simp]: "try_in (Inl e, s) f = (Inl e, s)"
  by (simp add: try_in_def)

context supervised_bus
begin

lemma evolves_refl: "evolves wire s s"
  by (simp add: evolves_def wire_refl)

lemma evolves_trans: "evolves wire s s' \<Longrightarrow> evolves wire s' s'' \<Longrightarrow> evolves wire s s''"
  unfolding evolves_def
  by (auto intro: authority_grows_trans wire_trans wire_mono dest: wire_mono [of "shed_set s" "shed_set s'"])

lemma stop_one_wire:
  assumes "A = set (ds_shed dl)"
  shows "wire A b (snd (stop_one pf dl m b))"
proof (cases "is_shed dl (motor_address_of m)")
  case True
  then show ?thesis by (simp add: stop_one_def split_beta Let_def wire_disable)
next
  case False
  then have a: "motor_address_of m \<notin> A" using assms by (simp add: is_shed_def)
  have n: "\<forall>c\<in>set [neutral_mit m]. amc_address c \<notin> A" using a by (simp add: neutral_mit_def)
  show ?thesis
    using False wire_trans [OF wire_trans [OF wire_speed [OF a] wire_mit [OF n]] wire_disable]
    by (simp add: stop_one_def split_beta Let_def)
qed

lemma stop_burst_wire:
  "wire (set (ds_shed dl)) (snd sb) (snd (snd (stop_burst pf dl ms sb)))"
proof (induction ms arbitrary: sb)
  case (Cons m ms)
  obtain ph b where sb: "sb = (ph, b)" by fastforce
  show ?case
    using wire_trans [OF stop_one_wire [OF refl] Cons.IH [of "(pace (me_can_interface m) ph, snd (stop_one pf dl m b))", unfolded snd_conv]]
    by (simp add: sb split_beta Let_def)
qed (simp add: wire_refl)

lemma write_due_wire:
  assumes "fst d < length motors" and "\<forall>m\<in>set motors. motor_address_of m \<in> A \<longrightarrow> me_joint m \<in> set held"
  shows "wire A (snd (snd s)) (snd (snd (write_due (pf_bus pf) motors held now d s)))"
proof -
  obtain index want refresh_only where d: "d = (index, want, refresh_only)" by (cases d)
  obtain deferred st b where s: "s = (deferred, st, b)" by (cases s)
  have "me_joint (motors ! index) \<notin> set held \<Longrightarrow> motor_address_of (motors ! index) \<notin> A"
    using assms d by auto
  then show ?thesis
    by (auto simp: write_due_def d s split_beta Let_def wire_refl wire_reporting_on wire_reporting_off)
qed

lemma sync_holding_wire:
  assumes "\<forall>m\<in>set motors. motor_address_of m \<in> A \<longrightarrow> me_joint m \<in> set held"
  shows "wire A (snd stb) (snd (snd (sync_holding (pf_bus pf) motors mode_active diag now last_rx held stb)))"
proof -
  have fold: "wire A (snd (snd s)) (snd (snd (fold (write_due (pf_bus pf) motors held now) ds s)))"
    if "\<forall>d\<in>set ds. fst d < length motors" for ds s
    using that
  proof (induction ds arbitrary: s)
    case (Cons d ds)
    then show ?case
      using wire_trans [OF write_due_wire [OF _ assms, of d s now] Cons.IH] by simp
  qed (simp add: wire_refl)
  have "fst d < length motors" if "d \<in> set (sort_due (due_writes last_rx hb mode_active diag now motors st))" for d hb st
    using that by (auto simp: sort_due_def due_writes_def Let_def split: if_splits)
  then show ?thesis
    unfolding sync_holding_def Let_def using fold [of _ "([], _, snd stb)"] by simp
qed

end

section \<open>Consistency\<close>

text \<open>What the relations below speak of, apart from the bus.\<close>

definition core where
  "core s =
     (sv_stop_motors s, sv_motors s, sv_backend s, sv_control s, sv_limits s, sv_fault_authority s,
      ds_shed (sv_drive_loss s), ds_episode (sv_drive_loss s), sv_exit_reporting_released s, sv_mode s,
      sv_hardware_estop s, sv_enable_writes_pending s, sv_active_joints s)"

text \<open>\<open>stoppable\<close>: what a stop relies on. \<open>consistent\<close>: what holds before and after every call. A drive is
  shed only in a degraded episode or once a fault is latched; then no Enable is pending and no active joint
  is a shed drive's.\<close>

definition stoppable :: "'b supervisor \<Rightarrow> bool" where
  "stoppable s \<longleftrightarrow>
     no_simulator s \<and> distinct (map motor_address_of (sv_motors s)) \<and> (sv_hardware_estop s \<longrightarrow> has_latched_fault s) \<and>
     (shed_set s \<noteq> {} \<longrightarrow> ds_episode (sv_drive_loss s) \<noteq> None \<or> has_latched_fault s)"

definition consistent :: "'b supervisor \<Rightarrow> bool" where
  "consistent s \<longleftrightarrow>
     stoppable s \<and> (shed_set s \<noteq> {} \<longrightarrow> sv_enable_writes_pending s = []) \<and>
     (\<forall>m\<in>set (sv_motors s). me_joint m \<in> set (sv_active_joints s) \<longrightarrow> motor_address_of m \<notin> shed_set s)"

definition fail_safe :: "'b supervisor \<Rightarrow> bool" where
  "fail_safe s \<longleftrightarrow> (has_latched_fault s \<longrightarrow> sv_mode s \<noteq> ModeActive)"

text \<open>\<open>proceeds\<close>: a step that keeps the consistency and, outside a session, starts none and sheds nothing.
  \<open>secure\<close>: also no session outlives a fault the step latches.\<close>

definition proceeds :: "(motor_address set \<Rightarrow> 'b \<Rightarrow> 'b \<Rightarrow> bool) \<Rightarrow> 'b supervisor \<Rightarrow> 'b supervisor \<Rightarrow> bool" where
  "proceeds wire s s' \<longleftrightarrow>
     (consistent s \<longrightarrow>
        evolves wire s s' \<and> consistent s' \<and>
        (sv_mode s \<noteq> ModeActive \<longrightarrow> sv_mode s' \<noteq> ModeActive \<and> shed_set s' = shed_set s))"

definition secure :: "(motor_address set \<Rightarrow> 'b \<Rightarrow> 'b \<Rightarrow> bool) \<Rightarrow> 'b supervisor \<Rightarrow> 'b supervisor \<Rightarrow> bool" where
  "secure wire s s' \<longleftrightarrow> proceeds wire s s' \<and> (consistent s \<longrightarrow> fail_safe s \<longrightarrow> fail_safe s')"

lemma secure_proceeds: "secure wire s s' \<Longrightarrow> proceeds wire s s'"
  by (simp add: secure_def)

lemma proceeds_consistent: "proceeds wire s s' \<Longrightarrow> consistent s \<Longrightarrow> consistent s'"
  by (simp add: proceeds_def)

lemma consistent_stoppable: "consistent s \<Longrightarrow> stoppable s"
  by (simp add: consistent_def)

lemma core_cong:
  assumes "core s' = core s"
  shows "consistent s' = consistent s" "fail_safe s' = fail_safe s" "shed_set s' = shed_set s" "sv_mode s' = sv_mode s"
  using assms by (auto simp: core_def consistent_def stoppable_def fail_safe_def shed_set_def has_latched_fault_def no_simulator_def)

context supervised_bus
begin

lemma proceeds_refl: "proceeds wire s s"
  by (simp add: proceeds_def evolves_refl)

lemma proceeds_trans: "proceeds wire s s' \<Longrightarrow> proceeds wire s' s'' \<Longrightarrow> proceeds wire s s''"
  unfolding proceeds_def by (auto intro: evolves_trans)

lemma secure_refl: "secure wire s s"
  by (simp add: secure_def proceeds_refl)

lemma secure_trans: "secure wire s s' \<Longrightarrow> secure wire s' s'' \<Longrightarrow> secure wire s s''"
  unfolding secure_def using proceeds_trans proceeds_consistent by blast

lemma secure_wire:
  assumes "core s' = core s" and "wire (shed_set s) (sv_bus s) (sv_bus s')"
  shows "secure wire s s'"
  using core_cong [OF assms(1)] assms
  by (auto simp: secure_def proceeds_def evolves_def core_def)

lemma secure_quiet: "core s' = core s \<Longrightarrow> sv_bus s' = sv_bus s \<Longrightarrow> secure wire s s'"
  by (rule secure_wire) (simp_all add: wire_refl)

lemma secure_try:
  assumes "secure wire s (snd r)" and "\<And>x s1. r = (Inr x, s1) \<Longrightarrow> secure wire s1 (snd (f x s1))"
  shows "secure wire s (snd (try_in r f))"
  using assms by (cases r; cases "fst r") (auto intro: secure_trans)

lemma secure_check:
  assumes "\<And>x. r = Inr x \<Longrightarrow> secure wire s (snd (f x s))"
  shows "secure wire s (snd (try_in (r, s) f))"
  using assms by (cases r) (auto intro: secure_refl)

lemma proceeds_fault: "proceeds wire s (snd (record_fault cls joint address message device s))"
  unfolding proceeds_def
  by (auto simp: record_fault_eq Let_def evolves_def shed_set_def wire_refl record_grows_authority consistent_def
      stoppable_def has_latched_fault_def no_simulator_def)

end

section \<open>Quiet steps\<close>

lemma core_clock [simp]: "core (s\<lparr>sv_clock := h\<rparr>) = core s"
  by (simp add: core_def)

lemma core_read [simp]: "core (snd (read_clock s)) = core s" "sv_bus (snd (read_clock s)) = sv_bus s"
  by (simp_all add: read_clock_eq)

lemma core_observe [simp]:
  "core (observe_reference_commits pf s) = core s" "sv_bus (observe_reference_commits pf s) = sv_bus s"
  by (simp_all add: observe_reference_commits_def core_def)

lemma core_revoke [simp]: "core (revoke_references s) = core s" "sv_bus (revoke_references s) = sv_bus s"
  by (simp_all add: revoke_references_def core_def)

lemma core_interference [simp]:
  "core (snd (refuse_reference_interference pf op s)) = core s"
  "sv_bus (snd (refuse_reference_interference pf op s)) = sv_bus s"
  by (simp_all add: refuse_reference_interference_def Let_def)

lemma core_carry [simp]:
  "core (carry_session_silence t s) = core s" "sv_bus (carry_session_silence t s) = sv_bus s"
  by (simp_all add: carry_session_silence_def core_def)

lemma core_note_set_zero [simp]: "core (note_set_zero a t s) = core s" "sv_bus (note_set_zero a t s) = sv_bus s"
  by (simp_all add: note_set_zero_def core_def)

lemma core_note_solicit [simp]: "core (note_solicit a t s) = core s" "sv_bus (note_solicit a t s) = sv_bus s"
  by (simp_all add: note_solicit_def core_def)

lemma core_sync [simp]: "core (sync_active_reporting pf s) = core s"
  by (simp add: sync_active_reporting_def read_clock_eq observe_reference_commits_def split_beta Let_def core_def)

lemma core_session_group [simp]:
  "core (session_group f i s) = core s" "sv_bus (session_group f i s) = sv_bus s"
  by (simp_all add: session_group_def split_beta Let_def core_def)

context supervised_bus
begin

lemma sync_wire: "wire (shed_set s) (sv_bus s) (sv_bus (sync_active_reporting pf s))"
  using sync_holding_wire [where stb = "(_, _)" and A = "shed_set s", unfolded snd_conv]
  by (auto simp: sync_active_reporting_def read_clock_eq observe_reference_commits_def split_beta Let_def shed_set_def
      is_shed_def wire_refl intro!: sync_holding_wire [where stb = "(_, _)", unfolded snd_conv])

lemma secure_sync: "secure wire s (sync_active_reporting pf s)"
  by (rule secure_wire) (simp_all add: sync_wire)

end

section \<open>The stop\<close>

lemma latched_record [simp]: "has_latched_fault (snd (record_fault cls joint address message device s))"
  by (simp add: record_fault_eq Let_def has_latched_fault_def)

lemma record_fault_keeps [simp]:
  "sv_drive_loss (snd (record_fault cls joint address message device s)) = sv_drive_loss s"
  "sv_mode (snd (record_fault cls joint address message device s)) = sv_mode s"
  "sv_active_joints (snd (record_fault cls joint address message device s)) = sv_active_joints s"
  "sv_enable_writes_pending (snd (record_fault cls joint address message device s)) = sv_enable_writes_pending s"
  "sv_hardware_estop (snd (record_fault cls joint address message device s)) = sv_hardware_estop s"
  "sv_acquisition_busy (snd (record_fault cls joint address message device s)) = sv_acquisition_busy s"
  "sv_backend (snd (record_fault cls joint address message device s)) = sv_backend s"
  "sv_motors (snd (record_fault cls joint address message device s)) = sv_motors s"
  "sv_control (snd (record_fault cls joint address message device s)) = sv_control s"
  "sv_bus (snd (record_fault cls joint address message device s)) = sv_bus s"
  by (simp_all add: record_fault_eq Let_def)

lemma core_D:
  assumes "core s' = core s"
  shows "sv_stop_motors s' = sv_stop_motors s" "sv_motors s' = sv_motors s" "sv_backend s' = sv_backend s"
    "sv_fault_authority s' = sv_fault_authority s" "ds_shed (sv_drive_loss s') = ds_shed (sv_drive_loss s)"
    "ds_episode (sv_drive_loss s') = ds_episode (sv_drive_loss s)" "sv_mode s' = sv_mode s"
    "sv_hardware_estop s' = sv_hardware_estop s" "sv_enable_writes_pending s' = sv_enable_writes_pending s"
    "sv_active_joints s' = sv_active_joints s" "sv_control s' = sv_control s"
    "has_latched_fault s' = has_latched_fault s" "sv_limits s' = sv_limits s"
    "sv_exit_reporting_released s' = sv_exit_reporting_released s"
  using assms by (simp_all add: core_def has_latched_fault_def)

text \<open>The state a stop leaves: no session, no episode, and a fault when an episode ended.\<close>

definition stopped_from :: "'b supervisor \<Rightarrow> 'b supervisor \<Rightarrow> bool" where
  "stopped_from s s' \<longleftrightarrow>
     sv_mode s' = ModeDisabled \<and> sv_active_joints s' = [] \<and> sv_enable_writes_pending s' = [] \<and>
     ds_episode (sv_drive_loss s') = None \<and> shed_set s' = shed_set s \<and> sv_hardware_estop s' = sv_hardware_estop s \<and>
     (ds_episode (sv_drive_loss s) \<noteq> None \<longrightarrow> has_latched_fault s')"

lemma end_episode_effect:
  "let s' = end_degraded_episode_on_stop s in
     sv_mode s' = sv_mode s \<and> sv_active_joints s' = sv_active_joints s \<and>
     sv_enable_writes_pending s' = sv_enable_writes_pending s \<and> ds_episode (sv_drive_loss s') = None \<and>
     ds_shed (sv_drive_loss s') = ds_shed (sv_drive_loss s) \<and> sv_hardware_estop s' = sv_hardware_estop s \<and>
     sv_stop_motors s' = sv_stop_motors s \<and> sv_motors s' = sv_motors s \<and> sv_backend s' = sv_backend s \<and>
     sv_control s' = sv_control s \<and> sv_limits s' = sv_limits s \<and> sv_bus s' = sv_bus s \<and>
     sv_exit_reporting_released s' = sv_exit_reporting_released s \<and>
     authority_grows (sv_fault_authority s) (sv_fault_authority s') \<and>
     (ds_episode (sv_drive_loss s) \<noteq> None \<longrightarrow> has_latched_fault s')"
  by (cases "ds_episode (sv_drive_loss s)")
    (simp_all add: end_degraded_episode_on_stop_def record_fault_eq read_clock_eq Let_def has_latched_fault_def
      record_grows_authority)

context supervised_bus
begin

lemma evolves_wire: "core s' = core s \<Longrightarrow> wire (shed_set s) (sv_bus s) (sv_bus s') \<Longrightarrow> evolves wire s s'"
  by (auto simp: evolves_def core_def shed_set_def)

lemma evolves_fault: "evolves wire s (snd (record_fault cls joint address message device s))"
  by (simp add: record_fault_eq Let_def evolves_def shed_set_def wire_refl record_grows_authority)

lemma evolves_end_episode: "evolves wire s (end_degraded_episode_on_stop s)"
  using end_episode_effect [of s] by (simp add: Let_def evolves_def shed_set_def wire_refl)

lemma stop_evolves:
  "evolves wire s (snd (perform_stop_paced pf sync pacer s)) \<and>
   stopped_from s (snd (perform_stop_paced pf sync pacer s))"
proof -
  define s1 where "s1 = (if has_latched_fault s then revoke_references s else s)"
  define s2 where "s2 = (if sv_mode s1 = ModeActive then carry_session_silence (fst (read_clock s1)) (snd (read_clock s1)) else s1)"
  define burst where "burst = stop_burst pf (sv_drive_loss s2) (sv_stop_motors s2) ((pacer, sv_clock s2), sv_bus s2)"
  define rep where "rep = \<lparr>sr_generation = fst (begin_stop (sv_fault_authority s2)), sr_attempts = fst burst\<rparr>"
  define s3 where "s3 = clear_session (s2\<lparr>sv_fault_authority := snd (begin_stop (sv_fault_authority s2)),
    sv_clock := snd (fst (snd burst)), sv_bus := snd (snd burst)\<rparr>)"
  define s4 where "s4 = (if sync then sync_active_reporting pf s3 else s3)"
  define s5 where "s5 = (if 0 < failed_writes rep
     then snd (record_fault FcStopDelivery None None ''one or more stop writes failed; physical stop unconfirmed''
       device_fault_default (revoke_references s4)) else s4)"
  define s6 where "s6 = end_degraded_episode_on_stop s5"
  have res: "perform_stop_paced pf sync pacer s =
     (rep, s6\<lparr>sv_fault_authority := set_stop_report rep (sv_fault_authority s6)\<rparr>)"
    unfolding perform_stop_paced_def s6_def s5_def s4_def s3_def rep_def burst_def s2_def s1_def Let_def split_beta
    by (rule refl)
  have c2: "core s2 = core s" "sv_bus s2 = sv_bus s" by (simp_all add: s2_def s1_def)
  have e3: "evolves wire s2 s3"
    using stop_burst_wire [of "sv_drive_loss s2" "((pacer, sv_clock s2), sv_bus s2)" "sv_stop_motors s2"]
    by (simp add: s3_def clear_session_def evolves_def shed_set_def begin_stop_grows burst_def)
  have c4: "core s4 = core s3" by (simp add: s4_def)
  have e4: "evolves wire s3 s4" using sync_wire by (intro evolves_wire) (simp_all add: s4_def wire_refl)
  have e5: "evolves wire s4 s5"
    using evolves_trans [OF evolves_wire evolves_fault] by (simp add: s5_def wire_refl evolves_refl)
  have d5: "sv_mode s5 = sv_mode s4" "sv_active_joints s5 = sv_active_joints s4" "sv_drive_loss s5 = sv_drive_loss s4"
    "sv_enable_writes_pending s5 = sv_enable_writes_pending s4" "sv_hardware_estop s5 = sv_hardware_estop s4"
    by (simp_all add: s5_def revoke_references_def)
  have e6: "evolves wire s5 s6" by (simp add: s6_def evolves_end_episode)
  have "evolves wire s s6"
    using evolves_trans [OF evolves_trans [OF evolves_trans [OF evolves_trans [OF evolves_wire [OF c2(1)] e3] e4] e5] e6]
    by (simp add: c2 wire_refl)
  then have "evolves wire s (snd (perform_stop_paced pf sync pacer s))"
    unfolding res by (auto simp: evolves_def shed_set_def intro: authority_grows_trans stop_report_grows)
  moreover have "stopped_from s (snd (perform_stop_paced pf sync pacer s))"
  proof -
    have "sv_mode s3 = ModeDisabled" "sv_active_joints s3 = []" "sv_enable_writes_pending s3 = []"
      "sv_drive_loss s3 = sv_drive_loss s2" "sv_hardware_estop s3 = sv_hardware_estop s2"
      by (simp_all add: s3_def clear_session_def)
    then show ?thesis
      unfolding res using end_episode_effect [of s5] core_D [OF c4] core_D [OF c2(1)] d5
      by (auto simp: Let_def s6_def [symmetric] stopped_from_def shed_set_def has_latched_fault_def)
  qed
  ultimately show ?thesis ..
qed

lemma finish_evolves:
  assumes "no_simulator s"
  shows "evolves wire s (snd (finish_reference pf s)) \<and> stopped_from s (snd (finish_reference pf s))"
proof -
  define s0 where "s0 = s\<lparr>sv_acquisition_busy := False\<rparr>"
  define s1 where "s1 = snd (perform_stop_paced pf False None s0)"
  have c0: "core s0 = core s" "sv_bus s0 = sv_bus s" by (simp_all add: s0_def core_def)
  have st: "evolves wire s0 s1" "stopped_from s0 s1" using stop_evolves by (simp_all add: s1_def)
  have b: "sv_backend s1 = sv_backend s" using st(1) core_D [OF c0(1)] by (simp add: evolves_def)
  have eq: "snd (finish_reference pf s) = snd (case sv_backend s1 of
           None \<Rightarrow> (stop, s1)
         | Some (VirtualBackend v) \<Rightarrow> (stop, s1\<lparr>sv_bus := vb_end v (sv_bus s1)\<rparr>)
         | Some (PhysicalBackend _) \<Rightarrow>
             (let (now, s) = read_clock s1 in (stop, s\<lparr>sv_physical := mark_owner_work now (sv_physical s)\<rparr>)))" for stop :: stop_report
    unfolding finish_reference_def s1_def s0_def Let_def split_beta by (simp split: option.split reference_backend.split)
  have c1: "core (snd (finish_reference pf s)) = core s1" "sv_bus (snd (finish_reference pf s)) = sv_bus s1"
    using assms unfolding eq [of undefined] b
    by (auto simp: core_def read_clock_eq no_simulator_def split: option.splits reference_backend.splits)
  have "evolves wire s (snd (finish_reference pf s))"
    using evolves_trans [OF evolves_trans [OF evolves_wire [OF c0(1)] st(1)] evolves_wire [OF c1(1)]] c0 c1
    by (simp add: wire_refl)
  moreover have "stopped_from s (snd (finish_reference pf s))"
    using st(2) core_D [OF c1(1)] core_D [OF c0(1)] by (simp add: stopped_from_def shed_set_def)
  ultimately show ?thesis ..
qed

lemma disable_evolves:
  assumes "no_simulator s"
  shows "evolves wire s (snd (disable_all pf s)) \<and> stopped_from s (snd (disable_all pf s))"
proof -
  let ?s = "s\<lparr>sv_commits_busy := False\<rparr>"
  have c: "core ?s = core s" "sv_bus ?s = sv_bus s" by (simp_all add: core_def)
  have n: "no_simulator ?s" using assms by (simp add: no_simulator_def)
  have "evolves wire ?s (snd (disable_all pf s)) \<and> stopped_from ?s (snd (disable_all pf s))"
    using finish_evolves [OF n] stop_evolves by (simp add: disable_all_def perform_stop_def Let_def split_beta)
  then show ?thesis
    using evolves_trans [OF evolves_wire [OF c(1)]] core_D [OF c(1)] c(2)
    by (auto simp: stopped_from_def shed_set_def wire_refl)
qed

lemma abort_evolves:
  assumes "no_simulator s"
  shows "evolves wire s (abort_reference_for_hazard pf s) \<and> stopped_from s (abort_reference_for_hazard pf s)"
proof -
  let ?s = "s\<lparr>sv_commits_busy := False\<rparr>"
  have c: "core ?s = core s" "sv_bus ?s = sv_bus s" by (simp_all add: core_def)
  have n: "no_simulator ?s" using assms by (simp add: no_simulator_def)
  have "evolves wire ?s (abort_reference_for_hazard pf s) \<and> stopped_from ?s (abort_reference_for_hazard pf s)"
    using finish_evolves [OF n] stop_evolves by (simp add: abort_reference_for_hazard_def perform_stop_def Let_def)
  then show ?thesis
    using evolves_trans [OF evolves_wire [OF c(1)]] core_D [OF c(1)] c(2)
    by (auto simp: stopped_from_def shed_set_def wire_refl)
qed

text \<open>A stop of a stoppable owner leaves it consistent and safe.\<close>

lemma stopped_consistent:
  assumes "stoppable s" and "evolves wire s s'" and "stopped_from s s'"
  shows "consistent s'" "fail_safe s'"
  using assms evolves_latched [OF assms(2)]
  by (auto simp: consistent_def stoppable_def stopped_from_def fail_safe_def no_simulator_def evolves_def)

lemma stopped_secure:
  assumes "\<And>s. no_simulator s \<Longrightarrow> evolves wire s (f s) \<and> stopped_from s (f s)"
  shows "secure wire s (f s)"
  using assms [of s] stopped_consistent [of s "f s"]
  by (auto simp: secure_def proceeds_def consistent_def stoppable_def stopped_from_def)

lemma secure_disable: "secure wire s (snd (disable_all pf s))"
  by (rule stopped_secure) (rule disable_evolves)

lemma secure_abort: "secure wire s (abort_reference_for_hazard pf s)"
  by (rule stopped_secure) (rule abort_evolves)

end

section \<open>Faults and stops\<close>

text \<open>A call that may only note faults, and tells whether it latched the first one.\<close>

definition noted :: "'b supervisor \<Rightarrow> bool \<times> 'b supervisor \<Rightarrow> bool" where
  "noted s r \<longleftrightarrow>
     core ((snd r)\<lparr>sv_fault_authority := sv_fault_authority s\<rparr>) = core s \<and> sv_bus (snd r) = sv_bus s \<and>
     authority_grows (sv_fault_authority s) (sv_fault_authority (snd r)) \<and>
     (has_latched_fault (snd r) \<longrightarrow> has_latched_fault s \<or> fst r)"

lemma noted_quiet: "core s' = core s \<Longrightarrow> sv_bus s' = sv_bus s \<Longrightarrow> noted s (first, s')"
  by (auto simp: noted_def core_def has_latched_fault_def)

lemma noted_fault: "noted s (record_fault cls joint address message device s)"
  by (simp add: noted_def record_fault_eq Let_def core_def record_grows_authority has_latched_fault_def)

lemma noted_receive_fault: "noted s (record_receive_fault cls joint address message device receive s)"
  by (simp add: noted_def record_receive_fault_eq Let_def core_def record_receive_grows has_latched_fault_def)

lemma noted_trans:
  assumes "noted s (f, s1)" and "noted s1 (g, s2)" and "f \<or> g \<Longrightarrow> h"
  shows "noted s (h, s2)"
  using assms by (auto simp: noted_def core_def intro: authority_grows_trans)

lemma noted_after: "core s1 = core s \<Longrightarrow> sv_bus s1 = sv_bus s \<Longrightarrow> noted s1 r \<Longrightarrow> noted s r"
  by (auto simp: noted_def core_def has_latched_fault_def)

lemma noted_D:
  assumes "noted s r"
  shows "sv_mode (snd r) = sv_mode s" "sv_active_joints (snd r) = sv_active_joints s"
    "ds_episode (sv_drive_loss (snd r)) = ds_episode (sv_drive_loss s)" "shed_set (snd r) = shed_set s"
    "sv_enable_writes_pending (snd r) = sv_enable_writes_pending s" "sv_motors (snd r) = sv_motors s"
    "sv_backend (snd r) = sv_backend s" "sv_hardware_estop (snd r) = sv_hardware_estop s"
  using assms by (auto simp: noted_def core_def shed_set_def)

lemma core_runtime_class [simp]:
  "core (snd (runtime_fault_class s e)) = core s" "sv_bus (snd (runtime_fault_class s e)) = sv_bus s"
  by (cases e; simp add: runtime_fault_class_def read_clock_eq Let_def split: option.splits)+

lemma noted_runtime_error: "noted s (record_runtime_error pf e s)"
proof -
  have r: "record_runtime_error pf e s =
      (case fst (runtime_fault_class s e) of
         None \<Rightarrow> (False, snd (runtime_fault_class s e))
       | Some (cls, joint) \<Rightarrow> record_fault cls joint
           (map_option motor_address_of (Option.bind joint (motor_for_joint (sv_motors (snd (runtime_fault_class s e))))))
           (pf_error_text pf e) device_fault_default (snd (runtime_fault_class s e)))"
    unfolding record_runtime_error_def Let_def split_beta by (rule refl)
  show ?thesis
    unfolding r by (auto simp: noted_quiet intro!: noted_after [OF core_runtime_class noted_fault] split: option.split)
qed

lemma noted_overdue: "noted s (case fst (enable_echo_overdue pf now s) of Some (_, t) \<Rightarrow> t | None \<Rightarrow> False, snd (enable_echo_overdue pf now s))"
  unfolding enable_echo_overdue_def split_beta Let_def
  by (simp add: noted_quiet noted_fault del: append_Cons append.simps split: option.split)

context supervised_bus
begin

lemma noted_proceeds: "noted s r \<Longrightarrow> proceeds wire s (snd r)"
  unfolding noted_def proceeds_def
  by (auto simp: core_def evolves_def shed_set_def wire_refl consistent_def stoppable_def no_simulator_def has_latched_fault_def
      dest: authority_grows_latched)

lemma secure_noted_stop:
  assumes "noted s (first, s1)" and "\<And>t. secure wire t (f t)" and "\<And>t. no_simulator t \<Longrightarrow> stopped_from t (f t)"
  shows "secure wire s (if first then f s1 else s1)"
proof -
  have p: "proceeds wire s s1" using noted_proceeds [OF assms(1)] by simp
  show ?thesis
  proof (cases first)
    case True
    have "proceeds wire s (f s1)" using proceeds_trans [OF p secure_proceeds [OF assms(2)]] .
    moreover have "fail_safe (f s1)" if "consistent s"
      using assms(3) [of s1] proceeds_consistent [OF p that]
      by (simp add: fail_safe_def stopped_from_def consistent_def stoppable_def)
    ultimately show ?thesis using True by (simp add: secure_def)
  next
    case False
    then show ?thesis using p assms(1) by (auto simp: secure_def fail_safe_def noted_def core_def)
  qed
qed

lemma secure_stop_error: "secure wire s (stop_after_runtime_error pf e s)"
  using secure_noted_stop [of s _ _ "\<lambda>s. snd (disable_all pf s)", OF _ secure_disable disable_evolves [THEN conjunct2]]
    noted_runtime_error [of s pf e]
  by (simp add: stop_after_runtime_error_def split_beta)

lemma secure_enable_error: "secure wire s (stop_on_enable_error pf e s)"
proof (cases "has_latched_fault s")
  case True
  then show ?thesis
    using noted_proceeds [OF noted_runtime_error] noted_D(1) [OF noted_runtime_error, of pf e s]
    by (auto simp: stop_on_enable_error_def Let_def secure_def fail_safe_def)
next
  case False
  have "noted s (True, snd (record_runtime_error pf e s))"
    using noted_runtime_error [of s pf e] by (auto simp: noted_def)
  from secure_noted_stop [OF this secure_disable disable_evolves [THEN conjunct2]] False
  show ?thesis by (simp add: stop_on_enable_error_def Let_def)
qed

lemma hazard_stop:
  "secure wire s (let s = observe_reference_commits pf s in if reference_busy s then abort_reference_for_hazard pf s
      else snd (disable_all pf s))"
  "no_simulator s \<Longrightarrow> stopped_from s (let s = observe_reference_commits pf s in if reference_busy s
      then abort_reference_for_hazard pf s else snd (disable_all pf s))"
proof -
  let ?o = "observe_reference_commits pf s"
  have o: "secure wire s ?o" by (rule secure_quiet) simp_all
  show "secure wire s (let s = observe_reference_commits pf s in if reference_busy s then abort_reference_for_hazard pf s
      else snd (disable_all pf s))"
    using secure_trans [OF o secure_abort] secure_trans [OF o secure_disable] by (simp add: Let_def)
  assume "no_simulator s"
  then have "no_simulator ?o" using core_D(3) [OF core_observe(1) [of pf s]] by (simp add: no_simulator_def)
  then have "stopped_from ?o (abort_reference_for_hazard pf ?o)" "stopped_from ?o (snd (disable_all pf ?o))"
    using abort_evolves disable_evolves by blast+
  then show "stopped_from s (let s = observe_reference_commits pf s in if reference_busy s
      then abort_reference_for_hazard pf s else snd (disable_all pf s))"
    using core_D [OF core_observe(1) [of pf s]] by (simp add: Let_def stopped_from_def shed_set_def)
qed

lemma secure_latch: "secure wire s (latch_control_fault pf message joint s)"
proof -
  define address where "address = map_option motor_address_of (Option.bind joint (motor_for_joint (sv_motors s)))"
  define r where "r = record_fault FcController (if address = None then None else joint) address message device_fault_default s"
  have eq: "latch_control_fault pf message joint s =
      (if \<not> fst r then snd r
       else let s = observe_reference_commits pf (snd r) in if reference_busy s then abort_reference_for_hazard pf s
         else snd (disable_all pf s))"
    unfolding latch_control_fault_def Let_def split_beta r_def address_def by (rule refl)
  have "noted s (fst r, snd r)" by (simp add: r_def noted_fault)
  from secure_noted_stop [OF this hazard_stop] show ?thesis unfolding eq by (cases "fst r") simp_all
qed

lemma secure_estop: "secure wire s (set_hardware_estop pf asserted s)"
proof (cases asserted)
  case False
  then show ?thesis
    by (auto simp: set_hardware_estop_def Let_def secure_def proceeds_def evolves_def shed_set_def wire_refl consistent_def
        stoppable_def no_simulator_def has_latched_fault_def fail_safe_def)
next
  case True
  define s1 where "s1 = snd (record_fault FcHardwareEstop None None
    ''hardware E-stop input asserted; releasing input is not qualified recovery'' device_fault_default
    (s\<lparr>sv_hardware_estop := True\<rparr>))"
  have p: "proceeds wire s s1"
    unfolding proceeds_def s1_def
    by (auto simp: record_fault_eq Let_def evolves_def shed_set_def wire_refl record_grows_authority consistent_def
        stoppable_def has_latched_fault_def no_simulator_def)
  have m: "sv_mode s1 = sv_mode s" by (simp add: s1_def)
  have r: "set_hardware_estop pf asserted s =
      (if sv_hardware_estop s then s1
       else let s = observe_reference_commits pf s1 in if reference_busy s then abort_reference_for_hazard pf s
         else snd (disable_all pf s))"
    unfolding set_hardware_estop_def s1_def split_beta Let_def by (simp only: True not_True_eq_False if_False)
  show ?thesis
  proof (cases "sv_hardware_estop s")
    case True
    then show ?thesis
      using p m unfolding r by (auto simp: secure_def fail_safe_def consistent_def stoppable_def)
  next
    case False
    have "fail_safe (set_hardware_estop pf asserted s)" if "consistent s"
      using hazard_stop(2) [of s1] proceeds_consistent [OF p that] False unfolding r
      by (simp add: fail_safe_def stopped_from_def consistent_def stoppable_def)
    then show ?thesis
      using proceeds_trans [OF p secure_proceeds [OF hazard_stop(1)]] False unfolding r by (simp add: secure_def)
  qed
qed

lemma secure_ending: "secure wire s (snd (stop_ending_episode pf ending s))"
proof -
  let ?s = "if ds_episode (sv_drive_loss s) \<noteq> None then s\<lparr>sv_drive_loss := (sv_drive_loss s)\<lparr>ds_pending_end := Some ending\<rparr>\<rparr> else s"
  have "secure wire s ?s" by (rule secure_quiet) (simp_all add: core_def)
  from secure_trans [OF this secure_disable] show ?thesis by (simp add: stop_ending_episode_def Let_def)
qed

lemma secure_lower: "secure wire s (snd (complete_degraded_lower pf s))"
  by (simp add: complete_degraded_lower_def secure_ending)

lemma secure_read: "secure wire s (snd (read_clock s))"
  by (rule secure_quiet) simp_all

lemma secure_deadline: "secure wire s (snd (enforce_degraded_deadline pf s))"
  using secure_trans [OF secure_read secure_ending] secure_read
  by (simp add: enforce_degraded_deadline_def split_beta Let_def secure_refl split: option.split)

end

section \<open>Sensing, leases and the exit\<close>

lemma core_control_mode [simp]:
  "core (set_control_mode pf mode s) = core s" "sv_bus (set_control_mode pf mode s) = sv_bus s"
  by (simp_all add: set_control_mode_def observe_reference_commits_def core_def Let_def)

lemma core_begin_tick [simp]: "core (begin_tick_feedback s) = core s" "sv_bus (begin_tick_feedback s) = sv_bus s"
  by (simp_all add: begin_tick_feedback_def core_def)

lemma core_plans [simp]:
  "core (snd (install_drive_loss_plans plans s)) = core s" "sv_bus (snd (install_drive_loss_plans plans s)) = sv_bus s"
  by (simp_all add: install_drive_loss_plans_def core_def split: sum.split)

lemma core_published [simp]: "core (snd (published_state i s)) = core s" "sv_bus (snd (published_state i s)) = sv_bus s"
  by (simp_all add: published_state_def read_clock_eq Let_def split: option.split)

lemma core_tau_ff [simp]: "core (s\<lparr>sv_last_tau_ff := x\<rparr>) = core s" "sv_bus (s\<lparr>sv_last_tau_ff := x\<rparr>) = sv_bus s"
  by (simp_all add: core_def)

lemma core_seed: "core (snd (seed_motors only_unsent is s)) = core s \<and> sv_bus (snd (seed_motors only_unsent is s)) = sv_bus s"
proof (induction "is" arbitrary: s)
  case (Cons i "is")
  let ?p = "case motor_index s (me_joint (sv_motors s ! i)) of Some k \<Rightarrow> published_state k s | None \<Rightarrow> (None, s)"
  have c: "core (snd ?p) = core s" "sv_bus (snd ?p) = sv_bus s" by (simp_all split: option.split)
  obtain p s1 where ps: "?p = (p, s1)" by fastforce
  show ?case
    using c Cons.IH unfolding ps by (cases only_unsent) (simp_all add: ps try_in_def Let_def split: sum.split)
qed simp

context supervised_bus
begin

lemma solicit_disables_wire: "wire A (snd s) (snd (solicit_disables pf as s))"
proof (induction "as" arbitrary: s)
  case (Cons a "as")
  then show ?case
    using wire_trans [OF wire_disable Cons.IH [of "(_, snd (disable_drive_at (pf_bus pf) a (snd s)))", unfolded snd_conv]]
    by (cases s) simp
qed (simp add: wire_refl)

lemma secure_solicit: "secure wire s (solicit_status_feedback pf s)"
proof -
  have "wire A b (snd (solicit_disables pf as (ph, b)))" for A b "as" ph
    using solicit_disables_wire [of A "(ph, b)"] by simp
  then show ?thesis
    by (intro secure_wire)
      (simp_all add: solicit_status_feedback_def observe_reference_commits_def read_clock_eq split_beta Let_def core_def
        shed_set_def wire_refl)
qed

lemma secure_with_lease: "secure wire s (snd (with_lease pf debug call s))"
proof -
  have "secure wire s (s\<lparr>sv_active_reporting := ar\<rparr>)" for ar by (rule secure_quiet) (simp_all add: core_def)
  then show ?thesis
    using secure_trans [OF _ secure_sync] by (simp add: with_lease_def split_beta Let_def split: sum.split)
qed

lemma secure_acquire: "secure wire s (snd (acquire_active_reporting_lease pf debug joint client lease ttl s))"
  using secure_trans [OF secure_read secure_with_lease]
  by (simp add: acquire_active_reporting_lease_def split_beta Let_def)

lemma secure_renew: "secure wire s (snd (renew_active_reporting_lease pf debug joint client lease ttl s))"
  using secure_trans [OF secure_read secure_with_lease]
  by (simp add: renew_active_reporting_lease_def split_beta Let_def)

lemma secure_release: "secure wire s (snd (release_active_reporting_lease pf debug joint lease s))"
  by (simp add: release_active_reporting_lease_def secure_with_lease)

lemma exit_pass_secure: "secure wire s (snd (snd (exit_pass pf now drives next_end s)))"
proof (induction drives arbitrary: next_end s)
  case (Cons d drives)
  obtain motor outcome where d: "d = (motor, outcome)" by fastforce
  let ?a = "motor_address_of motor"
  have "secure wire s (s\<lparr>sv_bus := snd (disable_active_reporting_at (pf_bus pf) ?a (sv_bus s)), sv_active_reporting := ar\<rparr>)"
    if "\<not> is_shed (sv_drive_loss s) ?a" for ar
    using that wire_reporting_off [of ?a] by (intro secure_wire) (simp_all add: core_def shed_set_def is_shed_def)
  moreover have "secure wire s (s\<lparr>sv_bus := snd (disable_active_reporting_at (pf_bus pf) ?a (sv_bus s))\<rparr>)"
    if "\<not> is_shed (sv_drive_loss s) ?a"
    using that wire_reporting_off [of ?a] by (intro secure_wire) (simp_all add: core_def shed_set_def is_shed_def)
  ultimately show ?case
    using Cons.IH secure_trans [OF _ Cons.IH]
    by (cases "disable_active_reporting_at (pf_bus pf) ?a (sv_bus s)"; cases "fst (disable_active_reporting_at (pf_bus pf) ?a (sv_bus s))")
      (auto simp: d split_beta Let_def)
qed (simp add: secure_refl)

lemma exit_loop_secure: "exit_loop pf deadline n drives s = Some (ds, s') \<Longrightarrow> secure wire s s'"
proof (induction n arbitrary: drives s)
  case (Suc n)
  let ?p = "exit_pass pf (fst (read_clock s)) drives None (snd (read_clock s))"
  have p: "secure wire s (snd (snd ?p))" using secure_trans [OF secure_read exit_pass_secure] .
  have q: "secure wire s ((snd (read_clock (snd (snd ?p))))\<lparr>sv_clock := h\<rparr>)" for h
    using secure_trans [OF p secure_quiet [of "(snd (read_clock (snd (snd ?p))))\<lparr>sv_clock := h\<rparr>" "snd (snd ?p)"]] by simp
  show ?case
    using Suc.prems p secure_trans [OF q Suc.IH]
    by (auto simp: split_beta Let_def split: option.splits if_splits)
qed simp

lemma secure_exit:
  assumes "release_reporting_for_exit pf deadline s = Some (ds, s')"
  shows "secure wire s s'"
proof -
  have "secure wire s (s\<lparr>sv_exit_reporting_released := True\<rparr>)"
    by (auto simp: secure_def proceeds_def evolves_def shed_set_def wire_refl consistent_def stoppable_def no_simulator_def
        has_latched_fault_def fail_safe_def)
  then show ?thesis
    using assms exit_loop_secure secure_trans by (auto simp: release_reporting_for_exit_def simp del: exit_loop.simps)
qed

end

end
