(* ===== verification/Davout_Shedding.thy ===== *)
theory Davout_Shedding
  imports Davout_Relations
begin

text \<open>
  The consumption of a report, the judgement of the references and the loss of one drive keep the relations
  of \<open>Davout_Relations\<close> (\<open>davout/src/feedback_consumer.rs\<close>, \<open>drive_loss.rs\<close>, \<open>lib.rs\<close>).
\<close>

section \<open>Consumption\<close>

text \<open>Consuming a report notes faults and nothing else of what the relations speak of.\<close>

definition absorbs :: "'b consuming \<Rightarrow> 'b consuming \<Rightarrow> bool" where
  "absorbs c c' \<longleftrightarrow>
     noted (cn_sup c) (cn_first_transition c', cn_sup c') \<and> (cn_first_transition c \<longrightarrow> cn_first_transition c')"

lemma absorbs_refl: "absorbs c c"
  by (simp add: absorbs_def noted_quiet)

lemma absorbs_trans: "absorbs c c' \<Longrightarrow> absorbs c' c'' \<Longrightarrow> absorbs c c''"
  unfolding absorbs_def by (blast intro: noted_trans)

lemma absorbs_quiet:
  "core (cn_sup c') = core (cn_sup c) \<Longrightarrow> sv_bus (cn_sup c') = sv_bus (cn_sup c) \<Longrightarrow>
   cn_first_transition c' = cn_first_transition c \<Longrightarrow> absorbs c c'"
  by (simp add: absorbs_def noted_quiet)

lemma absorbs_note_error: "absorbs c (note_error e c)"
  by (rule absorbs_quiet) (simp_all add: note_error_def)

lemma absorbs_note_latched: "absorbs c (note_latched c)"
  by (rule absorbs_quiet) (simp_all add: note_latched_def)

lemma absorbs_latching:
  assumes "\<And>s. noted s (f s)"
  shows "absorbs c (latching f c)"
  using assms [of "cn_sup c"] by (cases "f (cn_sup c)") (auto simp: absorbs_def latching_def noted_def)

lemma absorbs_updating:
  "(\<And>s. core (f s) = core s) \<Longrightarrow> (\<And>s. sv_bus (f s) = sv_bus s) \<Longrightarrow> absorbs c (updating f c)"
  by (rule absorbs_quiet) (simp_all add: updating_def)

lemma absorbs_fold: "(\<And>x c. absorbs c (f x c)) \<Longrightarrow> absorbs c (fold f xs c)"
  by (induction xs arbitrary: c) (auto intro: absorbs_refl absorbs_trans)

lemma absorbs_if: "(P \<Longrightarrow> absorbs c a) \<Longrightarrow> (\<not> P \<Longrightarrow> absorbs c b) \<Longrightarrow> absorbs c (if P then a else b)"
  by simp

lemma absorbs_option:
  "(x = None \<Longrightarrow> absorbs c a) \<Longrightarrow> (\<And>y. x = Some y \<Longrightarrow> absorbs c (b y)) \<Longrightarrow> absorbs c (case x of None \<Rightarrow> a | Some y \<Rightarrow> b y)"
  by (simp split: option.split)

lemma absorbs_sum:
  "(\<And>y. x = Inl y \<Longrightarrow> absorbs c (a y)) \<Longrightarrow> (\<And>y. x = Inr y \<Longrightarrow> absorbs c (b y)) \<Longrightarrow>
   absorbs c (case x of Inl y \<Rightarrow> a y | Inr y \<Rightarrow> b y)"
  by (simp split: sum.split)

lemma core_invalid [simp]:
  "core (s\<lparr>sv_invalid_feedback := x\<rparr>) = core s" "core (s\<lparr>sv_physical := pd\<rparr>) = core s"
  "core (s\<lparr>sv_last_refresh_frames := n\<rparr>) = core s" "core (s\<lparr>sv_out_of_limits := ol\<rparr>) = core s"
  "core (s\<lparr>sv_reference_authority := ra\<rparr>) = core s" "core (s\<lparr>sv_enable_write_due := d\<rparr>) = core s"
  by (simp_all add: core_def)

lemma core_track [simp]:
  "core (track_drive_frame m a mode t run s) = core s" "sv_bus (track_drive_frame m a mode t run s) = sv_bus s"
  by (simp_all add: track_drive_frame_def core_def Let_def split: option.split)

lemma core_echo [simp]: "core (consume_echo echo s) = core s" "sv_bus (consume_echo echo s) = sv_bus s"
  by (simp_all add: consume_echo_def observe_reporting_off_echo_def note_set_zero_def core_def Let_def
      split: echoed_command.split option.split)

lemma core_position [simp]:
  "core (snd (check_feedback_position_in_context m st ctx s)) = core s"
  "sv_bus (snd (check_feedback_position_in_context m st ctx s)) = sv_bus s"
  by (simp_all add: check_feedback_position_in_context_def Let_def split: option.split)

lemma core_velocity [simp]:
  "core (snd (snd (check_feedback_velocity_in_context m st t ctx s))) = core s"
  "sv_bus (snd (snd (check_feedback_velocity_in_context m st t ctx s))) = sv_bus s"
  by (simp_all add: check_feedback_velocity_in_context_def core_def Let_def split: option.split)

lemma core_future [simp]:
  "core (snd (snd (is_future t fl s))) = core s" "sv_bus (snd (snd (is_future t fl s))) = sv_bus s"
  by (simp_all add: is_future_def split_beta Let_def)

lemma absorbs_prepare: "absorbs c (snd (prepare_pose m raw t ctx c))"
  by (rule absorbs_quiet; cases "rbind (validate_motor_feedback (me_joint m) raw) (\<lambda>_.
           rbind (motor_to_joint_state m raw) (\<lambda>st. rbind (validate_motor_feedback (me_joint m) st) (\<lambda>_. Ok st)))")
    (simp_all add: prepare_pose_def split_beta Let_def)

lemma absorbs_refuse: "absorbs c (refuse_feedback pf a e c)"
  unfolding refuse_feedback_def
  by (rule absorbs_trans [OF absorbs_updating absorbs_trans [OF absorbs_latching [OF noted_runtime_error] absorbs_note_error]])
    simp_all

lemma absorbs_candidate: "absorbs c (admit_candidate order i obs st pose ctx c)"
  by (rule absorbs_quiet) (simp_all add: admit_candidate_def Let_def)

lemma absorbs_record: "absorbs c (note_error e (latching (record_fault cls j a m d) c))"
  by (rule absorbs_trans [OF absorbs_latching [OF noted_fault] absorbs_note_error])

lemma absorbs_record_latched: "absorbs c (note_latched (latching (record_fault cls j a m d) c))"
  by (rule absorbs_trans [OF absorbs_latching [OF noted_fault] absorbs_note_latched])

lemma absorbs_shed:
  "absorbs c (case inspect_shed_frame pf j a mode t d (cn_sup c) of (r, s) \<Rightarrow>
     (case r of None \<Rightarrow> c\<lparr>cn_sup := s\<rparr>
      | Some (e, transition) \<Rightarrow>
          note_error e ((c\<lparr>cn_sup := s\<rparr>)\<lparr>cn_first_transition := cn_first_transition (c\<lparr>cn_sup := s\<rparr>) \<or> transition\<rparr>)))"
proof -
  have "absorbs c (c\<lparr>cn_sup := snd (record_fault cls j' a' m' d' (cn_sup c)),
      cn_first_transition := cn_first_transition c \<or> fst (record_fault cls j' a' m' d' (cn_sup c))\<rparr>)" for cls j' a' m' d'
    using noted_fault [of "cn_sup c" cls j' a' m' d'] by (auto simp: absorbs_def noted_def)
  from absorbs_trans [OF this absorbs_note_error] show ?thesis
    unfolding inspect_shed_frame_def Let_def split_beta by (simp add: absorbs_refl del: append_Cons append.simps)
qed

lemma noted_malformed: "noted s (record_malformed_feedback pf m a t i x ctx s)"
proof -
  define dev where "dev = malformed_device t i x"
  define r1 where "r1 = (if dfe_status_flags dev \<noteq> 0 \<or> dfe_partial_fault_bytes dev \<noteq> [0, 0, 0, 0]
             then record_fault FcDevice (Some (me_joint m)) (Some a)
               ''vendor fault evidence from malformed data; partial words remain unqualified'' dev s
             else (False, s))"
  define r2 where "r2 = (if dfe_drive_mode dev = Some 3 \<or>
                feedback_run_expected (snd r1) m a t ctx \<and> (case dfe_drive_mode dev of Some mode \<Rightarrow> mode \<noteq> 2 | None \<Rightarrow> False)
             then record_fault FcDriveState (Some (me_joint m)) (Some a) ''unexpected drive mode in malformed Data status'' dev (snd r1)
             else (False, snd r1))"
  define s2 where "s2 = (snd r2)\<lparr>sv_invalid_feedback := List.insert a (sv_invalid_feedback (snd r2))\<rparr>"
  define r3 where "r3 = record_receive_fault FcFeedback (Some (me_joint m)) (Some a)
            (pf_error_text pf (DavBus (MalformedFeedbackError a (mf_reason x)))) dev
            (receive_frame_fault \<lparr>rfe_interface = Some (addr_interface a), rfe_can_id = i, rfe_extended = True,
               rfe_received_at = t, rfe_raw = mf_raw x, rfe_payload_len = mf_payload_len x,
               rfe_kind = mf_kind x, rfe_reason = Some (mf_reason x)\<rparr>) s2"
  have r: "record_malformed_feedback pf m a t i x ctx s = (fst r1 \<or> fst r2 \<or> fst r3, snd r3)"
    unfolding record_malformed_feedback_def Let_def split_beta r3_def s2_def r2_def r1_def dev_def by (rule refl)
  have "noted s (fst r1, snd r1)" by (simp add: r1_def noted_fault noted_quiet)
  moreover have "noted (snd r1) (fst r2, snd r2)" by (simp add: r2_def noted_fault noted_quiet)
  moreover have "noted (snd r2) (False, s2)" by (simp add: s2_def noted_quiet)
  moreover have "noted s2 (fst r3, snd r3)" by (simp add: r3_def noted_receive_fault)
  ultimately show ?thesis unfolding r by (blast intro: noted_trans)
qed

lemma absorbs_header: "absorbs c (consume_header pf order i m obs mode flags status ctx c)"
proof -
  define c1 where "c1 = (if mode = Calibration
    then updating (\<lambda>s. s\<lparr>sv_physical := fst (record_calibration_mode (fo_address obs) (sv_physical s))\<rparr>) c else c)"
  define dev where "dev = device_fault_default\<lparr>dfe_received_at := Some (fo_received_at obs), dfe_status_flags := flags,
            dfe_drive_mode := Some (drive_mode_code mode)\<rparr>"
  define c2 where "c2 = (if flags \<noteq> 0 then note_latched (latching (record_fault FcDevice (Some (me_joint m)) (Some (fo_address obs))
                 ''vendor status fault flags'' dev) c1) else c1)"
  have c2: "absorbs c c2"
  proof -
    have "absorbs c c1" by (auto simp: c1_def absorbs_refl intro!: absorbs_updating)
    from absorbs_trans [OF this absorbs_record_latched] this show ?thesis by (simp add: c2_def)
  qed
  have tr: "absorbs c (updating (track_drive_frame m (fo_address obs) mode (fo_received_at obs) run) c2)" for run
    by (rule absorbs_trans [OF c2 absorbs_updating]) simp_all
  have inv: "absorbs c' (updating (\<lambda>s. s\<lparr>sv_invalid_feedback := f s\<rparr>) c')" for c' :: "'a consuming" and f
    by (rule absorbs_updating) simp_all
  note shed = absorbs_trans [OF tr absorbs_shed [unfolded split_beta]]
  note mode = absorbs_trans [OF tr absorbs_trans [OF inv absorbs_record]]
  note reply = absorbs_trans [OF tr absorbs_refuse]
  note bad_pose = absorbs_trans [OF tr absorbs_trans [OF absorbs_prepare absorbs_refuse]]
  note pose = absorbs_trans [OF tr absorbs_trans [OF absorbs_prepare absorbs_candidate]]
  show ?thesis
    unfolding consume_header_def Let_def dev_def [symmetric] c1_def [symmetric] c2_def [symmetric] split_beta
    by (intro absorbs_if shed mode; intro absorbs_option absorbs_sum absorbs_if tr reply bad_pose pose)
qed

lemma absorbs_motor: "absorbs c (consume_motor pf ctx order obs c)"
proof -
  have malformed: "absorbs c (note_latched (latching (record_malformed_feedback pf m a t i x ctx) c))" for m a t i x
    by (rule absorbs_trans [OF absorbs_latching [OF noted_malformed] absorbs_note_latched])
  have warning: "absorbs c (updating (\<lambda>s. case read_clock s of (now, s) \<Rightarrow>
      s\<lparr>sv_fault_authority := record_warning now j a bytes (sv_fault_authority s)\<rparr>) c)" for j a bytes
    by (auto simp: absorbs_def updating_def noted_def read_clock_eq core_def record_warning_grows has_latched_fault_def)
  note detailed = absorbs_trans [OF warning absorbs_record_latched]
  show ?thesis
    unfolding consume_motor_def Let_def
    by (cases "fo_event obs")
      (auto intro!: absorbs_option absorbs_refl malformed warning detailed absorbs_header)
qed

lemma absorbs_event: "absorbs c (consume_event pf ctx ev c)"
proof -
  have "absorbs c (consume_transport timed c)" for timed
    unfolding consume_transport_def Let_def
    by (rule absorbs_trans [OF absorbs_latching [OF noted_receive_fault] absorbs_note_latched])
  moreover have "absorbs c (consume_terminal pf e c)" for e
    unfolding consume_terminal_def
    by (intro absorbs_if absorbs_refl absorbs_trans [OF absorbs_latching [OF noted_runtime_error] absorbs_note_error])
  moreover have "absorbs c (updating (consume_echo echo) c)" for echo
    by (rule absorbs_updating) simp_all
  ultimately show ?thesis
    by (simp add: consume_event_def absorbs_motor split: prod.split ordered_receive.split)
qed

lemma absorbs_pose: "absorbs c (admit_pose pf ctx tol p c)"
proof -
  have v: "absorbs c (c\<lparr>cn_sup := snd (snd (check_feedback_velocity_in_context m st t ctx (cn_sup c))), cn_poses := ps\<rparr>)"
    "absorbs c (c\<lparr>cn_sup := snd (snd (check_feedback_velocity_in_context m st t ctx (cn_sup c)))\<rparr>)" for m st t ps
    by (rule absorbs_quiet; simp)+
  have u: "absorbs c' (updating (\<lambda>s. s\<lparr>sv_invalid_feedback := f1 s, sv_physical := f2 s, sv_unanswered_solicits := f3 s,
      sv_motor_states := f4 s, sv_last_feedback_rx := f5 s\<rparr>) c')" for f1 f2 f3 f4 f5 and c' :: "'a consuming"
    by (rule absorbs_updating) (simp_all add: core_def)
  show ?thesis
    unfolding admit_pose_def Let_def split_beta
    by (auto intro!: absorbs_option absorbs_sum absorbs_refl absorbs_trans [OF v(1) absorbs_refuse] absorbs_trans [OF v(2) u])
qed

lemma absorbs_incomplete: "absorbs c (consume_incomplete pf report c)"
  unfolding consume_incomplete_def Let_def
  by (intro absorbs_if absorbs_refl absorbs_trans [OF absorbs_latching [OF noted_receive_fault] absorbs_note_error])

lemma noted_report:
  "noted s (fc_first_transition (fst (consume_report_in_context pf report ctx s)), snd (consume_report_in_context pf report ctx s))"
proof -
  define s0 where "s0 = consume_replies report s"
  define c0 where "c0 = \<lparr>cn_sup = s0, cn_first_error = None, cn_first_transition = False, cn_poses = [], cn_candidates = [],
               cn_clock_floor = None\<rparr>"
  define c1 where "c1 = fold (consume_event pf ctx) (ordered_events report) c0"
  define c2 where "c2 = consume_incomplete pf report (fold (admit_pose pf ctx (hs_zero_verify_tolerance_rad (sv_homing_config s0)))
      (sort_key pc_order (cn_candidates c1)) c1)"
  have s0: "core s0 = core s" "sv_bus s0 = sv_bus s" by (simp_all add: s0_def consume_replies_def)
  have "absorbs c0 c2"
    unfolding c2_def c1_def
    by (rule absorbs_trans [OF absorbs_fold absorbs_trans [OF absorbs_fold absorbs_incomplete]])
      (rule absorbs_event absorbs_pose)+
  then have "noted s (cn_first_transition c2, cn_sup c2)"
    using noted_after [OF s0] by (simp add: absorbs_def c0_def)
  then show ?thesis
    unfolding consume_report_in_context_def Let_def s0_def [symmetric] c0_def [symmetric] c1_def [symmetric] c2_def [symmetric]
    by simp
qed

section \<open>References\<close>

lemma core_live [simp]:
  "core (snd (live_device_epoch a w busy from s)) = core s" "sv_bus (snd (live_device_epoch a w busy from s)) = sv_bus s"
  by (simp_all add: live_device_epoch_def read_clock_eq split_beta Let_def split: option.split reference_backend.split)

lemma core_judge [simp]:
  "core (snd (judge_binding liveness i s)) = core s" "sv_bus (snd (judge_binding liveness i s)) = sv_bus s"
  by (simp_all add: judge_binding_def split_beta Let_def)

lemma core_judges [simp]:
  "core (snd (judge_bindings liveness is s)) = core s" "sv_bus (snd (judge_bindings liveness is s)) = sv_bus s"
  by (induction "is" arbitrary: s) (simp_all add: split_beta Let_def)

lemma core_valid [simp]:
  "core (snd (reference_binding_valid_with pf liveness s)) = core s"
  "sv_bus (snd (reference_binding_valid_with pf liveness s)) = sv_bus s"
  "core (snd (reference_binding_valid pf s)) = core s" "sv_bus (snd (reference_binding_valid pf s)) = sv_bus s"
  by (simp_all add: reference_binding_valid_def reference_binding_valid_with_def split_beta Let_def split: option.split)

context supervised_bus
begin

lemma secure_binding: "secure wire s (snd (ensure_reference_binding pf s))"
proof -
  have v: "secure wire s1 (snd (reference_binding_valid pf s1))" for s1 by (rule secure_quiet) simp_all
  have i: "secure wire s1 (snd (refuse_reference_interference pf op s1))" for s1 op by (rule secure_quiet) simp_all
  show ?thesis
    unfolding ensure_reference_binding_def Let_def split_beta
    using v secure_trans [OF v secure_disable]
    by (intro secure_try i secure_check) (simp del: append_Cons append.simps)
qed

lemma secure_for: "secure wire s (snd (ensure_reference_for pf joints s))"
  unfolding ensure_reference_for_def by (intro secure_try secure_binding) (simp add: secure_refl)

end

section \<open>Drive loss\<close>

text \<open>The bus never answers a send with an empty read.\<close>

locale supervised_drives = supervised_bus +
  assumes disable_error: "fst (disable_drive_at (pf_bus pf) a b) = Inl e \<Longrightarrow> e \<noteq> RecvTimeout"

lemma bus_error_latches: "e \<noteq> RecvTimeout \<Longrightarrow> has_latched_fault (snd (record_runtime_error pf (DavBus e) s))"
  by (cases e) (simp_all add: record_runtime_error_def runtime_fault_class_def bus_fault_class_def)

lemma shed_targets_motors:
  assumes "shed_targets s joints = Some shed" and "(j, a, p) \<in> set shed"
  shows "\<exists>m\<in>set (sv_motors s). me_joint m = j \<and> motor_address_of m = a"
  using assms
proof (induction joints arbitrary: shed)
  case (Cons x xs)
  then show ?case
    by (fastforce simp: motor_for_joint_def find_Some_iff split: option.splits)
qed simp

lemma shed_decision_core [simp]: "core (snd (shed_decision pf s)) = core s" "sv_bus (snd (shed_decision pf s)) = sv_bus s"
  by (simp_all add: shed_decision_def split_beta Let_def split: option.split list.split)

lemma shed_decision_Some:
  assumes "fst (shed_decision pf s) = Some d"
  shows "sv_mode s = ModeActive" "\<not> has_latched_fault s" "ds_episode (sv_drive_loss s) = None"
    "ds_shed (sv_drive_loss s) = []" "sv_enable_writes_pending s = []"
    "\<forall>(j, a, p)\<in>set (sd_shed d). \<exists>m\<in>set (sv_motors s). me_joint m = j \<and> motor_address_of m = a"
proof -
  have 1: "sv_mode s = ModeActive \<and> \<not> has_latched_fault s \<and> ds_episode (sv_drive_loss s) = None \<and>
      ds_shed (sv_drive_loss s) = []"
    using assms by (auto simp: shed_decision_def Let_def split: if_splits)
  then show "sv_mode s = ModeActive" "\<not> has_latched_fault s" "ds_episode (sv_drive_loss s) = None"
    "ds_shed (sv_drive_loss s) = []" by auto
  show "sv_enable_writes_pending s = []"
    using assms core_D(9) [OF core_observe(1) [of pf s]] by (auto simp: shed_decision_def Let_def split: if_splits)
  define s1 where "s1 = snd (read_clock (observe_reference_commits pf s))"
  have m: "sv_motors s1 = sv_motors s" by (simp add: s1_def read_clock_eq observe_reference_commits_def)
  obtain plan :: drive_loss_plan where "shed_targets s1 (dp_shed plan) = Some (sd_shed d)"
    using assms unfolding shed_decision_def Let_def split_beta s1_def
    by (auto split: if_splits option.splits list.splits)
  from shed_targets_motors [OF this] show "\<forall>(j, a, p)\<in>set (sd_shed d). \<exists>m\<in>set (sv_motors s). me_joint m = j \<and> motor_address_of m = a"
    unfolding m by auto
qed


lemma shed_forget_fold:
  "sv_active_joints (fold shed_forget shed s) = filter (\<lambda>j. j \<notin> fst ` set shed) (sv_active_joints s) \<and>
   core ((fold shed_forget shed s)\<lparr>sv_active_joints := sv_active_joints s\<rparr>) = core s \<and>
   sv_bus (fold shed_forget shed s) = sv_bus s"
proof (induction shed arbitrary: s)
  case (Cons t shed)
  obtain j a p where t: "t = (j, a, p)" by (cases t)
  show ?case using Cons.IH [of "shed_forget t s"]
    by (auto simp: t shed_forget_def core_def intro: filter_cong)
qed (simp add: core_def)

lemma shed_forget_drive_loss: "sv_drive_loss (fold shed_forget shed s) = sv_drive_loss s"
  by (induction shed arbitrary: s) (auto simp: shed_forget_def)

context supervised_drives
begin

text \<open>Until its Disables are written the shed drives are stoppable, not consistent.\<close>

lemma shed_disables_effect:
  assumes "no_simulator s" and "distinct (map motor_address_of (sv_motors s))"
  shows "case shed_disables pf shed s of
      (Inr _, s') \<Rightarrow> \<exists>b. s' = s\<lparr>sv_bus := b\<rparr> \<and> wire A (sv_bus s) b
    | (Inl _, s') \<Rightarrow> (sv_hardware_estop s \<longrightarrow> has_latched_fault s) \<longrightarrow> evolves wire s s' \<and> consistent s' \<and> fail_safe s'"
  using assms
proof (induction shed arbitrary: s)
  case (Cons t shed)
  obtain j a p where t: "t = (j, a, p)" by (cases t)
  obtain r b where d: "disable_drive_at (pf_bus pf) a (sv_bus s) = (r, b)" by fastforce
  have w: "wire A (sv_bus s) b" for A using wire_disable [of A "sv_bus s" a] d by simp
  have e: "evolves wire s (s\<lparr>sv_bus := b\<rparr>)" using w by (auto simp: evolves_def shed_set_def)
  show ?case
  proof (cases r)
    case (Inr u)
    have "no_simulator (s\<lparr>sv_bus := b\<rparr>)" using Cons.prems by (simp add: no_simulator_def)
    then have "case shed_disables pf shed (s\<lparr>sv_bus := b\<rparr>) of
      (Inr _, s') \<Rightarrow> \<exists>b'. s' = s\<lparr>sv_bus := b'\<rparr> \<and> wire A b b'
    | (Inl _, s') \<Rightarrow> (sv_hardware_estop s \<longrightarrow> has_latched_fault s) \<longrightarrow>
        evolves wire (s\<lparr>sv_bus := b\<rparr>) s' \<and> consistent s' \<and> fail_safe s'"
      using Cons.IH [of "s\<lparr>sv_bus := b\<rparr>"] Cons.prems by (auto simp: has_latched_fault_def split: prod.splits sum.splits)
    then show ?thesis
      using Inr d w evolves_trans [OF e] by (auto simp: t split: prod.splits sum.splits intro: wire_trans)
  next
    case (Inl err)
    define s1 where "s1 = snd (record_runtime_error pf (DavBus err) (s\<lparr>sv_bus := b\<rparr>))"
    have n: "noted (s\<lparr>sv_bus := b\<rparr>) (fst (record_runtime_error pf (DavBus err) (s\<lparr>sv_bus := b\<rparr>)), s1)"
      by (simp add: s1_def noted_runtime_error)
    have l: "has_latched_fault s1"
      using disable_error [of a "sv_bus s" err] d Inl by (simp add: s1_def bus_error_latches)
    have e1: "evolves wire s s1"
      using evolves_trans [OF e, of s1] n by (auto simp: noted_def core_def evolves_def shed_set_def wire_refl)
    have st: "stoppable s1" if "sv_hardware_estop s \<longrightarrow> has_latched_fault s"
      using n l that Cons.prems by (auto simp: stoppable_def noted_def core_def no_simulator_def)
    have "no_simulator s1" using n Cons.prems by (auto simp: noted_def core_def no_simulator_def)
    note dis = disable_evolves [OF this]
    then show ?thesis
      using Inl d stopped_consistent [OF st] evolves_trans [OF e1] by (auto simp: t s1_def [symmetric] Let_def)
  qed
next
  case Nil
  show ?case by (simp, rule exI [of _ "sv_bus s"]) (simp add: wire_refl)
qed

lemma secure_shed: "secure wire s (snd (shed_for_drive_loss pf s))"
proof (cases "fst (shed_decision pf s)")
  case None
  then show ?thesis
    using secure_quiet [of "snd (shed_decision pf s)" s] by (simp add: shed_for_drive_loss_def split_beta Let_def)
next
  case (Some d)
  define s1 where "s1 = snd (shed_decision pf s)"
  define s2 where "s2 = s1\<lparr>sv_drive_loss := (sv_drive_loss s1)\<lparr>ds_shed := ds_shed (sv_drive_loss s1) @
                    map (\<lambda>(_, address, _). address) (sd_shed d), ds_shed_at := Some (sd_since d)\<rparr>\<rparr>"
  obtain r s3 where ds: "shed_disables pf (sd_shed d) s2 = (r, s3)" by fastforce
  define final where "final = (\<lambda>s :: 'a supervisor. (sv_drive_loss s)\<lparr>ds_lost_address := map_option (\<lambda>x. fst (snd x))
      (List.find (\<lambda>x. fst x = sd_lost d) (sd_shed d)),
      ds_episode := Some \<lparr>ep_lost_joint = sd_lost d, ep_shed_joints = map fst (sd_shed d),
                          ep_holding_joints = sd_holding d,
                          ep_frozen_positions = map (\<lambda>x. (fst x, snd (snd x))) (sd_shed d),
                          ep_since = sd_since d, ep_deadline = sd_deadline d\<rparr>\<rparr>)"
  have eq: "shed_for_drive_loss pf s = try_in (r, s3) (\<lambda>_ s.
      (Ok True, (fold shed_forget (sd_shed d) s)\<lparr>sv_drive_loss := final (fold shed_forget (sd_shed d) s)\<rparr>))"
    unfolding ds [symmetric] final_def s2_def s1_def shed_for_drive_loss_def Let_def split_beta Some option.case by (rule refl)
  note dec = shed_decision_Some [OF Some]
  have c1: "core s1 = core s" "sv_bus s1 = sv_bus s" by (simp_all add: s1_def)
  note c1D = core_D [OF c1(1)]
  have sh: "shed_set s2 = fst ` snd ` set (sd_shed d)"
    using dec(4) c1D by (force simp: s2_def shed_set_def image_image)
  have e2: "evolves wire s s2"
    using c1 by (auto simp: s2_def evolves_def core_def shed_set_def wire_refl)
  have "secure wire s (snd (shed_for_drive_loss pf s))" if con: "consistent s"
  proof -
    have ns: "no_simulator s2" "distinct (map motor_address_of (sv_motors s2))" and es: "\<not> sv_hardware_estop s2"
      using con c1D dec(2) by (auto simp: s2_def consistent_def stoppable_def no_simulator_def)
    show ?thesis
    proof (cases r)
      case (Inl err)
      then have f: "evolves wire s2 s3" "consistent s3" "fail_safe s3"
        using shed_disables_effect [OF ns, where A = "{}" and shed = "sd_shed d"] ds es by auto
      have "snd (shed_for_drive_loss pf s) = s3"
        using Inl by (simp add: eq)
      then show ?thesis
        using f evolves_trans [OF e2 f(1)] dec(1) by (simp add: secure_def proceeds_def)
    next
      case (Inr u)
      then obtain b where s3: "s3 = s2\<lparr>sv_bus := b\<rparr>" "wire (shed_set s) (sv_bus s2) b"
        using shed_disables_effect [OF ns, where A = "shed_set s" and shed = "sd_shed d"] ds by auto
      define s4 where "s4 = snd (shed_for_drive_loss pf s)"
      obtain dl where s4: "s4 = (fold shed_forget (sd_shed d) s3)\<lparr>sv_drive_loss := dl\<rparr>"
        "ds_shed dl = ds_shed (sv_drive_loss s3)" "ds_episode dl \<noteq> None"
        using Inr that [of "final (fold shed_forget (sd_shed d) s3)"]
        by (simp add: s4_def eq final_def shed_forget_drive_loss)
      note ff = shed_forget_fold [of "sd_shed d" s3]
      have act: "sv_active_joints s4 = filter (\<lambda>j. j \<notin> fst ` set (sd_shed d)) (sv_active_joints s)"
        using ff s3 c1D by (simp add: s4 s2_def)
      have fields: "sv_stop_motors s4 = sv_stop_motors s" "sv_motors s4 = sv_motors s" "sv_backend s4 = sv_backend s"
        "sv_control s4 = sv_control s" "sv_limits s4 = sv_limits s" "sv_fault_authority s4 = sv_fault_authority s"
        "sv_exit_reporting_released s4 = sv_exit_reporting_released s" "sv_mode s4 = sv_mode s"
        "sv_hardware_estop s4 = sv_hardware_estop s" "sv_enable_writes_pending s4 = sv_enable_writes_pending s"
        "shed_set s4 = shed_set s2" "sv_bus s4 = b"
      proof -
        let ?t = "fold shed_forget (sd_shed d) s3"
        have "sv_stop_motors s3 = sv_stop_motors s" "sv_motors s3 = sv_motors s" "sv_backend s3 = sv_backend s"
          "sv_control s3 = sv_control s" "sv_limits s3 = sv_limits s" "sv_fault_authority s3 = sv_fault_authority s"
          "sv_exit_reporting_released s3 = sv_exit_reporting_released s" "sv_mode s3 = sv_mode s"
          "sv_hardware_estop s3 = sv_hardware_estop s" "sv_enable_writes_pending s3 = sv_enable_writes_pending s"
          "sv_drive_loss s3 = sv_drive_loss s2" "sv_bus s3 = b"
          using c1D by (simp_all add: s3(1) s2_def)
        then show "sv_stop_motors s4 = sv_stop_motors s" "sv_motors s4 = sv_motors s" "sv_backend s4 = sv_backend s"
          "sv_control s4 = sv_control s" "sv_limits s4 = sv_limits s" "sv_fault_authority s4 = sv_fault_authority s"
          "sv_exit_reporting_released s4 = sv_exit_reporting_released s" "sv_mode s4 = sv_mode s"
          "sv_hardware_estop s4 = sv_hardware_estop s" "sv_enable_writes_pending s4 = sv_enable_writes_pending s"
          "shed_set s4 = shed_set s2" "sv_bus s4 = b"
          using core_D [of "?t\<lparr>sv_active_joints := sv_active_joints s3\<rparr>" s3] ff s4(2)
          by (simp_all add: s4(1) shed_set_def)
      qed
      have ev: "evolves wire s s4"
        using e2 s3(2) fields c1 dec(4) by (auto simp: evolves_def shed_set_def s2_def)
      have "motor_address_of m \<notin> shed_set s4" if m: "m \<in> set (sv_motors s4)" "me_joint m \<in> set (sv_active_joints s4)" for m
      proof
        assume "motor_address_of m \<in> shed_set s4"
        then obtain j a p where t: "(j, a, p) \<in> set (sd_shed d)" "a = motor_address_of m"
          using sh fields(11) by auto
        then obtain m' where m': "m' \<in> set (sv_motors s)" "me_joint m' = j" "motor_address_of m' = motor_address_of m"
          using dec(6) by auto
        have "m' = m" using m' m(1) con fields(2) by (auto simp: consistent_def stoppable_def distinct_map dest: inj_onD)
        then show False using m(2) m'(2) t(1) act by force
      qed
      then have "consistent s4"
        using con fields s4 dec(2,5) by (auto simp: consistent_def stoppable_def no_simulator_def has_latched_fault_def)
      moreover have "fail_safe s4" using dec(2) fields by (simp add: fail_safe_def has_latched_fault_def)
      ultimately show ?thesis
        using ev dec(1) by (simp add: secure_def proceeds_def s4_def)
    qed
  qed
  then show ?thesis by (auto simp: secure_def proceeds_def)
qed

end

end
