(* ===== verification/Davout_Calls.thy ===== *)
theory Davout_Calls
  imports Davout_Shedding
begin

text \<open>
  The enable gate, the feedback poll, the identity admission, enabling and the motion path keep the relations
  of \<open>Davout_Relations\<close> (\<open>davout/src/lib.rs\<close>).
\<close>

section \<open>The enable gate\<close>

lemma motor_at_address: "motor_at motors a = Some m \<Longrightarrow> motor_address_of m = a"
  by (auto simp: motor_at_def find_Some_iff)

context supervised_bus
begin

lemma secure_pending:
  "(sv_enable_writes_pending s = [] \<longrightarrow> p = []) \<or> shed_set s = {} \<Longrightarrow> secure wire s (s\<lparr>sv_enable_writes_pending := p\<rparr>)"
  by (auto simp: secure_def proceeds_def evolves_def shed_set_def wire_refl consistent_def stoppable_def no_simulator_def
      has_latched_fault_def fail_safe_def)

lemma secure_cond: "(consistent s \<Longrightarrow> secure wire s s') \<Longrightarrow> secure wire s s'"
  by (auto simp: secure_def proceeds_def)

lemma offs_effect:
  assumes "\<forall>a\<in>set as. a \<notin> shed_set s"
  shows "core (snd (issue_reporting_offs pf now as s)) = core s \<and>
    wire (shed_set s) (sv_bus s) (sv_bus (snd (issue_reporting_offs pf now as s)))"
  using assms
proof (induction "as" arbitrary: s)
  case (Cons a "as")
  show ?case
  proof (cases "motor_at (sv_motors s) a")
    case None
    then show ?thesis using Cons by simp
  next
    case (Some m)
    have a: "motor_address_of m = a" by (rule motor_at_address [OF Some])
    show ?thesis
    proof (cases "reporting_off_written s (me_joint m) \<noteq> None \<or> \<not> set_zero_quiet_elapsed s a now")
      case True
      then show ?thesis using Some Cons by simp
    next
      case False
      obtain r ar b where w: "write_off (pf_bus pf) m now (enable_catch_up s a now) (sv_active_reporting s, sv_bus s) = (r, ar, b)"
        by (cases "write_off (pf_bus pf) m now (enable_catch_up s a now) (sv_active_reporting s, sv_bus s)")
      define s1 where "s1 = s\<lparr>sv_active_reporting := ar, sv_bus := b\<rparr>"
      define s2 where "s2 = session_group record_group (me_can_interface m) s1"
      have c: "core s1 = core s" "core s2 = core s" "sv_bus s1 = b" "sv_bus s2 = b"
        by (simp_all add: s1_def s2_def core_def [of "_\<lparr>sv_bus := _\<rparr>"] core_def [of s])
      have wb: "wire (shed_set s) (sv_bus s) b"
        using w Cons.prems wire_reporting_off [of a "shed_set s" "sv_bus s"]
        by (auto simp: write_off_def a split_beta Let_def wire_refl split: if_splits)
      have ih: "core (snd (issue_reporting_offs pf now as t)) = core s \<and>
          wire (shed_set s) b (sv_bus (snd (issue_reporting_offs pf now as t)))" if "core t = core s" "sv_bus t = b" for t
        using Cons.IH [of t] Cons.prems core_cong(3) [OF that(1)] that by simp
      have step: "issue_reporting_offs pf now (a # as) s =
          (case r of None \<Rightarrow> issue_reporting_offs pf now as s1
           | Some (Inl e) \<Rightarrow> (Err (DavBus e), s2)
           | Some (Inr _) \<Rightarrow> issue_reporting_offs pf now as s2)"
        unfolding s1_def s2_def using Some False by (simp add: w Let_def)
      show ?thesis
        unfolding step using ih [of s1] ih [of s2] c wb wire_trans [OF wb]
        by (auto split: option.split sum.split)
    qed
  qed
qed (simp add: wire_refl)

lemma write_enable_effect:
  assumes "a \<notin> shed_set s"
  shows "core (snd (write_enable pf a s)) = core s \<and> wire (shed_set s) (sv_bus s) (sv_bus (snd (write_enable pf a s)))"
proof -
  obtain r1 b1 where e1: "enable_drive_at (pf_bus pf) a (sv_bus s) = (r1, b1)" by fastforce
  obtain r2 b2 where e2: "set_run_mode_at (pf_bus pf) a ModeMit b1 = (r2, b2)" by fastforce
  have w: "wire (shed_set s) (sv_bus s) b1" "wire (shed_set s) b1 b2"
    using wire_enable [OF assms, of "sv_bus s"] wire_run_mode [OF assms, of b1 ModeMit] e1 e2 by simp_all
  have cb: "core (t\<lparr>sv_bus := b\<rparr>) = core t" for t :: "'a supervisor" and b by (simp add: core_def)
  show ?thesis
    using w wire_trans [OF w]
    by (cases r1; cases r2)
      (simp_all add: write_enable_def on_bus_def read_clock_eq e1 e2 map_err_def cb)
qed

lemma enables_effect:
  assumes "\<forall>a\<in>set as. a \<notin> shed_set s"
  shows "core (snd (write_enables pf as s)) = core s \<and> wire (shed_set s) (sv_bus s) (sv_bus (snd (write_enables pf as s)))"
    and "core (snd (write_enable_wave pf as s)) = core s \<and>
      wire (shed_set s) (sv_bus s) (sv_bus (snd (write_enable_wave pf as s)))"
proof -
  have "core (snd (write_enables pf as s)) = core s \<and> wire (shed_set s) (sv_bus s) (sv_bus (snd (write_enables pf as s)))"
    using assms
  proof (induction "as" arbitrary: s)
    case (Cons a "as")
    note w = write_enable_effect [of a s]
    obtain r t where e: "write_enable pf a s = (r, t)" by fastforce
    have "core (snd (write_enables pf as t)) = core t \<and> wire (shed_set t) (sv_bus t) (sv_bus (snd (write_enables pf as t)))"
      if "core t = core s" using Cons.IH [of t] Cons.prems core_cong(3) [OF that] by simp
    then show ?case
      using w Cons.prems core_cong(3) [of t s] by (cases r) (auto simp: e intro: wire_trans)
  qed (simp add: wire_refl)
  then show "core (snd (write_enables pf as s)) = core s \<and> wire (shed_set s) (sv_bus s) (sv_bus (snd (write_enables pf as s)))" .
  show "core (snd (write_enable_wave pf as s)) = core s \<and>
      wire (shed_set s) (sv_bus s) (sv_bus (snd (write_enable_wave pf as s)))"
    using assms
  proof (induction "as" arbitrary: s)
    case (Cons a "as")
    note w = write_enable_effect [of a s]
    obtain r t where e: "write_enable pf a s = (r, t)" by fastforce
    let ?t = "session_group record_group (addr_interface a) t"
    have "core (snd (write_enable_wave pf as ?t)) = core t \<and>
        wire (shed_set t) (sv_bus t) (sv_bus (snd (write_enable_wave pf as ?t)))"
      if "core t = core s" using Cons.IH [of ?t] Cons.prems core_cong(3) [OF that] core_cong(3) [of ?t t] by simp
    then show ?case
      using w Cons.prems core_cong(3) [of t s] by (cases r) (auto simp: e intro: wire_trans)
  qed (simp add: wire_refl)
qed

lemma secure_due_enables: "secure wire s (snd (issue_due_enable_writes pf now s))"
proof (rule secure_cond)
  assume con: "consistent s"
  show "secure wire s (snd (issue_due_enable_writes pf now s))"
  proof (cases "sv_mode s \<noteq> ModeActive \<or> sv_enable_writes_pending s = [] \<or> sv_active_since s = None")
    case True
    then show ?thesis by (auto simp: issue_due_enable_writes_def secure_refl)
  next
    case False
    then have sh: "shed_set s = {}" using con by (auto simp: consistent_def)
    obtain r s1 where o: "issue_target_reporting_offs pf now s = (r, s1)" by fastforce
    have s1: "core s1 = core s" "wire {} (sv_bus s) (sv_bus s1)"
      using offs_effect [of "sv_enable_writes_pending s" s now] sh o by (simp_all add: issue_target_reporting_offs_def)
    have sec1: "secure wire s s1" using s1 sh by (intro secure_wire) simp_all
    obtain wave s2 where w: "take_enable_wave now s1 = (wave, s2)" by fastforce
    have sh1: "shed_set s1 = {}" using core_cong(3) [OF s1(1)] sh by simp
    have s2: "\<exists>p. s2 = s1\<lparr>sv_enable_writes_pending := p\<rparr>"
      using w by (auto simp: take_enable_wave_def split_beta Let_def)
    then have sec2: "secure wire s1 s2" using secure_pending sh1 by auto
    have sh2: "shed_set s2 = {}" using s2 sh1 by (auto simp: shed_set_def)
    have sec3: "secure wire s2 (snd (write_enable_wave pf wave s2))"
      using enables_effect(2) [of wave s2] sh2 by (intro secure_wire) simp_all
    have sec4: "secure wire t (t\<lparr>sv_enable_write_due := x\<rparr>)" for t x by (rule secure_quiet) simp_all
    note chain = secure_trans [OF sec1 sec2]
    show ?thesis
    proof (cases r)
      case (Inl e)
      then show ?thesis using False o sec1 by (simp add: issue_due_enable_writes_def secure_refl)
    next
      case (Inr u)
      show ?thesis
      proof (cases "wave = []")
        case True
        then show ?thesis using False o Inr w chain by (simp add: issue_due_enable_writes_def secure_refl)
      next
        case False
        have "secure wire s (snd (try_in (write_enable_wave pf wave s2) (\<lambda>_ s.
             (Ok (), s\<lparr>sv_enable_write_due := Some (now + int (loop_period s))\<rparr>))))"
          by (rule secure_trans [OF chain secure_try [OF sec3]]) (simp add: sec4)
        then show ?thesis
          using \<open>\<not> (sv_mode s \<noteq> ModeActive \<or> _)\<close> False o Inr w by (simp add: issue_due_enable_writes_def secure_refl)
      qed
    qed
  qed
qed

lemma secure_receive: "secure wire s (snd (receive_report pf budget s))"
  by (rule secure_wire)
    (simp_all add: receive_report_def split_beta Let_def core_def wire_receive)

end

context supervised_drives
begin

lemma secure_before: "secure wire s (snd (poll_before_read pf s))"
proof -
  have v: "secure wire s1 (snd (reference_binding_valid_with pf Defer s1))" for s1 by (rule secure_quiet) simp_all
  have d: "secure wire s1 (snd (case issue_due_enable_writes pf now s1 of
      (Inl e, s) \<Rightarrow> (Err e, stop_on_enable_error pf e s) | (Inr _, s) \<Rightarrow> (Ok lost, s)))" for s1 now and lost :: bool
    using secure_due_enables [of s1 now] secure_trans [OF secure_due_enables [of s1 now] secure_enable_error]
    by (cases "issue_due_enable_writes pf now s1"; cases "fst (issue_due_enable_writes pf now s1)") (auto dest: sym)
  have m: "secure wire s1 (snd (if P then shed_for_drive_loss pf s1 else (Ok False, s1)))" for s1 P
    using secure_shed by (simp add: secure_refl)
  have k: "secure wire s1 (snd (if P then (Ok P, s1) else case read_clock s1 of (now, s1) \<Rightarrow>
      case issue_due_enable_writes pf now s1 of
        (Inl e, s) \<Rightarrow> (Err e, stop_on_enable_error pf e s) | (Inr _, s) \<Rightarrow> (Ok P, s)))" for s1 P
    using secure_read [of s1] secure_trans [OF secure_read d, of s1] by (cases "read_clock s1") (simp add: secure_refl)
  have j: "secure wire s1 (snd (case reference_binding_valid_with pf Defer s1 of (valid, s) \<Rightarrow> f valid s))"
    if "\<And>valid s. secure wire s (snd (f valid s))" for s1 and f :: "bool \<Rightarrow> 'a supervisor \<Rightarrow> (bool, 'a) step"
    using secure_trans [OF v [of s1] that] by (cases "reference_binding_valid_with pf Defer s1") simp
  show ?thesis
    unfolding poll_before_read_def Let_def
    by (rule secure_try [OF secure_deadline], rule j, rule secure_try [OF m], rule k)
qed

lemma secure_after:
  assumes "noted s (fc_first_transition consumption, s1)"
  shows "secure wire s (snd (poll_after_read pf lost consumption s1))"
proof -
  define v where "v = reference_binding_valid pf s1"
  define ck where "ck = read_clock (snd v)"
  define od where "od = enable_echo_overdue pf (fst ck) (snd ck)"
  define lapsed where "lapsed = (\<not> lost \<and> sv_mode (snd v) = ModeActive \<and> \<not> (fst v \<and> active_references_held (snd v)))"
  define ft where "ft = (fc_first_transition consumption \<or> (case fst od of Some (_, t) \<Rightarrow> t | None \<Rightarrow> False))"
  define fe where "fe = (case fc_first_error consumption of Some e \<Rightarrow> Some e | None \<Rightarrow> map_option fst (fst od))"
  define sh where "sh = (if lapsed \<and> fst v \<and> \<not> ft \<and> fe = None
             then (case shed_for_drive_loss pf (snd od) of
                 (Inl e, s) \<Rightarrow> (lapsed, Some e, s) | (Inr shed, s) \<Rightarrow> (\<not> shed, fe, s))
             else (lapsed, fe, snd od))"
  define s4 where "s4 = (if ft then snd (disable_all pf (snd (snd sh))) else snd (snd sh))"
  have "poll_after_read pf lost consumption s1 =
      (if lost \<or> fst sh
       then (case fst (snd sh) of Some e \<Rightarrow> Some e
             | None \<Rightarrow> Some (DavHoming [Txt (if lost then ''current reference was revoked before feedback projection''
                   else ''current reference was revoked after feedback projection'')]),
             if sv_mode s4 = ModeActive then snd (disable_all pf s4) else s4)
       else (fst (snd sh), s4))"
    unfolding poll_after_read_def Let_def split_beta s4_def sh_def fe_def ft_def lapsed_def od_def ck_def v_def by (rule refl)
  then have eq: "snd (poll_after_read pf lost consumption s1) =
      (if (lost \<or> fst sh) \<and> sv_mode s4 = ModeActive then snd (disable_all pf s4) else s4)" by simp
  have n3: "noted s (ft, snd od)"
  proof -
    have c: "core (snd ck) = core s1" "sv_bus (snd ck) = sv_bus s1" by (simp_all add: ck_def v_def)
    have "noted s (fc_first_transition consumption, snd ck)"
      by (rule noted_trans [OF assms noted_quiet [OF c, of False]]) simp
    then show ?thesis
      by (rule noted_trans [OF _ noted_overdue [of "snd ck" pf "fst ck", folded od_def]]) (simp add: ft_def)
  qed
  have s3: "snd (snd sh) = snd od \<or> \<not> ft \<and> snd (snd sh) = snd (shed_for_drive_loss pf (snd od))"
    by (auto simp: sh_def split: prod.split sum.split)
  have "secure wire s s4"
  proof (cases ft)
    case True
    then show ?thesis
      using s3 secure_noted_stop [OF n3 secure_disable disable_evolves [THEN conjunct2]] by (simp add: s4_def)
  next
    case False
    have "secure wire s (snd od)"
      using secure_noted_stop [OF n3 secure_disable disable_evolves [THEN conjunct2]] False by simp
    then show ?thesis
      using s3 False secure_trans [OF _ secure_shed] by (auto simp: s4_def)
  qed
  then show ?thesis unfolding eq using secure_trans [OF _ secure_disable] by simp
qed

lemma secure_poll: "secure wire s (snd (poll_feedback pf budget s))"
proof -
  have "secure wire s1 (snd (let (report, s) = receive_report pf budget s1;
           count = length (fr_observations report);
           s = s\<lparr>sv_last_refresh_frames := sv_last_refresh_frames s + count\<rparr>;
           (consumption, s) = consume_report_in_context pf report Operational s;
           (first_error, s) = poll_after_read pf lost consumption s
       in (case first_error of Some e \<Rightarrow> Err e | None \<Rightarrow> Ok count, s)))" for s1 lost
  proof -
    define rr where "rr = receive_report pf budget s1"
    define s2 where "s2 = (snd rr)\<lparr>sv_last_refresh_frames := sv_last_refresh_frames (snd rr) + length (fr_observations (fst rr))\<rparr>"
    define cr where "cr = consume_report_in_context pf (fst rr) Operational s2"
    have "secure wire s1 s2"
      using secure_trans [OF secure_receive secure_quiet] by (simp add: s2_def rr_def)
    from secure_trans [OF this secure_after [OF noted_report]] show ?thesis
      unfolding Let_def split_beta snd_conv rr_def [symmetric] s2_def [symmetric] cr_def [symmetric]
      by (simp add: cr_def)
  qed
  then show ?thesis unfolding poll_feedback_def by (intro secure_try secure_before)
qed

lemma secure_drain: "secure wire s (snd (drain_feedback pf s))"
proof -
  have "secure wire s1 (snd (refuse_reference_interference pf op s1))" for s1 op by (rule secure_quiet) simp_all
  then show ?thesis unfolding drain_feedback_def by (intro secure_try secure_poll)
qed

end

section \<open>Admission\<close>

lemma ensure_binding_Ok:
  assumes "ensure_reference_binding pf s = (Inr u, s')"
  shows "core s' = core s" "\<not> has_latched_fault s"
proof -
  define s1 where "s1 = observe_reference_commits pf s"
  have c1: "core s1 = core s" by (simp add: s1_def)
  have "\<not> has_latched_fault s1 \<and> s' = snd (reference_binding_valid pf s1)"
    using assms fault_clear_iff [of s1]
    unfolding ensure_reference_binding_def refuse_reference_interference_def Let_def s1_def [symmetric] split_beta
    by (auto simp: try_in_def refuse_if_def split: prod.splits sum.splits if_splits)
  then show "core s' = core s" "\<not> has_latched_fault s" using c1 core_D(12) [OF c1] by simp_all
qed

lemma ensure_for_Ok:
  assumes "ensure_reference_for pf joints s = (Inr u, s')"
  shows "core s' = core s" "\<not> has_latched_fault s"
  using assms ensure_binding_Ok [of pf s]
  by (auto simp: ensure_reference_for_def try_in_def split: prod.splits sum.splits)

lemma core_disabled_poses [simp]:
  "core (snd (check_disabled_poses_at_enable joints s)) = core s"
  "sv_bus (snd (check_disabled_poses_at_enable joints s)) = sv_bus s"
proof (induction joints arbitrary: s)
  case (Cons j js)
  {
    case 1
    show ?case
      using Cons.IH by (simp add: split_beta Let_def split: option.split)
  next
    case 2
    show ?case
      using Cons.IH by (simp add: split_beta Let_def split: option.split)
  }
qed simp_all

text \<open>Outside a session with nothing shed: what enabling starts from.\<close>

definition idle :: "'b supervisor \<Rightarrow> bool" where
  "idle s \<longleftrightarrow> consistent s \<and> sv_mode s \<noteq> ModeActive \<and> shed_set s = {}"

lemma idle_core: "core s' = core s \<Longrightarrow> idle s' = idle s"
  using core_cong [of s' s] by (simp add: idle_def)

text \<open>A complete call: consistent and safe states stay so.\<close>

definition admissible :: "(motor_address set \<Rightarrow> 'b \<Rightarrow> 'b \<Rightarrow> bool) \<Rightarrow> 'b supervisor \<Rightarrow> 'b supervisor \<Rightarrow> bool" where
  "admissible wire s s' \<longleftrightarrow>
     (consistent s \<longrightarrow> evolves wire s s' \<and> consistent s' \<and> (fail_safe s \<longrightarrow> fail_safe s'))"

lemma secure_admissible: "secure wire s s' \<Longrightarrow> admissible wire s s'"
  by (auto simp: secure_def proceeds_def admissible_def)

lemma secure_idle: "secure wire s s' \<Longrightarrow> idle s \<Longrightarrow> idle s'"
  by (auto simp: secure_def proceeds_def idle_def)

context supervised_drives
begin

lemma admissible_trans: "admissible wire s s' \<Longrightarrow> admissible wire s' s'' \<Longrightarrow> admissible wire s s''"
  unfolding admissible_def by (auto intro: evolves_trans)

lemma secure_for_active: "secure wire s (snd (ensure_reference_for_active pf s))"
proof -
  have m: "secure wire s1 (snd (if P then shed_for_drive_loss pf s1 else (Ok False, s1)))" for s1 P
    using secure_shed by (simp add: secure_refl)
  have k: "secure wire s1 (if P then snd (disable_all pf s1) else s1)" for s1 P
    using secure_disable by (simp add: secure_refl)
  show ?thesis
    unfolding ensure_reference_for_active_def Let_def
    by (rule secure_try [OF secure_binding], rule secure_try [OF m]) (simp only: snd_conv k)
qed

lemma secure_check_active: "secure wire s (snd (check_active_references pf s))"
  unfolding check_active_references_def
  using secure_try [OF secure_for_active, of s "\<lambda>_ s. (Ok (), s)"] by (simp add: secure_refl)

lemma secure_homing: "secure wire s (snd (set_homing_complete pf s))"
proof -
  have i: "secure wire s1 (snd (refuse_reference_interference pf op s1))" for s1 op by (rule secure_quiet) simp_all
  have r: "secure wire s1 (sync_active_reporting pf (s1\<lparr>sv_mode := ModeReady\<rparr>))" for s1
  proof -
    have "secure wire s1 (s1\<lparr>sv_mode := ModeReady\<rparr>)"
      by (auto simp: secure_def proceeds_def evolves_def shed_set_def wire_refl consistent_def stoppable_def no_simulator_def
          has_latched_fault_def fail_safe_def)
    from secure_trans [OF this secure_sync] show ?thesis .
  qed
  show ?thesis
    unfolding set_homing_complete_def
    by (intro secure_try secure_check i secure_for) (simp add: r)
qed

lemma identity_step_secure:
  fixes loop
  assumes ih: "\<And>asked next_request s y. loop asked next_request s = Some y \<Longrightarrow> idle s \<Longrightarrow> secure wire s (snd y)"
    and idle: "idle s"
    and step: "(case identity_scan (sv_physical s) mark 0 targets of
        Inl (joint, bound, observed) \<Rightarrow>
          Some (err joint bound observed, s\<lparr>sv_reference_authority := ra1 joint\<rparr>)
      | Inr missing \<Rightarrow>
          if missing = [] then Some (Ok (), s)
          else (case read_clock s of (now, s1) \<Rightarrow>
            if deadline \<le> now then Some (late missing, s1\<lparr>sv_reference_authority := ra2 missing s1\<rparr>)
            else (case least_asked asked (filter (\<lambda>i. due_at asked next_request i \<le> now) missing) of
                Some i \<Rightarrow>
                  (case get_device_id_at (pf_bus pf) (fst (snd (targets ! i))) (sv_bus s1) of
                     (Inl e, b) \<Rightarrow> Some (Err (DavBus e), s1\<lparr>sv_bus := b\<rparr>)
                   | (Inr _, b) \<Rightarrow>
                       loop (asked[i := Some now]) (now + int IDENTITY_ADMISSION_SPACING) (s1\<lparr>sv_bus := b\<rparr>))
              | None \<Rightarrow>
                  (case read_clock s1 of (t, s2) \<Rightarrow>
                     (case poll_feedback pf (wait missing t) (sync_active_reporting pf s2) of
                        (Inl e, s3) \<Rightarrow> Some (Err e, s3)
                      | (Inr _, s3) \<Rightarrow> loop asked next_request s3))))) = Some y"
  shows "secure wire s (snd y)"
proof -
  obtain now s1 where ck: "read_clock s = (now, s1)" by fastforce
  obtain t s2 where ck2: "read_clock s1 = (t, s2)" by fastforce
  have q: "secure wire t1 (t1\<lparr>sv_reference_authority := ra\<rparr>)" for t1 ra by (rule secure_quiet) simp_all
  have r: "secure wire s s1" "secure wire s s2"
    using secure_read [of s] secure_trans [OF secure_read [of s]] secure_read [of s1] ck ck2 by simp_all
  have i1: "idle s1" by (rule secure_idle [OF r(1) idle])
  have g: "secure wire s (s1\<lparr>sv_bus := snd (get_device_id_at (pf_bus pf) a (sv_bus s1))\<rparr>)" for a
    using i1 by (intro secure_trans [OF r(1) secure_wire]) (auto simp: core_def idle_def wire_identity)
  have p: "secure wire s (snd (poll_feedback pf w (sync_active_reporting pf s2)))" for w
    by (rule secure_trans [OF secure_trans [OF r(2) secure_sync] secure_poll])
  have go: "secure wire s (snd y)" if "secure wire s t1" "loop a n t1 = Some y" for a n t1
    by (rule secure_trans [OF that(1) ih [OF that(2) secure_idle [OF that(1) idle]]])
  have pick: "secure wire s (snd y)" if "(case get_device_id_at (pf_bus pf) a (sv_bus s1) of
        (Inl e, b) \<Rightarrow> Some (Err (DavBus e), s1\<lparr>sv_bus := b\<rparr>) | (Inr _, b) \<Rightarrow> loop x n (s1\<lparr>sv_bus := b\<rparr>)) = Some y" for a x n
    using that g [of a] go by (auto split: prod.splits sum.splits)
  have await: "secure wire s (snd y)" if "(case poll_feedback pf w (sync_active_reporting pf s2) of
        (Inl e, s3) \<Rightarrow> Some (Err e, s3) | (Inr _, s3) \<Rightarrow> loop x n s3) = Some y" for w x n
    using that p [of w] go by (auto split: prod.splits sum.splits)
  show ?thesis
    using step secure_refl [of s] q [of s] secure_trans [OF r(1) q] pick await unfolding ck ck2 prod.case
    by (auto split: sum.splits if_splits option.splits)
qed

lemma identity_loop_secure:
  assumes "identity_loop pf targets mark deadline asked next_request s = Some y" and "idle s"
  shows "secure wire s (snd y)"
proof -
  have "pf = pf \<longrightarrow> idle s \<longrightarrow> secure wire s (snd y)"
  proof (rule identity_loop.raw_induct [where P = "\<lambda>pf' targets mark deadline asked next_request s y.
        pf' = pf \<longrightarrow> idle s \<longrightarrow> secure wire s (snd y)", OF _ assms(1)], intro impI, goal_cases)
    case (1 loop pf' targets mark deadline asked next_request s y)
    note ih = 1(1) [rule_format, OF _ refl]
    show ?case
      by (rule identity_step_secure [where loop = "loop pf targets mark deadline", OF ih 1(4) 1(2) [unfolded 1(3)]])
  qed
  then show ?thesis using assms by blast
qed

end

lemma enable_admission_Ok:
  assumes "enable_admission pf joints s = (Inr u, s')"
  shows "ds_episode (sv_drive_loss s') = None" "\<not> has_latched_fault s'"
proof -
  have ep: "refuse_during_episode m t = Inr v \<Longrightarrow> ds_episode (sv_drive_loss t) = None" for m v and t :: "'a supervisor"
    by (auto simp: refuse_during_episode_def split: option.splits)
  have "\<exists>t v. ds_episode (sv_drive_loss t) = None \<and> ensure_reference_for pf joints t = (Inr v, s')"
    using assms unfolding enable_admission_def
    by (auto simp: try_in_def dest: ep split: prod.splits sum.splits if_splits)
  then obtain t v where t: "ds_episode (sv_drive_loss t) = None" "ensure_reference_for pf joints t = (Inr v, s')" by blast
  note c = ensure_for_Ok [OF t(2)]
  show "ds_episode (sv_drive_loss s') = None" "\<not> has_latched_fault s'"
    using t(1) c(2) core_D [OF c(1)] by simp_all
qed

context supervised_drives
begin

lemma secure_admission: "secure wire s (snd (enable_admission pf joints s))"
proof -
  have a: "secure wire t (snd (if P then try_in (ensure_reference_for_active pf t) (\<lambda>_ s. (refuse_during_episode m s, s))
      else (Ok (), t)))" for t P m
    using secure_try [OF secure_for_active, of t "\<lambda>_ s. (refuse_during_episode m s, s)"] by (simp add: secure_refl)
  show ?thesis
    unfolding enable_admission_def by (intro secure_try [OF a] secure_check secure_for)
qed

lemma secure_verify:
  assumes "verify_physical_identities pf joints s = Some y" and "idle s"
  shows "secure wire s (snd y)"
proof -
  have i: "idle (snd (read_clock s))" using assms(2) idle_core [OF core_read(1)] by blast
  consider "snd y = s" | mark deadline asked start targets where
    "identity_loop pf targets mark deadline asked start (snd (read_clock s)) = Some y"
    using assms(1) unfolding verify_physical_identities_def Let_def split_beta
    by (simp only: split: if_splits sum.splits) (auto simp only: option.inject snd_conv)
  then show ?thesis
  proof cases
    case 1
    then show ?thesis by (simp add: secure_refl)
  next
    case 2
    then show ?thesis by (rule secure_trans [OF secure_read identity_loop_secure [OF _ i]])
  qed
qed

lemma admissible_activate:
  assumes "idle s" and "\<not> has_latched_fault s"
  shows "admissible wire s (activate pf joints s)"
proof -
  define s1 where "s1 = s\<lparr>sv_active_joints := remdups joints,
               sv_unanswered_solicits := map (\<lambda>m. (motor_address_of m, solicited_default))
                 (filter (\<lambda>m. me_joint m \<in> set joints) (sv_motors s)), sv_mode := ModeActive\<rparr>"
  define s2 where "s2 = (snd (read_clock s1))\<lparr>sv_active_since := Some (fst (read_clock s1)), sv_enable_write_due := None,
           sv_wrong_sign_state := [], sv_last_tau_ff := [], sv_last_tick := None\<rparr>"
  have eq: "activate pf joints s = sync_active_reporting pf s2"
    unfolding activate_def Let_def split_beta s2_def s1_def by (rule refl)
  have c: "core s2 = core s1" "sv_bus s2 = sv_bus s" by (simp_all add: s2_def s1_def core_def read_clock_eq)
  have "admissible wire s s1"
    using assms by (auto simp: admissible_def s1_def evolves_def shed_set_def wire_refl consistent_def stoppable_def
        no_simulator_def has_latched_fault_def fail_safe_def idle_def)
  moreover have "admissible wire s1 s2" by (rule secure_admissible, rule secure_quiet) (simp_all add: c s1_def)
  ultimately show ?thesis
    unfolding eq by (blast intro: admissible_trans secure_admissible secure_sync)
qed

lemma admissible_session:
  assumes "idle s"
  shows "admissible wire s (snd (enable_session pf joints s))"
proof -
  have writes: "secure wire s (snd (if echo then let (now, s) = read_clock s; s = begin_reporting_off_gate now s;
                        s = s\<lparr>sv_enable_echo_pending := fold List.insert as (sv_enable_echo_pending s),
                              sv_enable_writes_pending := as\<rparr>
                    in issue_target_reporting_offs pf now s
               else write_enables pf as s))" for echo "as"
  proof (cases echo)
    case True
    define s1 where "s1 = (begin_reporting_off_gate (fst (read_clock s)) (snd (read_clock s)))"
    define s2 where "s2 = s1\<lparr>sv_enable_echo_pending := fold List.insert as (sv_enable_echo_pending s1)\<rparr>"
    have c: "core s2 = core s" "sv_bus s2 = sv_bus s"
      by (simp_all add: s2_def s1_def begin_reporting_off_gate_def core_def read_clock_eq)
    have sh: "shed_set s2 = {}" using assms core_cong(3) [OF c(1)] by (simp add: idle_def)
    define s3 where "s3 = s2\<lparr>sv_enable_writes_pending := as\<rparr>"
    have sh3: "shed_set s3 = {}" using sh by (simp add: s3_def shed_set_def)
    have "secure wire s s3"
      unfolding s3_def using sh by (intro secure_trans [OF secure_quiet [OF c] secure_pending]) simp
    moreover have "secure wire s3 (snd (issue_target_reporting_offs pf now s3))" for now
      using offs_effect [of "sv_enable_writes_pending s3" s3 now] sh3
      by (intro secure_wire) (simp_all add: issue_target_reporting_offs_def)
    ultimately have "secure wire s (snd (issue_target_reporting_offs pf (fst (read_clock s)) s3))"
      by (blast intro: secure_trans)
    then show ?thesis
      using True by (simp add: s3_def s2_def s1_def split_beta Let_def)
  next
    case False
    then show ?thesis
      using enables_effect(1) [of "as" s] assms by (auto simp: idle_def intro!: secure_wire)
  qed
  have act: "admissible wire t (snd (try_in (ensure_reference_for pf joints t) (\<lambda>_ s. (Ok (), activate pf joints s))))"
    if "idle t" for t
  proof -
    obtain r t1 where e: "ensure_reference_for pf joints t = (r, t1)" by fastforce
    have sec: "secure wire t t1" using secure_for [of t joints] e by simp
    show ?thesis
    proof (cases r)
      case (Inl err)
      then show ?thesis using e secure_admissible [OF sec] by simp
    next
      case (Inr u)
      note c = ensure_for_Ok [OF e [unfolded Inr]]
      have "admissible wire t1 (activate pf joints t1)"
        using c that core_D(12) [OF c(1)] by (intro admissible_activate) (simp_all add: idle_core [OF c(1)])
      then show ?thesis using e Inr admissible_trans [OF secure_admissible [OF sec]] by simp
    qed
  qed
  have poll: "admissible wire t (snd (try_in (poll_feedback pf 0 t) (\<lambda>_ s.
      try_in (ensure_reference_for pf joints s) (\<lambda>_ s. (Ok (), activate pf joints s)))))" if "idle t" for t
  proof -
    obtain r t1 where e: "poll_feedback pf 0 t = (r, t1)" by fastforce
    have sec: "secure wire t t1" using secure_poll [of t 0] e by simp
    show ?thesis
      using e secure_admissible [OF sec] admissible_trans [OF secure_admissible [OF sec] act [OF secure_idle [OF sec that]]]
      by (cases r) simp_all
  qed
  define addrs where "addrs = map (\<lambda>joint. motor_address_of (the (motor_for_joint (sv_motors s) joint))) joints"
  show ?thesis
  proof (cases "for_each (\<lambda>joint. refuse_if (motor_for_joint (sv_motors s) joint = None) (DavUnknownJoint joint)) joints")
    case (Inl e)
    then show ?thesis by (simp add: enable_session_def secure_admissible secure_refl)
  next
    case (Inr u)
    define w where "w = (if bus_echoes (pf_bus pf) (sv_bus s)
               then let (now, s) = read_clock s; s = begin_reporting_off_gate now s;
                        s = s\<lparr>sv_enable_echo_pending := fold List.insert addrs (sv_enable_echo_pending s),
                              sv_enable_writes_pending := addrs\<rparr>
                    in issue_target_reporting_offs pf now s
               else write_enables pf addrs s)"
    obtain r t where wt: "w = (r, t)" by fastforce
    have sec: "secure wire s t" using writes [where echo = "bus_echoes (pf_bus pf) (sv_bus s)" and as = addrs] wt by (simp only: w_def [symmetric] snd_conv)
    have eq: "enable_session pf joints s = try_in w (\<lambda>_ s. try_in (poll_feedback pf 0 s) (\<lambda>_ s.
      try_in (ensure_reference_for pf joints s) (\<lambda>_ s. (Ok (), activate pf joints s))))"
      unfolding enable_session_def Inr try_in_Ok Let_def w_def addrs_def by (rule refl)
    show ?thesis
      unfolding eq wt
      using secure_admissible [OF sec] admissible_trans [OF secure_admissible [OF sec] poll [OF secure_idle [OF sec assms]]]
      by (cases r) simp_all
  qed
qed

end

context supervised_drives
begin

lemma admissible_try:
  assumes "secure wire s (snd r)" and "idle s" and "\<And>x s1. r = (Inr x, s1) \<Longrightarrow> idle s1 \<Longrightarrow> admissible wire s1 (snd (f x s1))"
  shows "admissible wire s (snd (try_in r f))"
proof (cases r)
  case (Pair q s1)
  have sec: "secure wire s s1" using assms(1) Pair by simp
  show ?thesis
    using Pair secure_admissible [OF sec] assms(3) [OF _ secure_idle [OF sec assms(2)]]
      admissible_trans [OF secure_admissible [OF sec]]
    by (cases q) simp_all
qed

lemma admissible_inner:
  assumes "enable_targets_inner pf joints s = Some y" and "idle s"
  shows "admissible wire s (snd y)"
proof -
  have begun: "admissible wire t (snd (case check_disabled_poses_at_enable joints t of
                     (Inl e, s) \<Rightarrow> (Err e, stop_after_runtime_error pf e s)
                   | (Inr _, s) \<Rightarrow>
                       (case enable_session pf joints s of
                          (Inl e, s) \<Rightarrow> (Err e, stop_on_enable_error pf e s)
                        | (Inr _, s) \<Rightarrow> (Ok (), s))))" if t: "idle t" for t
  proof -
    obtain r t1 where e: "check_disabled_poses_at_enable joints t = (r, t1)" by fastforce
    have sec: "secure wire t t1" using secure_quiet [of t1 t] core_disabled_poses [of joints t] e by simp
    obtain r2 t2 where e2: "enable_session pf joints t1 = (r2, t2)" by fastforce
    have a: "admissible wire t t2"
      using admissible_trans [OF secure_admissible [OF sec] admissible_session [OF secure_idle [OF sec t], of joints]] e2 by simp
    show ?thesis
      using e e2 a secure_admissible [OF secure_trans [OF sec secure_stop_error]]
        admissible_trans [OF a secure_admissible [OF secure_enable_error]]
      by (cases r; cases r2) simp_all
  qed
  obtain r t where e: "try_in (require_fault_clear s, s) (\<lambda>_ s. ensure_reference_for pf joints s) = (r, t)" by fastforce
  have sec: "secure wire s t"
    using secure_check [of "require_fault_clear s" s "\<lambda>_ s. ensure_reference_for pf joints s"] secure_for e by simp
  note idle = secure_idle [OF sec assms(2)]
  show ?thesis
  proof (cases r)
    case (Inl err)
    then show ?thesis using assms(1) e secure_admissible [OF sec] by (auto simp: enable_targets_inner_def)
  next
    case (Inr u)
    obtain rv v where v: "verify_physical_identities pf joints t = Some (rv, v)"
      using assms(1) e Inr by (cases "verify_physical_identities pf joints t") (auto simp: enable_targets_inner_def)
    have sv: "secure wire s v" using secure_trans [OF sec secure_verify [OF v idle]] by simp
    show ?thesis
    proof (cases rv)
      case (Inl err)
      then show ?thesis
        using assms(1) e Inr v secure_admissible [OF secure_trans [OF sv secure_stop_error]]
        by (auto simp: enable_targets_inner_def)
    next
      case (Inr u')
      have "admissible wire v (snd (try_in (poll_feedback pf 0 v) (\<lambda>_ s.
                 try_in (ensure_reference_for pf joints s) (\<lambda>_ s.
                   case check_disabled_poses_at_enable joints s of
                     (Inl e, s) \<Rightarrow> (Err e, stop_after_runtime_error pf e s)
                   | (Inr _, s) \<Rightarrow>
                       (case enable_session pf joints s of
                          (Inl e, s) \<Rightarrow> (Err e, stop_on_enable_error pf e s)
                        | (Inr _, s) \<Rightarrow> (Ok (), s))))))"
        by (intro admissible_try secure_poll secure_for begun secure_idle [OF sv assms(2)])
      then show ?thesis
        using assms(1) e \<open>r = Inr u\<close> v Inr admissible_trans [OF secure_admissible [OF sv]]
        by (auto simp: enable_targets_inner_def)
    qed
  qed
qed

lemma admissible_enable:
  assumes "enable_targets pf joints s = Some y"
  shows "admissible wire s (snd y)"
proof -
  obtain r t where e: "enable_admission pf joints s = (r, t)" by fastforce
  have sec: "secure wire s t" using secure_admission [of s joints] e by simp
  have "admissible wire s (snd y)" if con: "consistent s"
  proof (cases r)
    case (Inl err)
    then show ?thesis using assms e secure_admissible [OF sec] by (auto simp: enable_targets_def)
  next
    case (Inr u)
    have "consistent t" using sec con by (auto simp: secure_def proceeds_def)
    then have sh: "shed_set t = {}"
      using enable_admission_Ok [OF e [unfolded Inr]] by (auto simp: consistent_def stoppable_def)
    show ?thesis
    proof (cases "sv_mode t = ModeActive")
      case True
      then show ?thesis using assms e Inr secure_admissible [OF sec] by (auto simp: enable_targets_def)
    next
      case False
      then have "idle t" using sh \<open>consistent t\<close> by (simp add: idle_def)
      moreover have "enable_targets_inner pf joints t = Some y" using assms e Inr False by (simp add: enable_targets_def)
      ultimately show ?thesis using admissible_trans [OF secure_admissible [OF sec] admissible_inner] by blast
    qed
  qed
  then show ?thesis by (auto simp: admissible_def)
qed

end

section \<open>Motion\<close>

lemma core_batch [simp]:
  "core (snd (filter_batch supplied cmds s)) = core s" "sv_bus (snd (filter_batch supplied cmds s)) = sv_bus s"
proof -
  have one: "core (snd (filter_one cmd m i s)) = core s" "sv_bus (snd (filter_one cmd m i s)) = sv_bus s"
    for cmd m i and s :: "'a supervisor"
    by (simp_all add: filter_one_def tick_elapsed_def split_beta Let_def split: option.split)
  have "core (snd (filter_batch supplied cmds s)) = core s \<and> sv_bus (snd (filter_batch supplied cmds s)) = sv_bus s"
  proof (induction cmds arbitrary: s)
    case (Cons ci cmds)
    obtain cmd i where ci: "ci = (cmd, i)" by fastforce
    obtain r t where f: "filter_one cmd (unwrap_or supplied (sv_motors s ! i)) i s = (r, t)" by fastforce
    obtain r2 t2 where g: "filter_batch supplied cmds t = (r2, t2)" by fastforce
    show ?case
      using one [of cmd "unwrap_or supplied (sv_motors s ! i)" i s] Cons.IH [of t]
      by (cases r; cases r2) (simp_all add: ci f g)
  qed simp
  then show "core (snd (filter_batch supplied cmds s)) = core s" "sv_bus (snd (filter_batch supplied cmds s)) = sv_bus s"
    by simp_all
qed

lemma core_watchdog [simp]:
  "core (snd (check_comm_watchdog neutral s)) = core s" "sv_bus (snd (check_comm_watchdog neutral s)) = sv_bus s"
  by (simp_all add: check_comm_watchdog_def try_in_def split_beta Let_def split: sum.split)

lemma core_sync_addresses [simp]:
  "core (sync_motor_addresses s) = core s" "sv_bus (sync_motor_addresses s) = sv_bus s"
  by (simp_all add: sync_motor_addresses_def core_def)

lemma core_commit: "core (fold (commit_staged t) stages s) = core s \<and> sv_bus (fold (commit_staged t) stages s) = sv_bus s"
  by (induction stages arbitrary: s) (simp_all add: commit_staged_def core_def Let_def)

text \<open>Every command of an admitted batch names the configured motor of an active joint.\<close>

lemma motor_index_Some: "motor_index s j = Some i \<Longrightarrow> i < length (sv_motors s) \<and> me_joint (sv_motors s ! i) = j"
  using find_index_Some by (auto simp: motor_index_def)

lemma admit_commands_Ok:
  assumes "admit_commands s supplied configured cmds = Inr is"
  shows "\<exists>js. is = configured @ js \<and> length js = length cmds \<and>
    (\<forall>k<length cmds. js ! k < length (sv_motors s) \<and> me_joint (sv_motors s ! (js ! k)) = mj_joint (cmds ! k) \<and>
       mj_joint (cmds ! k) \<in> set (sv_active_joints s) \<and>
       motor_address_of (unwrap_or supplied (sv_motors s ! (js ! k))) = motor_address_of (sv_motors s ! (js ! k)))"
  using assms
proof (induction cmds arbitrary: configured "is")
  case (Cons cmd cmds)
  obtain i where i: "motor_index s (mj_joint cmd) = Some i" "mj_joint cmd \<in> set (sv_active_joints s)"
    "motor_address_of (unwrap_or supplied (sv_motors s ! i)) = motor_address_of (sv_motors s ! i)"
    "admit_commands s supplied (configured @ [i]) cmds = Inr is"
    using Cons.prems
    by (auto simp: rbind_Ok_iff Let_def require_active_joint_def refuse_if_def ok_or_def motor_address_of_def
        split: option.splits if_splits)
  from Cons.IH [OF i(4)] obtain js where js: "is = (configured @ [i]) @ js" "length js = length cmds"
    "\<forall>k<length cmds. js ! k < length (sv_motors s) \<and> me_joint (sv_motors s ! (js ! k)) = mj_joint (cmds ! k) \<and>
       mj_joint (cmds ! k) \<in> set (sv_active_joints s) \<and>
       motor_address_of (unwrap_or supplied (sv_motors s ! (js ! k))) = motor_address_of (sv_motors s ! (js ! k))" by blast
  then show ?case
    using i motor_index_Some [OF i(1)]
    by (intro exI [of _ "i # js"]) (auto simp: nth_Cons split: nat.split)
qed simp

lemma filter_batch_Ok:
  assumes "filter_batch supplied cmds s = (Inr xs, s')"
  shows "map (\<lambda>x. amc_address (fst x)) xs = map (\<lambda>(_, i). motor_address_of (unwrap_or supplied (sv_motors s ! i))) cmds"
  using assms
proof (induction cmds arbitrary: s xs)
  case (Cons ci cmds)
  obtain cmd i where ci: "ci = (cmd, i)" by fastforce
  obtain x t ys where f: "filter_one cmd (unwrap_or supplied (sv_motors s ! i)) i s = (Inr x, t)"
    "filter_batch supplied cmds t = (Inr ys, s')" "xs = x # ys"
    using Cons.prems by (auto simp: ci try_in_def split: prod.splits sum.splits)
  have t: "sv_motors t = sv_motors s"
    using f(1) core_batch [of supplied "[ci]" s] core_D(2) [of t s] by (auto simp: ci)
  have "amc_address (fst x) = motor_address_of (unwrap_or supplied (sv_motors s ! i))"
    using f(1) by (auto simp: filter_one_def split_beta Let_def rbind_Ok_iff)
  then show ?case using Cons.IH [OF f(2)] t by (simp add: ci f(3))
qed simp

context supervised_drives
begin

lemma secure_watchdog: "secure wire s (snd (check_comm_watchdog neutral s))"
  by (rule secure_quiet) simp_all

lemma secure_reject: "secure wire s (snd (reject_batch pf e s))"
  using secure_stop_error by (simp add: reject_batch_def secure_refl)

lemma stale_pose:
  "secure wire s (snd (shed_after_stale_pose pf batch s)) \<and>
   (case shed_after_stale_pose pf batch s of
      (Inr (Some kept), s') \<Rightarrow> \<forall>x\<in>set kept. amc_address (fst x) \<notin> shed_set s' | _ \<Rightarrow> True)"
proof (cases "sv_mode s \<noteq> ModeActive")
  case True
  then show ?thesis by (simp add: shed_after_stale_pose_def secure_refl)
next
  case False
  define s1 where "s1 = snd (reference_binding_valid pf s)"
  have sec1: "secure wire s s1" by (rule secure_quiet) (simp_all add: s1_def)
  obtain r s2 where sh: "shed_for_drive_loss pf s1 = (r, s2)" by fastforce
  have sec2: "secure wire s s2" using secure_trans [OF sec1 secure_shed] sh by (metis snd_conv)
  obtain w s3 where wd: "check_comm_watchdog False s2 = (w, s3)" by fastforce
  have c3: "core s3 = core s2" using core_watchdog(1) [of False s2] wd by simp
  have sec3: "secure wire s s3" using secure_trans [OF sec2 secure_watchdog] wd by (metis snd_conv)
  have sec4: "secure wire s (stop_after_runtime_error pf e s3)" for e by (rule secure_trans [OF sec3 secure_stop_error])
  have eq: "shed_after_stale_pose pf batch s =
      (if active_references_held s1 then (Ok None, s1)
       else try_in (r, s2) (\<lambda>shed s. if \<not> shed then (Ok None, s)
              else case check_comm_watchdog False s of
                     (Inl e, t) \<Rightarrow> (Err e, stop_after_runtime_error pf e t)
                   | (Inr _, t) \<Rightarrow> (Ok (Some (filter (\<lambda>(w, _). \<not> is_shed (sv_drive_loss s) (amc_address w)) batch)), t)))"
    using False unfolding shed_after_stale_pose_def Let_def split_beta s1_def sh [symmetric] by simp
  have "shed_set s3 = shed_set s2" by (rule core_cong(3) [OF c3])
  then show ?thesis
    unfolding eq using sec1 sec2 sec3 sec4
    by (cases r; cases w) (auto simp: wd is_shed_def shed_set_def)
qed

lemma prepare_batch:
  assumes "\<forall>(_, i)\<in>set cmds. motor_address_of (unwrap_or supplied (sv_motors s ! i)) \<notin> shed_set s"
  shows "secure wire s (snd (prepare_mit_batch pf supplied cmds s)) \<and>
   (case prepare_mit_batch pf supplied cmds s of
      (Inr batch, s') \<Rightarrow> \<forall>x\<in>set batch. amc_address (fst x) \<notin> shed_set s' | _ \<Rightarrow> True)"
proof -
  obtain r s1 where fb: "filter_batch supplied cmds s = (r, s1)" by fastforce
  have c1: "core s1 = core s" "sv_bus s1 = sv_bus s" using core_batch [of supplied cmds s] fb by simp_all
  have sec1: "secure wire s s1" by (rule secure_quiet [OF c1])
  show ?thesis
  proof (cases r)
    case (Inl e)
    then show ?thesis
      using secure_trans [OF sec1 secure_reject, of e] by (simp add: prepare_mit_batch_def fb reject_batch_def)
  next
    case (Inr xs)
    define batch where "batch = map (\<lambda>(w, st, _). (w, st)) xs"
    define neutral where "neutral = list_all (\<lambda>(_, _, n). n) xs"
    have "map (\<lambda>x. amc_address (fst x)) batch = map (\<lambda>(_, i). motor_address_of (unwrap_or supplied (sv_motors s ! i))) cmds"
      using filter_batch_Ok [OF fb [unfolded Inr]] by (simp add: batch_def split_beta comp_def)
    then have "(\<lambda>x. amc_address (fst x)) ` set batch \<subseteq> - shed_set s" using assms by (metis (no_types, lifting) ComplI case_prodE2 image_set image_subsetI list.set_map split_beta)
    then have free: "\<forall>x\<in>set batch. amc_address (fst x) \<notin> shed_set s" by auto
    obtain w s2 where wd: "check_comm_watchdog neutral s1 = (w, s2)" by fastforce
    have c2: "core s2 = core s" using core_watchdog(1) [of neutral s1] wd c1 by simp
    have sec2: "secure wire s s2" using secure_trans [OF sec1 secure_watchdog] wd by (metis snd_conv)
    have eq: "prepare_mit_batch pf supplied cmds s =
      (case (w, s2) of
          (Inl e, s) \<Rightarrow> if \<not> is_comm_watchdog e then reject_batch pf e s
                  else try_in (shed_after_stale_pose pf batch s) (\<lambda>kept s.
                    case kept of None \<Rightarrow> reject_batch pf e s | Some batch \<Rightarrow> (Ok batch, s))
        | (Inr _, s) \<Rightarrow> (Ok batch, s))"
      unfolding prepare_mit_batch_def fb Inr wd [symmetric] batch_def neutral_def Let_def by simp
    show ?thesis
    proof (cases w)
      case (Inr u)
      then show ?thesis unfolding eq using sec2 free core_cong(3) [OF c2] by simp
    next
      case (Inl e)
      obtain q s3 where sp: "shed_after_stale_pose pf batch s2 = (q, s3)" by fastforce
      have sec3: "secure wire s s3" using secure_trans [OF sec2] stale_pose [of s2 batch] sp by simp
      show ?thesis
        unfolding eq Inl
        using sec3 secure_trans [OF sec2 secure_reject, of e] secure_trans [OF sec3 secure_reject, of e]
          stale_pose [of s2 batch] sp
        by (cases q) (simp_all add: reject_batch_def split: option.splits)
    qed
  qed
qed

lemma bootstrap_effect:
  assumes "\<forall>w\<in>set wires. amc_address w \<notin> shed_set s"
  shows "core (snd (write_bootstrap_wires pf now wires s)) = core s \<and>
    wire (shed_set s) (sv_bus s) (sv_bus (snd (write_bootstrap_wires pf now wires s)))"
  using assms
proof (induction wires arbitrary: s)
  case (Cons w wires)
  let ?i = "addr_interface (amc_address w)"
  define s1 where "s1 = (if reporting_may_stream s ?i now then session_group begin_group ?i s else s)"
  have c1: "core s1 = core s" "sv_bus s1 = sv_bus s" by (simp_all add: s1_def)
  obtain r b where m: "mit_control_all_at (pf_bus pf) [w] (sv_bus s) = (r, b)" by fastforce
  have wb: "wire (shed_set s) (sv_bus s) b"
    using wire_mit [of "[w]" "shed_set s" "sv_bus s"] Cons.prems m by simp
  let ?s2 = "s1\<lparr>sv_bus := b\<rparr>"
  have c2: "core ?s2 = core s" using c1 by (simp add: core_def)
  have ih: "core (snd (write_bootstrap_wires pf now wires ?s2)) = core s \<and>
      wire (shed_set s) b (sv_bus (snd (write_bootstrap_wires pf now wires ?s2)))"
    using Cons.IH [of ?s2] Cons.prems c2 core_cong(3) [OF c2] by simp
  have ih0: "core (snd (write_bootstrap_wires pf now wires s)) = core s \<and>
      wire (shed_set s) (sv_bus s) (sv_bus (snd (write_bootstrap_wires pf now wires s)))"
    using Cons.IH [of s] Cons.prems by simp
  have eq: "write_bootstrap_wires pf now (w # wires) s =
      (if amc_address w \<in> set (sv_enable_writes_pending s) then write_bootstrap_wires pf now wires s
       else try_in (map_err DavBus r, ?s2) (\<lambda>_ s. write_bootstrap_wires pf now wires s))"
    using m c1 unfolding s1_def by (simp add: on_bus_def Let_def)
  show ?case
    unfolding eq using ih ih0 wb c2 wire_trans [OF wb] by (cases r) (auto simp: map_err_def)
qed (simp add: wire_refl)

lemma mit_wires_effect:
  assumes "\<forall>w\<in>set wires. amc_address w \<notin> shed_set s"
  shows "secure wire s (snd (write_mit_wires pf wires s))"
proof (cases "sv_mode s \<noteq> ModeActive \<or> sv_enable_writes_pending s = []")
  case True
  then show ?thesis
    using wire_mit [OF assms]
    by (intro secure_wire) (auto simp: write_mit_wires_def on_bus_def split_beta Let_def core_def)
next
  case False
  let ?s = "snd (read_clock s)"
  have "shed_set ?s = shed_set s" using core_cong(3) [OF core_read(1)] by blast
  then have "secure wire ?s (snd (write_bootstrap_wires pf now wires ?s))" for now
    using bootstrap_effect [of wires ?s now] assms by (intro secure_wire) simp_all
  from secure_trans [OF secure_read this] False show ?thesis
    by (auto simp: write_mit_wires_def split_beta Let_def)
qed

lemma secure_deliver:
  assumes "\<forall>x\<in>set batch. amc_address (fst x) \<notin> shed_set s"
  shows "secure wire s (snd (deliver_batch pf tick batch s))"
proof -
  let ?s = "snd (read_clock s)"
  have sh: "shed_set ?s = shed_set s" using core_cong(3) [OF core_read(1)] by blast
  obtain r s1 where w: "write_mit_wires pf (map fst batch) ?s = (r, s1)" by fastforce
  have sec: "secure wire s s1"
    using secure_trans [OF secure_read mit_wires_effect [of "map fst batch" ?s]] assms sh w by simp
  have q: "secure wire s1 ((fold (commit_staged tick) stages s1)\<lparr>sv_unanswered_solicits := us, sv_last_tick := lt\<rparr>)" for stages us lt
    using core_commit [of tick stages s1] by (intro secure_quiet) (auto simp: core_def)
  show ?thesis
    using w secure_trans [OF sec q] secure_trans [OF sec secure_stop_error]
    by (cases r) (auto simp: deliver_batch_def split_beta Let_def)
qed

lemma secure_mit_admission: "secure wire s (snd (mit_admission pf cmds s))"
proof -
  have a: "secure wire t (sync_motor_addresses t)" for t by (rule secure_quiet) simp_all
  show ?thesis
    unfolding mit_admission_def
    by (rule secure_try [OF secure_deadline], intro secure_check, rule secure_try [OF secure_for_active])
      (simp only: snd_conv a)
qed

lemma secure_send: "secure wire s (snd (admit_and_send_mit pf cmds supplied s))"
proof (rule secure_cond)
  assume con: "consistent s"
  have go: "secure wire t (snd (try_in (admit_commands t supplied [] cmds', t) (\<lambda>configured s.
       let (batch_tick, s) = read_clock s
       in try_in (prepare_mit_batch pf supplied (zip cmds' configured) s) (\<lambda>batch s. deliver_batch pf batch_tick batch s))))"
    if t: "consistent t" for t cmds'
  proof (rule secure_check)
    fix js
    assume ad: "admit_commands t supplied [] cmds' = Inr js"
    let ?t = "snd (read_clock t)"
    have c: "core ?t = core t" by simp
    have free: "\<forall>(_, i)\<in>set (zip cmds' js). motor_address_of (unwrap_or supplied (sv_motors ?t ! i)) \<notin> shed_set ?t"
    proof safe
      fix cmd i
      assume "(cmd, i) \<in> set (zip cmds' js)" and bad: "motor_address_of (unwrap_or supplied (sv_motors ?t ! i)) \<in> shed_set ?t"
      then obtain k where k: "k < length cmds'" "i = js ! k" by (auto simp: set_zip)
      from admit_commands_Ok [OF ad] k have "js ! k < length (sv_motors t)"
        "me_joint (sv_motors t ! (js ! k)) \<in> set (sv_active_joints t)"
        "motor_address_of (unwrap_or supplied (sv_motors t ! (js ! k))) = motor_address_of (sv_motors t ! (js ! k))" by auto
      then show False
        using bad t k core_D(2) [OF c] core_cong(3) [OF c] by (auto simp: consistent_def)
    qed
    have p: "secure wire ?t (snd (try_in (prepare_mit_batch pf supplied (zip cmds' js) ?t) (\<lambda>batch s. deliver_batch pf tick batch s)))" for tick
    proof (rule secure_try)
      show "secure wire ?t (snd (prepare_mit_batch pf supplied (zip cmds' js) ?t))" using prepare_batch [OF free] by simp
      fix batch s1
      assume "prepare_mit_batch pf supplied (zip cmds' js) ?t = (Inr batch, s1)"
      then have "\<forall>x\<in>set batch. amc_address (fst x) \<notin> shed_set s1" using prepare_batch [OF free] by auto
      then show "secure wire s1 (snd (deliver_batch pf tick batch s1))" by (rule secure_deliver)
    qed
    show "secure wire t (snd (let (batch_tick, s) = read_clock t
       in try_in (prepare_mit_batch pf supplied (zip cmds' js) s) (\<lambda>batch s. deliver_batch pf batch_tick batch s)))"
      using secure_trans [OF secure_read p] by (simp add: split_beta Let_def)
  qed
  show "secure wire s (snd (admit_and_send_mit pf cmds supplied s))"
    unfolding admit_and_send_mit_def
  proof (rule secure_try [OF secure_mit_admission])
    fix x s1
    assume "mit_admission pf cmds s = (Inr x, s1)"
    then have "consistent s1" using secure_mit_admission [of s cmds] con by (auto simp: secure_def proceeds_def)
    then show "secure wire s1 (snd (try_in (admit_commands s1 supplied [] x, s1) (\<lambda>configured s.
       let (batch_tick, s) = read_clock s
       in try_in (prepare_mit_batch pf supplied (zip x configured) s) (\<lambda>batch s. deliver_batch pf batch_tick batch s))))"
      by (rule go)
  qed
qed

lemma secure_send_batch: "secure wire s (snd (send_mit_batch pf cmds s))"
  using secure_send by (simp add: send_mit_batch_def secure_refl split: option.split)

lemma secure_send_joint: "secure wire s (snd (send_mit_joint pf cmd motor s))"
  by (simp add: send_mit_joint_def secure_send)

lemma secure_joint_homing: "secure wire s (snd (joint_homing pf joint s))"
  by (rule secure_quiet) (simp_all add: joint_homing_def split_beta Let_def)

lemma secure_drive_active: "secure wire s (snd (joint_drive_active pf joint s))"
  using secure_joint_homing by (simp add: joint_drive_active_def split_beta Let_def secure_refl)

lemma secure_seed: "secure wire s (snd (seed_tau_ff_from_measured only_unsent s))"
  by (rule secure_quiet) (simp_all add: seed_tau_ff_from_measured_def core_seed)

end

end
