(* ===== verification/Davout_Stops.thy ===== *)
theory Davout_Stops
  imports Davout_Calls "HOL-Library.Multiset"
begin

text \<open>
  The contracts of three operations of the \<open>Supervisor\<close> (\<open>davout/src/lib.rs\<close>) over every bus and clock: the stop
  of every drive (\<open>disable_all\<close> and the stops that hazards force), the release of the reporting streams before
  the process exits with the termination of its loop, and the waves in which Enables are written.
\<close>

section \<open>The stop contract\<close>

text \<open>What a stop from \<open>s\<close> to \<open>s'\<close> with its report promises: the writes it tried, in order; that the report
  is retained; that the session and the degraded episode are over; exactly when a fault is latched after it;
  and that no joint keeps its permission when a fault was latched before it or a write failed.\<close>

definition stop_contract :: "'b supervisor \<Rightarrow> stop_report \<Rightarrow> 'b supervisor \<Rightarrow> bool" where
  "stop_contract s report s' \<longleftrightarrow>
     map (\<lambda>a. (sa_address a, sa_action a)) (sr_attempts report) =
       concat (map (stop_plan (sv_drive_loss s)) (sv_stop_motors s)) \<and>
     fa_last_stop (sv_fault_authority s') = Some report \<and>
     sv_mode s' = ModeDisabled \<and> sv_active_joints s' = [] \<and> sv_enable_writes_pending s' = [] \<and>
     ds_episode (sv_drive_loss s') = None \<and>
     has_latched_fault s' =
       (has_latched_fault s \<or> 0 < failed_writes report \<or> ds_episode (sv_drive_loss s) \<noteq> None) \<and>
     (has_latched_fault s \<or> 0 < failed_writes report \<longrightarrow> (\<forall>j. \<not> contains (sv_reference_authority s') j))"

lemma end_episode_latch:
  "has_latched_fault (end_degraded_episode_on_stop s) = (has_latched_fault s \<or> ds_episode (sv_drive_loss s) \<noteq> None)"
  "sv_reference_authority (end_degraded_episode_on_stop s) = sv_reference_authority s"
  by (cases "ds_episode (sv_drive_loss s)";
      simp add: end_degraded_episode_on_stop_def record_fault_eq read_clock_eq Let_def has_latched_fault_def)+

lemma contains_revoke: "\<not> contains (revoke ra) j"
  by (simp add: contains_def revoke_def bump_generation_def Let_def)

lemma sync_authority: "sv_reference_authority (sync_active_reporting pf s) = sv_reference_authority s"
  by (simp add: sync_active_reporting_def read_clock_eq observe_reference_commits_def split_beta Let_def)

lemma stop_keeps_contract:
  "stop_contract s (fst (perform_stop_paced pf sync pacer s)) (snd (perform_stop_paced pf sync pacer s))"
proof -
  define s1 where "s1 = (if has_latched_fault s then revoke_references s else s)"
  define s2 where "s2 = (if sv_mode s1 = ModeActive then carry_session_silence (fst (read_clock s1)) (snd (read_clock s1)) else s1)"
  define burst where "burst = stop_burst pf (sv_drive_loss s2) (sv_stop_motors s2) ((pacer, sv_clock s2), sv_bus s2)"
  define rep where "rep = \<lparr>sr_generation = fst (begin_stop (sv_fault_authority s2)), sr_attempts = fst burst\<rparr>"
  define s3 where "s3 = clear_session (s2\<lparr>sv_fault_authority := snd (begin_stop (sv_fault_authority s2)),
    sv_clock := snd (fst (snd burst)), sv_bus := snd (snd burst)\<rparr>)"
  define s4 where "s4 = (if sync then sync_active_reporting pf s3 else s3)"
  define s5 where "s5 = (if 0 < failed_writes rep
     then snd (record_fault FcStopDelivery None None ''one or more stop writes failed; physical stop unconfirmed''
       device_fault_default (revoke_references s4)) else s4)"
  define s6 where "s6 = end_degraded_episode_on_stop s5"
  have res: "perform_stop_paced pf sync pacer s =
     (rep, s6\<lparr>sv_fault_authority := set_stop_report rep (sv_fault_authority s6)\<rparr>)"
    unfolding perform_stop_paced_def s6_def s5_def s4_def s3_def rep_def burst_def s2_def s1_def Let_def split_beta
    by (rule refl)
  have c2: "core s2 = core s" by (simp add: s2_def s1_def)
  note d2 = core_D [OF c2]
  have dl2: "stop_plan (sv_drive_loss s2) = stop_plan (sv_drive_loss s)"
    using d2(5) by (simp add: stop_plan_def is_shed_def fun_eq_iff)
  have plan: "map (\<lambda>a. (sa_address a, sa_action a)) (sr_attempts rep) =
      concat (map (stop_plan (sv_drive_loss s)) (sv_stop_motors s))"
    using stop_burst_plan [of pf "sv_drive_loss s2" "sv_stop_motors s2"]
    by (simp add: rep_def burst_def d2(1) dl2)
  have c4: "core s4 = core s3" by (simp add: s4_def)
  note d4 = core_D [OF c4]
  have a2: "has_latched_fault s \<Longrightarrow> \<not> contains (sv_reference_authority s2) j" for j
    by (simp add: s2_def s1_def carry_session_silence_def read_clock_eq revoke_references_def contains_revoke)
  have a4: "sv_reference_authority s4 = sv_reference_authority s2"
    by (simp add: s4_def s3_def clear_session_def sync_authority)
  have f3: "sv_mode s3 = ModeDisabled" "sv_active_joints s3 = []" "sv_enable_writes_pending s3 = []"
    "sv_drive_loss s3 = sv_drive_loss s2" "has_latched_fault s3 = has_latched_fault s2"
    by (simp_all add: s3_def clear_session_def has_latched_fault_def)
  have f5: "sv_mode s5 = sv_mode s4" "sv_active_joints s5 = sv_active_joints s4" "sv_drive_loss s5 = sv_drive_loss s4"
    "sv_enable_writes_pending s5 = sv_enable_writes_pending s4"
    "has_latched_fault s5 = (has_latched_fault s4 \<or> 0 < failed_writes rep)"
    "0 < failed_writes rep \<Longrightarrow> \<not> contains (sv_reference_authority s5) j"
    "failed_writes rep = 0 \<Longrightarrow> sv_reference_authority s5 = sv_reference_authority s4" for j
    by (simp_all add: s5_def revoke_references_def contains_revoke record_fault_eq Let_def has_latched_fault_def)
  have a5: "has_latched_fault s \<or> 0 < failed_writes rep \<Longrightarrow> \<not> contains (sv_reference_authority s5) j" for j
    using a2 a4 f5(6,7) by (cases "failed_writes rep") auto
  have r6: "fa_is_latched (set_stop_report rep fa) = fa_is_latched fa" "fa_last_stop (set_stop_report rep fa) = Some rep" for fa
    by (simp_all add: set_stop_report_def fa_is_latched_def)
  show ?thesis
    unfolding res stop_contract_def fst_conv snd_conv
    using plan a5 f3 f5(1-5) d4 d2 end_episode_effect [of s5] end_episode_latch [of s5]
    by (simp add: s6_def [symmetric] Let_def has_latched_fault_def r6)
qed

lemma contract_frame:
  assumes "stop_contract s report t" and "core t' = core t" and "sv_reference_authority t' = sv_reference_authority t"
  shows "stop_contract s report t'"
  using assms core_D [OF assms(2)] by (simp add: stop_contract_def)

lemma contract_from:
  assumes "stop_contract t report s'" and "core t = core s"
  shows "stop_contract s report s'"
proof -
  have "stop_plan (sv_drive_loss t) = stop_plan (sv_drive_loss s)"
    using core_D(5) [OF assms(2)] by (simp add: stop_plan_def is_shed_def fun_eq_iff)
  then show ?thesis using assms(1) core_D [OF assms(2)] by (simp add: stop_contract_def)
qed

lemma finish_keeps_contract:
  "stop_contract s (fst (finish_reference pf s)) (snd (finish_reference pf s))"
proof -
  define t where "t = s\<lparr>sv_acquisition_busy := False\<rparr>"
  have c: "core t = core s" by (simp add: t_def core_def)
  obtain rep u where p: "perform_stop_paced pf False None t = (rep, u)" by fastforce
  have k: "stop_contract s rep u" using contract_from [OF stop_keeps_contract c] p by (metis fst_conv snd_conv)
  have "fst (finish_reference pf s) = rep \<and> core (snd (finish_reference pf s)) = core u \<and>
      sv_reference_authority (snd (finish_reference pf s)) = sv_reference_authority u"
    unfolding finish_reference_def t_def [symmetric] p
    by (simp add: core_def read_clock_eq split: option.split reference_backend.split)
  then show ?thesis using contract_frame [OF k] by metis
qed

lemma disable_all_contract:
  "\<exists>report. stop_contract s report (snd (disable_all pf s)) \<and> fst (disable_all pf s) = stop_result report"
proof -
  define t where "t = s\<lparr>sv_commits_busy := False\<rparr>"
  have c: "core t = core s" by (simp add: t_def core_def)
  define r where "r = (if acquisition_busy t then finish_reference pf t else perform_stop pf True t)"
  have d: "disable_all pf s = (stop_result (fst r), snd r)"
    unfolding disable_all_def r_def t_def Let_def by (simp add: split_beta)
  have "stop_contract t (fst r) (snd r)"
    using finish_keeps_contract [of t pf] stop_keeps_contract [of t pf True None] by (simp add: r_def perform_stop_def)
  then have "stop_contract s (fst r) (snd r)" using contract_from c by metis
  then show ?thesis unfolding d by auto
qed

lemma abort_contract: "\<exists>report. stop_contract s report (abort_reference_for_hazard pf s)"
proof -
  define t where "t = s\<lparr>sv_commits_busy := False\<rparr>"
  have c: "core t = core s" by (simp add: t_def core_def)
  define r where "r = (if acquisition_busy t then finish_reference pf t else perform_stop pf False t)"
  have d: "abort_reference_for_hazard pf s = snd r"
    unfolding abort_reference_for_hazard_def r_def t_def Let_def by simp
  have "stop_contract t (fst r) (snd r)"
    using finish_keeps_contract [of t pf] stop_keeps_contract [of t pf False None] by (simp add: r_def perform_stop_def)
  then show ?thesis unfolding d using contract_from c by metis
qed

lemma latch_control_latches: "has_latched_fault (latch_control_fault pf message joint s)"
proof -
  have "has_latched_fault t \<Longrightarrow> has_latched_fault (snd (disable_all pf t)) \<and> has_latched_fault (abort_reference_for_hazard pf t)" for t
    using disable_all_contract [of t pf] abort_contract [of t pf] by (auto simp: stop_contract_def)
  moreover have "has_latched_fault (observe_reference_commits pf t) = has_latched_fault t" for t
    using core_D(12) [OF core_observe(1)] .
  ultimately show ?thesis
    unfolding latch_control_fault_def by (simp add: split_beta Let_def)
qed

text \<open>C2: \<open>disable_all\<close> from any state, whatever the bus does: exactly one report is made and retained. It holds
  the stop's writes for every installed drive in the installed order, zero speed, neutral command and Disable,
  or the Disable alone for a shed drive, none skipped because an earlier one failed. The call returns success
  exactly when every write did. The session, its Enable waves and the degraded episode are over, and a fault is
  latched exactly when one was latched before, a write failed or an episode ended; a failed write or an earlier
  fault leaves no joint its permission.\<close>

theorem disable_all_covers_every_drive:
  "\<exists>report. stop_contract s report (snd (disable_all pf s)) \<and>
     (fst (disable_all pf s) = Ok ()) = list_all (\<lambda>a. sa_error a = None) (sr_attempts report)"
proof -
  have "(stop_result rep = Ok ()) = list_all (\<lambda>a. sa_error a = None) (sr_attempts rep)" for rep
    by (auto simp: stop_result_def refuse_if_def failed_writes_def list_all_iff filter_empty_conv)
  then show ?thesis using disable_all_contract [of s pf] by metis
qed

section \<open>The release of the reporting streams at exit\<close>

text \<open>A drive the pass leaves for later: not shed, and possibly inside the silence after a SetZero.\<close>

definition exit_waits :: "'b supervisor \<Rightarrow> instant \<Rightarrow> motor_entry \<times> exit_reporting_off option \<Rightarrow> bool" where
  "exit_waits s now d \<longleftrightarrow>
     snd d = None \<and> \<not> is_shed (sv_drive_loss s) (motor_address_of (fst d)) \<and>
     set_zero_blackout_possible s (motor_address_of (fst d)) now"

definition quiet_end :: "'b supervisor \<Rightarrow> motor_entry \<times> exit_reporting_off option \<Rightarrow> instant option" where
  "quiet_end s d = set_zero_quiet_until s (motor_address_of (fst d))"

definition exit_settled :: "drive_loss_state \<Rightarrow> motor_entry \<times> exit_reporting_off option \<Rightarrow> bool" where
  "exit_settled dl d =
     (case snd d of
        None \<Rightarrow> True
      | Some ExitShed \<Rightarrow> is_shed dl (motor_address_of (fst d))
      | Some ExitBlackout \<Rightarrow> False
      | Some _ \<Rightarrow> \<not> is_shed dl (motor_address_of (fst d)))"

lemma blackout_quiet:
  assumes "set_zero_blackout_possible s a now"
  obtains q where "set_zero_quiet_until s a = Some q" "now < q"
  using assms
  by (auto simp: set_zero_blackout_possible_def set_zero_quiet_until_def saturating_since_def Let_def
      POST_SET_ZERO_QUIET_def split: option.splits)

lemma exit_fields [simp]:
  "is_shed (sv_drive_loss (s\<lparr>sv_bus := b, sv_active_reporting := ar\<rparr>)) a = is_shed (sv_drive_loss s) a"
  "set_zero_blackout_possible (s\<lparr>sv_bus := b\<rparr>) a now = set_zero_blackout_possible s a now"
  "set_zero_blackout_possible (s\<lparr>sv_active_reporting := ar\<rparr>) a now = set_zero_blackout_possible s a now"
  "set_zero_blackout_possible (s\<lparr>sv_clock := h\<rparr>) a now = set_zero_blackout_possible s a now"
  "set_zero_quiet_until (s\<lparr>sv_bus := b\<rparr>) a = set_zero_quiet_until s a"
  "set_zero_quiet_until (s\<lparr>sv_active_reporting := ar\<rparr>) a = set_zero_quiet_until s a"
  "set_zero_quiet_until (s\<lparr>sv_clock := h\<rparr>) a = set_zero_quiet_until s a"
  by (simp_all add: set_zero_blackout_possible_def set_zero_quiet_until_def)

definition sooner :: "instant option \<Rightarrow> instant option \<Rightarrow> instant option" where
  "sooner a b = (case a of None \<Rightarrow> b | Some t \<Rightarrow> Some (case b of None \<Rightarrow> t | Some u \<Rightarrow> min t u))"

text \<open>What a pass may change.\<close>

definition exit_frame :: "'b supervisor \<Rightarrow> 'b supervisor \<Rightarrow> bool" where
  "exit_frame s s' \<longleftrightarrow> s' = s\<lparr>sv_bus := sv_bus s', sv_active_reporting := sv_active_reporting s'\<rparr>"

lemma exit_frame_refl [simp]: "exit_frame s s"
  by (simp add: exit_frame_def)

lemma exit_frame_upd [simp]:
  "exit_frame s (s\<lparr>sv_bus := b\<rparr>)" "exit_frame s (s\<lparr>sv_bus := b, sv_active_reporting := ar\<rparr>)"
  by (simp_all add: exit_frame_def)

lemma exit_frame_trans: "exit_frame s s' \<Longrightarrow> exit_frame s' s'' \<Longrightarrow> exit_frame s s''"
  unfolding exit_frame_def by (erule ssubst [of s''], erule ssubst [of s']) simp

lemma exit_frameD:
  assumes "exit_frame s s'"
  shows "exit_waits s' now = exit_waits s now" "quiet_end s' = quiet_end s" "sv_drive_loss s' = sv_drive_loss s"
    "sv_clock s' = sv_clock s" "sv_stop_motors s' = sv_stop_motors s"
    "sv_exit_reporting_released s' = sv_exit_reporting_released s"
proof -
  obtain b ar where s': "s' = s\<lparr>sv_bus := b, sv_active_reporting := ar\<rparr>" using assms unfolding exit_frame_def by blast
  show "exit_waits s' now = exit_waits s now" "quiet_end s' = quiet_end s" "sv_drive_loss s' = sv_drive_loss s"
    "sv_clock s' = sv_clock s" "sv_stop_motors s' = sv_stop_motors s"
    "sv_exit_reporting_released s' = sv_exit_reporting_released s"
    unfolding s' by (simp_all add: exit_waits_def quiet_end_def fun_eq_iff)
qed

lemma exit_pass_step:
  fixes s :: "'b supervisor"
  obtains out fin nxt where
    "exit_pass pf now (d # drives) e s = (let (rest, r) = exit_pass pf now drives fin nxt in ((fst d, out) # rest, r))"
    "exit_frame s nxt"
    "out = None \<longleftrightarrow> exit_waits s now d" "exit_settled (sv_drive_loss s) d \<longrightarrow> exit_settled (sv_drive_loss s) (fst d, out)"
    "fin = (if exit_waits s now d then sooner e (quiet_end s d) else e)"
proof -
  obtain motor outcome where d: "d = (motor, outcome)" by fastforce
  let ?a = "motor_address_of motor"
  obtain r b where off: "disable_active_reporting_at (pf_bus pf) ?a (sv_bus s) = (r, b)" by fastforce
  consider "outcome \<noteq> None" | "outcome = None" "is_shed (sv_drive_loss s) ?a"
    | "outcome = None" "\<not> is_shed (sv_drive_loss s) ?a" "set_zero_blackout_possible s ?a now"
    | v where "outcome = None" "\<not> is_shed (sv_drive_loss s) ?a" "\<not> set_zero_blackout_possible s ?a now" "r = Inr v"
    | v where "outcome = None" "\<not> is_shed (sv_drive_loss s) ?a" "\<not> set_zero_blackout_possible s ?a now" "r = Inl v"
    by (cases r) auto
  then show thesis
  proof cases
    case 1
    then show ?thesis
      by (intro that [where out = outcome and fin = e and nxt = s]) (auto simp: d exit_waits_def)
  next
    case 2
    then show ?thesis
      by (intro that [where out = "Some ExitShed" and fin = e and nxt = s]) (simp_all add: d exit_waits_def exit_settled_def)
  next
    case 3
    obtain q where q: "set_zero_quiet_until s ?a = Some q" using blackout_quiet [OF 3(3)] .
    show ?thesis
      using 3 by (intro that [where out = None and fin = "sooner e (Some q)" and nxt = s])
        (simp_all add: d exit_waits_def exit_settled_def q quiet_end_def sooner_def unwrap_or_def Let_def split: option.split)
  next
    case 4
    then show ?thesis
      by (intro that [where out = "Some ExitSent" and fin = e and nxt = "s\<lparr>sv_bus := b, sv_active_reporting := record_off (me_joint motor) now (sv_active_reporting s)\<rparr>"])
        (auto simp: d off exit_waits_def exit_settled_def Let_def)
  next
    case 5
    then show ?thesis
      by (intro that [where out = "Some (ExitFailed (bounded_message (pf_bus_text pf v)))" and fin = e and nxt = "s\<lparr>sv_bus := b\<rparr>"])
        (simp_all add: d off exit_waits_def exit_settled_def)
  qed
qed

lemma exit_pass_effect:
  assumes "exit_pass pf now drives e s = (drives', e', s')"
  shows "exit_frame s s'" and "map fst drives' = map fst drives"
    and "filter (\<lambda>d. snd d = None) drives' = filter (exit_waits s now) drives"
    and "list_all (exit_settled (sv_drive_loss s)) drives \<Longrightarrow> list_all (exit_settled (sv_drive_loss s)) drives'"
    and "e' = fold (\<lambda>d e. sooner e (quiet_end s d)) (filter (exit_waits s now) drives) e"
proof -
  have "exit_frame s s' \<and> map fst drives' = map fst drives \<and>
    filter (\<lambda>d. snd d = None) drives' = filter (exit_waits s now) drives \<and>
    (list_all (exit_settled (sv_drive_loss s)) drives \<longrightarrow> list_all (exit_settled (sv_drive_loss s)) drives') \<and>
    e' = fold (\<lambda>d e. sooner e (quiet_end s d)) (filter (exit_waits s now) drives) e"
    using assms
  proof (induction drives arbitrary: e s drives')
    case Nil
    then have e: "s' = s" "drives' = []" "e' = e" by simp_all
    show ?case unfolding e by simp
  next
    case (Cons d drives)
    obtain out fin nxt where st:
      "exit_pass pf now (d # drives) e s = (let (rest, r) = exit_pass pf now drives fin nxt in ((fst d, out) # rest, r))"
      "exit_frame s nxt"
      "out = None \<longleftrightarrow> exit_waits s now d" "exit_settled (sv_drive_loss s) d \<longrightarrow> exit_settled (sv_drive_loss s) (fst d, out)"
      "fin = (if exit_waits s now d then sooner e (quiet_end s d) else e)" by (rule exit_pass_step [of pf now d drives e s])
    obtain rest where r: "exit_pass pf now drives fin nxt = (rest, e', s')" "drives' = (fst d, out) # rest"
      using Cons.prems unfolding st(1) by (cases "exit_pass pf now drives fin nxt") (simp add: Let_def)
    note w = exit_frameD(1-3) [OF st(2)]
    have d: "(fst d, out) = d" if "exit_waits s now d" using that st(3) by (cases d) (simp add: exit_waits_def)
    note IH = Cons.IH [OF r(1), unfolded w]
    have "exit_frame s s'" using IH exit_frame_trans [OF st(2)] by blast
    moreover have "filter (\<lambda>d. snd d = None) drives' = filter (exit_waits s now) (d # drives)"
      using IH st(3) d unfolding r(2) by simp
    moreover have "e' = fold (\<lambda>d e. sooner e (quiet_end s d)) (filter (exit_waits s now) (d # drives)) e"
      using IH st(5) by simp
    ultimately show ?case using IH st(4) unfolding r(2) by simp
  qed
  then show "exit_frame s s'" "map fst drives' = map fst drives"
    "filter (\<lambda>d. snd d = None) drives' = filter (exit_waits s now) drives"
    "list_all (exit_settled (sv_drive_loss s)) drives \<Longrightarrow> list_all (exit_settled (sv_drive_loss s)) drives'"
    "e' = fold (\<lambda>d e. sooner e (quiet_end s d)) (filter (exit_waits s now) drives) e"
    by blast+
qed

lemma soonest:
  assumes "\<forall>d\<in>set ds. f d \<noteq> None"
  shows "case fold (\<lambda>d e. sooner e (f d)) ds e of
      None \<Rightarrow> ds = [] \<and> e = None
    | Some q \<Rightarrow> (e = Some q \<or> (\<exists>d\<in>set ds. f d = Some q)) \<and> (\<forall>d\<in>set ds. q \<le> the (f d)) \<and> (e = None \<or> q \<le> the e)"
  using assms
proof (induction ds arbitrary: e)
  case (Cons d ds)
  then obtain t where t: "f d = Some t" by auto
  have s: "\<exists>m. sooner e (Some t) = Some m \<and> m \<le> t \<and> (e = None \<or> m \<le> the e) \<and> (m = t \<or> e = Some m)"
    by (cases e) (auto simp: sooner_def min_def)
  then obtain m where m: "sooner e (Some t) = Some m" "m \<le> t" "e = None \<or> m \<le> the e" "m = t \<or> e = Some m" by blast
  obtain q where q: "fold (\<lambda>d e. sooner e (f d)) ds (Some m) = Some q"
    "Some m = Some q \<or> (\<exists>d\<in>set ds. f d = Some q)" "\<forall>d\<in>set ds. q \<le> the (f d)" "q \<le> m"
    using Cons.IH [of "Some m"] Cons.prems by (auto split: option.splits)
  have "fold (\<lambda>d e. sooner e (f d)) (d # ds) e = Some q" by (simp add: t m q(1))
  moreover have "e = Some q \<or> (\<exists>d\<in>set (d # ds). f d = Some q)" using q(2) m(4) t by auto
  moreover have "\<forall>d\<in>set (d # ds). q \<le> the (f d)" using q(3,4) m(2) t by simp
  moreover have "e = None \<or> q \<le> the e" using q(4) m(3) by auto
  ultimately show ?case by simp
qed (simp split: option.split)

text \<open>The drives that still wait, and that one of them is over once the clock reaches the soonest end.\<close>

definition waiting :: "(motor_entry \<times> exit_reporting_off option) list \<Rightarrow> nat" where
  "waiting drives = length (filter (\<lambda>d. snd d = None) drives)"

lemma exit_waits_quiet: "exit_waits s now d \<Longrightarrow> quiet_end s d \<noteq> None \<and> now < the (quiet_end s d)"
  unfolding exit_waits_def quiet_end_def by (auto elim: blackout_quiet)

lemma exit_waits_le: "length (filter (exit_waits s now) drives) \<le> waiting drives"
  by (induction drives) (simp_all add: waiting_def exit_waits_def)

lemma exit_progress:
  assumes "d \<in> set drives" "snd d = None" "quiet_end s d = Some q" "q \<le> now"
  shows "length (filter (exit_waits s now) drives) < waiting drives"
proof -
  have "\<not> exit_waits s now d" using exit_waits_quiet [of s now d] assms by auto
  moreover have "filter (exit_waits s now) drives = filter (exit_waits s now) (filter (\<lambda>d. snd d = None) drives)"
    by (auto simp: exit_waits_def intro: filter_cong)
  ultimately show ?thesis
    using assms(1,2) length_filter_less [of d "filter (\<lambda>d. snd d = None) drives"] by (simp add: waiting_def)
qed

definition still_quiet :: "'b supervisor \<Rightarrow> instant \<Rightarrow> motor_entry \<times> exit_reporting_off option \<Rightarrow> bool" where
  "still_quiet s deadline d \<longleftrightarrow>
     \<not> is_shed (sv_drive_loss s) (motor_address_of (fst d)) \<and>
     (case quiet_end s d of None \<Rightarrow> False | Some q \<Rightarrow> deadline < q)"

lemma exit_loop_returns:
  assumes "list_all (exit_settled (sv_drive_loss s)) drives"
    and "waiting drives < n \<or>
      waiting drives \<le> n \<and> (\<exists>d q. d \<in> set drives \<and> snd d = None \<and> quiet_end s d = Some q \<and> q \<le> hc_now (sv_clock s))"
  shows "\<exists>ds s'. exit_loop pf deadline n drives s = Some (ds, s') \<and> map fst ds = map fst drives \<and>
    list_all (exit_settled (sv_drive_loss s)) ds \<and>
    (\<forall>d\<in>set ds. snd d = None \<longrightarrow> still_quiet s deadline d) \<and>
    sv_exit_reporting_released s' = sv_exit_reporting_released s"
  using assms
proof (induction n arbitrary: drives s)
  case 0
  then show ?case by (auto simp: waiting_def filter_empty_conv)
next
  case (Suc n)
  define now where "now = fst (instant_now (sv_clock s))"
  define s1 where "s1 = s\<lparr>sv_clock := snd (instant_now (sv_clock s))\<rparr>"
  have r: "read_clock s = (now, s1)" by (simp add: now_def s1_def read_clock_eq)
  have q1: "quiet_end s1 = quiet_end s" "exit_waits s1 = exit_waits s" "sv_drive_loss s1 = sv_drive_loss s"
    by (simp_all add: s1_def quiet_end_def exit_waits_def fun_eq_iff)
  obtain ds e s2 where p: "exit_pass pf now drives None s1 = (ds, e, s2)" by (metis prod_cases3)
  note eff = exit_pass_effect [OF p, unfolded q1]
  note fr = exit_frameD [OF eff(1), unfolded q1]
  have w: "waiting ds = length (filter (exit_waits s now) drives)" by (simp add: waiting_def eff(3))
  have "hc_now (sv_clock s) \<le> now" using run_on_now [of "sv_clock s" 0] by (simp add: now_def instant_now_def Let_def)
  then have le: "waiting ds \<le> n"
    using Suc.prems(2) exit_waits_le [of s now drives] exit_progress [of _ drives s _ now] unfolding w
    by (meson leD le_less_Suc_eq less_le_trans not_less_eq_eq order_trans less_Suc_eq_le)
  have left: "\<forall>d\<in>set (filter (exit_waits s now) drives). quiet_end s d \<noteq> None"
    using exit_waits_quiet by fastforce
  note so = soonest [OF left, of None, folded eff(5)]
  have mem: "d \<in> set ds \<and> snd d = None \<longleftrightarrow> d \<in> set (filter (exit_waits s now) drives)" for d
    using arg_cong [OF eff(3), of set] by auto
  have settled: "list_all (exit_settled (sv_drive_loss s)) ds" by (rule eff(4) [OF Suc.prems(1)])
  show ?case
  proof (cases e)
    case None
    then have "exit_loop pf deadline (Suc n) drives s = Some (ds, s2)" by (simp add: r p)
    moreover have "\<forall>d\<in>set ds. snd d = None \<longrightarrow> still_quiet s deadline d"
      using so mem None by fastforce
    ultimately show ?thesis using settled eff(2) fr(6) by (simp add: s1_def del: exit_loop.simps)
  next
    case (Some q)
    note so = so [unfolded Some option.case]
    show ?thesis
    proof (cases "q \<le> deadline")
      case True
      define s3 where "s3 = s2\<lparr>sv_clock := thread_sleep (saturating_since q (fst (instant_now (sv_clock s2)))) (snd (instant_now (sv_clock s2)))\<rparr>"
      have l: "exit_loop pf deadline (Suc n) drives s = exit_loop pf deadline n ds s3"
        using True by (simp add: r p Some s3_def read_clock_eq [of s2])
      have q3: "quiet_end s3 = quiet_end s" "sv_drive_loss s3 = sv_drive_loss s" "still_quiet s3 = still_quiet s"
        using fr by (simp_all add: s3_def quiet_end_def still_quiet_def fun_eq_iff)
      have "q \<le> hc_now (sv_clock s3)"
        using run_on_now [of "snd (instant_now (sv_clock s2))" "saturating_since q (fst (instant_now (sv_clock s2)))"]
        by (auto simp: s3_def thread_sleep_def instant_now_def Let_def saturating_since_def split: if_splits)
      moreover obtain d where d: "d \<in> set (filter (exit_waits s now) drives)" "quiet_end s d = Some q" using so by blast
      moreover have "d \<in> set ds \<and> snd d = None" using mem d(1) by blast
      ultimately have "\<exists>d q. d \<in> set ds \<and> snd d = None \<and> quiet_end s3 d = Some q \<and> q \<le> hc_now (sv_clock s3)"
        unfolding q3 by blast
      from Suc.IH [of s3 ds, unfolded q3, OF settled] this [unfolded q3] le show ?thesis
        unfolding l using eff(2) fr(6) by (simp add: s3_def s1_def del: exit_loop.simps)
    next
      case False
      then have "exit_loop pf deadline (Suc n) drives s = Some (ds, s2)" by (simp add: r p Some)
      moreover have "\<forall>d\<in>set ds. snd d = None \<longrightarrow> still_quiet s deadline d"
      proof (intro ballI impI)
        fix d assume "d \<in> set ds" "snd d = None"
        then have d: "d \<in> set (filter (exit_waits s now) drives)" using mem by blast
        then have "quiet_end s d \<noteq> None" "q \<le> the (quiet_end s d)" using so left by blast+
        with d show "still_quiet s deadline d" using False by (auto simp: still_quiet_def exit_waits_def)
      qed
      ultimately show ?thesis using settled eff(2) fr(6) by (simp add: s1_def del: exit_loop.simps)
    qed
  qed
qed


section \<open>The Enable waves\<close>

definition wave_ready :: "'b supervisor \<Rightarrow> instant \<Rightarrow> motor_address \<Rightarrow> bool" where
  "wave_ready s now a \<longleftrightarrow> set_zero_quiet_elapsed s a now \<and> reporting_off_settled s a now"

definition staggered_on :: "'b supervisor \<Rightarrow> instant \<Rightarrow> string \<Rightarrow> motor_address list \<Rightarrow> motor_address list" where
  "staggered_on s now i = filter (\<lambda>a. addr_interface a = i \<and> \<not> enable_catch_up s a now)"

definition wave_waits :: "'b supervisor \<Rightarrow> instant \<Rightarrow> bool \<Rightarrow> motor_address list \<Rightarrow> motor_address \<Rightarrow> bool" where
  "wave_waits s now due wave a \<longleftrightarrow>
     (if wave_ready s now a
      then \<not> enable_catch_up s a now \<and> (if due then list_ex (\<lambda>b. addr_interface b = addr_interface a) wave else True)
      else True)"

lemma enable_wave_effect:
  assumes "enable_wave s now due wave pending = (kept, wave')"
  shows "(\<exists>new. wave' = wave @ new \<and> mset new + mset kept = mset pending \<and>
      list_all (wave_ready s now) new \<and> list_all (\<lambda>a. due \<or> enable_catch_up s a now) new) \<and>
    (length (staggered_on s now i wave) \<le> 1 \<longrightarrow> length (staggered_on s now i wave') \<le> 1) \<and>
    list_all (wave_waits s now due wave') kept"
  using assms
proof (induction pending arbitrary: wave kept)
  case (Cons a pending)
  show ?case
  proof (cases "\<not> set_zero_quiet_elapsed s a now \<or> \<not> reporting_off_settled s a now \<or>
      \<not> enable_catch_up s a now \<and> (\<not> due \<or> list_ex (\<lambda>taken. addr_interface taken = addr_interface a) wave)")
    case True
    then obtain kept' where k: "enable_wave s now due wave pending = (kept', wave')" "kept = a # kept'"
      using Cons.prems by (auto split: prod.splits)
    from Cons.IH [OF k(1)] obtain new where n: "wave' = wave @ new" "mset new + mset kept' = mset pending"
      "list_all (wave_ready s now) new" "list_all (\<lambda>a. due \<or> enable_catch_up s a now) new" by blast
    have "wave_waits s now due wave' a" using True by (auto simp: wave_waits_def wave_ready_def n(1) list_ex_iff)
    then show ?thesis using Cons.IH [OF k(1)] n k(2) by auto
  next
    case False
    then have k: "enable_wave s now due (wave @ [a]) pending = (kept, wave')" using Cons.prems by (simp split: if_splits)
    from Cons.IH [OF k] obtain new where n: "wave' = wave @ a # new" "mset new + mset kept = mset pending"
      "list_all (wave_ready s now) new" "list_all (\<lambda>a. due \<or> enable_catch_up s a now) new" by auto
    have "length (staggered_on s now i (wave @ [a])) \<le> 1" if "length (staggered_on s now i wave) \<le> 1"
    proof (cases "addr_interface a = i \<and> \<not> enable_catch_up s a now")
      case True
      then have "staggered_on s now i wave = []"
        using False by (auto simp: staggered_on_def filter_empty_conv list_ex_iff)
      then show ?thesis using True by (simp add: staggered_on_def)
    next
      case False
      then show ?thesis using that by (auto simp: staggered_on_def)
    qed
    moreover have "list_all (wave_ready s now) (a # new)" "list_all (\<lambda>a. due \<or> enable_catch_up s a now) (a # new)"
      using False n(3,4) by (auto simp: wave_ready_def)
    ultimately show ?thesis using Cons.IH [OF k] n(1,2) by auto
  qed
qed (simp add: staggered_on_def)

text \<open>C10: an Enable wave takes each outstanding drive at most once and keeps the others outstanding. It takes a
  drive only when its quiet time after a SetZero is over and its reporting Off has settled on the wire; on each
  interface it takes at most one drive that is not catching up, and none before the stagger is due. No drive is
  held back needlessly: one that is ready stays outstanding only if it is not catching up and the stagger is not
  due or its interface already has a drive in the wave.\<close>

theorem enable_wave_gated:
  "let (wave, s') = take_enable_wave now s;
       due = (case sv_enable_write_due s of None \<Rightarrow> True | Some t \<Rightarrow> t \<le> now)
   in mset wave + mset (sv_enable_writes_pending s') = mset (sv_enable_writes_pending s) \<and>
      list_all (\<lambda>a. set_zero_quiet_elapsed s a now \<and> reporting_off_settled s a now) wave \<and>
      length (staggered_on s now interface wave) \<le> (if due then 1 else 0) \<and>
      list_all (wave_waits s now due wave) (sv_enable_writes_pending s')"
proof -
  define due where "due = (case sv_enable_write_due s of None \<Rightarrow> True | Some t \<Rightarrow> t \<le> now)"
  obtain kept wave where w: "enable_wave s now due [] (sv_enable_writes_pending s) = (kept, wave)" by fastforce
  have t: "take_enable_wave now s = (wave, s\<lparr>sv_enable_writes_pending := kept\<rparr>)"
    by (simp add: take_enable_wave_def due_def [symmetric] w Let_def)
  have e: "mset wave + mset kept = mset (sv_enable_writes_pending s)" "list_all (wave_ready s now) wave"
    "list_all (\<lambda>a. due \<or> enable_catch_up s a now) wave" "length (staggered_on s now interface wave) \<le> 1"
    "list_all (wave_waits s now due wave) kept"
    using enable_wave_effect [OF w, of interface] by (auto simp: staggered_on_def)
  have "staggered_on s now interface wave = []" if "\<not> due"
    using e(3) that by (auto simp: staggered_on_def filter_empty_conv list_all_iff)
  then show ?thesis using e by (auto simp: t due_def [symmetric] wave_ready_def [abs_def] Let_def)
qed

end
