(* ===== verification/Davout_Construction.thy ===== *)
theory Davout_Construction
  imports Davout_Calls Config_Limits
begin

text \<open>
  The factories of the \<open>Supervisor\<close> (\<open>davout/src/lib.rs\<close>): loading and validating the repository, building the
  owner without transmitting, and the physical owner with its journal and the continuity bounds of its drives.
  Reading files, the URDF parser, the serialised sizes and the journal's start are fields of \<open>repository\<close>.
\<close>

section \<open>What a supervisor is built from\<close>

text \<open>The repository as the factory sees it: what reading and decoding each file yields, the value of
  \<open>MARENGO_JOINT_SUBSET\<close>, whether the URDF file exists and what the URDF reader returns, the sizes of the
  writes that serialise the installed model, and what the journal's path check and its start return.\<close>

record repository =
  rp_robot_yaml :: "(robot_section, config_error) result"
  rp_motors_yaml :: "(motor_entry list, config_error) result"
  rp_control_yaml :: "(control_section, config_error) result"
  rp_homing_yaml :: "(homing_section, config_error) result"
  rp_joint_subset :: "string option"
  rp_join :: "string \<Rightarrow> string"
  rp_is_file :: "string \<Rightarrow> bool"
  rp_read_urdf :: "string \<Rightarrow> (urdf_robot, string) result"
  rp_descriptor :: arc
  rp_robot_bytes :: "nat list"
  rp_urdf_bytes :: "nat list"
  rp_history_path_distinct :: "string \<Rightarrow> (unit, string) result"
  rp_journal_started :: "(unit, string) result"
  rp_realm :: arc

section \<open>Loading\<close>

definition load_robot_config_from :: "repository \<Rightarrow> (robot_section, config_error) result" where
  "load_robot_config_from rp = rbind (rp_robot_yaml rp) (\<lambda>cfg. rbind (validate_robot_config cfg) (\<lambda>_. Ok cfg))"

definition load_motors_config_from :: "repository \<Rightarrow> (motor_entry list, config_error) result" where
  "load_motors_config_from rp = rbind (rp_motors_yaml rp) (\<lambda>cfg. rbind (validate_motors_config cfg) (\<lambda>_. Ok cfg))"

definition load_control_config_from :: "repository \<Rightarrow> (control_section, config_error) result" where
  "load_control_config_from rp = rbind (rp_control_yaml rp) (\<lambda>cfg. rbind (validate_control_config cfg) (\<lambda>_. Ok cfg))"

definition load_homing_config_from :: "repository \<Rightarrow> (homing_section, config_error) result" where
  "load_homing_config_from rp = rbind (rp_homing_yaml rp) (\<lambda>cfg. rbind (validate_homing_config cfg) (\<lambda>_. Ok cfg))"

definition resolve_urdf_path :: "repository \<Rightarrow> robot_section \<Rightarrow> (string, config_error) result" where
  "resolve_urdf_path rp robot =
     (let path = rp_join rp (rb_urdf robot) in if \<not> rp_is_file rp path then Err (UrdfMissing path) else Ok path)"

definition load_urdf :: "repository \<Rightarrow> string \<Rightarrow> (urdf_robot, urdf_error) result" where
  "load_urdf rp path = map_err (\<lambda>e. UrdfRead path [Txt e]) (rp_read_urdf rp path)"

section \<open>Construction\<close>

definition drive_loss_default :: drive_loss_state where
  "drive_loss_default =
     \<lparr>ds_plans = [], ds_episode = None, ds_outcome = None, ds_pending_end = None, ds_shed = [],
      ds_lost_address = None, ds_shed_at = None\<rparr>"

definition fresh_supervisor ::
    "robot_section \<Rightarrow> motor_entry list \<Rightarrow> control_section \<Rightarrow> homing_section \<Rightarrow> (string \<times> joint_limit_policy) list \<Rightarrow>
     installed_model_stamp \<Rightarrow> 'b \<Rightarrow> host_clock \<Rightarrow> 'b supervisor" where
  "fresh_supervisor robot motors control homing limits model bus clock =
     \<lparr>sv_control_mode = CtlDisabled, sv_control = control, sv_limits = limits, sv_last_tau_ff = [],
      sv_wrong_sign_state = [], sv_mode = ModeDisabled, sv_hardware_estop = False,
      sv_fault_authority = fault_authority_default, sv_robot = robot, sv_installed_model = model,
      sv_motors = motors, sv_homing_config = homing, sv_out_of_limits = [],
      sv_reference_authority = authority_default, sv_backend = None, sv_physical = devices_default,
      sv_acquisition_busy = False, sv_commit_pending = False, sv_commits_busy = False,
      sv_commits_unfinished = False, sv_stop_motors = motors,
      sv_motor_addresses = map motor_address_of motors,
      sv_motor_types = fold (\<lambda>m. AList.update (motor_address_of m) (me_motor_type m)) motors [],
      sv_bus = bus, sv_clock = clock, sv_motor_states = [], sv_active_since = None, sv_enable_echo_pending = [],
      sv_enable_writes_pending = [], sv_enable_write_due = None, sv_reporting_off_since = None,
      sv_reporting_off_echoed = [], sv_session_pacer = \<lparr>bp_last_group = []\<rparr>, sv_set_zero_on_wire = [],
      sv_invalid_feedback = [],
      sv_total_torque_clamps = \<lparr>tl_counts = [], tl_last_warn = None, tl_unlogged = 0\<rparr>,
      sv_envelope_clamps = [], sv_feedback_velocity_trips = [], sv_last_feedback_samples = [], sv_last_tick = None,
      sv_active_reporting = active_reporting_default, sv_last_feedback_rx = [], sv_drive_frames = [],
      sv_last_drive_reboot = None, sv_last_refresh_frames = 0, sv_active_joints = [], sv_unanswered_solicits = [],
      sv_drive_loss = drive_loss_default, sv_exit_reporting_released = False\<rparr>"

definition build_unsynced ::
    "repository \<Rightarrow> 'b \<Rightarrow> host_clock \<Rightarrow> ('b supervisor \<times> string, davout_error) result" where
  "build_unsynced rp bus clock =
     rbind (map_err DavConfig (load_robot_config_from rp)) (\<lambda>robot.
     rbind (map_err DavConfig (load_motors_config_from rp)) (\<lambda>motors.
     rbind (map_err DavConfig (load_control_config_from rp)) (\<lambda>control.
     rbind (case joint_subset_from_env (rp_joint_subset rp) of
         Some wanted \<Rightarrow> map_err DavConfig (apply_joint_subset wanted robot motors control)
       | None \<Rightarrow> Ok (robot, motors, control)) (\<lambda>(robot, motors, control).
     rbind (map_err DavConfig (load_homing_config_from rp)) (\<lambda>homing.
     rbind (map_err DavConfig (validate_safety_config robot motors control homing)) (\<lambda>_.
     let record_path = rp_join rp (hs_calibration_record_path homing) in
     rbind (map_err DavConfig (resolve_urdf_path rp robot)) (\<lambda>path.
     rbind (map_err DavUrdf (load_urdf rp path)) (\<lambda>urdf.
     rbind (map_err DavConfig (validate_control_against_limits robot motors control)) (\<lambda>_.
     rbind (build_limits robot motors control urdf) (\<lambda>limits.
     rbind (at_generation 1 (rp_descriptor rp) robot urdf (rp_robot_bytes rp) (rp_urdf_bytes rp)) (\<lambda>model.
       Ok (fresh_supervisor robot motors control homing limits model bus clock, record_path))))))))))))"

definition from_config_dir_inner ::
    "'b platform \<Rightarrow> repository \<Rightarrow> 'b \<Rightarrow> host_clock \<Rightarrow> ('b supervisor, davout_error) result" where
  "from_config_dir_inner pf rp bus clock =
     rbind (build_unsynced rp bus clock) (\<lambda>(s, _). Ok (sync_active_reporting pf s))"

text \<open>How far a drive can move between two reports, and how coarse a report is, at the joint.\<close>

definition continuity_of :: "motor_entry \<Rightarrow> (motor_address \<times> continuity_bounds, davout_error) result" where
  "continuity_of motor =
     rbind (motor_position_scale motor) (\<lambda>scale.
     let gear = fabs scale; ranges = for_motor_type (me_motor_type motor) in
       Ok (motor_address_of motor,
           \<lparr>kb_max_rate_rad_s = f64_div (f64_from_f32 (velocity_scale ranges)) gear,
            kb_quantization_rad = f64_div (f64_mul (f64_lit 2) (feedback_position_step ranges)) gear\<rparr>))"

fun continuity_all :: "motor_entry list \<Rightarrow> ((motor_address \<times> continuity_bounds) list, davout_error) result" where
  "continuity_all [] = Ok []"
| "continuity_all (m # ms) = rbind (continuity_of m) (\<lambda>b. rbind (continuity_all ms) (\<lambda>bs. Ok (b # bs)))"

definition install_physical ::
    "arc \<Rightarrow> (motor_address \<times> continuity_bounds) list \<Rightarrow> 'b supervisor \<Rightarrow> 'b supervisor" where
  "install_physical realm installed s =
     (let (_, s) = read_clock s in
      s\<lparr>sv_backend := Some (PhysicalBackend realm), sv_physical := new_devices installed\<rparr>)"

definition from_repo_physical_inner ::
    "'b platform \<Rightarrow> repository \<Rightarrow> 'b \<Rightarrow> host_clock \<Rightarrow> ('b supervisor, davout_error) result" where
  "from_repo_physical_inner pf rp bus clock =
     (if \<not> bus_echoes (pf_bus pf) bus then
        Err (DavHoming [Txt (''physical reference owner needs a transport that echoes its own transmissions '' @
          ''(post-SetZero quiet and Off-before-Enable are ordered by those echoes)'')])
      else
        rbind (build_unsynced rp bus clock) (\<lambda>(owner, rec).
        rbind (map_err (\<lambda>e. DavHoming [Txt e]) (rp_history_path_distinct rp rec)) (\<lambda>_.
        rbind (map_err (\<lambda>e. DavHoming [Txt e]) (rp_journal_started rp)) (\<lambda>_.
        rbind (continuity_all (sv_stop_motors owner)) (\<lambda>installed.
          Ok (sync_active_reporting pf (install_physical (rp_realm rp) installed owner)))))))"

text \<open>A supervisor as either factory of the process leaves it.\<close>

inductive built :: "'b platform \<Rightarrow> 'b supervisor \<Rightarrow> bool" for pf :: "'b platform" where
  built_plain: "from_config_dir_inner pf rp bus clock = Ok s \<Longrightarrow> built pf s"
| built_physical: "from_repo_physical_inner pf rp bus clock = Ok s \<Longrightarrow> built pf s"

section \<open>What construction gives\<close>

lemma build_unsynced_Ok:
  assumes "build_unsynced rp bus clock = Ok (s, rec)"
  obtains robot motors control homing urdf limits model where
    "validate_safety_config robot motors control homing = Ok ()" "build_limits robot motors control urdf = Ok limits"
    "s = fresh_supervisor robot motors control homing limits model bus clock"
  using assms unfolding build_unsynced_def Let_def
  by (auto simp: rbind_Ok_iff map_err_Ok)

lemma accepted_addresses:
  assumes "validate_safety_config robot motors control homing = Ok ()"
  shows "distinct (map motor_address_of motors)"
proof -
  have "validate_motors_config motors = Ok ()"
    using assms by (auto simp: validate_safety_config_def validate_control_against_limits_def
        validate_motors_against_robot_def rbind_Ok_iff)
  then have "distinct (map (\<lambda>m. (me_can_interface m, me_device_id m)) motors)"
    by (simp add: validate_motors_config_Ok)
  then show ?thesis by (auto simp: distinct_map inj_on_def motor_address_of_def motor_address_new_def)
qed

lemma continuity_all_keys: "continuity_all ms = Ok bs \<Longrightarrow> map fst bs = map motor_address_of ms"
  by (induction ms arbitrary: bs) (auto simp: rbind_Ok_iff continuity_of_def Let_def)

lemma core_install:
  "core (install_physical realm installed s) = core (s\<lparr>sv_backend := Some (PhysicalBackend realm)\<rparr>)"
  by (simp add: install_physical_def read_clock_eq core_def)

text \<open>A supervisor as its factory leaves it on a real bus.\<close>

definition started :: "'b supervisor \<Rightarrow> bool" where
  "started s \<longleftrightarrow>
     no_simulator s \<and> distinct (map motor_address_of (sv_motors s)) \<and> sv_stop_motors s = sv_motors s \<and>
     sv_mode s = ModeDisabled \<and> \<not> sv_hardware_estop s \<and> \<not> has_latched_fault s \<and>
     ds_shed (sv_drive_loss s) = [] \<and> ds_episode (sv_drive_loss s) = None \<and>
     sv_enable_writes_pending s = [] \<and> sv_active_joints s = [] \<and> \<not> sv_exit_reporting_released s"

lemma started_core: "core s = core t \<Longrightarrow> started s = started t"
  using core_D [of s t] by (simp add: started_def no_simulator_def)

lemma robot_kept [simp]:
  "sv_robot (sync_active_reporting pf s) = sv_robot s" "sv_robot (install_physical realm installed s) = sv_robot s"
  "sv_reference_authority (sync_active_reporting pf s) = sv_reference_authority s"
  "sv_reference_authority (install_physical realm installed s) = sv_reference_authority s"
  by (simp_all add: sync_active_reporting_def install_physical_def read_clock_eq observe_reference_commits_def split_beta Let_def)

lemma built_from:
  assumes "built pf s"
  obtains robot motors control homing urdf limits model bus clock backend where
    "validate_safety_config robot motors control homing = Ok ()" "build_limits robot motors control urdf = Ok limits"
    "core s = core (fresh_supervisor robot motors control homing limits model bus clock\<lparr>sv_backend := backend\<rparr>)"
    "no_simulator s" "sv_robot s = robot" "sv_reference_authority s = authority_default"
  using assms
proof cases
  case (built_plain rp bus clock)
  then obtain u rec where u: "build_unsynced rp bus clock = Ok (u, rec)" "s = sync_active_reporting pf u"
    by (auto simp: from_config_dir_inner_def rbind_Ok_iff)
  then show ?thesis
    by (elim build_unsynced_Ok) (rule that [where backend = None], auto simp: fresh_supervisor_def no_simulator_def core_D(3) [OF core_sync])
next
  case (built_physical rp bus clock)
  then obtain u rec installed where u: "build_unsynced rp bus clock = Ok (u, rec)"
    "s = sync_active_reporting pf (install_physical (rp_realm rp) installed u)"
    by (auto simp: from_repo_physical_inner_def rbind_Ok_iff split: if_splits)
  then show ?thesis
    by (elim build_unsynced_Ok) (rule that [where backend = "Some (PhysicalBackend (rp_realm rp))"],
      auto simp: core_install no_simulator_def core_D(3) [OF core_sync] core_D(3) [OF core_install] fresh_supervisor_def)
qed

lemma built_started:
  assumes "built pf s"
  shows "started s"
  using assms
proof (rule built_from)
  fix robot motors control homing limits model bus clock backend urdf
  assume v: "validate_safety_config robot motors control homing = Ok ()" and n: "no_simulator s"
    and c: "core s = core (fresh_supervisor robot motors control homing limits model bus clock\<lparr>sv_backend := backend\<rparr>)"
  show ?thesis
    using accepted_addresses [OF v] n core_D [OF c]
    by (simp add: started_def fresh_supervisor_def drive_loss_default_def has_latched_fault_def fa_is_latched_def
        fault_authority_default_def)
qed

lemma built_policy:
  assumes "built pf s"
  obtains hs urdf where "validate_safety_config (sv_robot s) (sv_motors s) (sv_control s) hs = Ok ()"
    "build_limits (sv_robot s) (sv_motors s) (sv_control s) urdf = Ok (sv_limits s)"
  using assms
proof (rule built_from)
  fix robot motors control homing limits model bus clock backend urdf
  assume v: "validate_safety_config robot motors control homing = Ok ()" "build_limits robot motors control urdf = Ok limits"
    and c: "core s = core (fresh_supervisor robot motors control homing limits model bus clock\<lparr>sv_backend := backend\<rparr>)"
    and r: "sv_robot s = robot"
  show thesis
    using that [of homing urdf] v r core_D [OF c] by (simp add: fresh_supervisor_def)
qed

end
