(* ===== verification/Davout_Owner.thy ===== *)
theory Davout_Owner
  imports Davout_Construction Davout_Stops Robstride_Socket
begin

text \<open>
  The supervisor as the process owns it: built by its factory on the bus the binaries run on, then called in any
  order. The bus meets the interface the supervisor's proofs rely on; every call keeps the invariant; and the
  properties of whole histories follow, from the configuration files to the frames on the wire.
\<close>

unbundle bit_operations_syntax

section \<open>Frames by drive\<close>

text \<open>The low byte of a host frame's identifier is the drive it is for.\<close>

definition frame_device :: "can_frame \<Rightarrow> u8" where
  "frame_device fr = ucast (cf_id fr AND 0xFF)"

definition disable_frame :: "u8 \<Rightarrow> can_frame" where
  "disable_frame d = tx_frame (encode_default_disable d)"

text \<open>What is written between two states of the wires: to a drive of \<open>A\<close> only Disables.\<close>

definition only_disables ::
    "motor_address set \<Rightarrow> (string \<Rightarrow> can_frame list) \<Rightarrow> (string \<Rightarrow> can_frame list) \<Rightarrow> bool" where
  "only_disables A w w' \<longleftrightarrow>
     (\<forall>i. \<exists>new. w' i = w i @ new \<and>
        (\<forall>fr\<in>set new. \<lparr>addr_interface = i, addr_device_id = frame_device fr\<rparr> \<in> A \<longrightarrow>
           fr = disable_frame (frame_device fr)))"

lemma only_disables_refl: "only_disables A w w"
  by (simp add: only_disables_def)

lemma only_disables_trans: "only_disables A w w' \<Longrightarrow> only_disables A w' w'' \<Longrightarrow> only_disables A w w''"
  unfolding only_disables_def
proof
  fix i
  assume a: "\<forall>i. \<exists>new. w' i = w i @ new \<and> (\<forall>fr\<in>set new. \<lparr>addr_interface = i, addr_device_id = frame_device fr\<rparr> \<in> A \<longrightarrow>
      fr = disable_frame (frame_device fr))"
    and b: "\<forall>i. \<exists>new. w'' i = w' i @ new \<and> (\<forall>fr\<in>set new. \<lparr>addr_interface = i, addr_device_id = frame_device fr\<rparr> \<in> A \<longrightarrow>
      fr = disable_frame (frame_device fr))"
  from a obtain n where n: "w' i = w i @ n" "\<forall>fr\<in>set n. \<lparr>addr_interface = i, addr_device_id = frame_device fr\<rparr> \<in> A \<longrightarrow>
      fr = disable_frame (frame_device fr)" by blast
  from b obtain m where m: "w'' i = w' i @ m" "\<forall>fr\<in>set m. \<lparr>addr_interface = i, addr_device_id = frame_device fr\<rparr> \<in> A \<longrightarrow>
      fr = disable_frame (frame_device fr)" by blast
  show "\<exists>new. w'' i = w i @ new \<and> (\<forall>fr\<in>set new. \<lparr>addr_interface = i, addr_device_id = frame_device fr\<rparr> \<in> A \<longrightarrow>
      fr = disable_frame (frame_device fr))"
    using n m by (intro exI [of _ "n @ m"]) auto
qed

lemma only_disables_mono: "B \<subseteq> A \<Longrightarrow> only_disables A w w' \<Longrightarrow> only_disables B w w'"
  unfolding only_disables_def by (meson subsetD)

lemma only_disables_one:
  assumes "\<lparr>addr_interface = i, addr_device_id = frame_device fr\<rparr> \<in> A \<Longrightarrow> fr = disable_frame (frame_device fr)"
  shows "only_disables A w (w(i := w i @ [fr]))"
  using assms by (auto simp: only_disables_def)

lemma frame_device_pack: "frame_device (tx_frame (pack_typed_ext_id ct extra d, data)) = d"
  by (simp add: frame_device_def tx_frame_def pack_typed_ext_id_def pack_device)

text \<open>A bus that delivers a frame to the interface of its address, and receives without writing.\<close>

locale addressed_bus =
  fixes pf :: "'b platform" and wires :: "'b \<Rightarrow> string \<Rightarrow> can_frame list"
  assumes send_wires: "wires (snd (bus_send_frame_to (pf_bus pf) a (tx_frame p) b)) =
      (if is_ok (fst (bus_send_frame_to (pf_bus pf) a (tx_frame p) b))
       then (wires b)(addr_interface a := wires b (addr_interface a) @ [tx_frame p]) else wires b)"
    and send_error: "fst (bus_send_frame_to (pf_bus pf) a (tx_frame p) b) = Inl e \<Longrightarrow> e \<noteq> RecvTimeout"
    and recv_wires: "wires (snd (bus_recv_one (pf_bus pf) t b)) = wires b"
    and begin_wires: "wires (bus_begin_receive (pf_bus pf) b) = wires b"
begin

lemma send_only:
  assumes "frame_device (tx_frame p) = addr_device_id a" and "a \<in> A \<Longrightarrow> tx_frame p = disable_frame (addr_device_id a)"
  shows "only_disables A (wires b) (wires (snd (send_encoded_frame_to (pf_bus pf) a p b)))"
  unfolding send_encoded_tx_frame send_wires
  using assms only_disables_one [of "addr_interface a" "tx_frame p" A "wires b"]
  by (cases a) (simp add: only_disables_refl)

lemma send_batch_only:
  assumes "\<forall>c\<in>set cmds. amc_address c \<notin> A \<and> cmd_device_id (amc_command c) = addr_device_id (amc_address c)"
  shows "only_disables A (wires b) (wires (snd (send_batch (pf_bus pf) cmds b)))"
  using assms
proof (induction cmds arbitrary: b)
  case (Cons c cmds)
  show ?case
  proof (cases "encode_mit (amc_command c)")
    case (Inr p)
    obtain i d where p: "p = (i, d)" by fastforce
    have "frame_device (tx_frame p) = addr_device_id (amc_address c)"
      using encode_mit_Ok(3) [OF Inr [unfolded p]] Cons.prems by (simp add: p frame_device_pack)
    then have one: "only_disables A (wires b) (wires (snd (send_encoded_frame_to (pf_bus pf) (amc_address c) p b)))"
      using Cons.prems by (intro send_only) auto
    obtain r b' where s: "send_encoded_frame_to (pf_bus pf) (amc_address c) p b = (r, b')" by fastforce
    show ?thesis
      using Inr s one only_disables_trans [OF _ Cons.IH [of b']] Cons.prems by (cases r) simp_all
  qed (simp add: only_disables_refl)
qed (simp add: only_disables_refl)

lemma reads_wires: "wires (snd (bus_reads (pf_bus pf) ts b)) = wires b"
  by (induction ts arbitrary: b) (simp_all add: split_beta recv_wires)

lemma drain_wires: "wires (snd (drain (pf_bus pf) clk budget quiet limits b)) = wires b"
proof (cases "0 < bus_source_count (pf_bus pf) b \<and> (budget = 0 \<or> time_checked_add (clk 0) budget \<noteq> None)")
  case True
  then have "drain_post (pf_bus pf) (min (lim_max_frames limits) MAX_RX_FRAMES_PER_POLL)
    (min (lim_max_attempts limits) MAX_RX_ATTEMPTS_PER_POLL) (bus_source_count (pf_bus pf) b)
    (bus_begin_receive (pf_bus pf) b) (drain (pf_bus pf) clk budget quiet limits b)"
    by (intro drain_started) auto
  then obtain ts rs where
    "bus_reads (pf_bus pf) ts (bus_begin_receive (pf_bus pf) b) = (rs, snd (drain (pf_bus pf) clk budget quiet limits b))"
    unfolding drain_post_def by blast
  then show ?thesis
    using reads_wires [of ts "bus_begin_receive (pf_bus pf) b"] begin_wires by simp
qed (auto simp: drain_def Let_def split: option.splits)

end

lemma validate_batch_devices:
  assumes "validate_batch ops b prior cmds = Inr u" and "c \<in> set cmds"
  shows "cmd_device_id (amc_command c) = addr_device_id (amc_address c)"
  using assms
  by (induction cmds arbitrary: prior) (auto simp: rbind_Ok_iff split: sum.splits if_splits)

lemma encoder_devices:
  "frame_device (tx_frame (encode_default_enable d)) = d"
  "frame_device (tx_frame (encode_default_disable d)) = d"
  "frame_device (tx_frame (encode_default_get_device_id d)) = d"
  "frame_device (tx_frame (encode_default_active_reporting d on)) = d"
  "frame_device (tx_frame (encode_parameter_bytes h d p v)) = d"
  by (simp_all add: encoder_defs encode_parameter_bytes_def frame_device_pack)

sublocale addressed_bus \<subseteq> supervised_drives pf "\<lambda>A b b'. only_disables A (wires b) (wires b')"
proof
  fix A B b b' b'' a x cmds mode clk mt budget quiet e
  show "only_disables A (wires b) (wires b)" by (rule only_disables_refl)
  show "only_disables A (wires b) (wires b') \<Longrightarrow> only_disables A (wires b') (wires b'') \<Longrightarrow> only_disables A (wires b) (wires b'')"
    by (rule only_disables_trans)
  show "B \<subseteq> A \<Longrightarrow> only_disables A (wires b) (wires b') \<Longrightarrow> only_disables B (wires b) (wires b')"
    by (rule only_disables_mono)
  show "only_disables A (wires b) (wires (snd (disable_drive_at (pf_bus pf) a b)))"
    unfolding disable_drive_at_def by (rule send_only) (simp_all add: encoder_devices disable_frame_def)
  show "fst (disable_drive_at (pf_bus pf) a b) = Inl e \<Longrightarrow> e \<noteq> RecvTimeout"
    unfolding disable_drive_at_def send_encoded_tx_frame by (rule send_error)
  show "only_disables A (wires b) (wires (snd (recv_feedback_report (pf_bus pf) clk mt budget quiet b)))"
    by (simp add: recv_feedback_report_def recv_feedback_report_with_limits_def split_beta Let_def drain_wires only_disables_refl)
  show "only_disables A (wires b) (wires (snd (mit_control_all_at (pf_bus pf) cmds b)))"
    if "\<forall>c\<in>set cmds. amc_address c \<notin> A"
  proof (cases "validate_batch (pf_bus pf) b [] cmds")
    case (Inr u)
    then show ?thesis
      using send_batch_only [of cmds A b] validate_batch_devices [OF Inr] that by (simp add: mit_control_all_at_def)
  qed (simp add: mit_control_all_at_def only_disables_refl)
  assume a: "a \<notin> A"
  show "only_disables A (wires b) (wires (snd (speed_control_at (pf_bus pf) a x b)))"
  proof (cases "encode_speed_ref (addr_device_id a) x")
    case (Inr p)
    then have "frame_device (tx_frame p) = addr_device_id a"
      using encode_write_parameter_OkD(1) [of DEFAULT_HOST_ID "addr_device_id a" SpeedTarget "ValF32 x" p]
      by (simp add: encode_speed_ref_def encoder_devices)
    then show ?thesis using Inr send_only [of p a A b] a by (simp add: speed_control_at_def)
  qed (simp add: speed_control_at_def only_disables_refl)
  show "only_disables A (wires b) (wires (snd (enable_drive_at (pf_bus pf) a b)))"
    unfolding enable_drive_at_def using a by (intro send_only) (simp_all add: encoder_devices)
  show "only_disables A (wires b) (wires (snd (set_run_mode_at (pf_bus pf) a mode b)))"
    unfolding set_run_mode_at_def encode_set_run_mode_def using a by (intro send_only) (simp_all add: encoder_devices)
  show "only_disables A (wires b) (wires (snd (get_device_id_at (pf_bus pf) a b)))"
    unfolding get_device_id_at_def using a by (intro send_only) (simp_all add: encoder_devices)
  show "only_disables A (wires b) (wires (snd (enable_active_reporting_at (pf_bus pf) a b)))"
    unfolding enable_active_reporting_at_def using a by (intro send_only) (simp_all add: encoder_devices)
  show "only_disables A (wires b) (wires (snd (disable_active_reporting_at (pf_bus pf) a b)))"
    unfolding disable_active_reporting_at_def using a by (intro send_only) (simp_all add: encoder_devices)
qed

section \<open>The wires of the process's bus\<close>

definition runtime_wires :: "runtime_bus \<Rightarrow> string \<Rightarrow> can_frame list" where
  "runtime_wires b i =
     (case b of
        RuntimeSocket sk \<Rightarrow> if i = sk_interface sk then sk_wire sk else []
      | RuntimeRouter r \<Rightarrow> (case map_of (ro_sockets r) i of Some sk \<Rightarrow> sk_wire sk | None \<Rightarrow> []))"

lemma socket_keeps_interface [simp]:
  "sk_interface (snd (socket_send_frame fr sk)) = sk_interface sk"
  "sk_interface (snd (socket_recv_one t sk)) = sk_interface sk"
  by (simp_all add: socket_send_frame_def socket_write_def socket_recv_one_def socket_recv_datagram_def Let_def split_beta
      split: sum.split write_outcome.split read_outcome.split option.split)

lemma socket_send_wire:
  "sk_wire (snd (socket_send_frame (tx_frame p) sk)) =
     (if is_ok (fst (socket_send_frame (tx_frame p) sk)) then sk_wire sk @ [tx_frame p] else sk_wire sk)"
  using socket_send_tx_frame [of p sk]
  by (cases "socket_send_frame (tx_frame p) sk"; cases "fst (socket_send_frame (tx_frame p) sk)") auto

lemma socket_send_error: "fst (socket_send_frame fr sk) = Inl e \<Longrightarrow> e \<noteq> RecvTimeout"
  by (auto simp: socket_send_frame_def validate_can_tx_def socket_frame_def Let_def
      split: sum.splits prod.splits write_outcome.splits if_splits)


interpretation runtime_drives: addressed_bus "pf\<lparr>pf_bus := runtime_ops\<rparr>" runtime_wires
  for pf :: "runtime_bus platform"
proof
  fix a :: motor_address and p and b :: runtime_bus and e t
  have ops: "pf_bus (pf\<lparr>pf_bus := runtime_ops\<rparr>) = runtime_ops" "bus_send_frame_to runtime_ops = runtime_send_frame_to"
    "bus_recv_one runtime_ops = runtime_recv_one" "bus_begin_receive runtime_ops = runtime_begin_receive"
    by (simp_all add: runtime_ops_def)
  show "runtime_wires (snd (bus_send_frame_to (pf_bus (pf\<lparr>pf_bus := runtime_ops\<rparr>)) a (tx_frame p) b)) =
      (if is_ok (fst (bus_send_frame_to (pf_bus (pf\<lparr>pf_bus := runtime_ops\<rparr>)) a (tx_frame p) b))
       then (runtime_wires b)(addr_interface a := runtime_wires b (addr_interface a) @ [tx_frame p]) else runtime_wires b)"
  proof (cases b)
    case (RuntimeSocket sk)
    then show ?thesis
      by (cases "socket_validate_address a sk")
        (auto simp: ops runtime_send_frame_to_def socket_send_frame_to_def runtime_wires_def fun_eq_iff socket_send_wire
          socket_validate_address_def split: if_splits)
  next
    case (RuntimeRouter r)
    show ?thesis
    proof (cases rule: router_send_cases [of a "tx_frame p" r])
      case (unknown e)
      then show ?thesis using RuntimeRouter by (simp add: ops runtime_send_frame_to_def)
    next
      case (socket sk res sk')
      then show ?thesis
        using RuntimeRouter socket_send_wire [of p sk]
        by (auto simp: ops runtime_send_frame_to_def runtime_wires_def fun_eq_iff update_conv')
    qed
  qed
  show "fst (bus_send_frame_to (pf_bus (pf\<lparr>pf_bus := runtime_ops\<rparr>)) a (tx_frame p) b) = Inl e \<Longrightarrow> e \<noteq> RecvTimeout"
    using socket_send_error
    by (cases b) (auto simp: ops runtime_send_frame_to_def socket_send_frame_to_def socket_validate_address_def
        router_send_frame_to_def Let_def split_beta split: if_splits option.splits)
  show "runtime_wires (snd (bus_recv_one (pf_bus (pf\<lparr>pf_bus := runtime_ops\<rparr>)) t b)) = runtime_wires b"
    by (cases b) (auto simp: ops runtime_recv_one_def runtime_wires_def fun_eq_iff router_recv_one_def Let_def split_beta
        update_conv' split: option.splits)
  show "runtime_wires (bus_begin_receive (pf_bus (pf\<lparr>pf_bus := runtime_ops\<rparr>)) b) = runtime_wires b"
    by (cases b) (simp_all add: ops runtime_begin_receive_def runtime_wires_def fun_eq_iff router_begin_receive_def socket_ops_def)
qed

section \<open>Every call of the owner\<close>

text \<open>One call of the \<open>Supervisor\<close> interface by the process that owns it.\<close>

inductive supervisor_call :: "'b platform \<Rightarrow> 'b supervisor \<Rightarrow> 'b supervisor \<Rightarrow> bool" for pf :: "'b platform" where
  call_estop: "supervisor_call pf s (set_hardware_estop pf asserted s)"
| call_control_fault: "supervisor_call pf s (latch_control_fault pf message joint s)"
| call_disable: "supervisor_call pf s (snd (disable_all pf s))"
| call_lower: "supervisor_call pf s (snd (complete_degraded_lower pf s))"
| call_deadline: "supervisor_call pf s (snd (enforce_degraded_deadline pf s))"
| call_control_mode: "supervisor_call pf s (set_control_mode pf mode s)"
| call_solicit: "supervisor_call pf s (solicit_status_feedback pf s)"
| call_sync: "supervisor_call pf s (sync_active_reporting pf s)"
| call_acquire: "supervisor_call pf s (snd (acquire_active_reporting_lease pf debug joint client lease ttl s))"
| call_renew: "supervisor_call pf s (snd (renew_active_reporting_lease pf debug joint client lease ttl s))"
| call_release: "supervisor_call pf s (snd (release_active_reporting_lease pf debug joint lease s))"
| call_exit: "release_reporting_for_exit pf deadline s = Some (drives, s') \<Longrightarrow> supervisor_call pf s s'"
| call_plans: "supervisor_call pf s (snd (install_drive_loss_plans plans s))"
| call_check: "supervisor_call pf s (snd (check_active_references pf s))"
| call_homing: "supervisor_call pf s (snd (set_homing_complete pf s))"
| call_enable: "enable_targets pf joints s = Some (r, s') \<Longrightarrow> supervisor_call pf s s'"
| call_tick: "supervisor_call pf s (begin_tick_feedback s)"
| call_drain: "supervisor_call pf s (snd (drain_feedback pf s))"
| call_send_joint: "supervisor_call pf s (snd (send_mit_joint pf cmd motor s))"
| call_send_batch: "supervisor_call pf s (snd (send_mit_batch pf cmds s))"
| call_seed: "supervisor_call pf s (snd (seed_tau_ff_from_measured only_unsent s))"
| call_homing_state: "supervisor_call pf s (snd (joint_homing pf joint s))"
| call_drive_active: "supervisor_call pf s (snd (joint_drive_active pf joint s))"

lemma started_consistent: "started s \<Longrightarrow> consistent s \<and> fail_safe s"
  by (simp add: started_def consistent_def stoppable_def fail_safe_def shed_set_def)

context supervised_drives
begin

lemma call_admissible: "supervisor_call pf s s' \<Longrightarrow> admissible wire s s'"
proof (induction rule: supervisor_call.induct)
  case (call_exit deadline s drives s')
  then show ?case by (intro secure_admissible secure_exit)
next
  case (call_enable joints s r s')
  then show ?case using admissible_enable [of joints s "(r, s')"] by simp
next
  case (call_control_mode s mode)
  show ?case by (rule secure_admissible, rule secure_quiet) simp_all
next
  case (call_plans s plans)
  show ?case by (rule secure_admissible, rule secure_quiet) simp_all
next
  case (call_tick s)
  show ?case by (rule secure_admissible, rule secure_quiet) simp_all
qed (rule secure_admissible, rule secure_estop secure_latch secure_disable secure_lower secure_deadline secure_solicit
    secure_sync secure_acquire secure_renew secure_release secure_check_active secure_homing secure_drain
    secure_send_joint secure_send_batch secure_seed secure_joint_homing secure_drive_active)+

lemma calls_admissible: "(supervisor_call pf)\<^sup>*\<^sup>* s s' \<Longrightarrow> admissible wire s s'"
proof (induction rule: rtranclp_induct)
  case base
  then show ?case by (intro secure_admissible secure_refl)
qed (blast intro: admissible_trans call_admissible)

end

lemma reachable_consistent:
  assumes "built (pf\<lparr>pf_bus := runtime_ops\<rparr>) s0" and "(supervisor_call (pf\<lparr>pf_bus := runtime_ops\<rparr>))\<^sup>*\<^sup>* s0 s"
  shows "consistent s" "fail_safe s" "evolves (\<lambda>A b b'. only_disables A (runtime_wires b) (runtime_wires b')) s0 s"
  using runtime_drives.calls_admissible [OF assms(2)] started_consistent [OF built_started [OF assms(1)]]
  by (auto simp: admissible_def)



section \<open>From the configuration to the wire\<close>

lemma filter_batch_members:
  fixes s :: "'b supervisor"
  assumes "filter_batch None cmds s = (Inr xs, s')" and "x \<in> set xs"
  shows "\<exists>cmd i (t :: 'b supervisor) fq fdq el f. (cmd, i) \<in> set cmds \<and> sv_limits t = sv_limits s \<and> sv_control t = sv_control s \<and>
    filter_mit_core t cmd (sv_motors s ! i) fq fdq el = Ok f \<and> amc_address (fst x) = motor_address_of (sv_motors s ! i) \<and>
    joint_to_motor_command (sv_motors s ! i) (fm_out f) = Ok (amc_command (fst x))"
  using assms
proof (induction cmds arbitrary: s xs)
  case (Cons ci cmds)
  obtain cmd i where ci: "ci = (cmd, i)" by fastforce
  obtain y t ys where f: "filter_one cmd (sv_motors s ! i) i s = (Inr y, t)" "filter_batch None cmds t = (Inr ys, s')" "xs = y # ys"
    using Cons.prems(1) by (auto simp: ci try_in_def unwrap_or_def split: prod.splits sum.splits)
  have t: "sv_motors t = sv_motors s" "sv_limits t = sv_limits s" "sv_control t = sv_control s"
    using f(1) core_batch [of None "[ci]" s] core_D [of t s] by (auto simp: ci unwrap_or_def)
  define u where "u = snd (tick_elapsed (snd (published_state i (snd (published_state i s)))))"
  have u: "t = u" using f(1) by (simp add: filter_one_def u_def split_beta Let_def)
  show ?case
  proof (cases "x = y")
    case True
    then obtain fq fdq el f where "filter_mit_core t cmd (sv_motors s ! i) fq fdq el = Ok f"
      "amc_address (fst x) = motor_address_of (sv_motors s ! i)"
      "joint_to_motor_command (sv_motors s ! i) (fm_out f) = Ok (amc_command (fst x))"
      using f(1) unfolding filter_one_def split_beta Let_def u u_def [symmetric] by (auto simp: rbind_Ok_iff)
    then show ?thesis using t(2,3) ci by (intro exI [of _ cmd] exI [of _ i] exI [of _ t]) auto
  next
    case False
    then have "x \<in> set ys" using Cons.prems(2) f(3) by simp
    from Cons.IH [OF f(2) this] t show ?thesis unfolding ci by (metis list.set_intros(2))
  qed
qed simp

lemma watchdog_Ok: "check_comm_watchdog neutral s = (Inr u, s') \<Longrightarrow> \<not> has_latched_fault s'"
proof -
  assume w: "check_comm_watchdog neutral s = (Inr u, s')"
  then have "core s' = core s" using core_watchdog(1) [of neutral s] by simp
  moreover have "\<not> has_latched_fault s"
    using w fault_clear_iff [of s] by (auto simp: check_comm_watchdog_def try_in_def split: sum.splits)
  ultimately show ?thesis using core_D(12) by blast
qed

lemma prepare_members:
  assumes "prepare_mit_batch pf supplied cmds s = (Inr batch, s')"
  shows "\<exists>xs t. filter_batch supplied cmds s = (Inr xs, t) \<and> fst ` set batch \<subseteq> fst ` set xs" and "\<not> has_latched_fault s'"
proof -
  obtain r t where fb: "filter_batch supplied cmds s = (r, t)" by fastforce
  then obtain xs where r: "r = Inr xs"
    using assms by (cases r) (auto simp: prepare_mit_batch_def reject_batch_def)
  let ?b = "map (\<lambda>(w, st, _). (w, st)) xs" and ?n = "list_all (\<lambda>(_, _, n). n) xs"
  have b: "fst ` set ?b = fst ` set xs" by force
  obtain w u where wd: "check_comm_watchdog ?n t = (w, u)" by fastforce
  have "fst ` set batch \<subseteq> fst ` set ?b \<and> \<not> has_latched_fault s'"
  proof (cases w)
    case (Inr x)
    then show ?thesis using assms fb r wd watchdog_Ok [of ?n t x u] by (simp add: prepare_mit_batch_def Let_def)
  next
    case (Inl e)
    obtain kept where k: "shed_after_stale_pose pf ?b u = (Inr (Some kept), s')" "batch = kept"
      using assms fb r wd Inl
      by (auto simp: prepare_mit_batch_def reject_batch_def try_in_def split: if_splits prod.splits sum.splits option.splits)
    have "set kept \<subseteq> set ?b \<and> \<not> has_latched_fault s'"
      using k(1) watchdog_Ok [of False]
      by (auto simp: shed_after_stale_pose_def try_in_def Let_def split: if_splits prod.splits sum.splits)
    then show ?thesis using k(2) by auto
  qed
  then show "\<exists>xs t. filter_batch supplied cmds s = (Inr xs, t) \<and> fst ` set batch \<subseteq> fst ` set xs" "\<not> has_latched_fault s'"
    using fb r b by auto
qed

text \<open>A wire command for a motor: the encoding of a joint command inside every bound the configuration sets.\<close>

definition command_safe :: "robot_section \<Rightarrow> control_section \<Rightarrow> motor_entry \<Rightarrow> mit_joint_command \<Rightarrow> bool" where
  "command_safe robot cs m out \<longleftrightarrow>
     command_finite out \<and> mj_joint out = me_joint m \<and>
     f64_val (bl_position_lower_rad (me_bench m)) \<le> f64_val (mj_position_rad out) \<and>
     f64_val (mj_position_rad out) \<le> f64_val (bl_position_upper_rad (me_bench m)) \<and>
     (case resolve_joint_velocity_cap (me_joint m) (me_motor_type m) cs of
        Inl _ \<Rightarrow> False | Inr cap \<Rightarrow> \<bar>f64_val (mj_velocity_rad_s out)\<bar> \<le> f64_val cap) \<and>
     \<bar>f64_val (mj_torque_ff_nm out)\<bar> \<le> f64_val (bl_torque_limit_nm (me_bench m)) \<and>
     \<bar>f64_val (mj_torque_ff_nm out)\<bar> \<le> f64_val (rb_max_joint_torque_nm robot)"

definition wire_safe :: "robot_section \<Rightarrow> control_section \<Rightarrow> motor_entry list \<Rightarrow> addressed_mit_command \<Rightarrow> bool" where
  "wire_safe robot cs motors w \<longleftrightarrow>
     (\<exists>m out. m \<in> set motors \<and> amc_address w = motor_address_of m \<and>
        joint_to_motor_command m out = Ok (amc_command w) \<and> command_safe robot cs m out)"

lemma motor_for_joint_distinct:
  assumes "distinct (map me_joint motors)" "m \<in> set motors"
  shows "motor_for_joint motors (me_joint m) = Some m"
  using assms unfolding motor_for_joint_def by (induction motors) auto

lemma batch_safe:
  assumes "validate_safety_config robot motors cs hs = Ok ()" "build_limits robot motors cs urdf = Ok (sv_limits s)"
    and "sv_control s = cs" "sv_motors s = motors"
    and "admit_commands s None [] cmds = Inr is" "core t = core s"
    and "prepare_mit_batch pf None (zip cmds is) t = (Inr batch, s')"
  shows "list_all (wire_safe robot cs motors) (map fst batch)"
proof -
  note ct = core_D [OF assms(6)]
  have dj: "distinct (map me_joint motors)"
    using assms(1) by (auto simp: validate_safety_config_def validate_control_against_limits_def
        validate_motors_against_robot_def rbind_Ok_iff validate_motors_config_Ok)
  obtain js where js: "is = js" "length js = length cmds"
    "\<forall>k<length cmds. js ! k < length motors \<and> me_joint (motors ! (js ! k)) = mj_joint (cmds ! k)"
    using admit_commands_Ok [OF assms(5)] assms(4) by auto
  have "wire_safe robot cs motors w" if w: "w \<in> fst ` set batch" for w
  proof -
    obtain xs x u where x: "filter_batch None (zip cmds is) t = (Inr xs, u)" "x \<in> set xs" "w = fst x"
      using prepare_members(1) [OF assms(7)] w by fastforce
    obtain cmd i fq fdq el f and v :: "'a supervisor" where f: "(cmd, i) \<in> set (zip cmds is)" "sv_limits v = sv_limits t"
      "sv_control v = sv_control t" "filter_mit_core v cmd (sv_motors t ! i) fq fdq el = Ok f"
      "amc_address w = motor_address_of (sv_motors t ! i)"
      "joint_to_motor_command (sv_motors t ! i) (fm_out f) = Ok (amc_command w)"
      using filter_batch_members [OF x(1,2)] unfolding x(3) by blast
    let ?m = "motors ! i"
    have m: "?m \<in> set motors" "me_joint ?m = mj_joint cmd"
      using f(1) js unfolding set_zip by auto
    have "command_safe robot cs ?m (fm_out f)"
      using accepted_config_commands_safe [OF assms(1), of urdf v cmd ?m fq fdq el f] assms(2-4) f m ct
        motor_for_joint_distinct [OF dj m(1)]
      by (auto simp: command_safe_def same_goal_def)
    then show ?thesis using f(5,6) m(1) ct assms(4) unfolding wire_safe_def by auto
  qed
  then show ?thesis by (auto simp: list_all_iff)
qed


section \<open>Witnesses\<close>

definition sample_repository :: repository where
  "sample_repository =
     \<lparr>rp_robot_yaml = Ok sample_robot, rp_motors_yaml = Ok [sample_motor], rp_control_yaml = Ok sample_control,
      rp_homing_yaml = Ok sample_homing, rp_joint_subset = None, rp_join = (\<lambda>p. ''/repo/'' @ p),
      rp_is_file = (\<lambda>_. True), rp_read_urdf = (\<lambda>_. Ok sample_arm), rp_descriptor = 0, rp_robot_bytes = [900],
      rp_urdf_bytes = [4000], rp_history_path_distinct = (\<lambda>_. Ok ()), rp_journal_started = Ok (), rp_realm = 1\<rparr>"

definition sample_fresh :: "runtime_bus supervisor" where
  "sample_fresh =
     fresh_supervisor sample_robot [sample_motor] sample_control sample_homing [(''elbow'', sample_installed)]
       \<lparr>im_generation = 1, im_descriptor = 0, im_robot = sample_robot, im_urdf = sample_arm\<rparr>
       (RuntimeRouter sample_router) \<lparr>hc_now = 0, hc_lags = []\<rparr>"

lemma sample_build:
  "build_unsynced sample_repository (RuntimeRouter sample_router) \<lparr>hc_now = 0, hc_lags = []\<rparr> =
     Ok (sample_fresh, ''/repo/homing.yaml'')"
proof -
  have v: "validate_robot_config sample_robot = Ok ()" "validate_motors_config [sample_motor] = Ok ()"
    "validate_control_config sample_control = Ok ()" "validate_homing_config sample_homing = Ok ()"
    "validate_control_against_limits sample_robot [sample_motor] sample_control = Ok ()"
    using sample_config_ok
    by (auto simp: validate_safety_config_def validate_control_against_limits_def validate_motors_against_robot_def rbind_Ok_iff)
  show ?thesis
    unfolding build_unsynced_def
    by (simp add: sample_repository_def load_robot_config_from_def load_motors_config_from_def load_control_config_from_def
        load_homing_config_from_def resolve_urdf_path_def load_urdf_def joint_subset_from_env_def v sample_config_ok
        sample_limits at_generation_def budget_write_def MODEL_CAPACITY_def map_err_def sample_fresh_def Let_def)
      (simp add: sample_homing_def)
qed

definition sample_platform :: "runtime_bus platform" where
  "sample_platform =
     \<lparr>pf_bus = runtime_ops, pf_bus_text = (\<lambda>_. ''bus''), pf_error_text = (\<lambda>_. ''error''),
      pf_drain_clock = (\<lambda>h. (\<lambda>_. hc_now h, h)), pf_stage_current = (\<lambda>_. True)\<rparr>"

lemma sample_platform_bus: "sample_platform\<lparr>pf_bus := runtime_ops\<rparr> = sample_platform"
  by (simp add: sample_platform_def)

definition sample_owner :: "runtime_bus supervisor" where
  "sample_owner = sync_active_reporting sample_platform sample_fresh"

lemma sample_built: "built sample_platform sample_owner"
  by (rule built_plain [where rp = sample_repository and bus = "RuntimeRouter sample_router" and
      clock = "\<lparr>hc_now = 0, hc_lags = []\<rparr>"])
    (simp add: from_config_dir_inner_def sample_build sample_owner_def)



definition sample_shed :: "runtime_bus supervisor" where
  "sample_shed =
     sample_fresh\<lparr>sv_drive_loss := drive_loss_default\<lparr>ds_shed := [motor_address_of sample_motor], ds_episode := Some
        \<lparr>ep_lost_joint = ''elbow'', ep_shed_joints = [''elbow''], ep_holding_joints = [], ep_frozen_positions = [],
         ep_since = 0, ep_deadline = 5000000000\<rparr>\<rparr>\<rparr>"


text \<open>C9: what either factory returns: a supervisor whose configuration passed every safety check and whose
  limits were built from it, with distinct drive addresses that are all stop targets, Disabled, no fault, no
  E-stop, no shed drive, no episode, no active joint, no Enable outstanding, and no joint with permission to move.\<close>

theorem built_supervisor_inert:
  assumes "built pf s"
  shows "started s \<and> (\<forall>j. \<not> contains (sv_reference_authority s) j) \<and>
    (\<exists>hs urdf. validate_safety_config (sv_robot s) (sv_motors s) (sv_control s) hs = Ok () \<and>
       build_limits (sv_robot s) (sv_motors s) (sv_control s) urdf = Ok (sv_limits s))"
proof -
  have "sv_reference_authority s = authority_default" using assms by (rule built_from)
  then have "\<not> contains (sv_reference_authority s) j" for j by (simp add: contains_def authority_default_def)
  then show ?thesis using built_started [OF assms] built_policy [OF assms] by blast
qed

theorem built_supervisor_inert_witness:
  "started sample_owner \<and> contains (sv_reference_authority sample_owner) ''elbow'' = False"
  using built_supervisor_inert [OF sample_built] by simp

end
