(* ===== verification/Spec2Isabelle.thy ===== *)
theory Spec2Isabelle
  imports Prelude Ieee754 Robstride_Comm Robstride_Frames Robstride_Mit Robstride_Wire
    Robstride_RxTime Robstride_Receive Robstride_Bus Robstride_Socket
    Davout_Faults Davout_Facets Config_Types Config_Validation Config_Limits Davout_Reporting
    Kinematics_Limits Davout_Filter Davout_Reference Davout_Physical Davout_Supervisor Davout_Consumer
    Davout_Session Davout_Motion Davout_Relations Davout_Shedding Davout_Calls
    Davout_Stops Davout_Construction Davout_Owner
begin

text \<open>
  The motor path of the marengo robot stack, from the CAN frame to the command filter.

  \<^bold>\<open>The program.\<close> A robot process (\<open>bins/marengo-pi\<close>) owns a \<open>Supervisor\<close> (\<open>crates/davout\<close>),
  the only gateway to a motor bus (\<open>crates/robstride\<close>). Controllers (\<open>crates/berthier\<close>) give the
  supervisor joint commands; it checks them against limits (\<open>crates/armee-kinematics\<close>) and the
  configuration (\<open>crates/marengo-config\<close>), writes them as RobStride frames, reads the replies, and
  stops every drive when evidence fails. A joint moves only while its reference, the tie between the
  drive's coordinate and the joint, is current.

  \<^bold>\<open>Conventions.\<close> A struct is a record, an enum a datatype, a \<open>Result\<close> the sum type of \<open>Prelude\<close>
  (\<open>Ok\<close>, \<open>Err\<close>, \<open>rbind\<close>), an unsigned integer a word of its width. An \<open>f32\<close> or \<open>f64\<close> is a sign and
  a bit pattern (\<open>Ieee754\<close>) and every arithmetic operation rounds to nearest even. A hash map is an
  association list, an \<open>Instant\<close> an integer of nanoseconds, a \<open>Duration\<close> a natural number of
  nanoseconds, an \<open>Arc\<close> compared by pointer a numbered token. Error text is a list of fragments, so
  that decimal printing of floats is not modelled. A failed assertion of the standard library is an
  error value of its own (\<open>DavPanic\<close>). Log output is not modelled.

  \<^bold>\<open>The bus.\<close> \<open>Robstride_Comm\<close> models \<open>comm.rs\<close>; \<open>Robstride_Frames\<close> models \<open>lifecycle.rs\<close>,
  \<open>identity.rs\<close>, \<open>version.rs\<close>, \<open>params.rs\<close> and \<open>command.rs\<close>; \<open>Robstride_Mit\<close> models \<open>mit.rs\<close>,
  \<open>motor_type.rs\<close> and the status decoding of \<open>feedback.rs\<close>; \<open>Robstride_Wire\<close> models \<open>wire.rs\<close>. They
  show round trips of the encodings, the accuracy of a coded MIT command and which writes are
  refused. \<open>Robstride_RxTime\<close> models \<open>rx_time.rs\<close> (receive times never go backwards).
  \<open>Robstride_Receive\<close> models the drain loop of \<open>receive.rs\<close> over any bus and any clock: it ends within
  its limits and its report holds exactly the frames read. \<open>Robstride_Bus\<close> models the operations and
  the evidence projection of \<open>bus.rs\<close>; \<open>Robstride_Socket\<close> the echo ledger, the SocketCAN socket, the
  router and the runtime dispatch, where the kernel's answers are arbitrary. The locales
  \<open>can_transport\<close> and \<open>bus_invariant\<close> state what an operation relies on of a bus and are interpreted on
  the in-memory bus, the socket, the router and the runtime bus.

  \<^bold>\<open>Configuration and limits.\<close> \<open>Config_Types\<close> and \<open>Config_Validation\<close> model the records of
  \<open>marengo-config/src/lib.rs\<close> and \<open>safety_validation.rs\<close>; \<open>Config_Limits\<close> models \<open>limit_patch.rs\<close>,
  \<open>bench_joints.rs\<close> and \<open>commissioning_scope.rs\<close>; \<open>Kinematics_Limits\<close> models \<open>limits.rs\<close>, \<open>lib.rs\<close>
  and \<open>expand.rs\<close> of \<open>armee-kinematics\<close>. They show what an accepted configuration guarantees and that
  narrowing and patching keep it.

  \<^bold>\<open>The supervisor's parts.\<close> \<open>Davout_Faults\<close> models \<open>faults.rs\<close> (a latched fault is never cleared and
  all evidence is bounded), \<open>Davout_Facets\<close> models \<open>homing_facets.rs\<close>, \<open>Davout_Reporting\<close> models
  \<open>active_reporting.rs\<close> and \<open>burst.rs\<close> (leases, paced writes, spaced groups), \<open>Davout_Filter\<close> the
  command filter of \<open>lib.rs\<close> and \<open>total_torque.rs\<close> (a command of an accepted configuration that passes
  is inside every limit, and the filter never panics), \<open>Davout_Reference\<close> models \<open>reference.rs\<close> and the
  stamps of \<open>reference_model.rs\<close>, \<open>Davout_Physical\<close> models \<open>reference_physical.rs\<close> (coordinate epochs and
  liveness of the drives).

  \<^bold>\<open>Bounds and fuel.\<close> No definition uses fuel. The drain loop is bounded by the frame and attempt limits
  of the code; every other loop is over a list of the state.

  \<^bold>\<open>Not modelled.\<close> The supervisor's session (enable, stop, watchdog, drive loss), the feedback consumer,
  reference acquisition and its journal (a worker thread on a file system), the controllers of
  \<open>berthier\<close>, the gravity model (third-party linear algebra), the simulation bus, and the services and
  tools around the robot process (messaging, gateway, store, deployment, console), which are input and
  output outside the motor path.
\<close>

end
